(* ===== verification/Go_Prelude.thy ===== *)
theory Go_Prelude
  imports Complex_Main "HOL-Library.Word" "HOL-Library.AList" "HOL-Library.Char_ord"
    "HOL-Library.List_Lexorder" "HOL-Library.Multiset"
    "HOL-Library.Signed_Division"
begin

text \<open>
  The part of Go and of its standard library that the gateway's packages share.

  \<^item> A Go \<^verbatim>\<open>string\<close> is a list of bytes and is modelled by \<^typ>\<open>string\<close>. The
    functions of package \<^verbatim>\<open>strings\<close> keep their Go names. Case mapping and white space
    are those of the ASCII range; bytes from 128 up are left alone.
  \<^item> A Go \<^verbatim>\<open>map[K]V\<close> is an association list with distinct keys. The order of the list
    is the order in which one \<^verbatim>\<open>range\<close> over the map visits it, which Go leaves open, so a
    statement about every list of a map's entries is a statement about every iteration order.
  \<^item> A Go \<^verbatim>\<open>int\<close> is 64 bits wide; \<^verbatim>\<open>wrap64\<close> is two's complement wrap-around over
    \<^typ>\<open>int\<close>.
  \<^item> \<^verbatim>\<open>slices.SortStableFunc\<close> is stable insertion sort by the sign of a comparator; the
    locale \<^verbatim>\<open>comparator\<close> has the facts that hold for every comparator that orders the
    elements it is given.
  \<^item> An interface value (\<^verbatim>\<open>any\<close>) that holds decoded YAML or JSON is a value of the
    datatype \<^verbatim>\<open>any\<close>.
\<close>

named_theorems go_strings \<open>characterisations of the functions of package strings\<close>

section \<open>Strings\<close>

definition HasPrefix :: "string \<Rightarrow> string \<Rightarrow> bool" where
  "HasPrefix s p \<longleftrightarrow> length p \<le> length s \<and> take (length p) s = p"

definition HasSuffix :: "string \<Rightarrow> string \<Rightarrow> bool" where
  "HasSuffix s p \<longleftrightarrow> length p \<le> length s \<and> drop (length s - length p) s = p"

definition TrimPrefix :: "string \<Rightarrow> string \<Rightarrow> string" where
  "TrimPrefix s p = (if HasPrefix s p then drop (length p) s else s)"

definition TrimSuffix :: "string \<Rightarrow> string \<Rightarrow> string" where
  "TrimSuffix s p = (if HasSuffix s p then take (length s - length p) s else s)"

definition isSpace :: "char \<Rightarrow> bool" where
  "isSpace c \<longleftrightarrow> c \<in> set [CHR '' '', CHR 0x09, CHR 0x0A, CHR 0x0B, CHR 0x0C, CHR 0x0D]"

definition TrimRightFunc :: "(char \<Rightarrow> bool) \<Rightarrow> string \<Rightarrow> string" where
  "TrimRightFunc f s = rev (dropWhile f (rev s))"

definition TrimFunc :: "(char \<Rightarrow> bool) \<Rightarrow> string \<Rightarrow> string" where
  "TrimFunc f s = TrimRightFunc f (dropWhile f s)"

definition TrimSpace :: "string \<Rightarrow> string" where
  "TrimSpace s = TrimFunc isSpace s"

definition upper_char :: "char \<Rightarrow> char" where
  "upper_char c =
     (if CHR ''a'' \<le> c \<and> c \<le> CHR ''z'' then char_of ((of_char c :: nat) - 32) else c)"

definition lower_char :: "char \<Rightarrow> char" where
  "lower_char c =
     (if CHR ''A'' \<le> c \<and> c \<le> CHR ''Z'' then char_of ((of_char c :: nat) + 32) else c)"

definition ToUpper :: "string \<Rightarrow> string" where
  "ToUpper s = map upper_char s"

definition ToLower :: "string \<Rightarrow> string" where
  "ToLower s = map lower_char s"

definition EqualFold :: "string \<Rightarrow> string \<Rightarrow> bool" where
  "EqualFold s t \<longleftrightarrow> map lower_char s = map lower_char t"

fun Contains :: "string \<Rightarrow> string \<Rightarrow> bool" where
  "Contains [] sub = (sub = [])"
| "Contains (c # s) sub = (HasPrefix (c # s) sub \<or> Contains s sub)"

text \<open>\<^verbatim>\<open>strings.Split(s, sep)\<close> for a separator of one byte.\<close>

fun Split :: "string \<Rightarrow> char \<Rightarrow> string list" where
  "Split [] sep = [[]]"
| "Split (c # s) sep =
     (if c = sep then [] # Split s sep
      else (case Split s sep of [] \<Rightarrow> [[c]] | w # ws \<Rightarrow> (c # w) # ws))"

fun Join :: "string list \<Rightarrow> string \<Rightarrow> string" where
  "Join [] sep = []"
| "Join [w] sep = w"
| "Join (w # ws) sep = w @ sep @ Join ws sep"

text \<open>\<^verbatim>\<open>strings.Cut(s, sep)\<close> for a separator of one byte; \<^term>\<open>None\<close> when it is absent.\<close>

fun Cut :: "string \<Rightarrow> char \<Rightarrow> (string \<times> string) option" where
  "Cut [] sep = None"
| "Cut (c # s) sep =
     (if c = sep then Some ([], s)
      else (case Cut s sep of None \<Rightarrow> None | Some (before, after) \<Rightarrow> Some (c # before, after)))"

definition Trim :: "string \<Rightarrow> string \<Rightarrow> string" where
  "Trim s cutset = TrimFunc (\<lambda>c. c \<in> set cutset) s"

definition TrimRight :: "string \<Rightarrow> string \<Rightarrow> string" where
  "TrimRight s cutset = TrimRightFunc (\<lambda>c. c \<in> set cutset) s"

definition TrimLeft :: "string \<Rightarrow> string \<Rightarrow> string" where
  "TrimLeft s cutset = dropWhile (\<lambda>c. c \<in> set cutset) s"

text \<open>\<^verbatim>\<open>strings.ReplaceAll(s, old, new)\<close> for a non-empty \<open>old\<close>.\<close>

function ReplaceAll :: "string \<Rightarrow> string \<Rightarrow> string \<Rightarrow> string" where
  "ReplaceAll [] old new = []"
| "ReplaceAll (c # s) old new =
     (if old \<noteq> [] \<and> HasPrefix (c # s) old
      then new @ ReplaceAll (drop (length old) (c # s)) old new
      else c # ReplaceAll s old new)"
  by pat_completeness auto

termination ReplaceAll
  by (relation "measure (\<lambda>(s, old, new). length s)") auto

text \<open>\<^verbatim>\<open>base64.StdEncoding.DecodeString\<close>; \<^term>\<open>None\<close> is an error. Line breaks are skipped.\<close>

definition base64Value :: "char \<Rightarrow> nat option" where
  "base64Value c =
     (let n = of_char c :: nat in
      if 65 \<le> n \<and> n \<le> 90 then Some (n - 65)
      else if 97 \<le> n \<and> n \<le> 122 then Some (n - 71)
      else if 48 \<le> n \<and> n \<le> 57 then Some (n + 4)
      else if c = CHR ''+'' then Some 62
      else if c = CHR ''/'' then Some 63 else None)"

definition base64Group :: "nat \<Rightarrow> char \<Rightarrow> char \<Rightarrow> char \<Rightarrow> char \<Rightarrow> string option" where
  "base64Group k a b c d =
     (case (base64Value a, base64Value b, base64Value c, base64Value d) of
        (Some w, Some x, Some y, Some z) \<Rightarrow>
          Some (take k [char_of (w * 4 + x div 16), char_of (x mod 16 * 16 + y div 4), char_of (y mod 4 * 64 + z)])
      | _ \<Rightarrow> None)"

fun base64Groups :: "string \<Rightarrow> string option" where
  "base64Groups [] = Some []"
| "base64Groups (a # b # c # d # rest) =
     (if rest = [] \<and> d = CHR ''='' then
        (if c = CHR ''='' then base64Group 1 a b CHR ''A'' CHR ''A'' else base64Group 2 a b c CHR ''A'')
      else case base64Group 3 a b c d of
        None \<Rightarrow> None
      | Some bytes \<Rightarrow> map_option ((@) bytes) (base64Groups rest))"
| "base64Groups _ = None"

definition base64Decode :: "string \<Rightarrow> string option" where
  "base64Decode s = base64Groups (filter (\<lambda>c. c \<noteq> CHR 0x0A \<and> c \<noteq> CHR 0x0D) s)"

text \<open>\<^verbatim>\<open>strings.LastIndex\<close> of one byte.\<close>

fun LastIndexByte :: "string \<Rightarrow> char \<Rightarrow> nat option" where
  "LastIndexByte [] c = None"
| "LastIndexByte (x # s) c =
     (case LastIndexByte s c of
        Some i \<Rightarrow> Some (Suc i)
      | None \<Rightarrow> if x = c then Some 0 else None)"

text \<open>Decimal notation: \<^verbatim>\<open>strconv.Itoa\<close> and the verb \<^verbatim>\<open>%d\<close>.\<close>

fun decimal :: "nat \<Rightarrow> string" where
  "decimal n = (if n < 10 then [char_of (48 + n)] else decimal (n div 10) @ [char_of (48 + n mod 10)])"

definition Itoa :: "int \<Rightarrow> string" where
  "Itoa i = (if i < 0 then ''-'' @ decimal (nat (- i)) else decimal (nat i))"

section \<open>Integers\<close>

definition wrap64 :: "int \<Rightarrow> int" where
  "wrap64 x = (x + 2 ^ 63) mod 2 ^ 64 - 2 ^ 63"

section \<open>Interface values\<close>

datatype any =
    ANil
  | ABool bool
  | AInt int
  | AFloat rat
  | AString string
  | AList "any list"
  | AMap "(string \<times> any) list"

section \<open>Maps\<close>

text \<open>\<^verbatim>\<open>m[k]\<close> with the zero value \<open>z\<close> when the key is absent; \<^verbatim>\<open>m[k] = v\<close>; \<^verbatim>\<open>delete(m, k)\<close>.\<close>

definition map_get :: "'v \<Rightarrow> ('k \<times> 'v) list \<Rightarrow> 'k \<Rightarrow> 'v" where
  "map_get z m k = (case map_of m k of None \<Rightarrow> z | Some v \<Rightarrow> v)"

definition map_put :: "'k \<Rightarrow> 'v \<Rightarrow> ('k \<times> 'v) list \<Rightarrow> ('k \<times> 'v) list" where
  "map_put k v m = AList.update k v m"

definition map_delete :: "'k \<Rightarrow> ('k \<times> 'v) list \<Rightarrow> ('k \<times> 'v) list" where
  "map_delete k m = AList.delete k m"

section \<open>Loops that stop at the first error\<close>

text \<open>
  A Go function that returns an \<^verbatim>\<open>error\<close> only is a value of type \<^typ>\<open>'e option\<close>, \<^verbatim>\<open>nil\<close>
  being \<^term>\<open>None\<close>. \<^verbatim>\<open>first_error f xs\<close> is the loop
  \<^verbatim>\<open>for _, x := range xs { if err := f(x); err != nil { return err } }\<close>, and
  \<^verbatim>\<open>or_else\<close> continues after such a check.
\<close>

fun first_error :: "('a \<Rightarrow> 'e option) \<Rightarrow> 'a list \<Rightarrow> 'e option" where
  "first_error f [] = None"
| "first_error f (x # xs) = (case f x of Some e \<Rightarrow> Some e | None \<Rightarrow> first_error f xs)"

definition or_else :: "'e option \<Rightarrow> 'e option \<Rightarrow> 'e option" where
  "or_else a b = (case a of Some e \<Rightarrow> Some e | None \<Rightarrow> b)"

section \<open>Stable sorting by a comparator\<close>

fun insert_by :: "('a \<Rightarrow> 'a \<Rightarrow> int) \<Rightarrow> 'a \<Rightarrow> 'a list \<Rightarrow> 'a list" where
  "insert_by cmp x [] = [x]"
| "insert_by cmp x (y # ys) =
     (if cmp x y \<le> 0 then x # y # ys else y # insert_by cmp x ys)"

fun SortStableFunc :: "'a list \<Rightarrow> ('a \<Rightarrow> 'a \<Rightarrow> int) \<Rightarrow> 'a list" where
  "SortStableFunc [] cmp = []"
| "SortStableFunc (x # xs) cmp = insert_by cmp x (SortStableFunc xs cmp)"

section \<open>Facts about strings\<close>

lemma HasPrefix_iff [go_strings]: "HasPrefix s p \<longleftrightarrow> (\<exists>r. s = p @ r)"
  by (auto simp: HasPrefix_def) (metis append_take_drop_id)

lemma HasSuffix_iff [go_strings]: "HasSuffix s p \<longleftrightarrow> (\<exists>r. s = r @ p)"
  by (auto simp: HasSuffix_def) (metis append_take_drop_id)

lemma HasPrefix_append [simp]: "HasPrefix (p @ r) p"
  by (simp add: HasPrefix_def)

lemma HasPrefix_Nil [simp]: "HasPrefix s []"
  by (simp add: HasPrefix_def)

lemma HasPrefix_refl [simp]: "HasPrefix s s"
  by (simp add: HasPrefix_def)

lemma HasPrefix_Cons [simp]: "HasPrefix (c # s) (d # p) \<longleftrightarrow> c = d \<and> HasPrefix s p"
  by (auto simp: HasPrefix_def)

lemma HasPrefix_of_Nil [simp]: "HasPrefix [] p \<longleftrightarrow> p = []"
  by (auto simp: HasPrefix_def)

lemma HasSuffix_append [simp]: "HasSuffix (r @ p) p"
  by (simp add: HasSuffix_def)

lemma TrimSuffix_append [simp]: "TrimSuffix (r @ p) p = r"
  by (simp add: TrimSuffix_def)

lemma TrimPrefix_append [simp]: "TrimPrefix (p @ r) p = r"
  by (simp add: TrimPrefix_def)

lemma nat_upper_char:
  "(of_char (upper_char c) :: nat) =
     (if 97 \<le> (of_char c :: nat) \<and> (of_char c :: nat) \<le> 122 then of_char c - 32 else of_char c)"
  by (auto simp: upper_char_def less_eq_char_def of_char_of)

lemma nat_lower_char:
  "(of_char (lower_char c) :: nat) =
     (if 65 \<le> (of_char c :: nat) \<and> (of_char c :: nat) \<le> 90 then of_char c + 32 else of_char c)"
  by (simp add: lower_char_def less_eq_char_def of_char_of)

lemma char_eq_iff_nat: "c = d \<longleftrightarrow> (of_char c :: nat) = of_char d"
  by simp

lemma lower_eq_iff_upper_eq: "lower_char c = lower_char d \<longleftrightarrow> upper_char c = upper_char d"
proof -
  have "(if 65 \<le> m \<and> m \<le> 90 then m + 32 else m) = (if 65 \<le> n \<and> n \<le> 90 then n + 32 else n)
    \<longleftrightarrow> (if 97 \<le> m \<and> m \<le> 122 then m - 32 else m) = (if 97 \<le> n \<and> n \<le> 122 then n - 32 else n)"
    for m n :: nat
    by (simp split: if_split) linarith
  from this [of "of_char c" "of_char d"] show ?thesis
    by (simp only: nat_upper_char [symmetric] nat_lower_char [symmetric] of_char_eq_iff)
qed

lemma upper_char_idem [simp]: "upper_char (upper_char c) = upper_char c"
  unfolding char_eq_iff_nat [of "upper_char (upper_char c)"] nat_upper_char
  by (auto split: if_splits)

lemma ToUpper_idem [simp]: "ToUpper (ToUpper s) = ToUpper s"
  by (simp add: ToUpper_def)

lemma EqualFold_iff_ToUpper [go_strings]: "EqualFold s t \<longleftrightarrow> ToUpper s = ToUpper t"
  by (simp add: EqualFold_def ToUpper_def list_eq_iff_nth_eq lower_eq_iff_upper_eq
      cong: conj_cong)

lemma length_ToUpper [simp]: "length (ToUpper s) = length s"
  by (simp add: ToUpper_def)

lemma ToUpper_eq_Nil [simp]: "ToUpper s = [] \<longleftrightarrow> s = []"
  by (simp add: ToUpper_def)

lemma EqualFold_length: "EqualFold s t \<Longrightarrow> length s = length t"
  by (metis EqualFold_iff_ToUpper length_ToUpper)

lemma TrimSpace_ends:
  assumes "s \<noteq> []" and "\<not> isSpace (hd s)" and "\<not> isSpace (last s)"
  shows "TrimSpace s = s"
proof -
  have "dropWhile isSpace s = s" "dropWhile isSpace (rev s) = rev s"
    using assms by (simp_all add: dropWhile_eq_self_iff hd_rev)
  then show ?thesis by (simp add: TrimSpace_def TrimFunc_def TrimRightFunc_def)
qed

lemma TrimSpace_Nil [simp]: "TrimSpace [] = []"
  by (simp add: TrimSpace_def TrimFunc_def TrimRightFunc_def)

lemma TrimSpace_plain: "(\<forall>c\<in>set s. \<not> isSpace c) \<Longrightarrow> TrimSpace s = s"
  by (cases "s = []") (auto intro: TrimSpace_ends)

lemma Contains_char: "Contains s [c] \<longleftrightarrow> c \<in> set s"
  by (induction s) auto

lemma Split_neq_Nil [simp]: "Split s c \<noteq> []"
  by (induction s) (auto split: list.splits)

lemma Split_append: "Split (s @ c # t) c = Split s c @ Split t c"
  by (induction s) (auto split: list.splits)

lemma Split_no_sep: "c \<notin> set s \<Longrightarrow> Split s c = [s]"
  by (induction s) auto

section \<open>Facts about error loops\<close>

lemma first_error_None_iff [simp]: "first_error f xs = None \<longleftrightarrow> (\<forall>x\<in>set xs. f x = None)"
  by (induction xs) (auto split: option.splits)

lemma first_error_Some: "first_error f xs = Some e \<Longrightarrow> \<exists>x\<in>set xs. f x = Some e"
  by (induction xs) (auto split: option.splits)

lemma or_else_None_iff [simp]: "or_else a b = None \<longleftrightarrow> a = None \<and> b = None"
  by (simp add: or_else_def split: option.splits)

lemma or_else_left: "or_else None b = b"
  by (simp add: or_else_def)

lemma or_else_Some: "or_else a b = Some e \<Longrightarrow> a = Some e \<or> b = Some e"
  by (auto simp: or_else_def split: option.splits)

section \<open>Facts about integers and sorting\<close>

lemma wrap64_id [simp]: "- (2 ^ 63) \<le> x \<Longrightarrow> x < 2 ^ 63 \<Longrightarrow> wrap64 x = x"
  by (simp add: wrap64_def)

lemma mset_insert_by [simp]: "mset (insert_by cmp x xs) = add_mset x (mset xs)"
  by (induction xs) auto

lemma mset_SortStableFunc [simp]: "mset (SortStableFunc xs cmp) = mset xs"
  by (induction xs) auto

lemma set_insert_by [simp]: "set (insert_by cmp x xs) = insert x (set xs)"
  by (induction xs) auto

lemma set_SortStableFunc [simp]: "set (SortStableFunc xs cmp) = set xs"
  by (induction xs) auto

lemma length_SortStableFunc [simp]: "length (SortStableFunc xs cmp) = length xs"
  by (metis mset_SortStableFunc size_mset)

lemma find_None_set: "find P xs = None \<longleftrightarrow> (\<forall>x\<in>set xs. \<not> P x)"
  by (auto simp: find_None_iff)

lemma find_Some_sorted:
  assumes "sorted_wrt r xs" and "\<And>x. x \<in> set xs \<Longrightarrow> r x x" and "find P xs = Some x"
  shows "x \<in> set xs \<and> P x \<and> (\<forall>y\<in>set xs. P y \<longrightarrow> r x y)"
  using assms by (induction xs) (auto split: if_splits)

text \<open>
  A comparator orders the elements satisfying \<open>ok\<close> when its non-positive results form a
  total and transitive relation on them.
\<close>

locale comparator =
  fixes cmp :: "'a \<Rightarrow> 'a \<Rightarrow> int"
    and ok :: "'a \<Rightarrow> bool"
  assumes cmp_total: "ok x \<Longrightarrow> ok y \<Longrightarrow> cmp x y \<le> 0 \<or> cmp y x \<le> 0"
    and cmp_trans: "ok x \<Longrightarrow> ok y \<Longrightarrow> ok z \<Longrightarrow> cmp x y \<le> 0 \<Longrightarrow> cmp y z \<le> 0 \<Longrightarrow> cmp x z \<le> 0"
begin

lemma sorted_insert_by:
  assumes "\<And>y. y \<in> insert x (set ys) \<Longrightarrow> ok y" and "sorted_wrt (\<lambda>a b. cmp a b \<le> 0) ys"
  shows "sorted_wrt (\<lambda>a b. cmp a b \<le> 0) (insert_by cmp x ys)"
  using assms
proof (induction ys)
  case Nil
  then show ?case by simp
next
  case (Cons y ys)
  have oks: "ok x" "ok y" "\<And>z. z \<in> set ys \<Longrightarrow> ok z"
    using Cons.prems(1) by auto
  show ?case
  proof (cases "cmp x y \<le> 0")
    case True
    with Cons.prems oks show ?thesis by (auto intro: cmp_trans)
  next
    case False
    then have "cmp y x \<le> 0" using cmp_total oks by blast
    with False Cons oks show ?thesis by auto
  qed
qed

lemma sorted_SortStableFunc:
  "(\<And>x. x \<in> set xs \<Longrightarrow> ok x) \<Longrightarrow> sorted_wrt (\<lambda>a b. cmp a b \<le> 0) (SortStableFunc xs cmp)"
  by (induction xs) (auto intro!: sorted_insert_by)

text \<open>The first element of the sorted list that satisfies \<open>P\<close> is a least one.\<close>

lemma find_SortStableFunc:
  assumes "\<And>x. x \<in> set xs \<Longrightarrow> ok x" and "find P (SortStableFunc xs cmp) = Some x"
  shows "x \<in> set xs \<and> P x \<and> (\<forall>y\<in>set xs. P y \<longrightarrow> cmp x y \<le> 0)"
  using find_Some_sorted [OF sorted_SortStableFunc _ assms(2)] assms(1) cmp_total by force

end

section \<open>Elimination of case expressions\<close>

text \<open>Code that returns early on an error is a nest of case expressions; these rules take it apart.\<close>

lemma prod_caseE:
  "(case x of (a, b) \<Rightarrow> f a b) = y \<Longrightarrow> (\<And>a b. x = (a, b) \<Longrightarrow> f a b = y \<Longrightarrow> P) \<Longrightarrow> P"
  by (cases x) auto

lemma sum_caseE:
  "(case x of Inl a \<Rightarrow> f a | Inr b \<Rightarrow> g b) = y \<Longrightarrow>
    (\<And>a. x = Inl a \<Longrightarrow> f a = y \<Longrightarrow> P) \<Longrightarrow> (\<And>b. x = Inr b \<Longrightarrow> g b = y \<Longrightarrow> P) \<Longrightarrow> P"
  by (cases x) auto

lemma option_caseE:
  "(case x of None \<Rightarrow> f | Some b \<Rightarrow> g b) = y \<Longrightarrow>
    (x = None \<Longrightarrow> f = y \<Longrightarrow> P) \<Longrightarrow> (\<And>b. x = Some b \<Longrightarrow> g b = y \<Longrightarrow> P) \<Longrightarrow> P"
  by (cases x) auto

lemma if_caseE: "(if b then f else g) = y \<Longrightarrow> (b \<Longrightarrow> f = y \<Longrightarrow> P) \<Longrightarrow> (\<not> b \<Longrightarrow> g = y \<Longrightarrow> P) \<Longrightarrow> P"
  by (cases b) auto

lemmas caseE = prod_caseE sum_caseE option_caseE if_caseE

section \<open>Facts about sorted lists\<close>

lemma distinct_map_sorted_wrt: "distinct (map f xs) \<longleftrightarrow> sorted_wrt (\<lambda>a b. f a \<noteq> f b) xs"
  by (induction xs) (auto simp: image_iff)

lemma sorted_wrt_conj: "sorted_wrt (\<lambda>a b. P a b \<and> Q a b) xs \<longleftrightarrow> sorted_wrt P xs \<and> sorted_wrt Q xs"
  by (induction xs) auto

lemma Cut_append: "c \<notin> set s \<Longrightarrow> Cut (s @ c # t) c = Some (s, t)"
  by (induction s) auto

section \<open>Facts about maps\<close>

declare decimal.simps [simp del]

lemma map_of_graph: "map_of (map (\<lambda>k. (k, f k)) ks) k = (if k \<in> set ks then Some (f k) else None)"
  by (induction ks) auto

lemma map_of_map_put [simp]: "map_of (map_put k v m) k' = (if k = k' then Some v else map_of m k')"
  by (simp add: map_put_def update_conv)

lemma map_of_map_delete [simp]: "map_of (map_delete k m) k' = (if k = k' then None else map_of m k')"
  by (simp add: map_delete_def delete_conv)

lemma map_get_put [simp]: "map_get z (map_put k v m) k' = (if k = k' then v else map_get z m k')"
  by (simp add: map_get_def)

lemma distinct_map_put [simp]: "distinct (map fst m) \<Longrightarrow> distinct (map fst (map_put k v m))"
  by (simp add: map_put_def distinct_update)

lemma keys_map_put [simp]: "fst ` set (map_put k v m) = insert k (fst ` set m)"
  by (simp add: map_put_def dom_update)

lemma in_keys: "map_of m k = Some v \<Longrightarrow> k \<in> fst ` set m"
  by (metis domI dom_map_of_conv_image_fst)

lemma set_map_put: "(k', v') \<in> set (map_put k v m) \<Longrightarrow> (k' = k \<and> v' = v) \<or> (k', v') \<in> set m"
  unfolding map_put_def by (induction m) (auto split: if_splits)

section \<open>Invariants and termination of step relations\<close>

locale transition_system =
  fixes step :: "'s \<Rightarrow> 's \<Rightarrow> bool" and init :: "'s \<Rightarrow> bool" and inv :: "'s \<Rightarrow> bool"
  assumes inv_init: "init s \<Longrightarrow> inv s"
    and inv_step: "inv s \<Longrightarrow> step s s' \<Longrightarrow> inv s'"
begin

lemma inv_steps: "step\<^sup>*\<^sup>* s s' \<Longrightarrow> inv s \<Longrightarrow> inv s'"
  by (induction rule: rtranclp_induct) (auto intro: inv_step)

lemma inv_reachable: "init s \<Longrightarrow> step\<^sup>*\<^sup>* s s' \<Longrightarrow> inv s'"
  using inv_init inv_steps by blast

end

locale terminating_system = transition_system +
  fixes work :: "'s \<Rightarrow> nat"
  assumes work_decreases: "inv s \<Longrightarrow> step s s' \<Longrightarrow> work s' < work s"
begin

lemma run_bounded: "(step ^^ n) s s' \<Longrightarrow> inv s \<Longrightarrow> n + work s' \<le> work s"
proof (induction n arbitrary: s')
  case (Suc n)
  then obtain t where t: "(step ^^ n) s t" "step t s'" by auto
  moreover have "inv t" using inv_steps [OF relpowp_imp_rtranclp [OF t(1)]] Suc.prems by blast
  ultimately show ?case using Suc.IH [OF t(1) Suc.prems(2)] work_decreases by fastforce
qed simp

lemma final_reachable: "inv s \<Longrightarrow> \<exists>s'. step\<^sup>*\<^sup>* s s' \<and> (\<forall>t. \<not> step s' t)"
proof (induction "work s" arbitrary: s rule: less_induct)
  case less
  show ?case
  proof (cases "\<exists>t. step s t")
    case True
    then obtain t where "step s t" by blast
    with less work_decreases inv_step show ?thesis
      by (meson converse_rtranclp_into_rtranclp)
  next
    case False
    then show ?thesis by blast
  qed
qed

end

end
