(* ===== verification/Observability.thy ===== *)
theory Observability
  imports Go_Prelude
begin

text \<open>
  The in-memory metrics recorder, \<^verbatim>\<open>internal/observability/observability.go\<close>: label keys,
  counters, cumulative histograms, their snapshot, the Prometheus text and the summary of the
  admin page.

  A \<^verbatim>\<open>uint64\<close> is a 64-bit word. A \<^verbatim>\<open>float64\<close> is a rational: durations are
  nanoseconds and the bounds are decimal constants, and the only use of their exact value is the
  comparison with a bound. The sum of a histogram is therefore the exact sum, without the rounding of \<^verbatim>\<open>float64\<close> additions. The verbs \<^verbatim>\<open>%g\<close> and \<^verbatim>\<open>%.6f\<close> are parameters of the
  text renderer. The mutex makes every operation atomic.
\<close>

section \<open>Labels\<close>

record PluginLabels =
  pl_Plugin :: string
  pl_Scope :: string
  pl_Phase :: string
  pl_RouteID :: string
  pl_ServiceID :: string
  pl_UpstreamID :: string
  pl_Result :: string

record UpstreamLabels =
  ul_RouteID :: string
  ul_ServiceID :: string
  ul_UpstreamID :: string
  ul_Endpoint :: string
  ul_Scheme :: string
  ul_Method :: string
  ul_StatusClass :: string
  ul_ErrorType :: string
  ul_ReusedConn :: bool

record GatewayLabels =
  gl_Handler :: string
  gl_Method :: string
  gl_RouteID :: string
  gl_StatusClass :: string

record ProxyInfo =
  pi_Scheme :: string
  pi_Address :: string
  pi_Host :: string
  pi_ConnectTime :: int
  pi_TLSHandshakeTime :: int
  pi_RequestWriteTime :: int
  pi_FirstByteTime :: int
  pi_ResponseReadTime :: int
  pi_TotalTime :: int
  pi_ProcessingEstimate :: int
  pi_ReusedConnection :: bool

fun appendLabelValue :: "string \<Rightarrow> string" where
  "appendLabelValue [] = []"
| "appendLabelValue (c # s) =
     (if c = CHR 0x5C \<or> c = CHR 0x22 then [CHR 0x5C, c]
      else if c = CHR 0x0A then [CHR 0x5C, CHR ''n'']
      else [c]) @ appendLabelValue s"

text \<open>The builder's text and the flag \<^verbatim>\<open>first\<close> are threaded as a pair.\<close>

definition appendLabel :: "string \<times> string \<Rightarrow> string \<times> bool \<Rightarrow> string \<times> bool" where
  "appendLabel kv b =
     (if snd kv = [] then b
      else (fst b @ (if \<not> snd b then '','' else []) @ fst kv @ [CHR ''='', CHR 0x22]
              @ appendLabelValue (snd kv) @ [CHR 0x22], False))"

definition renderGatewayKey :: "GatewayLabels \<Rightarrow> string" where
  "renderGatewayKey l =
     (let b = (''{'', True);
          b = appendLabel (''handler'', gl_Handler l) b;
          b = appendLabel (''method'', gl_Method l) b;
          b = appendLabel (''route_id'', gl_RouteID l) b;
          b = appendLabel (''status_class'', gl_StatusClass l) b
      in fst b @ ''}'')"

definition renderPluginKey :: "PluginLabels \<Rightarrow> string" where
  "renderPluginKey l =
     (let b = (''{'', True);
          b = appendLabel (''phase'', pl_Phase l) b;
          b = appendLabel (''plugin'', pl_Plugin l) b;
          b = appendLabel (''result'', pl_Result l) b;
          b = appendLabel (''route_id'', pl_RouteID l) b;
          b = appendLabel (''scope'', pl_Scope l) b;
          b = appendLabel (''service_id'', pl_ServiceID l) b;
          b = appendLabel (''upstream_id'', pl_UpstreamID l) b
      in fst b @ ''}'')"

definition renderUpstreamKey :: "UpstreamLabels \<Rightarrow> string \<Rightarrow> string" where
  "renderUpstreamKey l phase =
     (let reusedConnStr = (if ul_ReusedConn l then ''true'' else ''false'');
          b = (''{'', True);
          b = appendLabel (''endpoint'', ul_Endpoint l) b;
          b = appendLabel (''error_type'', ul_ErrorType l) b;
          b = appendLabel (''method'', ul_Method l) b;
          b = appendLabel (''phase'', phase) b;
          b = appendLabel (''reused_conn'', reusedConnStr) b;
          b = appendLabel (''route_id'', ul_RouteID l) b;
          b = appendLabel (''scheme'', ul_Scheme l) b;
          b = appendLabel (''service_id'', ul_ServiceID l) b;
          b = appendLabel (''status_class'', ul_StatusClass l) b;
          b = appendLabel (''upstream_id'', ul_UpstreamID l) b
      in fst b @ ''}'')"

definition renderLabelKey :: "(string \<times> string) list \<Rightarrow> string" where
  "renderLabelKey labels =
     (let keys = sort (map fst (filter (\<lambda>kv. snd kv \<noteq> []) labels)) in
      if length keys = 0 then []
      else ''{'' @ Join (map (\<lambda>key. key @ [CHR ''='', CHR 0x22]
              @ appendLabelValue (map_get [] labels key) @ [CHR 0x22]) keys) '','' @ ''}'')"

fun parseParts :: "string list \<Rightarrow> (string \<times> string) list \<Rightarrow> (string \<times> string) list" where
  "parseParts [] result = result"
| "parseParts (part # parts) result =
     (case Cut part CHR ''='' of
        None \<Rightarrow> parseParts parts result
      | Some (name, value) \<Rightarrow> parseParts parts (map_put name (Trim value [CHR 0x22]) result))"

definition parseLabelKey :: "string \<Rightarrow> (string \<times> string) list" where
  "parseLabelKey key =
     (if key = [] then []
      else
        let trimmed = TrimSuffix (TrimPrefix key ''{'') ''}'' in
        if trimmed = [] then []
        else parseParts (Split trimmed CHR '','') [])"

section \<open>Histograms\<close>

record histogram =
  h_bins :: "(rat \<times> 64 word) list"
  h_bounds :: "rat list"
  h_count :: "64 word"
  h_sum :: rat

definition newHistogram :: "rat list \<Rightarrow> histogram" where
  "newHistogram bounds =
     \<lparr>h_bins = fold (\<lambda>bound bins. map_put bound 0 bins) bounds [], h_bounds = bounds,
      h_count = 0, h_sum = 0\<rparr>"

fun observeBounds :: "rat \<Rightarrow> rat list \<Rightarrow> (rat \<times> 64 word) list \<Rightarrow> (rat \<times> 64 word) list" where
  "observeBounds value [] bins = bins"
| "observeBounds value (bound # bounds) bins =
     observeBounds value bounds
       (if value \<le> bound then map_put bound (map_get 0 bins bound + 1) bins else bins)"

definition observe :: "rat \<Rightarrow> histogram \<Rightarrow> histogram" where
  "observe value h =
     h\<lparr>h_count := h_count h + 1, h_sum := h_sum h + value,
       h_bins := observeBounds value (h_bounds h) (h_bins h)\<rparr>"

definition pluginDurationBuckets :: "rat list" where
  "pluginDurationBuckets =
     [5 / 10000, 1 / 1000, 5 / 1000, 1 / 100, 25 / 1000, 5 / 100, 1 / 10, 25 / 100, 5 / 10, 1, 25 / 10, 5]"

definition upstreamDurationBuckets :: "rat list" where
  "upstreamDurationBuckets =
     [5 / 10000, 1 / 1000, 5 / 1000, 1 / 100, 25 / 1000, 5 / 100, 1 / 10, 25 / 100, 5 / 10, 1, 25 / 10, 5, 10]"

definition gatewayDurationBuckets :: "rat list" where
  "gatewayDurationBuckets =
     [5 / 10000, 1 / 1000, 5 / 1000, 1 / 100, 25 / 1000, 5 / 100, 1 / 10, 25 / 100, 5 / 10, 1, 25 / 10, 5, 10]"

text \<open>\<^verbatim>\<open>time.Duration.Seconds\<close>.\<close>

definition Seconds :: "int \<Rightarrow> rat" where
  "Seconds d = of_int d / 1000000000"

section \<open>The recorder\<close>

record MemoryRecorder =
  pluginExecutions :: "(string \<times> 64 word) list"
  pluginDurations :: "(string \<times> histogram) list"
  upstreamRequests :: "(string \<times> 64 word) list"
  upstreamDurations :: "(string \<times> histogram) list"
  gatewayRequests :: "(string \<times> 64 word) list"
  gatewayDurations :: "(string \<times> histogram) list"

definition NewMemoryRecorder :: MemoryRecorder where
  "NewMemoryRecorder =
     \<lparr>pluginExecutions = [], pluginDurations = [], upstreamRequests = [], upstreamDurations = [],
      gatewayRequests = [], gatewayDurations = []\<rparr>"

text \<open>\<^verbatim>\<open>SetDefault(nil)\<close> installs a fresh recorder.\<close>

definition SetDefault :: "MemoryRecorder option \<Rightarrow> MemoryRecorder" where
  "SetDefault recorder = (case recorder of None \<Rightarrow> NewMemoryRecorder | Some r \<Rightarrow> r)"

definition incr :: "string \<Rightarrow> (string \<times> 64 word) list \<Rightarrow> (string \<times> 64 word) list" where
  "incr key m = map_put key (map_get 0 m key + 1) m"

definition observeHistogram ::
    "(string \<times> histogram) list \<Rightarrow> string \<Rightarrow> rat \<Rightarrow> rat list \<Rightarrow> (string \<times> histogram) list" where
  "observeHistogram target key value buckets =
     (let h = (case map_of target key of Some h \<Rightarrow> h | None \<Rightarrow> newHistogram buckets)
      in map_put key (observe value h) target)"

definition ObserveGateway :: "GatewayLabels \<Rightarrow> int \<Rightarrow> MemoryRecorder \<Rightarrow> MemoryRecorder" where
  "ObserveGateway labels duration r =
     (let key = renderGatewayKey labels in
      r\<lparr>gatewayRequests := incr key (gatewayRequests r),
        gatewayDurations :=
          observeHistogram (gatewayDurations r) key (Seconds duration) gatewayDurationBuckets\<rparr>)"

definition ObservePlugin :: "PluginLabels \<Rightarrow> int \<Rightarrow> MemoryRecorder \<Rightarrow> MemoryRecorder" where
  "ObservePlugin labels duration r =
     (let executionKey = renderPluginKey labels in
      r\<lparr>pluginExecutions := incr executionKey (pluginExecutions r),
        pluginDurations :=
          observeHistogram (pluginDurations r) executionKey (Seconds duration) pluginDurationBuckets\<rparr>)"

definition observeUpstreamPhase :: "UpstreamLabels \<Rightarrow> string \<Rightarrow> int \<Rightarrow> MemoryRecorder \<Rightarrow> MemoryRecorder" where
  "observeUpstreamPhase labels phase duration r =
     (let key = renderUpstreamKey labels phase in
      r\<lparr>upstreamDurations :=
          observeHistogram (upstreamDurations r) key (Seconds duration) upstreamDurationBuckets\<rparr>)"

definition ObserveUpstream :: "UpstreamLabels \<Rightarrow> ProxyInfo \<Rightarrow> MemoryRecorder \<Rightarrow> MemoryRecorder" where
  "ObserveUpstream labels info r =
     (let baseKey = renderUpstreamKey labels '''';
          r = r\<lparr>upstreamRequests := incr baseKey (upstreamRequests r)\<rparr>;
          r = observeUpstreamPhase labels ''connect'' (pi_ConnectTime info) r;
          r = observeUpstreamPhase labels ''tls_handshake'' (pi_TLSHandshakeTime info) r;
          r = observeUpstreamPhase labels ''request_write'' (pi_RequestWriteTime info) r;
          r = observeUpstreamPhase labels ''first_byte'' (pi_FirstByteTime info) r;
          r = observeUpstreamPhase labels ''response_read'' (pi_ResponseReadTime info) r;
          r = observeUpstreamPhase labels ''processing_estimate'' (pi_ProcessingEstimate info) r
      in observeUpstreamPhase labels ''total'' (pi_TotalTime info) r)"

definition Reset :: "MemoryRecorder \<Rightarrow> MemoryRecorder" where
  "Reset r =
     r\<lparr>pluginExecutions := [], pluginDurations := [], upstreamRequests := [], upstreamDurations := [],
       gatewayRequests := [], gatewayDurations := []\<rparr>"

section \<open>Snapshots and summaries\<close>

record histogramSnapshot =
  hs_Buckets :: "(rat \<times> 64 word) list"
  hs_Count :: "64 word"
  hs_Sum :: rat

record MetricsSnapshot =
  ms_PluginExecutions :: "(string \<times> 64 word) list"
  ms_PluginDurations :: "(string \<times> histogramSnapshot) list"
  ms_UpstreamRequests :: "(string \<times> 64 word) list"
  ms_UpstreamDurations :: "(string \<times> histogramSnapshot) list"
  ms_GatewayRequests :: "(string \<times> 64 word) list"
  ms_GatewayDurations :: "(string \<times> histogramSnapshot) list"

definition cloneHistogramMap :: "(string \<times> histogram) list \<Rightarrow> (string \<times> histogramSnapshot) list" where
  "cloneHistogramMap source =
     map (\<lambda>(key, value). (key, \<lparr>hs_Buckets = h_bins value, hs_Count = h_count value,
            hs_Sum = h_sum value\<rparr>)) source"

definition takeSnapshot :: "MemoryRecorder \<Rightarrow> MetricsSnapshot" where
  "takeSnapshot r =
     \<lparr>ms_PluginExecutions = pluginExecutions r,
      ms_PluginDurations = cloneHistogramMap (pluginDurations r),
      ms_UpstreamRequests = upstreamRequests r,
      ms_UpstreamDurations = cloneHistogramMap (upstreamDurations r),
      ms_GatewayRequests = gatewayRequests r,
      ms_GatewayDurations = cloneHistogramMap (gatewayDurations r)\<rparr>"

definition sortedKeys :: "(string \<times> 'v) list \<Rightarrow> string list" where
  "sortedKeys values = sort (map fst values)"

definition sortedBounds :: "(rat \<times> 64 word) list \<Rightarrow> rat list" where
  "sortedBounds values = sort (map fst values)"

definition trimRightBrace :: "string \<Rightarrow> string" where
  "trimRightBrace key = TrimSuffix key ''}''"

definition formatBound :: "(rat \<Rightarrow> string) \<Rightarrow> rat \<Rightarrow> string" where
  "formatBound fmt6f bound = TrimRight (TrimRight (fmt6f bound) ''0'') ''.''"

definition renderHistogramMetric ::
    "(rat \<Rightarrow> string) \<Rightarrow> (rat \<Rightarrow> string) \<Rightarrow> string \<Rightarrow> (string \<times> histogramSnapshot) list \<Rightarrow> string" where
  "renderHistogramMetric fmt6f fmtg name metrics =
     concat (map (\<lambda>key.
       let snapshot = map_get \<lparr>hs_Buckets = [], hs_Count = 0, hs_Sum = 0\<rparr> metrics key;
           bounds = sortedBounds (hs_Buckets snapshot)
       in concat (map (\<lambda>bound.
            name @ ''_bucket'' @ trimRightBrace key @ '',le='' @ [CHR 0x22] @ formatBound fmt6f bound
              @ [CHR 0x22] @ ''} '' @ decimal (unat (map_get 0 (hs_Buckets snapshot) bound)) @ [CHR 0x0A])
            bounds)
          @ name @ ''_bucket'' @ trimRightBrace key @ '',le='' @ [CHR 0x22] @ ''+Inf'' @ [CHR 0x22]
              @ ''} '' @ decimal (unat (hs_Count snapshot)) @ [CHR 0x0A]
          @ name @ ''_sum'' @ key @ '' '' @ fmtg (hs_Sum snapshot) @ [CHR 0x0A]
          @ name @ ''_count'' @ key @ '' '' @ decimal (unat (hs_Count snapshot)) @ [CHR 0x0A])
       (sortedKeys metrics))"

definition renderCounter :: "string \<Rightarrow> (string \<times> 64 word) list \<Rightarrow> string" where
  "renderCounter name counters =
     concat (map (\<lambda>key. name @ key @ '' '' @ decimal (unat (map_get 0 counters key)) @ [CHR 0x0A])
       (sortedKeys counters))"

definition RenderPrometheus :: "(rat \<Rightarrow> string) \<Rightarrow> (rat \<Rightarrow> string) \<Rightarrow> MemoryRecorder \<Rightarrow> string" where
  "RenderPrometheus fmt6f fmtg r =
     (let snapshot = takeSnapshot r in
      ''# HELP lumen_gateway_requests_total Total gateway requests by bounded handler and route.'' @ [CHR 0x0A]
      @ ''# TYPE lumen_gateway_requests_total counter'' @ [CHR 0x0A]
      @ renderCounter ''lumen_gateway_requests_total'' (ms_GatewayRequests snapshot)
      @ ''# HELP lumen_gateway_request_duration_seconds Gateway request duration by bounded handler and route.'' @ [CHR 0x0A]
      @ ''# TYPE lumen_gateway_request_duration_seconds histogram'' @ [CHR 0x0A]
      @ renderHistogramMetric fmt6f fmtg ''lumen_gateway_request_duration_seconds'' (ms_GatewayDurations snapshot)
      @ ''# HELP lumen_plugin_executions_total Total plugin executions.'' @ [CHR 0x0A]
      @ ''# TYPE lumen_plugin_executions_total counter'' @ [CHR 0x0A]
      @ renderCounter ''lumen_plugin_executions_total'' (ms_PluginExecutions snapshot)
      @ ''# HELP lumen_plugin_duration_seconds Plugin execution duration.'' @ [CHR 0x0A]
      @ ''# TYPE lumen_plugin_duration_seconds histogram'' @ [CHR 0x0A]
      @ renderHistogramMetric fmt6f fmtg ''lumen_plugin_duration_seconds'' (ms_PluginDurations snapshot)
      @ ''# HELP lumen_upstream_requests_total Total upstream requests.'' @ [CHR 0x0A]
      @ ''# TYPE lumen_upstream_requests_total counter'' @ [CHR 0x0A]
      @ renderCounter ''lumen_upstream_requests_total'' (ms_UpstreamRequests snapshot)
      @ ''# HELP lumen_upstream_phase_duration_seconds Upstream phase durations.'' @ [CHR 0x0A]
      @ ''# TYPE lumen_upstream_phase_duration_seconds histogram'' @ [CHR 0x0A]
      @ renderHistogramMetric fmt6f fmtg ''lumen_upstream_phase_duration_seconds'' (ms_UpstreamDurations snapshot))"

record RouteStats =
  rs_RouteID :: string
  rs_Requests :: "64 word"
  rs_Errors :: "64 word"

record GatewayStats =
  gs_TopRoutes :: "RouteStats list"
  gs_RequestsTotal :: "64 word"
  gs_Errors4xx :: "64 word"
  gs_Errors5xx :: "64 word"
  gs_ErrorRate :: rat

text \<open>The accumulators of the loop of \<^verbatim>\<open>Stats\<close>.\<close>

record statsAcc =
  sa_routeTotals :: "(string \<times> 64 word) list"
  sa_routeErrors :: "(string \<times> 64 word) list"
  sa_total :: "64 word"
  sa_e4xx :: "64 word"
  sa_e5xx :: "64 word"

definition classIs :: "char \<Rightarrow> string \<Rightarrow> bool" where
  "classIs c class \<longleftrightarrow> length class > 0 \<and> class ! 0 = c"

definition statsStep :: "string \<times> 64 word \<Rightarrow> statsAcc \<Rightarrow> statsAcc" where
  "statsStep kc acc =
     (let labels = parseLabelKey (fst kc);
          count = snd kc;
          acc = acc\<lparr>sa_total := sa_total acc + count\<rparr>;
          class = map_get [] labels ''status_class'';
          acc = (if classIs CHR ''4'' class then acc\<lparr>sa_e4xx := sa_e4xx acc + count\<rparr>
                 else if classIs CHR ''5'' class then acc\<lparr>sa_e5xx := sa_e5xx acc + count\<rparr>
                 else acc);
          rid = map_get [] labels ''route_id''
      in if rid \<noteq> [] then
           acc\<lparr>sa_routeTotals := map_put rid (map_get 0 (sa_routeTotals acc) rid + count) (sa_routeTotals acc),
               sa_routeErrors :=
                 (if classIs CHR ''4'' class \<or> classIs CHR ''5'' class
                  then map_put rid (map_get 0 (sa_routeErrors acc) rid + count) (sa_routeErrors acc)
                  else sa_routeErrors acc)\<rparr>
         else acc)"

text \<open>\<^verbatim>\<open>sort.Slice\<close> by descending requests; the order of ties is that of the map.\<close>

definition moreRequests :: "string \<times> 64 word \<Rightarrow> string \<times> 64 word \<Rightarrow> int" where
  "moreRequests a b = (if snd a > snd b then -1 else if snd a < snd b then 1 else 0)"

definition Stats :: "MemoryRecorder \<Rightarrow> GatewayStats" where
  "Stats r =
     (let snap = takeSnapshot r;
          acc = fold statsStep (ms_UpstreamRequests snap)
                  \<lparr>sa_routeTotals = [], sa_routeErrors = [], sa_total = 0, sa_e4xx = 0, sa_e5xx = 0\<rparr>;
          errorRate = (if sa_total acc > 0
            then of_nat (unat (sa_e4xx acc + sa_e5xx acc)) / of_nat (unat (sa_total acc)) * 100 else 0);
          entries = take 5 (SortStableFunc (sa_routeTotals acc) moreRequests)
      in \<lparr>gs_TopRoutes = map (\<lambda>(i, reqs). \<lparr>rs_RouteID = i, rs_Requests = reqs,
            rs_Errors = map_get 0 (sa_routeErrors acc) i\<rparr>) entries,
          gs_RequestsTotal = sa_total acc, gs_Errors4xx = sa_e4xx acc, gs_Errors5xx = sa_e5xx acc,
          gs_ErrorRate = errorRate\<rparr>)"

section \<open>Notions used in the statements\<close>

text \<open>The calls that reach a recorder.\<close>

datatype event =
    EvGateway GatewayLabels int
  | EvPlugin PluginLabels int
  | EvUpstream UpstreamLabels ProxyInfo
  | EvReset

fun apply_event :: "event \<Rightarrow> MemoryRecorder \<Rightarrow> MemoryRecorder" where
  "apply_event (EvGateway l d) r = ObserveGateway l d r"
| "apply_event (EvPlugin l d) r = ObservePlugin l d r"
| "apply_event (EvUpstream l i) r = ObserveUpstream l i r"
| "apply_event EvReset r = Reset r"

definition recorded :: "event list \<Rightarrow> MemoryRecorder" where
  "recorded es = fold apply_event es NewMemoryRecorder"

definition sinceReset :: "event list \<Rightarrow> event list" where
  "sinceReset es = rev (takeWhile (\<lambda>e. e \<noteq> EvReset) (rev es))"

text \<open>The observations (key and value) that an event adds to each family of histograms.\<close>

fun gateway_obs :: "event \<Rightarrow> (string \<times> rat) list" where
  "gateway_obs (EvGateway l d) = [(renderGatewayKey l, Seconds d)]"
| "gateway_obs e = []"

fun plugin_obs :: "event \<Rightarrow> (string \<times> rat) list" where
  "plugin_obs (EvPlugin l d) = [(renderPluginKey l, Seconds d)]"
| "plugin_obs e = []"

fun upstream_obs :: "event \<Rightarrow> (string \<times> rat) list" where
  "upstream_obs (EvUpstream l i) =
     [(renderUpstreamKey l ''connect'', Seconds (pi_ConnectTime i)),
      (renderUpstreamKey l ''tls_handshake'', Seconds (pi_TLSHandshakeTime i)),
      (renderUpstreamKey l ''request_write'', Seconds (pi_RequestWriteTime i)),
      (renderUpstreamKey l ''first_byte'', Seconds (pi_FirstByteTime i)),
      (renderUpstreamKey l ''response_read'', Seconds (pi_ResponseReadTime i)),
      (renderUpstreamKey l ''processing_estimate'', Seconds (pi_ProcessingEstimate i)),
      (renderUpstreamKey l ''total'', Seconds (pi_TotalTime i))]"
| "upstream_obs e = []"

fun upstream_labels :: "event \<Rightarrow> UpstreamLabels list" where
  "upstream_labels (EvUpstream l i) = [l]"
| "upstream_labels e = []"

definition values_of :: "string \<Rightarrow> (string \<times> rat) list \<Rightarrow> rat list" where
  "values_of key kvs = map snd (filter (\<lambda>kv. fst kv = key) kvs)"

text \<open>The abstract histogram of a list of values: each bound counts the values up to it.\<close>

definition histogramOf :: "rat list \<Rightarrow> rat list \<Rightarrow> histogram" where
  "histogramOf bounds vs =
     \<lparr>h_bins = map (\<lambda>b. (b, of_nat (length (filter (\<lambda>v. v \<le> b) vs)))) bounds, h_bounds = bounds,
      h_count = of_nat (length vs), h_sum = sum_list vs\<rparr>"

definition histogramsOf :: "rat list \<Rightarrow> (string \<times> rat) list \<Rightarrow> string \<Rightarrow> histogram option" where
  "histogramsOf bounds kvs key =
     (let vs = values_of key kvs in if vs = [] then None else Some (histogramOf bounds vs))"

definition countOf :: "string \<Rightarrow> string list \<Rightarrow> 64 word" where
  "countOf key ks = of_nat (length (filter (\<lambda>k. k = key) ks))"

text \<open>A label value without the characters that the text form gives a meaning.\<close>

definition clean :: "string \<Rightarrow> bool" where
  "clean v \<longleftrightarrow> list_all (\<lambda>c. c \<noteq> CHR '','' \<and> c \<noteq> CHR 0x22 \<and> c \<noteq> CHR 0x5C \<and> c \<noteq> CHR 0x0A) v"

definition cleanUpstream :: "UpstreamLabels \<Rightarrow> bool" where
  "cleanUpstream l \<longleftrightarrow> clean (ul_Endpoint l) \<and> clean (ul_ErrorType l) \<and> clean (ul_Method l)
     \<and> clean (ul_RouteID l) \<and> clean (ul_Scheme l) \<and> clean (ul_ServiceID l)
     \<and> clean (ul_StatusClass l) \<and> clean (ul_UpstreamID l)"

text \<open>The labels of a key in order, and the text of those that are present.\<close>

definition upstreamLabelList :: "UpstreamLabels \<Rightarrow> string \<Rightarrow> (string \<times> string) list" where
  "upstreamLabelList l phase =
     [(''endpoint'', ul_Endpoint l), (''error_type'', ul_ErrorType l), (''method'', ul_Method l),
      (''phase'', phase), (''reused_conn'', if ul_ReusedConn l then ''true'' else ''false''),
      (''route_id'', ul_RouteID l), (''scheme'', ul_Scheme l), (''service_id'', ul_ServiceID l),
      (''status_class'', ul_StatusClass l), (''upstream_id'', ul_UpstreamID l)]"

definition gatewayLabelList :: "GatewayLabels \<Rightarrow> (string \<times> string) list" where
  "gatewayLabelList l =
     [(''handler'', gl_Handler l), (''method'', gl_Method l), (''route_id'', gl_RouteID l),
      (''status_class'', gl_StatusClass l)]"

definition pluginLabelList :: "PluginLabels \<Rightarrow> (string \<times> string) list" where
  "pluginLabelList l =
     [(''phase'', pl_Phase l), (''plugin'', pl_Plugin l), (''result'', pl_Result l),
      (''route_id'', pl_RouteID l), (''scope'', pl_Scope l), (''service_id'', pl_ServiceID l),
      (''upstream_id'', pl_UpstreamID l)]"

definition labelText :: "string \<times> string \<Rightarrow> string" where
  "labelText kv = fst kv @ [CHR ''='', CHR 0x22] @ appendLabelValue (snd kv) @ [CHR 0x22]"

fun bodyText :: "(string \<times> string) list \<Rightarrow> bool \<Rightarrow> string" where
  "bodyText [] first = []"
| "bodyText (kv # kvs) first =
     (if snd kv = [] then bodyText kvs first
      else (if first then [] else '','') @ labelText kv @ bodyText kvs False)"

text \<open>Summing a counter map over the keys of a kind adds one per increment of that kind.\<close>

definition sum_where :: "(string \<Rightarrow> bool) \<Rightarrow> (string \<times> 64 word) list \<Rightarrow> 64 word" where
  "sum_where P m = sum_list (map (\<lambda>(k, c). if P k then c else 0) m)"

definition label_key :: "string \<Rightarrow> bool" where
  "label_key k \<longleftrightarrow> CHR ''='' \<notin> set k \<and> CHR ''}'' \<notin> set k \<and> CHR '','' \<notin> set k"

text \<open>What the summary reads back from a key.\<close>

abbreviation class_of :: "string \<Rightarrow> string" where
  "class_of key \<equiv> map_get [] (parseLabelKey key) ''status_class''"

abbreviation route_of :: "string \<Rightarrow> string" where
  "route_of key \<equiv> map_get [] (parseLabelKey key) ''route_id''"

text \<open>Concrete calls.\<close>

definition upstreamCall :: "string \<Rightarrow> UpstreamLabels" where
  "upstreamCall class =
     \<lparr>ul_RouteID = ''r1'', ul_ServiceID = ''s1'', ul_UpstreamID = ''u1'', ul_Endpoint = ''127.0.0.1:80'',
      ul_Scheme = ''http'', ul_Method = ''GET'', ul_StatusClass = class, ul_ErrorType = '''',
      ul_ReusedConn = True\<rparr>"

definition noProxyInfo :: ProxyInfo where
  "noProxyInfo =
     \<lparr>pi_Scheme = '''', pi_Address = '''', pi_Host = '''', pi_ConnectTime = 0, pi_TLSHandshakeTime = 0,
      pi_RequestWriteTime = 0, pi_FirstByteTime = 0, pi_ResponseReadTime = 0, pi_TotalTime = 0,
      pi_ProcessingEstimate = 0, pi_ReusedConnection = False\<rparr>"

section \<open>Histograms count the values up to each bound\<close>

lemma newHistogram_spec:
  assumes "distinct bounds"
  shows "newHistogram bounds = histogramOf bounds []"
proof -
  have "fold (\<lambda>bound bins. map_put bound 0 bins) bs m = m @ map (\<lambda>b. (b, 0)) bs"
    if "distinct bs" "set bs \<inter> fst ` set m = {}" for bs and m :: "(rat \<times> 64 word) list"
    using that
  proof (induction bs arbitrary: m)
    case (Cons b bs)
    have "AList.update b 0 m = m @ [(b, 0)]"
      using Cons.prems by (induction m) auto
    then show ?case using Cons by (auto simp: map_put_def)
  qed simp
  from this [of bounds "[]"] assms show ?thesis
    by (simp add: newHistogram_def histogramOf_def)
qed

lemma update_map_key:
  "distinct bs \<Longrightarrow> b \<in> set bs \<Longrightarrow>
    AList.update b x (map (\<lambda>b. (b, f b)) bs) = map (\<lambda>c. (c, if c = b then x else f c)) bs"
  by (induction bs) (auto intro!: map_cong)

lemma observeBounds_spec:
  assumes "distinct all" and "distinct bs" and "set bs \<subseteq> set all"
  shows "observeBounds v bs (map (\<lambda>b. (b, f b)) all)
    = map (\<lambda>b. (b, f b + of_bool (b \<in> set bs \<and> v \<le> b))) all"
  using assms(2,3)
proof (induction bs arbitrary: f)
  case (Cons b bs)
  have get: "map_get 0 (map (\<lambda>b. (b, f b)) all) b = f b"
    using Cons.prems by (auto simp: map_get_def map_of_graph)
  have "observeBounds v (b # bs) (map (\<lambda>b. (b, f b)) all)
      = observeBounds v bs (map (\<lambda>c. (c, if c = b \<and> v \<le> b then f b + 1 else f c)) all)"
    using Cons.prems assms(1) by (simp add: get map_put_def update_map_key)
  also have "\<dots> = map (\<lambda>c. (c, f c + of_bool (c \<in> set (b # bs) \<and> v \<le> c))) all"
    using Cons by (subst Cons.IH) (auto intro!: map_cong)
  finally show ?case .
qed simp

lemma observe_spec:
  assumes "distinct bounds"
  shows "observe v (histogramOf bounds vs) = histogramOf bounds (vs @ [v])"
  using observeBounds_spec [OF assms assms subset_refl]
  by (auto simp: observe_def histogramOf_def)

lemma values_of_snoc:
  "values_of key (kvs @ [(k, v)]) = values_of key kvs @ (if k = key then [v] else [])"
  by (simp add: values_of_def)

lemma histogramsOf_snoc:
  assumes "distinct bounds"
    and "\<forall>key. map_of target key = histogramsOf bounds kvs key"
  shows "\<forall>key. map_of (observeHistogram target k v bounds) key = histogramsOf bounds (kvs @ [(k, v)]) key"
  using assms
  by (auto simp: observeHistogram_def Let_def histogramsOf_def values_of_snoc observe_spec
      newHistogram_spec)

lemma histograms_append:
  assumes "distinct bounds" and "\<forall>key. map_of target key = histogramsOf bounds kvs key"
  shows "\<forall>key. map_of (fold (\<lambda>(k, v) t. observeHistogram t k v bounds) kvs' target) key
    = histogramsOf bounds (kvs @ kvs') key"
  using assms(2)
proof (induction kvs' arbitrary: target kvs)
  case (Cons kv kvs')
  then show ?case using Cons.IH [OF histogramsOf_snoc [OF assms(1) Cons.prems]] by (cases kv) simp
qed simp

lemma buckets_distinct:
  "distinct gatewayDurationBuckets" "distinct pluginDurationBuckets" "distinct upstreamDurationBuckets"
  by (simp_all add: gatewayDurationBuckets_def pluginDurationBuckets_def upstreamDurationBuckets_def)

section \<open>Counters\<close>

lemma countOf_Nil [simp]: "countOf key [] = 0"
  by (simp add: countOf_def)

lemma countOf_snoc [simp]: "countOf key (ks @ [k]) = countOf key ks + of_bool (k = key)"
  by (simp add: countOf_def)

lemma incr_get: "map_get 0 (incr k m) key = map_get 0 m key + of_bool (k = key)"
  by (simp add: incr_def)

lemma incr_keys: "fst ` set (incr k m) = insert k (fst ` set m)"
  by (simp add: incr_def)

lemma incr_distinct: "distinct (map fst m) \<Longrightarrow> distinct (map fst (incr k m))"
  by (simp add: incr_def)

lemma sum_where_update:
  assumes "distinct (map fst m)"
  shows "sum_where P (AList.update k v m)
    = sum_where P m + (if P k then v - map_get 0 m k else 0)"
  using assms
proof (induction m)
  case (Cons kc m)
  then show ?case by (cases kc) (auto simp: sum_where_def map_get_def)
qed (simp add: sum_where_def map_get_def)

lemma sum_where_incr:
  "distinct (map fst m) \<Longrightarrow> sum_where P (incr k m) = sum_where P m + of_bool (P k)"
  by (simp add: incr_def map_put_def sum_where_update)

section \<open>Events as increments and observations\<close>

lemma apply_event_gateway:
  assumes "e \<noteq> EvReset"
  shows "gatewayRequests (apply_event e r) = fold incr (map fst (gateway_obs e)) (gatewayRequests r)"
    and "gatewayDurations (apply_event e r)
      = fold (\<lambda>(k, v) t. observeHistogram t k v gatewayDurationBuckets) (gateway_obs e) (gatewayDurations r)"
  using assms by (cases e; simp add: ObserveGateway_def ObservePlugin_def ObserveUpstream_def
      observeUpstreamPhase_def Let_def)+

lemma apply_event_plugin:
  assumes "e \<noteq> EvReset"
  shows "pluginExecutions (apply_event e r) = fold incr (map fst (plugin_obs e)) (pluginExecutions r)"
    and "pluginDurations (apply_event e r)
      = fold (\<lambda>(k, v) t. observeHistogram t k v pluginDurationBuckets) (plugin_obs e) (pluginDurations r)"
  using assms by (cases e; simp add: ObserveGateway_def ObservePlugin_def ObserveUpstream_def
      observeUpstreamPhase_def Let_def)+

lemma apply_event_upstream:
  assumes "e \<noteq> EvReset"
  shows "upstreamRequests (apply_event e r)
      = fold incr (map (\<lambda>l. renderUpstreamKey l '''') (upstream_labels e)) (upstreamRequests r)"
    and "upstreamDurations (apply_event e r)
      = fold (\<lambda>(k, v) t. observeHistogram t k v upstreamDurationBuckets) (upstream_obs e) (upstreamDurations r)"
  using assms by (cases e; simp add: ObserveGateway_def ObservePlugin_def ObserveUpstream_def
      observeUpstreamPhase_def Let_def)+

lemma fold_concat: "fold f (concat (map g xs)) = fold (\<lambda>x. fold f (g x)) xs"
  by (induction xs) (simp_all add: fold_append)

lemma fold_field:
  assumes "\<And>e r. e \<noteq> EvReset \<Longrightarrow> field (apply_event e r) = fold f (g e) (field r)"
    and "EvReset \<notin> set es"
  shows "field (fold apply_event es r) = fold f (concat (map g es)) (field r)"
  using assms(2) by (induction es arbitrary: r) (auto simp: assms(1))

lemma apply_Reset: "apply_event EvReset r = NewMemoryRecorder"
  by (simp add: Reset_def NewMemoryRecorder_def)

lemma sinceReset_snoc:
  "sinceReset (es @ [e]) = (if e = EvReset then [] else sinceReset es @ [e])"
  by (simp add: sinceReset_def)

lemma recorded_sinceReset: "recorded es = recorded (sinceReset es)"
proof (induction es rule: rev_induct)
  case (snoc e es)
  have "sinceReset [] = []" by (simp add: sinceReset_def)
  with snoc show ?case
    by (cases "e = EvReset") (simp_all add: recorded_def sinceReset_snoc apply_Reset del: apply_event.simps(4))
qed (simp add: sinceReset_def)

lemma no_reset: "EvReset \<notin> set (sinceReset es)"
  by (auto simp: sinceReset_def dest: set_takeWhileD)

lemma fold_incr_count: "map_get 0 (fold incr ks m) key = map_get 0 m key + countOf key ks"
  by (induction ks arbitrary: m) (simp_all add: incr_get countOf_def)

lemma fold_incr_distinct: "distinct (map fst m) \<Longrightarrow> distinct (map fst (fold incr ks m))"
  by (induction ks arbitrary: m) (simp_all add: incr_distinct)

lemma sum_where_fold:
  "distinct (map fst m) \<Longrightarrow>
    sum_where P (fold incr ks m) = sum_where P m + of_nat (length (filter P ks))"
  by (induction ks arbitrary: m) (simp_all add: incr_distinct sum_where_incr)

lemma fresh_fields [simp]:
  "gatewayRequests NewMemoryRecorder = []" "gatewayDurations NewMemoryRecorder = []"
  "pluginExecutions NewMemoryRecorder = []" "pluginDurations NewMemoryRecorder = []"
  "upstreamRequests NewMemoryRecorder = []" "upstreamDurations NewMemoryRecorder = []"
  by (simp_all add: NewMemoryRecorder_def)

lemma histograms_from_empty:
  "distinct bounds \<Longrightarrow>
    map_of (fold (\<lambda>(k, v) t. observeHistogram t k v bounds) kvs []) key = histogramsOf bounds kvs key"
  using histograms_append [of bounds "[]" "[]" kvs] by (simp add: histogramsOf_def values_of_def)

section \<open>The text of a key\<close>

lemma fold_appendLabel:
  "fst (fold appendLabel kvs b) = fst b @ bodyText kvs (snd b)"
  by (induction kvs arbitrary: b) (simp_all add: appendLabel_def labelText_def)

lemma renderGatewayKey_text: "renderGatewayKey l = ''{'' @ bodyText (gatewayLabelList l) True @ ''}''"
  using fold_appendLabel [of "gatewayLabelList l" "(''{'', True)"]
  by (simp add: renderGatewayKey_def gatewayLabelList_def Let_def del: bodyText.simps)

lemma renderPluginKey_text: "renderPluginKey l = ''{'' @ bodyText (pluginLabelList l) True @ ''}''"
  using fold_appendLabel [of "pluginLabelList l" "(''{'', True)"]
  by (simp add: renderPluginKey_def pluginLabelList_def Let_def del: bodyText.simps)

lemma renderUpstreamKey_text:
  "renderUpstreamKey l phase = ''{'' @ bodyText (upstreamLabelList l phase) True @ ''}''"
  using fold_appendLabel [of "upstreamLabelList l phase" "(''{'', True)"]
  by (simp add: renderUpstreamKey_def upstreamLabelList_def Let_def del: bodyText.simps)

text \<open>The closing quote of an escaped value can be found again.\<close>

lemma appendLabelValue_inject:
  "appendLabelValue v @ CHR 0x22 # r = appendLabelValue w @ CHR 0x22 # s \<Longrightarrow> v = w \<and> r = s"
proof (induction v arbitrary: w)
  case Nil
  then show ?case by (cases w) (auto split: if_splits)
next
  case (Cons c v)
  show ?case
  proof (cases w)
    case Nil
    with Cons.prems show ?thesis by (auto split: if_splits)
  next
    case (Cons d w')
    with Cons.prems Cons.IH [of w'] show ?thesis by (auto split: if_splits)
  qed
qed

lemma key_inject:
  assumes "CHR ''='' \<notin> set k" "CHR ''='' \<notin> set k'" and "k @ CHR ''='' # r = k' @ CHR ''='' # s"
  shows "k = k' \<and> r = s"
  using assms
proof (induction k arbitrary: k')
  case Nil
  then show ?case by (cases k') auto
next
  case (Cons c k)
  then show ?case by (cases k') auto
qed

lemma bodyText_cases:
  "bodyText kvs first = [] \<or>
    (\<exists>k\<in>fst ` set kvs. \<exists>r. bodyText kvs first = (if first then [] else '','') @ k @ CHR ''='' # r)"
proof (induction kvs arbitrary: first)
  case (Cons kv kvs)
  show ?case
  proof (cases "snd kv = []")
    case True
    then have "bodyText (kv # kvs) first = bodyText kvs first" by simp
    then show ?thesis using Cons.IH [of first] by (simp only: list.set image_insert) blast
  qed (auto simp: labelText_def)
qed simp

lemma bodyText_head_differs:
  assumes "bodyText kvs first @ ''}'' = (if first then [] else '','') @ k @ CHR ''='' # r"
    and "k \<notin> fst ` set kvs" "label_key k" "\<forall>k\<in>fst ` set kvs. label_key k"
  shows False
  using bodyText_cases [of kvs first]
proof
  assume "bodyText kvs first = []"
  with assms(1,3) show False by (cases k) (auto simp: label_key_def split: if_splits)
next
  assume "\<exists>k\<in>fst ` set kvs. \<exists>r. bodyText kvs first = (if first then [] else '','') @ k @ CHR ''='' # r"
  then obtain k' s where k': "k' \<in> fst ` set kvs"
    "bodyText kvs first = (if first then [] else '','') @ k' @ CHR ''='' # s" by blast
  with assms(1) have "k' @ CHR ''='' # s @ ''}'' = k @ CHR ''='' # r" by (auto split: if_splits)
  with key_inject [of k' k] assms k' have "k' = k" by (auto simp: label_key_def)
  with k' assms(2) show False by blast
qed

lemma bodyText_inject:
  assumes "map fst kvs = map fst kvs'" and "distinct (map fst kvs)"
    and "\<forall>k\<in>fst ` set kvs. label_key k"
    and "bodyText kvs first @ ''}'' = bodyText kvs' first @ ''}''"
  shows "kvs = kvs'"
  using assms
proof (induction kvs arbitrary: kvs' first)
  case (Cons kv kvs)
  obtain k v where kv: "kv = (k, v)" by (cases kv)
  with Cons.prems(1) obtain v' ws where kvs': "kvs' = (k, v') # ws" and ws: "map fst kvs = map fst ws"
    by (cases kvs') auto
  have sets: "fst ` set kvs = fst ` set ws" using ws by (metis list.set_map)
  have fresh: "k \<notin> fst ` set kvs" "k \<notin> fst ` set ws" using Cons.prems(2) kv sets by auto
  have good: "label_key k" "\<forall>k\<in>fst ` set kvs. label_key k" "\<forall>k\<in>fst ` set ws. label_key k"
    using Cons.prems(3) kv sets by auto
  consider "v = []" "v' = []" | "v \<noteq> []" "v' \<noteq> []" | "v = []" "v' \<noteq> []" | "v \<noteq> []" "v' = []" by blast
  then show ?case
  proof cases
    case 1
    then have "kvs = ws"
      using Cons.IH [OF ws _ good(2), of first] Cons.prems(2,4) kv kvs' by simp
    then show ?thesis using kv kvs' 1 by simp
  next
    case 2
    then have "appendLabelValue v @ CHR 0x22 # bodyText kvs False @ ''}''
        = appendLabelValue v' @ CHR 0x22 # bodyText ws False @ ''}''"
      using Cons.prems(4) by (simp add: kv kvs' labelText_def split: if_splits)
    from appendLabelValue_inject [OF this] have eq: "v = v'" "bodyText kvs False @ ''}'' = bodyText ws False @ ''}''"
      by auto
    then have "kvs = ws" using Cons.IH [OF ws _ good(2) eq(2)] Cons.prems(2) by simp
    with eq(1) show ?thesis by (simp add: kv kvs')
  next
    case 3
    with Cons.prems(4) show ?thesis
      using bodyText_head_differs [OF _ fresh(1) good(1,2), of first] by (simp add: kv kvs' labelText_def)
  next
    case 4
    with Cons.prems(4) [symmetric] show ?thesis
      using bodyText_head_differs [OF _ fresh(2) good(1,3), of first] by (simp add: kv kvs' labelText_def)
  qed
qed simp

lemma label_keys:
  "\<forall>k\<in>fst ` set (gatewayLabelList l). label_key k"
  "\<forall>k\<in>fst ` set (pluginLabelList l'). label_key k"
  "\<forall>k\<in>fst ` set (upstreamLabelList l'' phase). label_key k"
  by (simp_all add: gatewayLabelList_def pluginLabelList_def upstreamLabelList_def label_key_def)

lemma label_keys_distinct:
  "distinct (map fst (gatewayLabelList l))" "distinct (map fst (pluginLabelList l'))"
  "distinct (map fst (upstreamLabelList l'' phase))"
  by (simp_all add: gatewayLabelList_def pluginLabelList_def upstreamLabelList_def)

section \<open>Parsing a key\<close>

lemma Split_append_sep: "sep \<notin> set w \<Longrightarrow> Split (w @ sep # s) sep = w # Split s sep"
  by (induction w) (auto split: list.splits)

lemma Split_Join:
  "ws \<noteq> [] \<Longrightarrow> \<forall>w\<in>set ws. sep \<notin> set w \<Longrightarrow> Split (Join ws [sep]) sep = ws"
proof (induction ws)
  case (Cons w ws)
  then show ?case by (cases ws) (simp_all add: Split_no_sep Split_append_sep)
qed simp

lemma Trim_quoted:
  assumes "\<forall>c\<in>set v. c \<notin> set q" and "\<forall>c\<in>set a. c \<in> set q" and "\<forall>c\<in>set b. c \<in> set q" and "v \<noteq> []"
  shows "Trim (a @ v @ b) q = v"
proof -
  have "dropWhile (\<lambda>c. c \<in> set q) (a @ v @ b) = v @ b"
    using assms by (cases v) (auto simp: dropWhile_append2)
  moreover have "dropWhile (\<lambda>c. c \<in> set q) (rev v) = rev v"
    using assms by (cases v rule: rev_cases) auto
  then have "dropWhile (\<lambda>c. c \<in> set q) (rev b @ rev v) = rev v"
    using assms by (subst dropWhile_append2) auto
  ultimately show ?thesis by (simp add: Trim_def TrimFunc_def TrimRightFunc_def)
qed

lemma appendLabelValue_clean: "clean v \<Longrightarrow> appendLabelValue v = v"
  by (induction v) (auto simp: clean_def)

lemma bodyText_Join:
  "bodyText kvs first = (let ts = map labelText (filter (\<lambda>kv. snd kv \<noteq> []) kvs)
     in (if first \<or> ts = [] then [] else '','') @ Join ts '','')"
proof (induction kvs arbitrary: first)
  case (Cons kv kvs)
  then show ?case
    by (cases "map labelText (filter (\<lambda>kv. snd kv \<noteq> []) kvs)") (auto simp: Let_def)
qed simp

lemma parseParts_labels:
  assumes "\<forall>kv\<in>set kvs. label_key (fst kv) \<and> clean (snd kv) \<and> snd kv \<noteq> []"
    and "distinct (map fst kvs)"
  shows "map_of (parseParts (map labelText kvs) result) name
    = (case map_of kvs name of Some v \<Rightarrow> Some v | None \<Rightarrow> map_of result name)"
  using assms
proof (induction kvs arbitrary: result)
  case (Cons kv kvs)
  obtain k v where kv: "kv = (k, v)" by (cases kv)
  have "Trim ([CHR 0x22] @ v @ [CHR 0x22]) [CHR 0x22] = v"
    by (rule Trim_quoted) (use Cons.prems kv in \<open>auto simp: clean_def list_all_iff\<close>)
  then have "parseParts (map labelText (kv # kvs)) result = parseParts (map labelText kvs) (map_put k v result)"
    using Cons.prems kv Cut_append [of "CHR ''=''" k] appendLabelValue_clean [of v]
    by (simp add: labelText_def label_key_def)
  moreover have "map_of kvs k = None" using Cons.prems(2) kv by (simp add: map_of_eq_None_iff)
  moreover have "map_of (parseParts (map labelText kvs) (map_put k v result)) name
      = (case map_of kvs name of Some v \<Rightarrow> Some v | None \<Rightarrow> map_of (map_put k v result) name)"
    using Cons by simp
  ultimately show ?case by (simp only: kv) (auto split: option.splits)
qed simp

lemma labelText_no_comma:
  "label_key (fst kv) \<Longrightarrow> clean (snd kv) \<Longrightarrow> CHR '','' \<notin> set (labelText kv)"
  by (auto simp: labelText_def label_key_def appendLabelValue_clean clean_def list_all_iff)

lemma parse_body:
  assumes "\<forall>kv\<in>set kvs. label_key (fst kv) \<and> clean (snd kv)" and "distinct (map fst kvs)"
  shows "map_of (parseLabelKey (''{'' @ bodyText kvs True @ ''}'')) name
    = map_of (filter (\<lambda>kv. snd kv \<noteq> []) kvs) name"
proof -
  let ?ps = "filter (\<lambda>kv. snd kv \<noteq> []) kvs"
  have t: "TrimSuffix (TrimPrefix (''{'' @ bodyText kvs True @ ''}'') ''{'') ''}'' = bodyText kvs True"
    by (simp only: TrimPrefix_append TrimSuffix_append)
  have body: "bodyText kvs True = Join (map labelText ?ps) '',''" by (simp add: bodyText_Join Let_def)
  show ?thesis
  proof (cases "?ps = []")
    case True
    then show ?thesis using t body by (simp add: parseLabelKey_def)
  next
    case False
    have nc: "\<forall>w\<in>set (map labelText ?ps). CHR '','' \<notin> set w"
      using assms(1) labelText_no_comma by auto
    have "bodyText kvs True \<noteq> []"
      using False body by (cases ?ps; cases "tl ?ps") (auto simp: labelText_def)
    then have "parseLabelKey (''{'' @ bodyText kvs True @ ''}'') = parseParts (map labelText ?ps) []"
      using t Split_Join [OF _ nc] False body by (simp add: parseLabelKey_def)
    moreover have "distinct (map fst ?ps)" using assms(2) by (rule distinct_map_filter)
    ultimately show ?thesis
      using parseParts_labels [of ?ps "[]" name] assms(1) by (auto split: option.splits)
  qed
qed

lemma map_get_filter:
  assumes "distinct (map fst kvs)" and "(k, v) \<in> set kvs"
  shows "map_get [] (filter (\<lambda>kv. snd kv \<noteq> []) kvs) k = v"
proof (cases "v = []")
  case True
  have "map_of (filter (\<lambda>kv. snd kv \<noteq> []) kvs) k = None"
    using assms True by (auto simp: map_of_eq_None_iff dest: eq_key_imp_eq_value)
  with True show ?thesis by (simp add: map_get_def)
next
  case False
  then have "map_of (filter (\<lambda>kv. snd kv \<noteq> []) kvs) k = Some v"
    using assms by (intro map_of_is_SomeI) (auto intro: distinct_map_filter)
  then show ?thesis by (simp add: map_get_def)
qed

lemma parse_upstream:
  assumes "cleanUpstream l" and "(name, v) \<in> set (upstreamLabelList l [])"
  shows "map_get [] (parseLabelKey (renderUpstreamKey l [])) name = v"
proof -
  have "\<forall>kv\<in>set (upstreamLabelList l []). label_key (fst kv) \<and> clean (snd kv)"
    using assms(1) label_keys(3) [of l "[]"]
    by (auto simp: upstreamLabelList_def cleanUpstream_def clean_def)
  from parse_body [OF this label_keys_distinct(3)] show ?thesis
    using map_get_filter [OF label_keys_distinct(3) assms(2)]
    by (simp add: renderUpstreamKey_text map_get_def)
qed

lemma parse_upstream_fields:
  assumes "cleanUpstream l"
  shows "map_get [] (parseLabelKey (renderUpstreamKey l [])) ''status_class'' = ul_StatusClass l"
    and "map_get [] (parseLabelKey (renderUpstreamKey l [])) ''route_id'' = ul_RouteID l"
  using parse_upstream [OF assms, of "''status_class''"] parse_upstream [OF assms, of "''route_id''"]
  by (simp_all add: upstreamLabelList_def)

section \<open>The summary\<close>

lemma sum_where_Cons: "sum_where P ((k, c) # m) = (if P k then c else 0) + sum_where P m"
  by (simp add: sum_where_def)

lemma sum_where_Nil: "sum_where P [] = 0"
  by (simp add: sum_where_def)

lemma classIs_exclusive: "classIs CHR ''4'' c \<Longrightarrow> \<not> classIs CHR ''5'' c"
  by (simp add: classIs_def)

lemma fold_stats_totals:
  "sa_total (fold statsStep m acc) = sa_total acc + sum_where (\<lambda>k. True) m"
  "sa_e4xx (fold statsStep m acc) = sa_e4xx acc + sum_where (\<lambda>k. classIs CHR ''4'' (class_of k)) m"
  "sa_e5xx (fold statsStep m acc) = sa_e5xx acc + sum_where (\<lambda>k. classIs CHR ''5'' (class_of k)) m"
  by (induction m arbitrary: acc;
      force simp: statsStep_def Let_def sum_where_Cons sum_where_Nil dest: classIs_exclusive)+

lemma fold_stats_routes:
  assumes "rid \<noteq> []"
  shows "map_get 0 (sa_routeTotals (fold statsStep m acc)) rid
      = map_get 0 (sa_routeTotals acc) rid + sum_where (\<lambda>k. route_of k = rid) m"
    and "map_get 0 (sa_routeErrors (fold statsStep m acc)) rid
      = map_get 0 (sa_routeErrors acc) rid
        + sum_where (\<lambda>k. route_of k = rid \<and> (classIs CHR ''4'' (class_of k) \<or> classIs CHR ''5'' (class_of k))) m"
  using assms by (induction m arbitrary: acc;
      force simp: statsStep_def Let_def sum_where_Cons sum_where_Nil)+

lemma fold_stats_keys:
  "distinct (map fst (sa_routeTotals acc)) \<Longrightarrow> [] \<notin> fst ` set (sa_routeTotals acc) \<Longrightarrow>
    distinct (map fst (sa_routeTotals (fold statsStep m acc)))
    \<and> [] \<notin> fst ` set (sa_routeTotals (fold statsStep m acc))"
  by (induction m arbitrary: acc) (simp_all add: statsStep_def Let_def)

interpretation by_requests: comparator moreRequests "\<lambda>_. True"
  by unfold_locales (auto simp: moreRequests_def split: if_splits)

lemma stats_acc_start:
  "distinct (map fst (sa_routeTotals \<lparr>sa_routeTotals = [], sa_routeErrors = [], sa_total = 0, sa_e4xx = 0, sa_e5xx = 0\<rparr>))"
  "[] \<notin> fst ` set (sa_routeTotals \<lparr>sa_routeTotals = [], sa_routeErrors = [], sa_total = 0, sa_e4xx = 0, sa_e5xx = 0\<rparr>)"
  by simp_all

lemma Stats_top_entry:
  assumes "e \<in> set (gs_TopRoutes (Stats r))"
  shows "rs_RouteID e \<noteq> []"
    and "rs_Requests e = sum_where (\<lambda>k. route_of k = rs_RouteID e) (upstreamRequests r)"
    and "rs_Errors e = sum_where (\<lambda>k. route_of k = rs_RouteID e
          \<and> (classIs CHR ''4'' (class_of k) \<or> classIs CHR ''5'' (class_of k))) (upstreamRequests r)"
proof -
  let ?acc = "fold statsStep (upstreamRequests r)
    \<lparr>sa_routeTotals = [], sa_routeErrors = [], sa_total = 0, sa_e4xx = 0, sa_e5xx = 0\<rparr>"
  obtain i reqs where e: "e = \<lparr>rs_RouteID = i, rs_Requests = reqs, rs_Errors = map_get 0 (sa_routeErrors ?acc) i\<rparr>"
    and "(i, reqs) \<in> set (take 5 (SortStableFunc (sa_routeTotals ?acc) moreRequests))"
    using assms by (auto simp: Stats_def Let_def takeSnapshot_def)
  then have mem: "(i, reqs) \<in> set (sa_routeTotals ?acc)" by (auto dest: in_set_takeD)
  with fold_stats_keys [OF stats_acc_start] have i: "i \<noteq> []"
    and "map_of (sa_routeTotals ?acc) i = Some reqs" by (force intro: map_of_is_SomeI)+
  then have reqs: "map_get 0 (sa_routeTotals ?acc) i = reqs" by (simp add: map_get_def)
  show "rs_RouteID e \<noteq> []" using i e by simp
  show "rs_Requests e = sum_where (\<lambda>k. route_of k = rs_RouteID e) (upstreamRequests r)"
    using reqs fold_stats_routes(1) [OF i] by (simp add: e map_get_def)
  show "rs_Errors e = sum_where (\<lambda>k. route_of k = rs_RouteID e
          \<and> (classIs CHR ''4'' (class_of k) \<or> classIs CHR ''5'' (class_of k))) (upstreamRequests r)"
    using fold_stats_routes(2) [OF i] by (simp add: e map_get_def)
qed

lemma Stats_top_sorted:
  "length (gs_TopRoutes (Stats r)) \<le> 5"
  "sorted_wrt (\<lambda>a b. rs_Requests b \<le> rs_Requests a) (gs_TopRoutes (Stats r))"
proof -
  let ?acc = "fold statsStep (upstreamRequests r)
    \<lparr>sa_routeTotals = [], sa_routeErrors = [], sa_total = 0, sa_e4xx = 0, sa_e5xx = 0\<rparr>"
  show "length (gs_TopRoutes (Stats r)) \<le> 5" by (simp add: Stats_def Let_def)
  have "sorted_wrt (\<lambda>a b. moreRequests a b \<le> 0) (take 5 (SortStableFunc (sa_routeTotals ?acc) moreRequests))"
    using by_requests.sorted_SortStableFunc by (intro sorted_wrt_take) simp
  then have "sorted_wrt (\<lambda>a b. snd b \<le> snd a) (take 5 (SortStableFunc (sa_routeTotals ?acc) moreRequests))"
    by (rule sorted_wrt_mono_rel [rotated]) (auto simp: moreRequests_def split: if_splits)
  then show "sorted_wrt (\<lambda>a b. rs_Requests b \<le> rs_Requests a) (gs_TopRoutes (Stats r))"
    by (simp add: Stats_def Let_def takeSnapshot_def sorted_wrt_map case_prod_beta)
qed

lemma Stats_totals:
  "gs_RequestsTotal (Stats r) = sum_where (\<lambda>k. True) (upstreamRequests r)"
  "gs_Errors4xx (Stats r) = sum_where (\<lambda>k. classIs CHR ''4'' (class_of k)) (upstreamRequests r)"
  "gs_Errors5xx (Stats r) = sum_where (\<lambda>k. classIs CHR ''5'' (class_of k)) (upstreamRequests r)"
  by (simp_all add: Stats_def Let_def takeSnapshot_def fold_stats_totals)

lemma recorded_fold: "recorded es = fold apply_event (sinceReset es) NewMemoryRecorder"
  using recorded_sinceReset [of es] by (simp add: recorded_def)

lemma upstreamRequests_recorded:
  "upstreamRequests (recorded es)
    = fold incr (map (\<lambda>l. renderUpstreamKey l '''') (concat (map upstream_labels (sinceReset es)))) []"
  unfolding recorded_fold
  by (subst fold_field [OF apply_event_upstream(1) no_reset]) (simp_all add: map_concat comp_def)

lemma sum_where_recorded:
  "sum_where P (upstreamRequests (recorded es))
    = of_nat (length (filter (\<lambda>l. P (renderUpstreamKey l '''')) (concat (map upstream_labels (sinceReset es)))))"
  by (simp add: upstreamRequests_recorded sum_where_fold sum_where_Nil filter_map comp_def)

section \<open>The properties\<close>

text \<open>
  C16. The recorder refines its specification, the list of calls since the last
  \<^verbatim>\<open>Reset\<close>: each counter is the number of calls with that key (modulo \<open>2 ^ 64\<close>) and each
  histogram is the cumulative histogram of the values observed under that key, the bin of a bound
  counting the values up to it; for the gateway, the plugins and the seven phases of an upstream
  call.
\<close>

theorem recorder_refines:
  "map_get 0 (gatewayRequests (recorded es)) key
     = countOf key (map fst (concat (map gateway_obs (sinceReset es))))
   \<and> map_of (gatewayDurations (recorded es)) key
     = histogramsOf gatewayDurationBuckets (concat (map gateway_obs (sinceReset es))) key
   \<and> map_get 0 (pluginExecutions (recorded es)) key
     = countOf key (map fst (concat (map plugin_obs (sinceReset es))))
   \<and> map_of (pluginDurations (recorded es)) key
     = histogramsOf pluginDurationBuckets (concat (map plugin_obs (sinceReset es))) key
   \<and> map_get 0 (upstreamRequests (recorded es)) key
     = countOf key (map (\<lambda>l. renderUpstreamKey l '''') (concat (map upstream_labels (sinceReset es))))
   \<and> map_of (upstreamDurations (recorded es)) key
     = histogramsOf upstreamDurationBuckets (concat (map upstream_obs (sinceReset es))) key"
  unfolding recorded_fold
  by (simp add: fold_field [OF apply_event_gateway(1) no_reset] fold_field [OF apply_event_gateway(2) no_reset]
      fold_field [OF apply_event_plugin(1) no_reset] fold_field [OF apply_event_plugin(2) no_reset]
      fold_field [OF apply_event_upstream(1) no_reset] fold_field [OF apply_event_upstream(2) no_reset]
      fold_incr_count histograms_from_empty buckets_distinct map_concat comp_def map_get_def [of _ "[]"])

text \<open>
  Different label sets never share a metric: the keys of gateway, plugin and upstream metrics
  are injective in their labels, whatever bytes the labels contain.
\<close>

theorem render_keys_injective:
  "(renderGatewayKey g = renderGatewayKey g' \<longleftrightarrow> g = g')
   \<and> (renderPluginKey p = renderPluginKey p' \<longleftrightarrow> p = p')
   \<and> (renderUpstreamKey u phase = renderUpstreamKey u' phase' \<longleftrightarrow> u = u' \<and> phase = phase')"
proof (intro conjI iffI)
  assume "renderGatewayKey g = renderGatewayKey g'"
  then have "bodyText (gatewayLabelList g) True @ ''}'' = bodyText (gatewayLabelList g') True @ ''}''"
    by (simp add: renderGatewayKey_text)
  then have "gatewayLabelList g = gatewayLabelList g'"
    by (intro bodyText_inject [OF _ label_keys_distinct(1) label_keys(1)]) (simp_all add: gatewayLabelList_def)
  then show "g = g'" by (simp add: gatewayLabelList_def)
next
  assume "renderPluginKey p = renderPluginKey p'"
  then have "bodyText (pluginLabelList p) True @ ''}'' = bodyText (pluginLabelList p') True @ ''}''"
    by (simp add: renderPluginKey_text)
  then have "pluginLabelList p = pluginLabelList p'"
    by (intro bodyText_inject [OF _ label_keys_distinct(2) label_keys(2)]) (simp_all add: pluginLabelList_def)
  then show "p = p'" by (simp add: pluginLabelList_def)
next
  assume "renderUpstreamKey u phase = renderUpstreamKey u' phase'"
  then have "bodyText (upstreamLabelList u phase) True @ ''}'' = bodyText (upstreamLabelList u' phase') True @ ''}''"
    by (simp add: renderUpstreamKey_text)
  then have "upstreamLabelList u phase = upstreamLabelList u' phase'"
    by (intro bodyText_inject [OF _ label_keys_distinct(3) label_keys(3)]) (simp_all add: upstreamLabelList_def)
  then show "u = u'" and "phase = phase'" by (simp_all add: upstreamLabelList_def split: if_splits)
qed simp_all

text \<open>
  When no label of an upstream call contains a comma, a quote, a backslash or a newline, the
  admin summary counts the calls since the last reset: the total, the calls whose status class
  starts with 4 and with 5, and for every listed route its calls and its failed calls; it lists at
  most five routes, in descending order of calls.
\<close>

theorem Stats_counts:
  assumes "\<forall>l\<in>set (concat (map upstream_labels (sinceReset es))). cleanUpstream l"
  shows "(let ls = concat (map upstream_labels (sinceReset es)); st = Stats (recorded es);
          failed = (\<lambda>l. classIs CHR ''4'' (ul_StatusClass l) \<or> classIs CHR ''5'' (ul_StatusClass l))
     in gs_RequestsTotal st = of_nat (length ls)
      \<and> gs_Errors4xx st = of_nat (length (filter (\<lambda>l. classIs CHR ''4'' (ul_StatusClass l)) ls))
      \<and> gs_Errors5xx st = of_nat (length (filter (\<lambda>l. classIs CHR ''5'' (ul_StatusClass l)) ls))
      \<and> (\<forall>e\<in>set (gs_TopRoutes st).
            rs_Requests e = of_nat (length (filter (\<lambda>l. ul_RouteID l = rs_RouteID e) ls))
          \<and> rs_Errors e = of_nat (length (filter (\<lambda>l. ul_RouteID l = rs_RouteID e \<and> failed l) ls)))
      \<and> length (gs_TopRoutes st) \<le> 5
      \<and> sorted_wrt (\<lambda>a b. rs_Requests b \<le> rs_Requests a) (gs_TopRoutes st))"
proof -
  let ?ls = "concat (map upstream_labels (sinceReset es))"
  have cong: "filter (\<lambda>l. P (class_of (renderUpstreamKey l [])) (route_of (renderUpstreamKey l [])))
        (concat (map upstream_labels (sinceReset es)))
      = filter (\<lambda>l. P (ul_StatusClass l) (ul_RouteID l)) (concat (map upstream_labels (sinceReset es)))" for P
    using assms by (intro filter_cong) (auto simp: parse_upstream_fields)
  have routes: "rs_Requests e = of_nat (length (filter (\<lambda>l. ul_RouteID l = rs_RouteID e) ?ls))"
    "rs_Errors e = of_nat (length (filter (\<lambda>l. ul_RouteID l = rs_RouteID e
        \<and> (classIs CHR ''4'' (ul_StatusClass l) \<or> classIs CHR ''5'' (ul_StatusClass l))) ?ls))"
    if "e \<in> set (gs_TopRoutes (Stats (recorded es)))" for e
    using Stats_top_entry(2,3) [OF that] cong [of "\<lambda>c i. i = rs_RouteID e"]
      cong [of "\<lambda>c i. i = rs_RouteID e \<and> (classIs CHR ''4'' c \<or> classIs CHR ''5'' c)"]
    by (simp_all add: sum_where_recorded)
  show ?thesis
    unfolding Let_def
    using cong [of "\<lambda>c i. classIs CHR ''4'' c"] cong [of "\<lambda>c i. classIs CHR ''5'' c"]
      Stats_top_sorted routes by (simp add: Stats_totals sum_where_recorded)
qed

theorem Stats_counts_witness:
  "gs_Errors5xx (Stats (recorded [EvUpstream (upstreamCall ''5xx'') noProxyInfo, EvReset,
      EvUpstream (upstreamCall ''5xx'') noProxyInfo, EvUpstream (upstreamCall ''2xx'') noProxyInfo])) = 1"
proof -
  let ?es = "[EvUpstream (upstreamCall ''5xx'') noProxyInfo, EvReset,
      EvUpstream (upstreamCall ''5xx'') noProxyInfo, EvUpstream (upstreamCall ''2xx'') noProxyInfo]"
  have ls: "concat (map upstream_labels (sinceReset ?es)) = [upstreamCall ''5xx'', upstreamCall ''2xx'']"
    by (simp add: sinceReset_def)
  have "cleanUpstream (upstreamCall ''5xx'')" "cleanUpstream (upstreamCall ''2xx'')" by code_simp+
  then show ?thesis
    using Stats_counts [of ?es] unfolding ls Let_def by (simp add: classIs_def upstreamCall_def)
qed

text \<open>
  A comma in a label is not read back: the calls of the route \<open>a,b\<close> are summarised under the
  route \<open>a\<close>.
\<close>

theorem Stats_comma_in_route:
  "let l = \<lparr>ul_RouteID = ''a,b'', ul_ServiceID = '''', ul_UpstreamID = '''', ul_Endpoint = '''',
            ul_Scheme = '''', ul_Method = ''GET'', ul_StatusClass = ''2xx'', ul_ErrorType = '''',
            ul_ReusedConn = False\<rparr>
   in map rs_RouteID (gs_TopRoutes (Stats ((NewMemoryRecorder)\<lparr>upstreamRequests := [(renderUpstreamKey l '''', 3)]\<rparr>)))
      = [''a'']"
  by code_simp

end
