(* ===== verification/Plugin_Context.thy ===== *)
theory Plugin_Context
  imports Observability
begin

text \<open>
  The plugin context of a request, \<^verbatim>\<open>internal/plugin/context.go\<close> and the keys of
  \<^verbatim>\<open>internal/runtimectx/keys.go\<close>: the reserved values kept in fields, every other key in the
  HTTP framework's request context.

  The framework's request context is an abstract type; \<open>rawGet\<close> and \<open>rawSet\<close> are its key-value
  store (\<^verbatim>\<open>RequestContext.Get\<close> and \<^verbatim>\<open>Set\<close>). A dynamically typed value is a value
  of \<open>pvalue\<close>, so that a failed type assertion is a constructor that does not match; a nil error is
  not an \<^verbatim>\<open>error\<close> value for a type assertion, so it is \<open>VNil\<close>.
\<close>

section \<open>Keys and values\<close>

definition RouteIDKey :: string where "RouteIDKey = ''lumen.route_id''"
definition ServiceIDKey :: string where "ServiceIDKey = ''lumen.service_id''"
definition UpstreamIDKey :: string where "UpstreamIDKey = ''lumen.upstream_id''"
definition UpstreamHostKey :: string where "UpstreamHostKey = ''lumen.upstream_host''"
definition EndpointAddrKey :: string where "EndpointAddrKey = ''lumen.endpoint_addr''"
definition RequestIDKey :: string where "RequestIDKey = ''lumen.request_id''"
definition RegexCapturesKey :: string where "RegexCapturesKey = ''lumen.regex_captures''"
definition PhaseKey :: string where "PhaseKey = ''lumen.phase''"
definition GatewayErrorKey :: string where "GatewayErrorKey = ''lumen.gateway_error''"
definition ProxyInfoKey :: string where "ProxyInfoKey = ''lumen.proxy_info''"
definition UpstreamStatusKey :: string where "UpstreamStatusKey = ''lumen.upstream_status''"
definition PluginAbortKey :: string where "PluginAbortKey = ''lumen.plugin_abort''"

lemmas key_defs = RouteIDKey_def ServiceIDKey_def UpstreamIDKey_def UpstreamHostKey_def
  EndpointAddrKey_def RequestIDKey_def RegexCapturesKey_def PhaseKey_def GatewayErrorKey_def
  ProxyInfoKey_def UpstreamStatusKey_def PluginAbortKey_def

datatype pvalue =
    VNil
  | VString string
  | VStrings "string list"
  | VError string
  | VInt int
  | VBool bool
  | VProxyInfo ProxyInfo
  | VOther any

section \<open>The context\<close>

record 'raw hertzPluginContext =
  hpc_raw :: 'raw
  hpc_routeID :: string
  hpc_serviceID :: string
  hpc_upstreamID :: string
  hpc_upstreamHost :: string
  hpc_endpointAddress :: string
  hpc_phase :: string
  hpc_requestID :: string
  hpc_regexCaptures :: "string list"
  hpc_gatewayError :: "string option"
  hpc_upstreamStatus :: int
  hpc_proxyInfo :: ProxyInfo
  hpc_aborted :: bool

text \<open>The context that \<^verbatim>\<open>FromRequestContext\<close> creates on first use.\<close>

definition FromRequestContext :: "'raw \<Rightarrow> 'raw hertzPluginContext" where
  "FromRequestContext c =
     \<lparr>hpc_raw = c, hpc_routeID = [], hpc_serviceID = [], hpc_upstreamID = [], hpc_upstreamHost = [],
      hpc_endpointAddress = [], hpc_phase = [], hpc_requestID = [], hpc_regexCaptures = [],
      hpc_gatewayError = None, hpc_upstreamStatus = 0, hpc_proxyInfo = noProxyInfo, hpc_aborted = False\<rparr>"

text \<open>An \<^verbatim>\<open>error\<close> field read as a dynamic value.\<close>

definition errValue :: "string option \<Rightarrow> pvalue" where
  "errValue e = (case e of None \<Rightarrow> VNil | Some msg \<Rightarrow> VError msg)"

definition Value :: "('raw \<Rightarrow> string \<Rightarrow> pvalue option) \<Rightarrow> 'raw hertzPluginContext \<Rightarrow> string \<Rightarrow> pvalue option" where
  "Value rawGet p key =
     (if key = RouteIDKey then Some (VString (hpc_routeID p))
      else if key = ServiceIDKey then Some (VString (hpc_serviceID p))
      else if key = UpstreamIDKey then Some (VString (hpc_upstreamID p))
      else if key = UpstreamHostKey then Some (VString (hpc_upstreamHost p))
      else if key = EndpointAddrKey then Some (VString (hpc_endpointAddress p))
      else if key = PhaseKey then Some (VString (hpc_phase p))
      else if key = RequestIDKey then Some (VString (hpc_requestID p))
      else if key = RegexCapturesKey then Some (VStrings (hpc_regexCaptures p))
      else if key = GatewayErrorKey then Some (errValue (hpc_gatewayError p))
      else if key = UpstreamStatusKey then Some (VInt (hpc_upstreamStatus p))
      else if key = ProxyInfoKey then Some (VProxyInfo (hpc_proxyInfo p))
      else if key = PluginAbortKey then Some (VBool (hpc_aborted p))
      else rawGet (hpc_raw p) key)"

definition SetValue ::
    "('raw \<Rightarrow> string \<Rightarrow> pvalue \<Rightarrow> 'raw) \<Rightarrow> 'raw hertzPluginContext \<Rightarrow> string \<Rightarrow> pvalue
      \<Rightarrow> 'raw hertzPluginContext" where
  "SetValue rawSet p key value =
     (if key = RouteIDKey then (case value of VString s \<Rightarrow> p\<lparr>hpc_routeID := s\<rparr> | _ \<Rightarrow> p)
      else if key = ServiceIDKey then (case value of VString s \<Rightarrow> p\<lparr>hpc_serviceID := s\<rparr> | _ \<Rightarrow> p)
      else if key = UpstreamIDKey then (case value of VString s \<Rightarrow> p\<lparr>hpc_upstreamID := s\<rparr> | _ \<Rightarrow> p)
      else if key = UpstreamHostKey then (case value of VString s \<Rightarrow> p\<lparr>hpc_upstreamHost := s\<rparr> | _ \<Rightarrow> p)
      else if key = EndpointAddrKey then (case value of VString s \<Rightarrow> p\<lparr>hpc_endpointAddress := s\<rparr> | _ \<Rightarrow> p)
      else if key = PhaseKey then (case value of VString s \<Rightarrow> p\<lparr>hpc_phase := s\<rparr> | _ \<Rightarrow> p)
      else if key = RequestIDKey then (case value of VString s \<Rightarrow> p\<lparr>hpc_requestID := s\<rparr> | _ \<Rightarrow> p)
      else if key = RegexCapturesKey then (case value of VStrings s \<Rightarrow> p\<lparr>hpc_regexCaptures := s\<rparr> | _ \<Rightarrow> p)
      else if key = GatewayErrorKey then (case value of VError e \<Rightarrow> p\<lparr>hpc_gatewayError := Some e\<rparr> | _ \<Rightarrow> p)
      else if key = UpstreamStatusKey then (case value of VInt i \<Rightarrow> p\<lparr>hpc_upstreamStatus := i\<rparr> | _ \<Rightarrow> p)
      else if key = ProxyInfoKey then (case value of VProxyInfo i \<Rightarrow> p\<lparr>hpc_proxyInfo := i\<rparr> | _ \<Rightarrow> p)
      else if key = PluginAbortKey then (case value of VBool b \<Rightarrow> p\<lparr>hpc_aborted := b\<rparr> | _ \<Rightarrow> p)
      else p\<lparr>hpc_raw := rawSet (hpc_raw p) key value\<rparr>)"

text \<open>
  The package-level setters. The context is always a \<^verbatim>\<open>*hertzPluginContext\<close>: it is the only
  implementation of \<^verbatim>\<open>PluginContext\<close>, so their other branch is not taken.
\<close>

definition SetRouteID :: "string \<Rightarrow> 'raw hertzPluginContext \<Rightarrow> 'raw hertzPluginContext" where
  "SetRouteID s p = p\<lparr>hpc_routeID := s\<rparr>"

definition SetServiceID :: "string \<Rightarrow> 'raw hertzPluginContext \<Rightarrow> 'raw hertzPluginContext" where
  "SetServiceID s p = p\<lparr>hpc_serviceID := s\<rparr>"

definition SetUpstreamID :: "string \<Rightarrow> 'raw hertzPluginContext \<Rightarrow> 'raw hertzPluginContext" where
  "SetUpstreamID s p = p\<lparr>hpc_upstreamID := s\<rparr>"

definition SetUpstreamHost :: "string \<Rightarrow> 'raw hertzPluginContext \<Rightarrow> 'raw hertzPluginContext" where
  "SetUpstreamHost s p = p\<lparr>hpc_upstreamHost := s\<rparr>"

definition SetEndpointAddress :: "string \<Rightarrow> 'raw hertzPluginContext \<Rightarrow> 'raw hertzPluginContext" where
  "SetEndpointAddress s p = p\<lparr>hpc_endpointAddress := s\<rparr>"

definition SetRequestID :: "string \<Rightarrow> 'raw hertzPluginContext \<Rightarrow> 'raw hertzPluginContext" where
  "SetRequestID s p = p\<lparr>hpc_requestID := s\<rparr>"

definition SetPhase :: "string \<Rightarrow> 'raw hertzPluginContext \<Rightarrow> 'raw hertzPluginContext" where
  "SetPhase s p = p\<lparr>hpc_phase := s\<rparr>"

definition SetRegexCaptures :: "string list \<Rightarrow> 'raw hertzPluginContext \<Rightarrow> 'raw hertzPluginContext" where
  "SetRegexCaptures cs p = p\<lparr>hpc_regexCaptures := cs\<rparr>"

definition SetGatewayError :: "string option \<Rightarrow> 'raw hertzPluginContext \<Rightarrow> 'raw hertzPluginContext" where
  "SetGatewayError err p = (if err = None then p else p\<lparr>hpc_gatewayError := err\<rparr>)"

definition SetUpstreamStatusCode :: "int \<Rightarrow> 'raw hertzPluginContext \<Rightarrow> 'raw hertzPluginContext" where
  "SetUpstreamStatusCode i p = p\<lparr>hpc_upstreamStatus := i\<rparr>"

definition SetProxyInfo :: "ProxyInfo \<Rightarrow> 'raw hertzPluginContext \<Rightarrow> 'raw hertzPluginContext" where
  "SetProxyInfo i p = p\<lparr>hpc_proxyInfo := i\<rparr>"

text \<open>\<open>rawAbort\<close> is \<^verbatim>\<open>RequestContext.Abort\<close>.\<close>

definition Abort ::
    "('raw \<Rightarrow> string \<Rightarrow> pvalue \<Rightarrow> 'raw) \<Rightarrow> ('raw \<Rightarrow> 'raw) \<Rightarrow> 'raw hertzPluginContext \<Rightarrow> 'raw hertzPluginContext" where
  "Abort rawSet rawAbort p =
     p\<lparr>hpc_aborted := True, hpc_raw := rawAbort (rawSet (hpc_raw p) PluginAbortKey (VBool True))\<rparr>"

definition Phase :: "'raw hertzPluginContext \<Rightarrow> string" where
  "Phase p = (if hpc_phase p = [] then ''request'' else hpc_phase p)"

definition IsAborted :: "'raw hertzPluginContext \<Rightarrow> bool" where
  "IsAborted p = hpc_aborted p"

text \<open>\<open>path\<close> and \<open>query\<close> are the framework's path and encoded query string of the request.\<close>

definition RequestURI :: "string \<Rightarrow> string \<Rightarrow> string" where
  "RequestURI path query = (if query = [] then path else path @ ''?'' @ query)"

section \<open>Notions used in the statements\<close>

definition reservedKeys :: "string list" where
  "reservedKeys = [RouteIDKey, ServiceIDKey, UpstreamIDKey, UpstreamHostKey, EndpointAddrKey, PhaseKey,
     RequestIDKey, RegexCapturesKey, GatewayErrorKey, UpstreamStatusKey, ProxyInfoKey, PluginAbortKey]"

text \<open>The dynamic type that a reserved key holds.\<close>

definition typedFor :: "string \<Rightarrow> pvalue \<Rightarrow> bool" where
  "typedFor key value \<longleftrightarrow>
     (if key = RegexCapturesKey then (\<exists>s. value = VStrings s)
      else if key = GatewayErrorKey then (\<exists>e. value = VError e)
      else if key = UpstreamStatusKey then (\<exists>i. value = VInt i)
      else if key = ProxyInfoKey then (\<exists>i. value = VProxyInfo i)
      else if key = PluginAbortKey then (\<exists>b. value = VBool b)
      else key \<in> set reservedKeys \<longrightarrow> (\<exists>s. value = VString s))"

text \<open>A key-value store of the framework, for concrete inputs.\<close>

definition alistGet :: "(string \<times> pvalue) list \<Rightarrow> string \<Rightarrow> pvalue option" where
  "alistGet r k = map_of r k"

definition alistSet :: "(string \<times> pvalue) list \<Rightarrow> string \<Rightarrow> pvalue \<Rightarrow> (string \<times> pvalue) list" where
  "alistSet r k v = map_put k v r"

section \<open>The store behind the context\<close>

lemma reserved_cases:
  obtains "key = RouteIDKey" | "key = ServiceIDKey" | "key = UpstreamIDKey" | "key = UpstreamHostKey"
    | "key = EndpointAddrKey" | "key = PhaseKey" | "key = RequestIDKey" | "key = RegexCapturesKey"
    | "key = GatewayErrorKey" | "key = UpstreamStatusKey" | "key = ProxyInfoKey" | "key = PluginAbortKey"
    | "key \<notin> set reservedKeys"
  unfolding reservedKeys_def by auto

lemma not_reserved [simp]:
  assumes "key \<notin> set reservedKeys"
  shows "Value rawGet p key = rawGet (hpc_raw p) key"
    and "SetValue rawSet p key value = p\<lparr>hpc_raw := rawSet (hpc_raw p) key value\<rparr>"
  using assms by (simp_all add: reservedKeys_def Value_def SetValue_def)

lemma Value_simps [simp]:
  "Value rawGet p RouteIDKey = Some (VString (hpc_routeID p))"
  "Value rawGet p ServiceIDKey = Some (VString (hpc_serviceID p))"
  "Value rawGet p UpstreamIDKey = Some (VString (hpc_upstreamID p))"
  "Value rawGet p UpstreamHostKey = Some (VString (hpc_upstreamHost p))"
  "Value rawGet p EndpointAddrKey = Some (VString (hpc_endpointAddress p))"
  "Value rawGet p PhaseKey = Some (VString (hpc_phase p))"
  "Value rawGet p RequestIDKey = Some (VString (hpc_requestID p))"
  "Value rawGet p RegexCapturesKey = Some (VStrings (hpc_regexCaptures p))"
  "Value rawGet p UpstreamStatusKey = Some (VInt (hpc_upstreamStatus p))"
  "Value rawGet p ProxyInfoKey = Some (VProxyInfo (hpc_proxyInfo p))"
  "Value rawGet p PluginAbortKey = Some (VBool (hpc_aborted p))"
  "Value rawGet p GatewayErrorKey = Some (errValue (hpc_gatewayError p))"
  by (simp_all add: Value_def key_defs)

lemma SetValue_simps [simp]:
  "SetValue rawSet p RouteIDKey v = (case v of VString x \<Rightarrow> p\<lparr>hpc_routeID := x\<rparr> | _ \<Rightarrow> p)"
  "SetValue rawSet p ServiceIDKey v = (case v of VString x \<Rightarrow> p\<lparr>hpc_serviceID := x\<rparr> | _ \<Rightarrow> p)"
  "SetValue rawSet p UpstreamIDKey v = (case v of VString x \<Rightarrow> p\<lparr>hpc_upstreamID := x\<rparr> | _ \<Rightarrow> p)"
  "SetValue rawSet p UpstreamHostKey v = (case v of VString x \<Rightarrow> p\<lparr>hpc_upstreamHost := x\<rparr> | _ \<Rightarrow> p)"
  "SetValue rawSet p EndpointAddrKey v = (case v of VString x \<Rightarrow> p\<lparr>hpc_endpointAddress := x\<rparr> | _ \<Rightarrow> p)"
  "SetValue rawSet p PhaseKey v = (case v of VString x \<Rightarrow> p\<lparr>hpc_phase := x\<rparr> | _ \<Rightarrow> p)"
  "SetValue rawSet p RequestIDKey v = (case v of VString x \<Rightarrow> p\<lparr>hpc_requestID := x\<rparr> | _ \<Rightarrow> p)"
  "SetValue rawSet p RegexCapturesKey v = (case v of VStrings x \<Rightarrow> p\<lparr>hpc_regexCaptures := x\<rparr> | _ \<Rightarrow> p)"
  "SetValue rawSet p UpstreamStatusKey v = (case v of VInt x \<Rightarrow> p\<lparr>hpc_upstreamStatus := x\<rparr> | _ \<Rightarrow> p)"
  "SetValue rawSet p ProxyInfoKey v = (case v of VProxyInfo x \<Rightarrow> p\<lparr>hpc_proxyInfo := x\<rparr> | _ \<Rightarrow> p)"
  "SetValue rawSet p PluginAbortKey v = (case v of VBool x \<Rightarrow> p\<lparr>hpc_aborted := x\<rparr> | _ \<Rightarrow> p)"
  "SetValue rawSet p GatewayErrorKey v = (case v of VError e \<Rightarrow> p\<lparr>hpc_gatewayError := Some e\<rparr> | _ \<Rightarrow> p)"
  by (simp_all add: SetValue_def key_defs)

lemma typedFor_simps [simp]:
  "typedFor RouteIDKey v = (\<exists>x. v = VString x)"
  "typedFor ServiceIDKey v = (\<exists>x. v = VString x)"
  "typedFor UpstreamIDKey v = (\<exists>x. v = VString x)"
  "typedFor UpstreamHostKey v = (\<exists>x. v = VString x)"
  "typedFor EndpointAddrKey v = (\<exists>x. v = VString x)"
  "typedFor PhaseKey v = (\<exists>x. v = VString x)"
  "typedFor RequestIDKey v = (\<exists>x. v = VString x)"
  "typedFor RegexCapturesKey v = (\<exists>x. v = VStrings x)"
  "typedFor UpstreamStatusKey v = (\<exists>x. v = VInt x)"
  "typedFor ProxyInfoKey v = (\<exists>x. v = VProxyInfo x)"
  "typedFor PluginAbortKey v = (\<exists>x. v = VBool x)"
  "typedFor GatewayErrorKey v = (\<exists>x. v = VError x)"
  by (simp_all add: typedFor_def reservedKeys_def key_defs)

locale key_value_store =
  fixes rawGet :: "'raw \<Rightarrow> string \<Rightarrow> pvalue option" and rawSet :: "'raw \<Rightarrow> string \<Rightarrow> pvalue \<Rightarrow> 'raw"
  assumes get_set: "rawGet (rawSet r k v) k' = (if k = k' then Some v else rawGet r k')"
begin

lemma Value_SetValue_typed:
  assumes "typedFor key value"
  shows "Value rawGet (SetValue rawSet p key value) key = Some value"
  using assms by (cases key rule: reserved_cases) (auto simp: errValue_def get_set)

lemma SetValue_ill_typed:
  assumes "key \<in> set reservedKeys" and "\<not> typedFor key value"
  shows "SetValue rawSet p key value = p"
  using assms by (cases key rule: reserved_cases) (simp_all split: pvalue.split)

lemma Value_SetValue_other:
  assumes "key \<noteq> key'"
  shows "Value rawGet (SetValue rawSet p key value) key' = Value rawGet p key'"
  using assms
  by (cases key rule: reserved_cases; cases key' rule: reserved_cases)
    (simp_all add: get_set split: pvalue.split)

end

interpretation alist: key_value_store alistGet alistSet
  by unfold_locales (simp add: alistGet_def alistSet_def)

section \<open>The properties\<close>

text \<open>
  The plugin context is a typed key-value store: over a framework store that returns what was
  last set, a value of the right dynamic type is read back under its key, a value of the wrong type
  for a reserved key leaves the context as it was, and no other key is affected.
\<close>

theorem context_store:
  assumes "\<And>r k v k'. rawGet (rawSet r k v) k' = (if k = k' then Some v else rawGet r k')"
  shows "(typedFor key value \<longrightarrow> Value rawGet (SetValue rawSet p key value) key = Some value)
    \<and> (key \<in> set reservedKeys \<and> \<not> typedFor key value \<longrightarrow> SetValue rawSet p key value = p)
    \<and> (key \<noteq> key' \<longrightarrow> Value rawGet (SetValue rawSet p key value) key' = Value rawGet p key')"
proof -
  have s: "key_value_store rawGet rawSet" using assms by unfold_locales
  show ?thesis
    using key_value_store.Value_SetValue_typed [OF s] key_value_store.SetValue_ill_typed [OF s]
      key_value_store.Value_SetValue_other [OF s] by blast
qed

theorem context_store_witness:
  "Value alistGet (SetValue alistSet (FromRequestContext []) ''my.key'' (VInt 7)) ''my.key'' = Some (VInt 7)
   \<and> SetValue alistSet (FromRequestContext []) RouteIDKey (VInt 7) = FromRequestContext []"
  using context_store [of alistGet alistSet "''my.key''" "VInt 7"]
    context_store [of alistGet alistSet RouteIDKey "VInt 7"]
  by (simp add: alist.get_set typedFor_def reservedKeys_def key_defs)

end
