(* ===== verification/Balancer.thy ===== *)
theory Balancer
  imports Go_Prelude
begin

text \<open>
  Load balancing: \<^verbatim>\<open>internal/balancer/balancer.go\<close>, the round-robin balancer of
  \<^verbatim>\<open>internal/balancer/roundrobin/roundrobin.go\<close> and the endpoint type of
  \<^verbatim>\<open>internal/gateway/gateway.go\<close> that implements \<^verbatim>\<open>balancer.Endpoint\<close>.

  The atomic counter \<^verbatim>\<open>next\<close> is a 64-bit word, converted to a signed \<^verbatim>\<open>int\<close> as the
  code does; an index that leaves the slice is the explicit outcome \<^verbatim>\<open>PickPanic\<close>. The
  read-write mutex makes \<^verbatim>\<open>Pick\<close> and \<^verbatim>\<open>Update\<close> atomic with respect to each other, and
  the counter is only changed by one atomic addition per call, so a run of the balancer is a
  sequence of these operations.

  The locale \<^verbatim>\<open>balancer_contract\<close> is the interface the request path relies on; it is
  interpreted on the round-robin balancer.
\<close>

section \<open>Endpoints\<close>

record Endpoint =
  Tags :: "(string \<times> string) list"
  Addr :: string
  Load :: "32 word"
  Available :: bool

definition Address :: "Endpoint \<Rightarrow> string" where
  "Address e = Addr e"

definition Weight :: "Endpoint \<Rightarrow> 32 word" where
  "Weight e = Load e"

definition IsAvailable :: "Endpoint \<Rightarrow> bool" where
  "IsAvailable e = Available e"

section \<open>The round-robin balancer\<close>

record Balancer =
  rr_endpoints :: "Endpoint list"
  rr_next :: "64 word"

datatype pick_result = Picked Endpoint | ErrNotAvailable | PickPanic

definition Update :: "Endpoint list \<Rightarrow> Balancer \<Rightarrow> Balancer" where
  "Update es b = b\<lparr>rr_endpoints := es\<rparr>"

definition New :: "Endpoint list \<Rightarrow> Balancer" where
  "New es = Update es \<lparr>rr_endpoints = [], rr_next = 0\<rparr>"

text \<open>The loop \<^verbatim>\<open>for i := range b.endpoints\<close>, from iteration \<open>i\<close> with \<open>k\<close> iterations left.\<close>

fun pick_loop :: "Endpoint list \<Rightarrow> int \<Rightarrow> nat \<Rightarrow> nat \<Rightarrow> pick_result" where
  "pick_loop es start i 0 = ErrNotAvailable"
| "pick_loop es start i (Suc k) =
     (let idx = (start + int i) smod int (length es) in
      if idx < 0 \<or> idx \<ge> int (length es) then PickPanic
      else let endpoint = es ! nat idx in
        if IsAvailable endpoint then Picked endpoint
        else pick_loop es start (Suc i) k)"

definition Pick :: "Balancer \<Rightarrow> Balancer \<times> pick_result" where
  "Pick b =
     (if length (rr_endpoints b) = 0 then (b, ErrNotAvailable)
      else
        let added = rr_next b + 1;
            start = sint (added - 1) smod int (length (rr_endpoints b))
        in (b\<lparr>rr_next := added\<rparr>,
            pick_loop (rr_endpoints b) start 0 (length (rr_endpoints b))))"

text \<open>The results of a sequence of picks.\<close>

fun picks :: "nat \<Rightarrow> Balancer \<Rightarrow> pick_result list" where
  "picks 0 b = []"
| "picks (Suc n) b = (let (b', r) = Pick b in r # picks n b')"

definition rr_ready :: "Balancer \<Rightarrow> bool" where
  "rr_ready b \<longleftrightarrow> 0 \<le> sint (rr_next b)"

text \<open>
  The abstract specification of a pick: the first available endpoint of the list rotated by the
  counter.
\<close>

definition pick_spec :: "Endpoint list \<Rightarrow> nat \<Rightarrow> pick_result" where
  "pick_spec es n =
     (case find IsAvailable (rotate n es) of None \<Rightarrow> ErrNotAvailable | Some e \<Rightarrow> Picked e)"

text \<open>An endpoint of the given address and availability, for concrete inputs.\<close>

definition ep :: "string \<Rightarrow> bool \<Rightarrow> Endpoint" where
  "ep a up = \<lparr>Tags = [], Addr = a, Load = 1, Available = up\<rparr>"

section \<open>The contract of a balancer\<close>

text \<open>
  \<open>ready\<close> is the set of states in which the implementation keeps the contract.
\<close>

locale balancer_contract =
  fixes pick :: "'b \<Rightarrow> 'b \<times> pick_result"
    and endpoints_of :: "'b \<Rightarrow> Endpoint list"
    and ready :: "'b \<Rightarrow> bool"
  assumes pick_sound:
      "ready b \<Longrightarrow> snd (pick b) = Picked e \<Longrightarrow> e \<in> set (endpoints_of b) \<and> IsAvailable e"
    and pick_complete:
      "ready b \<Longrightarrow> e \<in> set (endpoints_of b) \<Longrightarrow> IsAvailable e \<Longrightarrow> \<exists>e'. snd (pick b) = Picked e'"
    and pick_no_panic: "ready b \<Longrightarrow> snd (pick b) \<noteq> PickPanic"
    and pick_endpoints: "endpoints_of (fst (pick b)) = endpoints_of b"
begin

lemma pick_unavailable_iff:
  "ready b \<Longrightarrow> snd (pick b) = ErrNotAvailable \<longleftrightarrow> (\<forall>e\<in>set (endpoints_of b). \<not> IsAvailable e)"
  using pick_sound pick_complete pick_no_panic by (cases "snd (pick b)") fastforce+

end

section \<open>Round robin keeps the contract\<close>

lemma smod_nonneg: "0 \<le> a \<Longrightarrow> 0 < b \<Longrightarrow> (a::int) smod b = a mod b"
  by (simp add: signed_modulo_int_def signed_divide_int_def sgn_if minus_div_mult_eq_mod)

lemma smod_neg: "a < 0 \<Longrightarrow> 0 < b \<Longrightarrow> (a::int) smod b = - ((- a) mod b)"
  by (simp add: signed_modulo_int_def signed_divide_int_def sgn_if minus_div_mult_eq_mod
      flip: minus_mult_div_eq_mod)

text \<open>
  With a non-negative start the loop visits the positions \<open>start, start + 1, ...\<close> modulo the
  length and stops at the first available one.
\<close>

lemma pick_loop_find:
  assumes "0 \<le> start" and "es \<noteq> []"
  shows "pick_loop es start i k =
    (case find IsAvailable (map (\<lambda>j. es ! ((nat start + j) mod length es)) [i..<i + k]) of
       None \<Rightarrow> ErrNotAvailable
     | Some e \<Rightarrow> Picked e)"
  using assms
proof (induction k arbitrary: i)
  case 0
  then show ?case by simp
next
  case (Suc k)
  have idx: "(start + int i) smod int (length es) = int ((nat start + i) mod length es)"
    using Suc.prems by (simp add: smod_nonneg zmod_int)
  have upt: "[i..<Suc (i + k)] = i # [Suc i..<Suc (i + k)]"
    by (simp add: upt_conv_Cons)
  have "\<not> length es \<le> (nat start + i) mod length es"
    using Suc.prems by (simp add: not_le)
  then show ?case
    using Suc.IH [of "Suc i"] Suc.prems by (simp add: Let_def idx upt del: upt_Suc)
qed

lemma rotate_map_nth:
  "map (\<lambda>j. xs ! ((n + j) mod length xs)) [0..<length xs] = rotate n xs"
  by (rule nth_equalityI) (auto simp: nth_rotate)

lemma sint_wrap64: "sint (w :: 64 word) = wrap64 (uint w)"
  using int_word_sint [of "uint w", where 'a = 64] by (simp add: wrap64_def)

lemma wrap64_upper_half:
  assumes "2 ^ 63 \<le> x" and "x < 2 ^ 64"
  shows "wrap64 x = x - 2 ^ 64"
proof -
  have "(x + 2 ^ 63) mod 2 ^ 64 = x - 2 ^ 63"
    by (rule int_mod_pos_eq [where q = 1]) (use assms in simp_all)
  then show ?thesis by (simp add: wrap64_def)
qed

lemma uint_64_less: "uint (w :: 64 word) < 2 ^ 64"
  using uint_lt2p [of w] by simp

lemma unat_less_power: "unat (w :: 64 word) < 2 ^ n \<longleftrightarrow> uint w < 2 ^ n"
proof -
  have "unat w < 2 ^ n \<longleftrightarrow> int (unat w) < int (2 ^ n)" by (simp only: of_nat_less_iff)
  then show ?thesis by simp
qed

lemma unat_64_less: "unat (w :: 64 word) < 2 ^ 64"
  by (simp only: unat_less_power uint_64_less)

lemma sint_low: "unat (w :: 64 word) < 2 ^ 63 \<Longrightarrow> sint w = int (unat w)"
proof -
  assume "unat w < 2 ^ 63"
  then have "uint w < 2 ^ 63" by (simp only: unat_less_power)
  then have "wrap64 (uint w) = uint w"
    by (intro wrap64_id) (use uint_ge_0 [of w] in linarith)+
  then show ?thesis by (simp add: sint_wrap64)
qed

lemma sint_high: "2 ^ 63 \<le> unat (w :: 64 word) \<Longrightarrow> sint w = uint w - 2 ^ 64"
proof -
  assume "2 ^ 63 \<le> unat w"
  then have "2 ^ 63 \<le> uint w" by (simp only: not_less [symmetric] unat_less_power simp_thms)
  then show ?thesis using uint_64_less [of w] by (simp only: sint_wrap64 wrap64_upper_half)
qed

lemma rr_ready_iff: "rr_ready b \<longleftrightarrow> unat (rr_next b) < 2 ^ 63"
proof (cases "unat (rr_next b) < 2 ^ 63")
  case True
  then show ?thesis by (simp add: rr_ready_def sint_low)
next
  case False
  then have "sint (rr_next b) = uint (rr_next b) - 2 ^ 64" by (intro sint_high) linarith
  then show ?thesis using False uint_64_less [of "rr_next b"] by (simp add: rr_ready_def)
qed

lemma Pick_endpoints [simp]: "rr_endpoints (fst (Pick b)) = rr_endpoints b"
  by (simp add: Pick_def Let_def)

lemma Pick_rotate:
  assumes "rr_ready b"
  shows "snd (Pick b) = pick_spec (rr_endpoints b) (unat (rr_next b))"
proof (cases "rr_endpoints b = []")
  case True
  then show ?thesis by (simp add: Pick_def pick_spec_def)
next
  case False
  let ?es = "rr_endpoints b"
  have start: "sint (rr_next b) smod int (length ?es) = int (unat (rr_next b) mod length ?es)"
    using assms False by (simp add: smod_nonneg rr_ready_iff sint_low zmod_int)
  have "pick_loop ?es (int (unat (rr_next b) mod length ?es)) 0 (length ?es)
    = pick_spec ?es (unat (rr_next b) mod length ?es)"
    using False by (simp add: pick_loop_find rotate_map_nth pick_spec_def)
  also have "\<dots> = pick_spec ?es (unat (rr_next b))"
    by (simp add: pick_spec_def rotate_conv_mod [symmetric])
  finally show ?thesis
    using False by (simp add: Pick_def Let_def start)
qed

interpretation rr: balancer_contract Pick rr_endpoints rr_ready
proof
  fix b e
  assume "rr_ready b" and "snd (Pick b) = Picked e"
  then have "find IsAvailable (rotate (unat (rr_next b)) (rr_endpoints b)) = Some e"
    by (auto simp: Pick_rotate pick_spec_def split: option.splits)
  then show "e \<in> set (rr_endpoints b) \<and> IsAvailable e"
    by (auto simp: find_Some_iff) (metis length_rotate nth_mem set_rotate)
next
  fix b e
  assume "rr_ready b" "e \<in> set (rr_endpoints b)" "IsAvailable e"
  then show "\<exists>e'. snd (Pick b) = Picked e'"
    by (cases "find IsAvailable (rotate (unat (rr_next b)) (rr_endpoints b))")
      (auto simp: Pick_rotate pick_spec_def find_None_set)
next
  fix b
  assume "rr_ready b"
  then show "snd (Pick b) \<noteq> PickPanic"
    by (simp add: Pick_rotate pick_spec_def split: option.splits)
next
  fix b
  show "rr_endpoints (fst (Pick b)) = rr_endpoints b" by simp
qed

section \<open>Sequences of picks\<close>

lemma Pick_all_available:
  assumes "rr_ready b" and "rr_endpoints b \<noteq> []" and "\<forall>e\<in>set (rr_endpoints b). IsAvailable e"
  shows "Pick b = (b\<lparr>rr_next := rr_next b + 1\<rparr>,
    Picked (rr_endpoints b ! (unat (rr_next b) mod length (rr_endpoints b))))"
proof (rule prod_eqI)
  let ?es = "rr_endpoints b"
  obtain y ys where r: "rotate (unat (rr_next b)) ?es = y # ys"
    using assms(2) by (cases "rotate (unat (rr_next b)) ?es") auto
  then have "y = rotate (unat (rr_next b)) ?es ! 0" by simp
  then have y: "y = ?es ! (unat (rr_next b) mod length ?es)"
    using assms(2) by (simp add: nth_rotate)
  moreover have "y \<in> set ?es" using assms(2) by (simp add: y)
  ultimately show "snd (Pick b) = snd (b\<lparr>rr_next := rr_next b + 1\<rparr>,
      Picked (?es ! (unat (rr_next b) mod length ?es)))"
    using assms(3) r by (simp add: Pick_rotate [OF assms(1)] pick_spec_def)
qed (use assms(2) in \<open>simp add: Pick_def Let_def\<close>)

lemma picks_round_robin:
  assumes "unat (rr_next b) + n \<le> 2 ^ 63" and "rr_endpoints b \<noteq> []"
    and "\<forall>e\<in>set (rr_endpoints b). IsAvailable e"
  shows "picks n b = map (\<lambda>i. Picked (rr_endpoints b ! ((unat (rr_next b) + i) mod length (rr_endpoints b)))) [0..<n]"
  using assms
proof (induction n arbitrary: b)
  case (Suc n)
  let ?b = "b\<lparr>rr_next := rr_next b + 1\<rparr>"
  have "rr_ready b" using Suc.prems(1) by (simp add: rr_ready_iff)
  note P = Pick_all_available [OF this Suc.prems(2,3)]
  have nxt: "unat (rr_next ?b) = Suc (unat (rr_next b))"
    using Suc.prems(1) by (simp add: unat_word_ariths)
  have "picks n ?b = map (\<lambda>i. Picked (rr_endpoints b ! ((Suc (unat (rr_next b)) + i) mod length (rr_endpoints b)))) [0..<n]"
    using Suc.IH [of ?b] Suc.prems nxt by simp
  then show ?case
    by (simp add: P upt_conv_Cons map_Suc_upt [symmetric] del: upt_Suc)
qed simp

lemma mset_rotate_list: "mset (rotate n xs) = mset xs"
  by (metis append_take_drop_id mset_append rotate_drop_take union_commute)

lemma image_repeat_mset: "image_mset f (repeat_mset k M) = repeat_mset k (image_mset f M)"
  by (induction k) simp_all

lemma mset_rotations:
  assumes "xs \<noteq> []"
  shows "mset (map (\<lambda>i. xs ! ((s + i) mod length xs)) [0..<k * length xs]) = repeat_mset k (mset xs)"
proof (induction k)
  case (Suc k)
  let ?f = "\<lambda>s i. xs ! ((s + i) mod length xs)"
  have shift: "map (?f s) [k * length xs..<Suc k * length xs] = map (?f s) [0..<length xs]"
  proof (rule nth_equalityI)
    fix i assume "i < length (map (?f s) [k * length xs..<Suc k * length xs])"
    moreover have "(s + (k * length xs + i)) mod length xs = (s + i) mod length xs"
      by (metis add.assoc add.commute mod_mult_self3)
    ultimately show "map (?f s) [k * length xs..<Suc k * length xs] ! i = map (?f s) [0..<length xs] ! i"
      by simp
  qed simp
  have "[0..<Suc k * length xs] = [0..<k * length xs] @ [k * length xs..<Suc k * length xs]"
    using upt_add_eq_append [of 0 "k * length xs" "length xs"] by (simp add: add.commute)
  then show ?case
    using Suc.IH shift by (simp add: rotate_map_nth mset_rotate_list del: upt_Suc)
qed simp

section \<open>The properties\<close>

text \<open>
  C8. Until the counter reaches \<open>2 ^ 63\<close>, \<^verbatim>\<open>Pick\<close> returns the first available endpoint in
  turn order starting at the counter's position, advances only the counter, and reports
  \<^verbatim>\<open>ErrNotAvailable\<close> exactly when no endpoint is available.
\<close>

theorem Pick_first_available_in_turn:
  assumes "unat (rr_next b) < 2 ^ 63"
  shows "snd (Pick b) = pick_spec (rr_endpoints b) (unat (rr_next b))
    \<and> fst (Pick b) = (if rr_endpoints b = [] then b else b\<lparr>rr_next := rr_next b + 1\<rparr>)
    \<and> (snd (Pick b) = ErrNotAvailable \<longleftrightarrow> (\<forall>e\<in>set (rr_endpoints b). \<not> IsAvailable e))"
  using assms Pick_rotate rr.pick_unavailable_iff
  by (auto simp: rr_ready_iff Pick_def Let_def)

theorem Pick_first_available_in_turn_witness:
  "snd (Pick \<lparr>rr_endpoints = [ep ''a'' False, ep ''b'' True], rr_next = 6\<rparr>) = Picked (ep ''b'' True)
   \<and> snd (Pick \<lparr>rr_endpoints = [ep ''a'' False], rr_next = 6\<rparr>) = ErrNotAvailable"
proof -
  have spec: "pick_spec [ep ''a'' False, ep ''b'' True] 6 = Picked (ep ''b'' True)" by code_simp
  have "pick_spec [ep ''a'' False] 6 = ErrNotAvailable" by code_simp
  then show ?thesis
    using spec
      Pick_first_available_in_turn [of "\<lparr>rr_endpoints = [ep ''a'' False, ep ''b'' True], rr_next = 6\<rparr>"]
      Pick_first_available_in_turn [of "\<lparr>rr_endpoints = [ep ''a'' False], rr_next = 6\<rparr>"]
    by simp
qed

text \<open>
  Fairness: with every endpoint available, \<open>k\<close> rounds of as many picks as there are endpoints
  return each endpoint \<open>k\<close> times for each of its occurrences, wherever the counter starts, as long
  as it stays within \<open>2 ^ 63\<close>. Weights play no part.
\<close>

theorem picks_fair:
  assumes "rr_endpoints b \<noteq> []" and "\<forall>e\<in>set (rr_endpoints b). IsAvailable e"
    and "unat (rr_next b) + k * length (rr_endpoints b) \<le> 2 ^ 63"
  shows "mset (picks (k * length (rr_endpoints b)) b)
    = repeat_mset k (image_mset Picked (mset (rr_endpoints b)))"
proof -
  let ?es = "rr_endpoints b"
  have "picks (k * length ?es) b
      = map Picked (map (\<lambda>i. ?es ! ((unat (rr_next b) + i) mod length ?es)) [0..<k * length ?es])"
    using picks_round_robin [OF assms(3,1,2)] by simp
  also have "mset \<dots> = image_mset Picked (repeat_mset k (mset ?es))"
    by (metis mset_map mset_rotations [OF assms(1)])
  finally show ?thesis by (simp add: image_repeat_mset)
qed

theorem picks_fair_witness:
  "mset (picks (3 * 2) \<lparr>rr_endpoints = [ep ''a'' True, ep ''b'' True], rr_next = 5\<rparr>)
   = repeat_mset 3 {#Picked (ep ''a'' True), Picked (ep ''b'' True)#}"
  using picks_fair [of "\<lparr>rr_endpoints = [ep ''a'' True, ep ''b'' True], rr_next = 5\<rparr>" 3]
  by (simp add: ep_def IsAvailable_def)

text \<open>
  The counter is read as a signed integer: once it has reached \<open>2 ^ 63\<close>, \<^verbatim>\<open>Pick\<close>
  computes a negative index and panics, whatever the endpoints, unless the number of endpoints
  divides the distance to \<open>2 ^ 64\<close>.
\<close>

theorem Pick_panics_after_wrap:
  assumes "rr_endpoints b \<noteq> []" and "2 ^ 63 \<le> unat (rr_next b)"
    and "\<not> length (rr_endpoints b) dvd 2 ^ 64 - unat (rr_next b)"
  shows "snd (Pick b) = PickPanic"
proof -
  let ?n = "length (rr_endpoints b)" and ?u = "unat (rr_next b)"
  have less: "?u < 2 ^ 64" by (rule unat_64_less)
  have "int (2 ^ 64 - ?u) = 2 ^ 64 - uint (rr_next b)"
    using less by (simp add: of_nat_diff less_imp_le)
  with sint_high [OF assms(2)] have sint: "sint (rr_next b) = - int (2 ^ 64 - ?u)" by linarith
  let ?m = "int ((2 ^ 64 - ?u) mod ?n)"
  have "?m \<noteq> 0" using assms(3) by (simp add: dvd_eq_mod_eq_0)
  then have m: "0 < ?m" by linarith
  have mn: "?m < int ?n" using assms(1) by simp
  have neg: "- int (2 ^ 64 - ?u) < 0" using less by linarith
  have start: "sint (rr_next b) smod int ?n = - ?m"
    using smod_neg [OF neg, of "int ?n"] assms(1) unfolding sint by (simp add: zmod_int)
  have "(- ?m) smod int ?n = - ?m" using smod_neg [of "- ?m" "int ?n"] m mn assms(1) by simp
  then have "pick_loop (rr_endpoints b) (- ?m) 0 ?n = PickPanic"
    using assms(1) m by (cases "?n") (simp_all add: Let_def)
  then show ?thesis using assms(1) start by (simp add: Pick_def Let_def)
qed

theorem Pick_panics_after_wrap_witness:
  "snd (Pick \<lparr>rr_endpoints = [ep ''a'' True, ep ''b'' True, ep ''c'' True], rr_next = 2 ^ 63\<rparr>) = PickPanic"
proof (rule Pick_panics_after_wrap)
  have u: "unat (2 ^ 63 :: 64 word) = 2 ^ 63" by simp
  show "2 ^ 63 \<le> unat (rr_next \<lparr>rr_endpoints = [ep ''a'' True, ep ''b'' True, ep ''c'' True], rr_next = 2 ^ 63\<rparr>)"
    by (simp add: u)
  have "(2::nat) ^ 64 - 2 ^ 63 = 2 ^ 63" by simp
  moreover have "\<not> 3 dvd (2::nat) ^ 63" by simp
  ultimately show "\<not> length (rr_endpoints \<lparr>rr_endpoints = [ep ''a'' True, ep ''b'' True, ep ''c'' True], rr_next = 2 ^ 63\<rparr>)
      dvd 2 ^ 64 - unat (rr_next \<lparr>rr_endpoints = [ep ''a'' True, ep ''b'' True, ep ''c'' True], rr_next = 2 ^ 63\<rparr>)"
    by (simp add: u numeral_3_eq_3 [symmetric] del: power_numeral)
qed simp

end
