(* ===== verification/Http_World.thy ===== *)
theory Http_World
  imports Plugin_Context Balancer
begin

text \<open>
  What a request handler sees and changes: the request and the response of the HTTP framework as
  plain data (header fields in the order in which the framework visits them), the plugin context of
  \<^verbatim>\<open>internal/plugin/context.go\<close>, the balancers of the upstreams (by upstream id), the metrics
  recorder, the clock in nanoseconds, and whether a handler has panicked. A handler, \<^verbatim>\<open>app.HandlerFunc\<close>, transforms this
  world.
\<close>

record HttpRequest =
  rq_Method :: string
  rq_Host :: string
  rq_Path :: string
  rq_Query :: string
  rq_Headers :: "(string \<times> string) list"
  rq_IsBodyStream :: bool
  rq_ContentLength :: int
  rq_Body :: string

record HttpResponse =
  rp_Status :: int
  rp_Headers :: "(string \<times> string) list"
  rp_Body :: string

record 'raw world =
  w_ctx :: "'raw hertzPluginContext"
  w_request :: HttpRequest
  w_response :: HttpResponse
  w_balancers :: "(string \<times> Balancer) list"
  w_recorder :: MemoryRecorder
  w_clock :: int
  w_panicked :: bool

type_synonym 'raw handler = "'raw world \<Rightarrow> 'raw world"

text \<open>\<^verbatim>\<open>RequestContext.SetStatusCode\<close>.\<close>

definition SetStatusCode :: "int \<Rightarrow> 'raw handler" where
  "SetStatusCode st w = w\<lparr>w_response := (w_response w)\<lparr>rp_Status := st\<rparr>\<rparr>"

definition onCtx :: "('raw hertzPluginContext \<Rightarrow> 'raw hertzPluginContext) \<Rightarrow> 'raw handler" where
  "onCtx f w = w\<lparr>w_ctx := f (w_ctx w)\<rparr>"

lemma SetStatusCode_sel [simp]:
  "rp_Status (w_response (SetStatusCode st w)) = st" "w_ctx (SetStatusCode st w) = w_ctx w"
  "w_request (SetStatusCode st w) = w_request w" "w_recorder (SetStatusCode st w) = w_recorder w"
  "w_clock (SetStatusCode st w) = w_clock w" "w_balancers (SetStatusCode st w) = w_balancers w"
  "w_panicked (SetStatusCode st w) = w_panicked w"
  by (simp_all add: SetStatusCode_def)

lemma onCtx_sel [simp]:
  "w_ctx (onCtx f w) = f (w_ctx w)" "w_response (onCtx f w) = w_response w"
  "w_request (onCtx f w) = w_request w" "w_recorder (onCtx f w) = w_recorder w"
  "w_clock (onCtx f w) = w_clock w" "w_balancers (onCtx f w) = w_balancers w"
  "w_panicked (onCtx f w) = w_panicked w"
  by (simp_all add: onCtx_def)

end
