(* ===== verification/Config.thy ===== *)
theory Config
  imports Go_Prelude
begin

text \<open>
  The gateway configuration, \<^verbatim>\<open>internal/config/options.go\<close>: the option structs, the
  filling of identifiers from the map keys and the validation that every configuration passes
  before it is compiled. A YAML map is an association list in the order of one iteration. The
  errors of \<^verbatim>\<open>Validate\<close> are the constructors of \<^verbatim>\<open>config_error\<close>, one per
  \<^verbatim>\<open>fmt.Errorf\<close>, carrying what the message names. Durations are integers (nanoseconds).
  Reading the file and decoding the YAML are parameters of \<^verbatim>\<open>Load\<close>.
\<close>

section \<open>Option structs\<close>

record PluginRef =
  ref_Params :: any
  ref_Use :: string
  ref_Name :: string

record PluginOptions =
  plugin_Params :: any
  plugin_ID :: string
  plugin_Name :: string

record TimeoutOptions =
  Connect :: int
  Read :: int
  Write :: int

record BalancerOptions =
  balancer_Params :: any
  balancer_Type :: string

record PassiveHealthOptions =
  MaxFails :: "64 word"
  FailTimeout :: int

record ActiveHealthOptions =
  active_Path :: string
  active_Method :: string
  active_Interval :: int

record HealthCheckOptions =
  Active :: ActiveHealthOptions
  Passive :: PassiveHealthOptions

record EndpointOptions =
  endpoint_Tags :: "(string \<times> string) list"
  endpoint_Address :: string
  endpoint_Weight :: "32 word"

record UpstreamOptions =
  upstream_Balancer :: BalancerOptions
  upstream_ID :: string
  upstream_Scheme :: string
  upstream_PassHost :: string
  upstream_UpstreamHost :: string
  upstream_Endpoints :: "EndpointOptions list"
  upstream_Plugins :: "PluginRef list"
  upstream_HealthCheck :: HealthCheckOptions
  upstream_Timeout :: TimeoutOptions

record ServiceOptions =
  service_ID :: string
  service_Protocol :: string
  service_Upstream :: string
  service_Plugins :: "PluginRef list"
  service_Timeout :: TimeoutOptions

record RouteOptions =
  route_ID :: string
  route_Service :: string
  route_Hosts :: "string list"
  route_Methods :: "string list"
  route_Paths :: "string list"
  route_Plugins :: "PluginRef list"
  route_Priority :: int

record ServerOptions =
  server_ID :: string
  server_Listen :: string
  server_Plugins :: "PluginRef list"

record LoggingOptions =
  logging_Level :: string
  logging_Format :: string

record Options =
  Servers :: "(string \<times> ServerOptions) list"
  Routes :: "(string \<times> RouteOptions) list"
  Services :: "(string \<times> ServiceOptions) list"
  Upstreams :: "(string \<times> UpstreamOptions) list"
  Plugins :: "(string \<times> PluginOptions) list"
  Logging :: LoggingOptions
  GlobalPlugins :: "PluginRef list"

definition emptyOptions :: Options where
  "emptyOptions =
     \<lparr>Servers = [], Routes = [], Services = [], Upstreams = [], Plugins = [],
      Logging = \<lparr>logging_Level = [], logging_Format = []\<rparr>, GlobalPlugins = []\<rparr>"

section \<open>Identifiers\<close>

definition fillIDs :: "Options \<Rightarrow> Options" where
  "fillIDs o' = o'\<lparr>
     Servers := map (\<lambda>(k, s). (k, s\<lparr>server_ID := k\<rparr>)) (Servers o'),
     Routes := map (\<lambda>(k, r). (k, r\<lparr>route_ID := k\<rparr>)) (Routes o'),
     Services := map (\<lambda>(k, s). (k, s\<lparr>service_ID := k\<rparr>)) (Services o'),
     Upstreams := map (\<lambda>(k, u). (k, u\<lparr>upstream_ID := k\<rparr>)) (Upstreams o'),
     Plugins := map (\<lambda>(k, p). (k, p\<lparr>plugin_ID := k\<rparr>)) (Plugins o')\<rparr>"

section \<open>Validation\<close>

datatype config_error =
    NoServers
  | LoggingLevelUnsupported string
  | LoggingFormatUnsupported string
  | ServerListenEmpty string
  | UnknownPlugin string string
  | PluginNameEmpty string
  | RoutePathsEmpty string
  | RouteServiceEmpty string
  | RouteUnknownService string string
  | ServiceUpstreamEmpty string
  | ServiceUnknownUpstream string string
  | UpstreamEndpointsEmpty string
  | UpstreamSchemeUnsupported string string
  | UpstreamPassHostUnsupported string string
  | UpstreamHostEmpty string
  | EndpointAddressEmpty string

definition validatePluginRefs ::
    "(string \<times> PluginOptions) list \<Rightarrow> string \<Rightarrow> PluginRef list \<Rightarrow> config_error option" where
  "validatePluginRefs plugins owner refs =
     first_error (\<lambda>ref.
       if ref_Use ref \<noteq> [] then
         (case map_of plugins (ref_Use ref) of
            None \<Rightarrow> Some (UnknownPlugin owner (ref_Use ref))
          | Some _ \<Rightarrow> None)
       else if ref_Name ref = [] then Some (PluginNameEmpty owner)
       else None) refs"

definition validateLogging :: "LoggingOptions \<Rightarrow> config_error option" where
  "validateLogging l =
     (if ToLower (TrimSpace (logging_Level l))
           \<notin> set ['''', ''debug'', ''info'', ''warn'', ''warning'', ''error'']
      then Some (LoggingLevelUnsupported (logging_Level l))
      else if ToLower (TrimSpace (logging_Format l)) \<notin> set ['''', ''text'', ''json'']
      then Some (LoggingFormatUnsupported (logging_Format l))
      else None)"

definition validateServer ::
    "Options \<Rightarrow> string \<times> ServerOptions \<Rightarrow> config_error option" where
  "validateServer o' entry = (case entry of (sid, server) \<Rightarrow>
     if server_Listen server = [] then Some (ServerListenEmpty sid)
     else validatePluginRefs (Plugins o') (''server '' @ sid) (server_Plugins server))"

definition validateRoute ::
    "Options \<Rightarrow> string \<times> RouteOptions \<Rightarrow> config_error option" where
  "validateRoute o' entry = (case entry of (k, route) \<Rightarrow>
     if length (route_Paths route) = 0 then Some (RoutePathsEmpty k)
     else if route_Service route = [] then Some (RouteServiceEmpty k)
     else case map_of (Services o') (route_Service route) of
       None \<Rightarrow> Some (RouteUnknownService k (route_Service route))
     | Some _ \<Rightarrow> validatePluginRefs (Plugins o') (''route '' @ k) (route_Plugins route))"

text \<open>
  The assignment \<^verbatim>\<open>service.Protocol = "http"\<close> in this loop changes the loop variable only and
  is not seen by anyone.
\<close>

definition validateService ::
    "Options \<Rightarrow> string \<times> ServiceOptions \<Rightarrow> config_error option" where
  "validateService o' entry = (case entry of (k, service) \<Rightarrow>
     if service_Upstream service = [] then Some (ServiceUpstreamEmpty k)
     else case map_of (Upstreams o') (service_Upstream service) of
       None \<Rightarrow> Some (ServiceUnknownUpstream k (service_Upstream service))
     | Some _ \<Rightarrow> validatePluginRefs (Plugins o') (''service '' @ k) (service_Plugins service))"

definition validateUpstream ::
    "Options \<Rightarrow> string \<times> UpstreamOptions \<Rightarrow> config_error option" where
  "validateUpstream o' entry = (case entry of (k, upstream) \<Rightarrow>
     if length (upstream_Endpoints upstream) = 0 then Some (UpstreamEndpointsEmpty k)
     else if upstream_Scheme upstream \<notin> set ['''', ''http'', ''https'']
     then Some (UpstreamSchemeUnsupported k (upstream_Scheme upstream))
     else if upstream_PassHost upstream \<notin> set ['''', ''pass'', ''node'', ''rewrite'']
     then Some (UpstreamPassHostUnsupported k (upstream_PassHost upstream))
     else if upstream_PassHost upstream = ''rewrite'' \<and> upstream_UpstreamHost upstream = []
     then Some (UpstreamHostEmpty k)
     else or_else
       (first_error (\<lambda>endpoint. if endpoint_Address endpoint = []
                               then Some (EndpointAddressEmpty k) else None)
         (upstream_Endpoints upstream))
       (validatePluginRefs (Plugins o') (''upstream '' @ k) (upstream_Plugins upstream)))"

definition Validate :: "Options \<Rightarrow> config_error option" where
  "Validate o' =
     (if length (Servers o') = 0 then Some NoServers
      else or_else (validateLogging (Logging o'))
        (or_else (first_error (validateServer o') (Servers o'))
          (or_else (validatePluginRefs (Plugins o') ''global_plugins'' (GlobalPlugins o'))
            (or_else (first_error (validateRoute o') (Routes o'))
              (or_else (first_error (validateService o') (Services o'))
                (first_error (validateUpstream o') (Upstreams o')))))))"

section \<open>Loading\<close>

datatype load_error = ReadFileFailed | UnmarshalFailed | Invalid config_error

definition Load ::
    "(string \<Rightarrow> 'data option) \<Rightarrow> ('data \<Rightarrow> Options option) \<Rightarrow> string \<Rightarrow> load_error + Options" where
  "Load readFile unmarshal path =
     (case readFile path of
        None \<Rightarrow> Inl ReadFileFailed
      | Some data \<Rightarrow>
          (case unmarshal data of
             None \<Rightarrow> Inl UnmarshalFailed
           | Some options0 \<Rightarrow>
               (let options = fillIDs options0 in
                case Validate options of
                  Some e \<Rightarrow> Inl (Invalid e)
                | None \<Rightarrow> Inr options)))"

section \<open>What a valid configuration is\<close>

definition ref_ok :: "(string \<times> PluginOptions) list \<Rightarrow> PluginRef \<Rightarrow> bool" where
  "ref_ok plugins ref \<longleftrightarrow>
     (if ref_Use ref = [] then ref_Name ref \<noteq> [] else ref_Use ref \<in> fst ` set plugins)"

definition refs_ok :: "(string \<times> PluginOptions) list \<Rightarrow> PluginRef list \<Rightarrow> bool" where
  "refs_ok plugins refs \<longleftrightarrow> (\<forall>ref\<in>set refs. ref_ok plugins ref)"

definition logging_ok :: "LoggingOptions \<Rightarrow> bool" where
  "logging_ok l \<longleftrightarrow>
     ToLower (TrimSpace (logging_Level l))
       \<in> {'''', ''debug'', ''info'', ''warn'', ''warning'', ''error''}
   \<and> ToLower (TrimSpace (logging_Format l)) \<in> {'''', ''text'', ''json''}"

definition upstream_ok :: "(string \<times> PluginOptions) list \<Rightarrow> UpstreamOptions \<Rightarrow> bool" where
  "upstream_ok plugins u \<longleftrightarrow>
     upstream_Endpoints u \<noteq> []
   \<and> (\<forall>e\<in>set (upstream_Endpoints u). endpoint_Address e \<noteq> [])
   \<and> upstream_Scheme u \<in> {'''', ''http'', ''https''}
   \<and> upstream_PassHost u \<in> {'''', ''pass'', ''node'', ''rewrite''}
   \<and> (upstream_PassHost u = ''rewrite'' \<longrightarrow> upstream_UpstreamHost u \<noteq> [])
   \<and> refs_ok plugins (upstream_Plugins u)"

definition well_formed :: "Options \<Rightarrow> bool" where
  "well_formed o' \<longleftrightarrow>
     Servers o' \<noteq> []
   \<and> logging_ok (Logging o')
   \<and> (\<forall>(k, s)\<in>set (Servers o'). server_Listen s \<noteq> [] \<and> refs_ok (Plugins o') (server_Plugins s))
   \<and> refs_ok (Plugins o') (GlobalPlugins o')
   \<and> (\<forall>(k, r)\<in>set (Routes o'). route_Paths r \<noteq> [] \<and> route_Service r \<noteq> []
        \<and> route_Service r \<in> fst ` set (Services o') \<and> refs_ok (Plugins o') (route_Plugins r))
   \<and> (\<forall>(k, s)\<in>set (Services o'). service_Upstream s \<noteq> []
        \<and> service_Upstream s \<in> fst ` set (Upstreams o') \<and> refs_ok (Plugins o') (service_Plugins s))
   \<and> (\<forall>(k, u)\<in>set (Upstreams o'). upstream_ok (Plugins o') u)"

text \<open>Two values of the same Go maps, listed in different iteration orders.\<close>

definition same_maps :: "Options \<Rightarrow> Options \<Rightarrow> bool" where
  "same_maps a b \<longleftrightarrow>
     mset (Servers a) = mset (Servers b) \<and> mset (Routes a) = mset (Routes b)
   \<and> mset (Services a) = mset (Services b) \<and> mset (Upstreams a) = mset (Upstreams b)
   \<and> mset (Plugins a) = mset (Plugins b) \<and> Logging a = Logging b
   \<and> GlobalPlugins a = GlobalPlugins b"

section \<open>A small configuration for concrete instances\<close>

definition noTimeout :: TimeoutOptions where
  "noTimeout = \<lparr>Connect = 0, Read = 0, Write = 0\<rparr>"

definition noHealthCheck :: HealthCheckOptions where
  "noHealthCheck =
     \<lparr>Active = \<lparr>active_Path = [], active_Method = [], active_Interval = 0\<rparr>,
      Passive = \<lparr>MaxFails = 0, FailTimeout = 0\<rparr>\<rparr>"

definition sampleUpstream :: UpstreamOptions where
  "sampleUpstream =
     \<lparr>upstream_Balancer = \<lparr>balancer_Params = ANil, balancer_Type = []\<rparr>, upstream_ID = [],
      upstream_Scheme = ''http'', upstream_PassHost = [], upstream_UpstreamHost = [],
      upstream_Endpoints = [\<lparr>endpoint_Tags = [], endpoint_Address = ''127.0.0.1:80'',
                             endpoint_Weight = 1\<rparr>],
      upstream_Plugins = [], upstream_HealthCheck = noHealthCheck, upstream_Timeout = noTimeout\<rparr>"

definition sampleOptions :: Options where
  "sampleOptions = emptyOptions\<lparr>
     Servers := [(''main'', \<lparr>server_ID = [], server_Listen = '':8080'', server_Plugins = []\<rparr>)],
     Routes := [(''r1'', \<lparr>route_ID = [], route_Service = ''s1'', route_Hosts = [],
                          route_Methods = [], route_Paths = [''/api''], route_Plugins = [],
                          route_Priority = 0\<rparr>)],
     Services := [(''s1'', \<lparr>service_ID = [], service_Protocol = [], service_Upstream = ''u1'',
                            service_Plugins = [], service_Timeout = noTimeout\<rparr>)],
     Upstreams := [(''u1'', sampleUpstream)]\<rparr>"

lemmas sample_defs = sampleOptions_def sampleUpstream_def noTimeout_def noHealthCheck_def
  emptyOptions_def

section \<open>Validation decides well-formedness\<close>

lemma map_of_None_iff: "map_of m k = None \<longleftrightarrow> k \<notin> fst ` set m"
  by (simp add: map_of_eq_None_iff)

lemma validatePluginRefs_None [simp]:
  "validatePluginRefs plugins owner refs = None \<longleftrightarrow> refs_ok plugins refs"
proof -
  have "(case map_of plugins k of None \<Rightarrow> Some e | Some _ \<Rightarrow> None) = None \<longleftrightarrow> k \<in> fst ` set plugins"
    for k and e :: config_error
    using map_of_None_iff [of plugins k] by (cases "map_of plugins k") simp_all
  then show ?thesis
    by (auto simp: validatePluginRefs_def refs_ok_def ref_ok_def)
qed

lemma validateLogging_None [simp]: "validateLogging l = None \<longleftrightarrow> logging_ok l"
  by (simp add: validateLogging_def logging_ok_def)

lemma validateServer_None [simp]:
  "validateServer o' (k, s) = None \<longleftrightarrow> server_Listen s \<noteq> [] \<and> refs_ok (Plugins o') (server_Plugins s)"
  by (simp add: validateServer_def)

lemma validateRoute_None [simp]:
  "validateRoute o' (k, r) = None \<longleftrightarrow> route_Paths r \<noteq> [] \<and> route_Service r \<noteq> []
     \<and> route_Service r \<in> fst ` set (Services o') \<and> refs_ok (Plugins o') (route_Plugins r)"
  using map_of_None_iff [of "Services o'" "route_Service r"]
  by (auto simp: validateRoute_def split: option.splits)

lemma validateService_None [simp]:
  "validateService o' (k, s) = None \<longleftrightarrow> service_Upstream s \<noteq> []
     \<and> service_Upstream s \<in> fst ` set (Upstreams o') \<and> refs_ok (Plugins o') (service_Plugins s)"
  using map_of_None_iff [of "Upstreams o'" "service_Upstream s"]
  by (auto simp: validateService_def split: option.splits)

lemma validateUpstream_None [simp]:
  "validateUpstream o' (k, u) = None \<longleftrightarrow> upstream_ok (Plugins o') u"
  by (auto simp: validateUpstream_def upstream_ok_def)

lemma Validate_well_formed: "Validate o' = None \<longleftrightarrow> well_formed o'"
  by (simp add: Validate_def well_formed_def split_beta' Ball_def)

lemma well_formed_same_maps:
  assumes "same_maps a b"
  shows "well_formed a = well_formed b"
proof -
  have "set (Servers a) = set (Servers b)" "set (Routes a) = set (Routes b)"
    "set (Services a) = set (Services b)" "set (Upstreams a) = set (Upstreams b)"
    "set (Plugins a) = set (Plugins b)"
    using assms by (metis same_maps_def set_mset_mset)+
  moreover from this have "Servers a = [] \<longleftrightarrow> Servers b = []"
    by (metis set_empty)
  ultimately show ?thesis
    using assms by (simp add: well_formed_def same_maps_def refs_ok_def ref_ok_def upstream_ok_def)
qed

lemma keys_map_snd: "fst ` set (map (\<lambda>(k, v). (k, f k v)) m) = fst ` set m"
  by force

lemma refs_ok_fillIDs [simp]: "refs_ok (Plugins (fillIDs o')) refs = refs_ok (Plugins o') refs"
  by (simp add: refs_ok_def ref_ok_def fillIDs_def keys_map_snd del: set_map)

lemma upstream_ok_ID [simp]:
  "upstream_ok ps (u\<lparr>upstream_ID := k\<rparr>) = upstream_ok ps u"
  by (simp add: upstream_ok_def)

lemma upstream_ok_fillIDs [simp]: "upstream_ok (Plugins (fillIDs o')) u = upstream_ok (Plugins o') u"
  by (simp add: upstream_ok_def)

lemma Servers_fillIDs: "Servers (fillIDs o') = map (\<lambda>(k, s). (k, s\<lparr>server_ID := k\<rparr>)) (Servers o')"
  and Routes_fillIDs: "Routes (fillIDs o') = map (\<lambda>(k, r). (k, r\<lparr>route_ID := k\<rparr>)) (Routes o')"
  and Services_fillIDs: "Services (fillIDs o') = map (\<lambda>(k, s). (k, s\<lparr>service_ID := k\<rparr>)) (Services o')"
  and Upstreams_fillIDs: "Upstreams (fillIDs o') = map (\<lambda>(k, u). (k, u\<lparr>upstream_ID := k\<rparr>)) (Upstreams o')"
  and rest_fillIDs: "Logging (fillIDs o') = Logging o'" "GlobalPlugins (fillIDs o') = GlobalPlugins o'"
  by (simp_all add: fillIDs_def)

lemmas fillIDs_sel = Servers_fillIDs Routes_fillIDs Services_fillIDs Upstreams_fillIDs rest_fillIDs

lemma well_formed_fillIDs: "well_formed (fillIDs o') = well_formed o'"
  unfolding well_formed_def fillIDs_sel refs_ok_fillIDs upstream_ok_fillIDs keys_map_snd
  by (simp add: split_beta')

text \<open>
  C9. \<^verbatim>\<open>Options.Validate\<close> accepts a configuration exactly when it is well formed: there is a
  server, every server listens somewhere, the logging options are known, every route has paths
  and names an existing service, every service names an existing upstream, every upstream has
  addressed endpoints, a known scheme and a consistent host policy, and every plugin reference
  names a plugin or an existing plugin definition.
\<close>

theorem Validate_iff_well_formed: "(Validate o' = None) = well_formed o'"
  by (rule Validate_well_formed)

text \<open>
  Whether a configuration is accepted does not depend on the order in which Go iterates over
  its maps.
\<close>

theorem Validate_iteration_order:
  assumes "same_maps a b"
  shows "Validate a = None \<longleftrightarrow> Validate b = None"
  using assms by (simp add: Validate_well_formed well_formed_same_maps)

theorem Validate_iteration_order_witness:
  "same_maps (sampleOptions\<lparr>Upstreams := [(''u1'', sampleUpstream), (''u2'', sampleUpstream)]\<rparr>)
             (sampleOptions\<lparr>Upstreams := [(''u2'', sampleUpstream), (''u1'', sampleUpstream)]\<rparr>)
   \<and> Validate (sampleOptions\<lparr>Upstreams := [(''u2'', sampleUpstream), (''u1'', sampleUpstream)]\<rparr>) = None"
proof -
  let ?a = "sampleOptions\<lparr>Upstreams := [(''u1'', sampleUpstream), (''u2'', sampleUpstream)]\<rparr>"
  let ?b = "sampleOptions\<lparr>Upstreams := [(''u2'', sampleUpstream), (''u1'', sampleUpstream)]\<rparr>"
  have same: "same_maps ?a ?b" by (simp add: same_maps_def add_mset_commute)
  have "Validate ?a = None" by code_simp
  with Validate_iteration_order [OF same] same show ?thesis by simp
qed

text \<open>
  A configuration that \<^verbatim>\<open>Load\<close> returns is well formed and every server, route, service,
  upstream and plugin definition carries its map key as its identifier.
\<close>

theorem Load_ok:
  assumes "Load readFile unmarshal path = Inr options"
  shows "well_formed options
    \<and> (\<forall>(k, s)\<in>set (Servers options). server_ID s = k)
    \<and> (\<forall>(k, r)\<in>set (Routes options). route_ID r = k)
    \<and> (\<forall>(k, s)\<in>set (Services options). service_ID s = k)
    \<and> (\<forall>(k, u)\<in>set (Upstreams options). upstream_ID u = k)
    \<and> (\<forall>(k, p)\<in>set (Plugins options). plugin_ID p = k)"
proof -
  obtain options0 where "options = fillIDs options0" and "Validate options = None"
    using assms by (auto simp: Load_def Let_def split: option.splits)
  then show ?thesis
    by (auto simp: Validate_well_formed fillIDs_def)
qed

theorem Load_ok_witness:
  "\<exists>options. Load (\<lambda>path. Some ()) (\<lambda>_. Some sampleOptions) ''lumen.yaml'' = Inr options
     \<and> well_formed options"
proof -
  have "Validate (fillIDs sampleOptions) = None" by code_simp
  then have "Load (\<lambda>path. Some ()) (\<lambda>_. Some sampleOptions) ''lumen.yaml''
      = Inr (fillIDs sampleOptions)"
    by (simp add: Load_def Let_def)
  with Load_ok [OF this] show ?thesis by blast
qed

end
