(* ===== verification/Snapshot.thy ===== *)
theory Snapshot
  imports Go_Prelude
begin

text \<open>
  The lifecycle of a runtime snapshot, \<^verbatim>\<open>RuntimeSnapshot\<close> in
  \<^verbatim>\<open>internal/gateway/gateway.go\<close>: \<^verbatim>\<open>acquire\<close> and \<^verbatim>\<open>release\<close> by
  the requests, \<^verbatim>\<open>Close\<close> by a reload or a shutdown, and the channels they meet on.

  Goroutines interleave at every access to shared memory. \<open>exec\<close> is the next atomic access of a
  goroutine, from its program counter; it returns \<^term>\<open>None\<close> when the goroutine is blocked on a
  channel or has returned. \<open>step\<close> lets any goroutine of the system do its next access, so a run is
  an arbitrary interleaving of any number of requests and closers. Closing a closed channel is the
  program counter \<open>Panicked\<close>. A closer is its name with the error its \<^verbatim>\<open>Close\<close> returns;
  \<open>closedLog\<close> records the closers closed so far. The counter \<^verbatim>\<open>inFlight\<close> is a
  mathematical integer: it is the number of goroutines between the two additions, far below the
  64-bit limit.
\<close>

section \<open>Shared state and program counters\<close>

datatype snapshotState = snapshotStateOpen | snapshotStateClosing | snapshotStateClosed

type_synonym Closer = "string \<times> string option"

record RuntimeSnapshot =
  closers :: "Closer list"
  inFlight :: int
  state :: snapshotState
  drainSignaled :: bool
  drainedCh :: bool
  closedCh :: bool
  closedLog :: "Closer list"

definition newRuntimeSnapshot :: "Closer list \<Rightarrow> RuntimeSnapshot" where
  "newRuntimeSnapshot cs =
     \<lparr>closers = cs, inFlight = 0, state = snapshotStateOpen, drainSignaled = False,
      drainedCh = False, closedCh = False, closedLog = []\<rparr>"

text \<open>Who runs \<^verbatim>\<open>release\<close> or \<^verbatim>\<open>signalDrained\<close>, and so where it returns to.\<close>

datatype role = Served | Rejected | InClose

datatype pc =
    AcqLoad
  | AcqAdd
  | AcqRecheck
  | Holding
  | RelAdd role
  | RelLoad role
  | SigCAS role
  | SigClose role
  | RequestDone role
  | CloseCAS
  | CloseLoad
  | CloseWait
  | CloseClosers nat "string option"
  | CloseStore "string option"
  | CloseCh "string option"
  | CloseDone "string option"
  | CloseJoin
  | CloseJoined
  | Panicked

section \<open>The atomic accesses of each operation\<close>

definition acquire :: "RuntimeSnapshot \<Rightarrow> pc \<Rightarrow> (RuntimeSnapshot \<times> pc) option" where
  "acquire s p =
     (case p of
        AcqLoad \<Rightarrow> Some (s, if state s \<noteq> snapshotStateOpen then RequestDone Rejected else AcqAdd)
      | AcqAdd \<Rightarrow> Some (s\<lparr>inFlight := inFlight s + 1\<rparr>, AcqRecheck)
      | AcqRecheck \<Rightarrow> Some (s, if state s \<noteq> snapshotStateOpen then RelAdd Rejected else Holding)
      | _ \<Rightarrow> None)"

text \<open>Where \<^verbatim>\<open>signalDrained\<close> returns to.\<close>

definition signalReturn :: "role \<Rightarrow> pc" where
  "signalReturn r = (if r = InClose then CloseWait else RequestDone r)"

definition signalDrained :: "RuntimeSnapshot \<Rightarrow> pc \<Rightarrow> (RuntimeSnapshot \<times> pc) option" where
  "signalDrained s p =
     (case p of
        SigCAS r \<Rightarrow>
          Some (if \<not> drainSignaled s then (s\<lparr>drainSignaled := True\<rparr>, SigClose r)
                else (s, signalReturn r))
      | SigClose r \<Rightarrow>
          Some (if drainedCh s then (s, Panicked) else (s\<lparr>drainedCh := True\<rparr>, signalReturn r))
      | _ \<Rightarrow> None)"

definition release :: "RuntimeSnapshot \<Rightarrow> pc \<Rightarrow> (RuntimeSnapshot \<times> pc) option" where
  "release s p =
     (case p of
        RelAdd r \<Rightarrow>
          Some (s\<lparr>inFlight := inFlight s - 1\<rparr>,
                if inFlight s - 1 = 0 then RelLoad r else RequestDone r)
      | RelLoad r \<Rightarrow> Some (s, if state s = snapshotStateClosing then SigCAS r else RequestDone r)
      | _ \<Rightarrow> None)"

definition Close :: "RuntimeSnapshot \<Rightarrow> pc \<Rightarrow> (RuntimeSnapshot \<times> pc) option" where
  "Close s p =
     (case p of
        CloseCAS \<Rightarrow>
          Some (if state s = snapshotStateOpen then (s\<lparr>state := snapshotStateClosing\<rparr>, CloseLoad)
                else (s, CloseJoin))
      | CloseJoin \<Rightarrow> if closedCh s then Some (s, CloseJoined) else None
      | CloseLoad \<Rightarrow> Some (s, if inFlight s = 0 then SigCAS InClose else CloseWait)
      | CloseWait \<Rightarrow>
          if drainedCh s then Some (s, CloseClosers (length (closers s)) None) else None
      | CloseClosers (Suc i) err \<Rightarrow>
          let c = closers s ! i in
          Some (s\<lparr>closedLog := closedLog s @ [c]\<rparr>,
                CloseClosers i (if err = None then snd c else err))
      | CloseClosers 0 err \<Rightarrow> Some (s\<lparr>closers := []\<rparr>, CloseStore err)
      | CloseStore err \<Rightarrow> Some (s\<lparr>state := snapshotStateClosed\<rparr>, CloseCh err)
      | CloseCh err \<Rightarrow> Some (if closedCh s then (s, Panicked) else (s\<lparr>closedCh := True\<rparr>, CloseDone err))
      | _ \<Rightarrow> None)"

text \<open>
  The next access of a goroutine. A request that holds the snapshot starts its deferred
  \<^verbatim>\<open>release\<close>.
\<close>

definition exec :: "RuntimeSnapshot \<Rightarrow> pc \<Rightarrow> (RuntimeSnapshot \<times> pc) option" where
  "exec s p =
     (case p of
        AcqLoad \<Rightarrow> acquire s p | AcqAdd \<Rightarrow> acquire s p | AcqRecheck \<Rightarrow> acquire s p
      | Holding \<Rightarrow> Some (s, RelAdd Served)
      | RelAdd r \<Rightarrow> release s p | RelLoad r \<Rightarrow> release s p
      | SigCAS r \<Rightarrow> signalDrained s p | SigClose r \<Rightarrow> signalDrained s p
      | _ \<Rightarrow> Close s p)"

type_synonym system = "RuntimeSnapshot \<times> pc list"

text \<open>Goroutine \<open>i\<close> does its next access.\<close>

definition exec_at :: "nat \<Rightarrow> system \<Rightarrow> system option" where
  "exec_at i c =
     (if i < length (snd c)
      then map_option (\<lambda>(s', p'). (s', (snd c)[i := p'])) (exec (fst c) (snd c ! i))
      else None)"

inductive step :: "system \<Rightarrow> system \<Rightarrow> bool" where
  "exec_at i c = Some c' \<Longrightarrow> step c c'"

text \<open>A run given by the list of the goroutines that move.\<close>

fun run_schedule :: "nat list \<Rightarrow> system \<Rightarrow> system option" where
  "run_schedule [] c = Some c"
| "run_schedule (i # is) c =
     (case exec_at i c of None \<Rightarrow> None | Some c' \<Rightarrow> run_schedule is c')"

text \<open>A fresh snapshot with \<open>m\<close> requests about to acquire it and \<open>n\<close> calls of \<^verbatim>\<open>Close\<close>.\<close>

definition initial :: "Closer list \<Rightarrow> nat \<Rightarrow> nat \<Rightarrow> system" where
  "initial cs m n = (newRuntimeSnapshot cs, replicate m AcqLoad @ replicate n CloseCAS)"

section \<open>Notions used in the statements\<close>

definition cnt :: "(pc \<Rightarrow> bool) \<Rightarrow> pc list \<Rightarrow> int" where
  "cnt P ps = int (length (filter P ps))"

text \<open>The goroutines between \<^verbatim>\<open>Add(1)\<close> and \<^verbatim>\<open>Add(-1)\<close>.\<close>

fun counted :: "pc \<Rightarrow> bool" where
  "counted AcqRecheck = True"
| "counted Holding = True"
| "counted (RelAdd r) = True"
| "counted p = False"

text \<open>The goroutine that won the compare-and-swap and has not stored \<^verbatim>\<open>Closed\<close> yet.\<close>

fun closing :: "pc \<Rightarrow> bool" where
  "closing CloseLoad = True"
| "closing CloseWait = True"
| "closing (SigCAS r) = (r = InClose)"
| "closing (SigClose r) = (r = InClose)"
| "closing (CloseClosers i e) = True"
| "closing (CloseStore e) = True"
| "closing p = False"

fun in_SigClose :: "pc \<Rightarrow> bool" where
  "in_SigClose (SigClose r) = True"
| "in_SigClose p = False"

fun in_CloseCh :: "pc \<Rightarrow> bool" where
  "in_CloseCh (CloseCh e) = True"
| "in_CloseCh p = False"

text \<open>The goroutines that will still reach \<^verbatim>\<open>close(drainedCh)\<close> or hand it over.\<close>

fun will_signal :: "pc \<Rightarrow> bool" where
  "will_signal (RelLoad r) = True"
| "will_signal (SigCAS r) = True"
| "will_signal (SigClose r) = True"
| "will_signal p = counted p"

fun finished :: "pc \<Rightarrow> bool" where
  "finished (RequestDone r) = True"
| "finished (CloseDone e) = True"
| "finished CloseJoined = True"
| "finished p = False"

fun in_CloseDone :: "pc \<Rightarrow> bool" where
  "in_CloseDone (CloseDone e) = True"
| "in_CloseDone p = False"

fun is_closer :: "pc \<Rightarrow> bool" where
  "is_closer (SigCAS r) = (r = InClose)"
| "is_closer (SigClose r) = (r = InClose)"
| "is_closer CloseCAS = True"
| "is_closer CloseLoad = True"
| "is_closer CloseWait = True"
| "is_closer (CloseClosers i e) = True"
| "is_closer (CloseStore e) = True"
| "is_closer (CloseCh e) = True"
| "is_closer (CloseDone e) = True"
| "is_closer CloseJoin = True"
| "is_closer CloseJoined = True"
| "is_closer p = False"

text \<open>The error that \<^verbatim>\<open>Close\<close> keeps: the first in the order of closing.\<close>

definition firstErr :: "Closer list \<Rightarrow> string option" where
  "firstErr cs = first_error snd cs"

text \<open>What each program counter tells about the shared state.\<close>

fun pc_ok :: "Closer list \<Rightarrow> RuntimeSnapshot \<Rightarrow> pc \<Rightarrow> bool" where
  "pc_ok cs s (RelAdd r) = (r \<noteq> InClose)"
| "pc_ok cs s (RelLoad r) = (r \<noteq> InClose)"
| "pc_ok cs s (SigCAS r) =
     (state s \<noteq> snapshotStateOpen \<and> (r = InClose \<longrightarrow> closers s = cs \<and> closedLog s = []))"
| "pc_ok cs s (SigClose r) =
     (state s \<noteq> snapshotStateOpen \<and> (r = InClose \<longrightarrow> closers s = cs \<and> closedLog s = []))"
| "pc_ok cs s (RequestDone r) = (r \<noteq> InClose)"
| "pc_ok cs s CloseLoad = (closers s = cs \<and> closedLog s = [])"
| "pc_ok cs s CloseWait = (closers s = cs \<and> closedLog s = [])"
| "pc_ok cs s (CloseClosers i e) =
     (drainedCh s \<and> closers s = cs \<and> i \<le> length cs \<and> closedLog s = rev (drop i cs)
      \<and> e = firstErr (closedLog s))"
| "pc_ok cs s (CloseStore e) = (drainedCh s \<and> closedLog s = rev cs \<and> e = firstErr (rev cs))"
| "pc_ok cs s (CloseCh e) = (closedLog s = rev cs \<and> e = firstErr (rev cs))"
| "pc_ok cs s (CloseDone e) = (closedCh s \<and> closedLog s = rev cs \<and> e = firstErr (rev cs))"
| "pc_ok cs s CloseJoin = (state s \<noteq> snapshotStateOpen)"
| "pc_ok cs s CloseJoined = closedCh s"
| "pc_ok cs s Panicked = False"
| "pc_ok cs s p = True"

definition snapshot_inv :: "Closer list \<Rightarrow> system \<Rightarrow> bool" where
  "snapshot_inv cs c =
     (case c of (s, ps) \<Rightarrow>
        inFlight s = cnt counted ps
      \<and> cnt in_SigClose ps + of_bool (drainedCh s) = of_bool (drainSignaled s)
      \<and> cnt closing ps = of_bool (state s = snapshotStateClosing)
      \<and> cnt in_CloseCh ps + of_bool (closedCh s) = of_bool (state s = snapshotStateClosed)
      \<and> cnt in_CloseDone ps = of_bool (closedCh s)
      \<and> (state s = snapshotStateOpen \<longrightarrow> closers s = cs \<and> closedLog s = [] \<and> \<not> drainSignaled s)
      \<and> (state s = snapshotStateClosed \<longrightarrow> closedLog s = rev cs \<and> drainedCh s)
      \<and> (cnt (\<lambda>p. p = CloseWait) ps > 0 \<longrightarrow> drainedCh s \<or> 0 < cnt will_signal ps)
      \<and> (\<forall>p\<in>set ps. pc_ok cs s p))"

text \<open>An upper bound on the number of accesses a goroutine still does.\<close>

fun remaining :: "nat \<Rightarrow> pc \<Rightarrow> nat" where
  "remaining n AcqLoad = 8"
| "remaining n AcqAdd = 7"
| "remaining n AcqRecheck = 6"
| "remaining n Holding = 5"
| "remaining n (RelAdd r) = 4"
| "remaining n (RelLoad r) = 3"
| "remaining n (SigCAS r) = (if r = InClose then n + 7 else 2)"
| "remaining n (SigClose r) = (if r = InClose then n + 6 else 1)"
| "remaining n CloseCAS = n + 9"
| "remaining n CloseLoad = n + 8"
| "remaining n CloseWait = n + 4"
| "remaining n (CloseClosers i e) = i + 3"
| "remaining n (CloseStore e) = 2"
| "remaining n (CloseCh e) = 1"
| "remaining n CloseJoin = 1"
| "remaining n p = 0"

definition work :: "nat \<Rightarrow> system \<Rightarrow> nat" where
  "work n c = sum_list (map (remaining n) (snd c))"

text \<open>
  A step in which the compare-and-swap of \<^verbatim>\<open>Close\<close> does not happen between the
  decrement to zero and the load of the state in some \<^verbatim>\<open>release\<close>.
\<close>

fun in_RelLoad :: "pc \<Rightarrow> bool" where
  "in_RelLoad (RelLoad r) = True"
| "in_RelLoad p = False"

definition quiet_step :: "system \<Rightarrow> system \<Rightarrow> bool" where
  "quiet_step c c' \<longleftrightarrow>
     step c c' \<and> (state (fst c) = snapshotStateOpen \<and> state (fst c') = snapshotStateClosing
                  \<longrightarrow> cnt in_RelLoad (snd c) = 0)"

text \<open>Once closing, a pending or given drain signal means that no request holds the snapshot.\<close>

fun signalling :: "pc \<Rightarrow> bool" where
  "signalling (RelLoad r) = True"
| "signalling (SigCAS r) = True"
| "signalling (SigClose r) = True"
| "signalling p = False"

definition drained_inv :: "system \<Rightarrow> bool" where
  "drained_inv c =
     (case c of (s, ps) \<Rightarrow>
        state s \<noteq> snapshotStateOpen \<and> (drainSignaled s \<or> 0 < cnt signalling ps)
        \<longrightarrow> cnt (\<lambda>p. p = Holding) ps = 0)"

text \<open>The number of requests that hold the snapshot.\<close>

abbreviation holders :: "pc list \<Rightarrow> int" where
  "holders \<equiv> cnt (\<lambda>p. p = Holding)"

text \<open>A schedule without the race, or \<^term>\<open>None\<close>.\<close>

fun run_quiet :: "nat list \<Rightarrow> system \<Rightarrow> system option" where
  "run_quiet [] c = Some c"
| "run_quiet (i # is) c =
     (case exec_at i c of
        None \<Rightarrow> None
      | Some c' \<Rightarrow>
          if state (fst c) = snapshotStateOpen \<and> state (fst c') = snapshotStateClosing
             \<and> cnt in_RelLoad (snd c) \<noteq> 0
          then None else run_quiet is c')"

section \<open>Counting goroutines\<close>

lemma cnt_update:
  "i < length ps \<Longrightarrow> cnt P (ps[i := q]) = cnt P ps - of_bool (P (ps ! i)) + of_bool (P q)"
proof (induction ps arbitrary: i)
  case (Cons p ps)
  then show ?case by (cases i) (auto simp: cnt_def)
qed simp

lemma cnt_nonneg [simp]: "0 \<le> cnt P ps"
  by (simp add: cnt_def)

lemma cnt_pos_iff: "0 < cnt P ps \<longleftrightarrow> (\<exists>p\<in>set ps. P p)"
  by (auto simp: cnt_def filter_empty_conv)

lemma cnt_zero_iff: "cnt P ps = 0 \<longleftrightarrow> (\<forall>p\<in>set ps. \<not> P p)"
  by (auto simp: cnt_def filter_empty_conv)

lemma cnt_pos: "i < length ps \<Longrightarrow> P (ps ! i) \<Longrightarrow> 0 < cnt P ps"
  by (auto simp: cnt_pos_iff)

lemma cnt_one_other:
  assumes "cnt P ps \<le> 1" and "i < length ps" "P (ps ! i)" and "j < length ps" "j \<noteq> i"
  shows "\<not> P (ps ! j)"
proof -
  have "card {k. k < length ps \<and> P (ps ! k)} \<le> 1"
    using assms(1) by (simp add: cnt_def length_filter_conv_card)
  then have "i = j" if "P (ps ! j)"
    using assms that by (auto simp: card_le_Suc0_iff_eq)
  with assms(5) show ?thesis by blast
qed

lemma step_iff:
  "step (s, ps) c' \<longleftrightarrow>
     (\<exists>i s' p'. i < length ps \<and> exec s (ps ! i) = Some (s', p') \<and> c' = (s', ps[i := p']))"
  by (auto simp: step.simps exec_at_def)

lemmas exec_defs = exec_def acquire_def release_def signalDrained_def signalReturn_def Close_def

section \<open>The invariant\<close>

lemma pc_ok_frame:
  assumes "pc_ok cs s q"
    and "drainedCh s \<longrightarrow> drainedCh s'" "closedCh s \<longrightarrow> closedCh s'"
    and "state s \<noteq> snapshotStateOpen \<longrightarrow> state s' \<noteq> snapshotStateOpen"
    and "closing q \<longrightarrow> closers s' = closers s"
    and "closing q \<or> in_CloseCh q \<or> in_CloseDone q \<longrightarrow> closedLog s' = closedLog s"
  shows "pc_ok cs s' q"
  using assms by (cases q) auto

lemma firstErr_snoc: "firstErr (xs @ [c]) = (if firstErr xs = None then snd c else firstErr xs)"
  by (induction xs) (simp_all add: firstErr_def del: first_error_None_iff split: option.split)

lemma rev_drop_Suc: "i < length cs \<Longrightarrow> rev (drop i cs) = rev (drop (Suc i) cs) @ [cs ! i]"
  by (metis Cons_nth_drop_Suc rev.simps(2))

text \<open>A goroutine's own step establishes what its new program counter tells.\<close>

lemma exec_pc_ok:
  assumes "exec s p = Some (s', p')" and "pc_ok cs s p"
    and "state s = snapshotStateOpen \<longrightarrow> closers s = cs \<and> closedLog s = []"
    and "in_SigClose p \<longrightarrow> \<not> drainedCh s" and "in_CloseCh p \<longrightarrow> \<not> closedCh s"
    and "closing p \<longrightarrow> state s = snapshotStateClosing"
  shows "pc_ok cs s' p'"
proof (cases p)
  case (CloseClosers n e)
  then show ?thesis
  proof (cases n)
    case (Suc i)
    with CloseClosers assms(2) have i: "i < length cs" and log: "closedLog s = rev (drop (Suc i) cs)"
      and "e = firstErr (closedLog s)" "closers s = cs" "drainedCh s" by auto
    with CloseClosers Suc assms(1) show ?thesis
      by (auto simp: exec_defs Let_def log rev_drop_Suc firstErr_snoc)
  qed (use CloseClosers assms in \<open>auto simp: exec_defs\<close>)
qed (use assms in \<open>auto simp: exec_defs firstErr_def split: if_splits\<close>)

text \<open>How a step changes the shared state.\<close>

lemma exec_frame:
  assumes "exec s p = Some (s', p')"
  shows "drainedCh s \<longrightarrow> drainedCh s'" "closedCh s \<longrightarrow> closedCh s'"
    and "state s \<noteq> snapshotStateOpen \<longrightarrow> state s' \<noteq> snapshotStateOpen"
    and "\<not> closing p \<longrightarrow> closers s' = closers s \<and> closedLog s' = closedLog s"
  using assms by (cases p; auto simp: exec_defs Let_def split: if_splits nat.splits)+

lemma exec_counters:
  assumes "exec s p = Some (s', p')" and "pc_ok cs s p"
    and "in_SigClose p \<longrightarrow> \<not> drainedCh s" and "in_CloseCh p \<longrightarrow> \<not> closedCh s"
    and "closing p \<longrightarrow> state s = snapshotStateClosing"
  shows "inFlight s' - inFlight s = of_bool (counted p') - of_bool (counted p)"
    and "of_bool (in_SigClose p') + of_bool (drainedCh s') - of_bool (drainSignaled s')
      = of_bool (in_SigClose p) + of_bool (drainedCh s) - (of_bool (drainSignaled s) :: int)"
    and "of_bool (closing p') - of_bool (state s' = snapshotStateClosing)
      = of_bool (closing p) - (of_bool (state s = snapshotStateClosing) :: int)"
    and "of_bool (in_CloseCh p') + of_bool (closedCh s') - of_bool (state s' = snapshotStateClosed)
      = of_bool (in_CloseCh p) + of_bool (closedCh s) - (of_bool (state s = snapshotStateClosed) :: int)"
    and "of_bool (in_CloseDone p') - of_bool (closedCh s')
      = of_bool (in_CloseDone p) - (of_bool (closedCh s) :: int)"
  using assms by (cases p; auto simp: exec_defs Let_def split: if_splits nat.splits)+

lemma exec_signal:
  assumes "exec s p = Some (s', p')" and "will_signal p \<or> p' = CloseWait \<and> p \<noteq> CloseWait"
    and "in_SigClose p \<longrightarrow> \<not> drainedCh s"
  shows "will_signal p' \<or> drainSignaled s' \<or> drainedCh s' \<or> inFlight s' \<noteq> 0 \<or> state s' \<noteq> snapshotStateClosing"
  using assms by (cases p) (auto simp: exec_defs Let_def split: if_splits nat.splits)

lemma exec_open:
  assumes "exec s p = Some (s', p')" and "pc_ok cs s p" and "state s' = snapshotStateOpen"
    and "closing p \<longrightarrow> state s = snapshotStateClosing"
  shows "state s = snapshotStateOpen \<and> drainSignaled s' = drainSignaled s
    \<and> closers s' = closers s \<and> closedLog s' = closedLog s"
  using assms by (cases p) (auto simp: exec_defs Let_def split: if_splits nat.splits)

lemma exec_closed:
  assumes "exec s p = Some (s', p')" and "pc_ok cs s p" and "state s' = snapshotStateClosed"
    and "closing p \<longrightarrow> state s = snapshotStateClosing"
  shows "closedLog s' = rev cs \<and> drainedCh s'
    \<or> state s = snapshotStateClosed \<and> closedLog s' = closedLog s"
  using assms by (cases p) (auto simp: exec_defs Let_def split: if_splits nat.splits)

lemma snapshot_invD:
  assumes "snapshot_inv cs (s, ps)"
  shows "inFlight s = cnt counted ps"
    and "cnt in_SigClose ps + of_bool (drainedCh s) = of_bool (drainSignaled s)"
    and "cnt closing ps = of_bool (state s = snapshotStateClosing)"
    and "cnt in_CloseCh ps + of_bool (closedCh s) = of_bool (state s = snapshotStateClosed)"
    and "cnt in_CloseDone ps = of_bool (closedCh s)"
    and "state s = snapshotStateOpen \<longrightarrow> closers s = cs \<and> closedLog s = [] \<and> \<not> drainSignaled s"
    and "state s = snapshotStateClosed \<longrightarrow> closedLog s = rev cs \<and> drainedCh s"
    and "cnt (\<lambda>p. p = CloseWait) ps > 0 \<longrightarrow> drainedCh s \<or> 0 < cnt will_signal ps"
    and "\<forall>p\<in>set ps. pc_ok cs s p"
  using assms by (auto simp: snapshot_inv_def)

lemma snapshot_guards:
  assumes "snapshot_inv cs (s, ps)" and i: "i < length ps"
  shows "pc_ok cs s (ps ! i)"
    and "in_SigClose (ps ! i) \<longrightarrow> \<not> drainedCh s"
    and "in_CloseCh (ps ! i) \<longrightarrow> \<not> closedCh s"
    and "closing (ps ! i) \<longrightarrow> state s = snapshotStateClosing"
    and "in_CloseCh (ps ! i) \<or> in_CloseDone (ps ! i) \<longrightarrow> state s = snapshotStateClosed"
proof -
  note I = snapshot_invD [OF assms(1)] and pos = cnt_pos [OF i]
  show "pc_ok cs s (ps ! i)" using I(9) i by simp
  show "in_SigClose (ps ! i) \<longrightarrow> \<not> drainedCh s"
    using pos [of in_SigClose] I(2) by (auto simp: of_bool_def split: if_splits)
  show "in_CloseCh (ps ! i) \<longrightarrow> \<not> closedCh s"
    using pos [of in_CloseCh] I(4) by (auto simp: of_bool_def split: if_splits)
  show "closing (ps ! i) \<longrightarrow> state s = snapshotStateClosing"
    using pos [of closing] I(3) by (auto simp: of_bool_def split: if_splits)
  have "0 \<le> cnt in_CloseCh ps" by simp
  then show "in_CloseCh (ps ! i) \<or> in_CloseDone (ps ! i) \<longrightarrow> state s = snapshotStateClosed"
    using pos [of in_CloseCh] pos [of in_CloseDone] I(4,5)
    by (smt (verit) of_bool_eq_iff zero_less_of_bool_iff)
qed

lemma snapshot_pc_ok_step:
  assumes inv: "snapshot_inv cs (s, ps)" and i: "i < length ps"
    and ex: "exec s (ps ! i) = Some (s', p')"
  shows "\<forall>p\<in>set (ps[i := p']). pc_ok cs s' p"
proof
  note G = snapshot_guards [OF inv] and F = exec_frame [OF ex]
  fix p assume "p \<in> set (ps[i := p'])"
  then obtain j where j: "j < length ps" "p = ps[i := p'] ! j" by (auto simp: in_set_conv_nth)
  show "pc_ok cs s' p"
  proof (cases "j = i")
    case True
    have "pc_ok cs s' p'"
      by (rule exec_pc_ok [OF ex G(1) [OF i] _ G(2-4) [OF i]]) (use snapshot_invD(6) [OF inv] in blast)
    with True j i show ?thesis by simp
  next
    case False
    have cl: "\<not> closing (ps ! j)" if "closing (ps ! i)"
      using cnt_one_other [of closing ps i j] snapshot_invD(3) [OF inv] i j(1) False that
      by (auto simp: of_bool_def split: if_splits)
    have "\<not> in_CloseCh (ps ! j) \<and> \<not> in_CloseDone (ps ! j)" if "closing (ps ! i)"
      using G(4) [OF i] G(5) [OF j(1)] that by auto
    with cl F(4) have "pc_ok cs s' (ps ! j)"
      by (intro pc_ok_frame [OF G(1) [OF j(1)] F(1-3)]) blast+
    with False j show ?thesis by simp
  qed
qed

lemma snapshot_counters_step:
  assumes inv: "snapshot_inv cs (s, ps)" and i: "i < length ps"
    and ex: "exec s (ps ! i) = Some (s', p')"
  shows "inFlight s' = cnt counted (ps[i := p'])"
    and "cnt in_SigClose (ps[i := p']) + of_bool (drainedCh s') = of_bool (drainSignaled s')"
    and "cnt closing (ps[i := p']) = of_bool (state s' = snapshotStateClosing)"
    and "cnt in_CloseCh (ps[i := p']) + of_bool (closedCh s') = of_bool (state s' = snapshotStateClosed)"
    and "cnt in_CloseDone (ps[i := p']) = of_bool (closedCh s')"
  using snapshot_invD(1-5) [OF inv] exec_counters [OF ex snapshot_guards(1-4) [OF inv i]]
  by (simp_all add: cnt_update [OF i])

text \<open>When nobody is going to signal, the counter is zero and no signal was given.\<close>

lemma no_signal_quiet:
  assumes "inFlight s = cnt counted ps"
    and "cnt in_SigClose ps + of_bool (drainedCh s) = of_bool (drainSignaled s)"
    and "cnt will_signal ps = 0" and "\<not> drainedCh s"
  shows "inFlight s = 0" and "\<not> drainSignaled s"
proof -
  have "\<forall>p\<in>set ps. \<not> counted p \<and> \<not> in_SigClose p"
  proof
    fix p assume "p \<in> set ps"
    then have "\<not> will_signal p" using assms(3) by (simp add: cnt_zero_iff)
    then show "\<not> counted p \<and> \<not> in_SigClose p" by (cases p) auto
  qed
  then have "cnt counted ps = 0" "cnt in_SigClose ps = 0" unfolding cnt_zero_iff by auto
  with assms show "inFlight s = 0" and "\<not> drainSignaled s"
    by (auto simp: of_bool_def split: if_splits)
qed

lemma snapshot_wakeup_step:
  assumes inv: "snapshot_inv cs (s, ps)" and i: "i < length ps"
    and ex: "exec s (ps ! i) = Some (s', p')"
    and waiting: "cnt (\<lambda>p. p = CloseWait) (ps[i := p']) > 0" and nd: "\<not> drainedCh s'"
  shows "0 < cnt will_signal (ps[i := p'])"
proof (rule ccontr)
  let ?qs = "ps[i := p']"
  note C = snapshot_counters_step [OF inv i ex]
  assume "\<not> 0 < cnt will_signal ?qs"
  then have none: "cnt will_signal ?qs = 0" using cnt_nonneg [of will_signal ?qs] by linarith
  note quiet = no_signal_quiet [OF C(1,2) none nd]
  have "\<exists>q\<in>set ?qs. closing q" using waiting by (force simp: cnt_pos_iff)
  then have "0 < cnt closing ?qs" by (simp add: cnt_pos_iff)
  with C(3) have "state s' = snapshotStateClosing" by (auto simp: of_bool_def split: if_splits)
  moreover have "\<not> will_signal p'"
    using none i by (simp add: cnt_zero_iff set_update_memI)
  ultimately have p: "\<not> will_signal (ps ! i)" "\<not> (p' = CloseWait \<and> ps ! i \<noteq> CloseWait)"
    using exec_signal [OF ex _ snapshot_guards(2) [OF inv i]] quiet nd by blast+
  have "cnt (\<lambda>p. p = CloseWait) ps > 0"
    using waiting p(2) by (auto simp: cnt_update [OF i] of_bool_def split: if_splits)
  moreover have "\<not> drainedCh s" using nd exec_frame(1) [OF ex] by blast
  ultimately have "0 < cnt will_signal ps" using snapshot_invD(8) [OF inv] by blast
  then have "0 < cnt will_signal ?qs" using p(1) by (simp add: cnt_update [OF i])
  then show False using none by simp
qed

lemma snapshot_inv_step:
  assumes "snapshot_inv cs c" and "step c c'"
  shows "snapshot_inv cs c'"
proof -
  obtain s ps where c: "c = (s, ps)" by (cases c)
  obtain i s' p' where i: "i < length ps" and ex: "exec s (ps ! i) = Some (s', p')"
    and c': "c' = (s', ps[i := p'])"
    using assms(2) unfolding c step_iff by blast
  have inv: "snapshot_inv cs (s, ps)" using assms(1) c by simp
  note G = snapshot_guards [OF inv i] and I = snapshot_invD [OF inv]
  have "state s' = snapshotStateOpen \<longrightarrow> closers s' = cs \<and> closedLog s' = [] \<and> \<not> drainSignaled s'"
    using exec_open [OF ex G(1) _ G(4)] I(6) by auto
  moreover have "state s' = snapshotStateClosed \<longrightarrow> closedLog s' = rev cs \<and> drainedCh s'"
    using exec_closed [OF ex G(1) _ G(4)] I(7) exec_frame(1) [OF ex] by auto
  ultimately show ?thesis
    unfolding c' snapshot_inv_def
    using snapshot_counters_step [OF inv i ex] snapshot_pc_ok_step [OF inv i ex]
      snapshot_wakeup_step [OF inv i ex] by auto
qed

lemma snapshot_inv_initial: "snapshot_inv cs (initial cs m n)"
  by (auto simp: snapshot_inv_def initial_def newRuntimeSnapshot_def cnt_def)

section \<open>Termination and progress\<close>

lemma exec_remaining:
  assumes "exec s p = Some (s', p')" and "pc_ok cs s p" and "in_SigClose p \<longrightarrow> \<not> drainedCh s"
    and "in_CloseCh p \<longrightarrow> \<not> closedCh s"
  shows "remaining (length cs) p' < remaining (length cs) p"
  using assms by (cases p) (auto simp: exec_defs Let_def split: if_splits nat.splits)

lemma sum_list_update_less:
  "i < length xs \<Longrightarrow> f y < f (xs ! i) \<Longrightarrow> sum_list (map f (xs[i := y])) < (sum_list (map f xs) :: nat)"
proof (induction xs arbitrary: i)
  case (Cons x xs)
  then show ?case by (cases i) auto
qed simp

lemma snapshot_work_decreases:
  assumes "snapshot_inv cs c" and "step c c'"
  shows "work (length cs) c' < work (length cs) c"
proof -
  obtain s ps where c: "c = (s, ps)" by (cases c)
  then obtain i s' p' where i: "i < length ps" and ex: "exec s (ps ! i) = Some (s', p')"
    and c': "c' = (s', ps[i := p'])"
    using assms(2) unfolding c step_iff by blast
  have "snapshot_inv cs (s, ps)" using assms(1) c by simp
  from exec_remaining [OF ex snapshot_guards(1-3) [OF this i]] i show ?thesis
    by (simp add: work_def c c' sum_list_update_less)
qed

interpretation lifecycle: terminating_system step "\<lambda>c. \<exists>m n. c = initial cs m n" "snapshot_inv cs"
    "work (length cs)" for cs
  by unfold_locales (auto intro: snapshot_inv_initial snapshot_inv_step snapshot_work_decreases)

lemma exec_None:
  "exec s p = None \<longleftrightarrow> finished p \<or> p = Panicked \<or> p = CloseWait \<and> \<not> drainedCh s
    \<or> p = CloseJoin \<and> \<not> closedCh s"
  by (cases p) (auto simp: exec_defs Let_def split: nat.splits)

lemma will_signal_moves: "will_signal p \<Longrightarrow> exec s p \<noteq> None"
  by (cases p) (auto simp: exec_defs)

text \<open>No deadlock: a reachable system in which no goroutine can move has only finished ones.\<close>

lemma stuck_finished:
  assumes inv: "snapshot_inv cs (s, ps)" and stuck: "\<forall>c'. \<not> step (s, ps) c'"
  shows "\<forall>p\<in>set ps. finished p"
proof -
  note I = snapshot_invD [OF inv]
  have none: "exec s p = None" if "p \<in> set ps" for p
    using stuck that by (cases "exec s p") (auto simp: step_iff in_set_conv_nth)
  have "cnt will_signal ps = 0"
    using none will_signal_moves unfolding cnt_zero_iff by blast
  then have "\<not> drainedCh s \<Longrightarrow> CloseWait \<notin> set ps" using I(8) by (auto simp: cnt_pos_iff)
  moreover have "CloseWait \<in> set ps \<Longrightarrow> \<not> drainedCh s" using none [of CloseWait] by (simp add: exec_None)
  ultimately have nowait: "CloseWait \<notin> set ps" by blast
  have nocl: "\<forall>p\<in>set ps. \<not> closing p"
  proof
    fix p assume "p \<in> set ps"
    with none nowait have "finished p \<or> p = Panicked \<or> p = CloseJoin" by (auto simp: exec_None)
    then show "\<not> closing p" by (cases p) auto
  qed
  then have "state s \<noteq> snapshotStateClosing"
    using I(3) by (auto simp: cnt_zero_iff [symmetric])
  moreover have "\<forall>p\<in>set ps. \<not> in_CloseCh p" 
  proof
    fix p assume "p \<in> set ps"
    with none have "exec s p = None" by blast
    then show "\<not> in_CloseCh p" by (cases p) (auto simp: exec_None)
  qed
  then have "cnt in_CloseCh ps = 0" by (simp add: cnt_zero_iff)
  with I(4) have "closedCh s \<longleftrightarrow> state s = snapshotStateClosed"
    by (cases "closedCh s"; cases "state s") simp_all
  ultimately have "state s = snapshotStateOpen \<or> closedCh s" by (cases "state s") auto
  with none nowait I(9) show ?thesis by (force simp: exec_None)
qed

section \<open>Holding requests\<close>

lemma exec_holding:
  assumes "exec s p = Some (s', p')" and "state s \<noteq> snapshotStateOpen"
  shows "p' \<noteq> Holding"
  using assms by (cases p) (auto simp: exec_defs Let_def split: if_splits nat.splits)

lemma holders_step:
  assumes "step (s, ps) (s', qs)" and "state s \<noteq> snapshotStateOpen"
  shows "holders qs \<le> holders ps"
  using assms exec_holding by (auto simp: step_iff cnt_update of_bool_def)

lemma no_counted_no_holders: "cnt counted ps = 0 \<Longrightarrow> holders ps = 0"
  by (auto simp: cnt_zero_iff)

lemma exec_new_signal:
  assumes "exec s p = Some (s', p')" and "state s \<noteq> snapshotStateOpen" and "\<not> signalling p"
  shows "drainSignaled s' = drainSignaled s" and "signalling p' \<Longrightarrow> inFlight s' = 0"
  using assms by (cases p; auto simp: exec_defs Let_def split: if_splits nat.splits)+

lemma exec_leaves_open:
  assumes "exec s p = Some (s', p')" and "state s = snapshotStateOpen" and "state s' \<noteq> snapshotStateOpen"
    and "closing p \<longrightarrow> state s = snapshotStateClosing"
  shows "p' = CloseLoad" and "s' = s\<lparr>state := snapshotStateClosing\<rparr>"
  using assms by (cases p; auto simp: exec_defs Let_def split: if_splits nat.splits)+

lemma drained_inv_leaves_open:
  assumes inv: "snapshot_inv cs (s, ps)" and i: "i < length ps"
    and ex: "exec s (ps ! i) = Some (s', p')"
    and st: "state s = snapshotStateOpen" "state s' \<noteq> snapshotStateOpen"
    and quiet: "cnt in_RelLoad ps = 0"
  shows "\<not> drainSignaled s'" and "cnt signalling (ps[i := p']) = 0"
proof -
  note E = exec_leaves_open [OF ex st snapshot_guards(4) [OF inv i]] and I = snapshot_invD [OF inv]
  show "\<not> drainSignaled s'" using E(2) I(6) st(1) by simp
  have "\<forall>p\<in>set ps. \<not> signalling p"
  proof
    fix p assume "p \<in> set ps"
    then have "pc_ok cs s p" "\<not> in_RelLoad p" using I(9) quiet by (auto simp: cnt_zero_iff)
    with st(1) show "\<not> signalling p" by (cases p) auto
  qed
  then have "cnt signalling ps = 0" by (simp add: cnt_zero_iff)
  then show "cnt signalling (ps[i := p']) = 0"
    using E(1) i \<open>\<forall>p\<in>set ps. \<not> signalling p\<close> by (simp add: cnt_update)
qed

lemma drained_inv_step:
  assumes inv: "snapshot_inv cs c" and d: "drained_inv c" and step: "quiet_step c c'"
  shows "drained_inv c'"
proof -
  obtain s ps where c: "c = (s, ps)" by (cases c)
  obtain i s' p' where i: "i < length ps" and ex: "exec s (ps ! i) = Some (s', p')"
    and c': "c' = (s', ps[i := p'])" and st: "step (s, ps) (s', ps[i := p'])"
    using step unfolding c quiet_step_def step_iff by blast
  have inv': "snapshot_inv cs (s, ps)" using inv c by simp
  have "holders (ps[i := p']) = 0"
    if open': "state s' \<noteq> snapshotStateOpen" and sig: "drainSignaled s' \<or> 0 < cnt signalling (ps[i := p'])"
  proof (cases "state s = snapshotStateOpen")
    case True
    have "state s' = snapshotStateClosing"
      using exec_leaves_open(2) [OF ex True open' snapshot_guards(4) [OF inv' i]] by simp
    then have "cnt in_RelLoad ps = 0" using step True by (simp add: quiet_step_def c c')
    from drained_inv_leaves_open [OF inv' i ex True open' this] sig show ?thesis by simp
  next
    case False
    note H = holders_step [OF st False]
    show ?thesis
    proof (cases "drainSignaled s \<or> 0 < cnt signalling ps")
      case True
      then have "holders ps = 0" using d False unfolding drained_inv_def c by blast
      with H cnt_nonneg show ?thesis by (metis order_antisym)
    next
      case none: False
      then have ns: "\<not> signalling (ps ! i)" using cnt_pos [OF i, of signalling] by blast
      have "signalling p'"
        using sig none exec_new_signal(1) [OF ex False ns] cnt_nonneg [of signalling ps]
        by (auto simp: cnt_update [OF i] of_bool_def split: if_splits)
      then have "cnt counted (ps[i := p']) = 0"
        using exec_new_signal(2) [OF ex False ns] snapshot_counters_step(1) [OF inv' i ex] by simp
      then show ?thesis by (rule no_counted_no_holders)
    qed
  qed
  then show ?thesis by (simp add: drained_inv_def c')
qed

interpretation quiet: transition_system quiet_step "\<lambda>c. \<exists>m n. c = initial cs m n"
    "\<lambda>c. snapshot_inv cs c \<and> drained_inv c" for cs
proof
  fix c assume "\<exists>m n. c = initial cs m n"
  then show "snapshot_inv cs c \<and> drained_inv c"
    using snapshot_inv_initial by (auto simp: drained_inv_def initial_def newRuntimeSnapshot_def)
next
  fix c c' assume inv: "snapshot_inv cs c \<and> drained_inv c" and st: "quiet_step c c'"
  then have "step c c'" by (simp add: quiet_step_def)
  with inv st show "snapshot_inv cs c' \<and> drained_inv c'"
    using snapshot_inv_step drained_inv_step by blast
qed

section \<open>The log of closed closers\<close>

lemma drained_signaled:
  assumes "snapshot_inv cs (s, ps)" and "drainedCh s"
  shows "drainSignaled s"
  using snapshot_invD(2) [OF assms(1)] assms(2) cnt_nonneg [of in_SigClose ps]
  by (cases "drainSignaled s") simp_all

lemma log_prefix:
  assumes inv: "snapshot_inv cs (s, ps)"
  shows "(\<exists>k. closedLog s = take k (rev cs))
    \<and> (closedLog s \<noteq> [] \<longrightarrow> state s \<noteq> snapshotStateOpen \<and> drainedCh s)"
proof -
  note I = snapshot_invD [OF inv]
  consider "state s = snapshotStateOpen" | "state s = snapshotStateClosed" | "state s = snapshotStateClosing"
    by (cases "state s")
  then show ?thesis
  proof cases
    case 1
    then show ?thesis using I(6) by (auto intro: exI [of _ 0])
  next
    case 2
    then show ?thesis using I(7) by (auto intro: exI [of _ "length cs"])
  next
    case 3
    then have "0 < cnt closing ps" using I(3) by simp
    then obtain p where p: "p \<in> set ps" "closing p" by (auto simp: cnt_pos_iff)
    have "pc_ok cs s p" using I(9) p(1) by blast
    then have "closedLog s = [] \<or> (\<exists>i. closedLog s = rev (drop i cs)) \<and> drainedCh s"
      using p(2) by (cases p) (auto intro: exI [of _ 0])
    then show ?thesis using 3 by (auto simp: rev_drop intro: exI [of _ 0])
  qed
qed

section \<open>Closers do not disappear\<close>

lemma exec_is_closer: "exec s p = Some (s', p') \<Longrightarrow> pc_ok cs s p \<Longrightarrow> in_SigClose p \<longrightarrow> \<not> drainedCh s
    \<Longrightarrow> in_CloseCh p \<longrightarrow> \<not> closedCh s \<Longrightarrow> is_closer p' = is_closer p"
  by (cases p) (auto simp: exec_defs Let_def split: if_splits nat.splits)

lemma closers_step:
  assumes "snapshot_inv cs c" and "step c c'"
  shows "cnt is_closer (snd c') = cnt is_closer (snd c)"
proof -
  obtain s ps where c: "c = (s, ps)" by (cases c)
  then obtain i s' p' where i: "i < length ps" and ex: "exec s (ps ! i) = Some (s', p')"
    and c': "c' = (s', ps[i := p'])"
    using assms(2) unfolding c step_iff by blast
  have "snapshot_inv cs (s, ps)" using assms(1) c by simp
  from exec_is_closer [OF ex snapshot_guards(1-3) [OF this i]] show ?thesis
    using i by (simp add: c c' cnt_update)
qed

lemma closers_steps: "step\<^sup>*\<^sup>* c c' \<Longrightarrow> snapshot_inv cs c \<Longrightarrow> cnt is_closer (snd c') = cnt is_closer (snd c)"
proof (induction rule: rtranclp_induct)
  case (step c' c'')
  then show ?case using closers_step [OF lifecycle.inv_steps [OF step(1)]] by simp
qed simp

lemma closed_when_finished:
  assumes inv: "snapshot_inv cs (s, ps)" and fin: "\<forall>p\<in>set ps. finished p" and n: "0 < cnt is_closer ps"
  shows "state s = snapshotStateClosed" and "closedLog s = rev cs"
    and "filter in_CloseDone ps = [CloseDone (firstErr (rev cs))]"
proof -
  note I = snapshot_invD [OF inv]
  obtain p where p: "p \<in> set ps" "is_closer p" using n by (auto simp: cnt_pos_iff)
  with fin I(9) have ch: "closedCh s" by (cases p) force+
  then show "state s = snapshotStateClosed"
    using I(4) cnt_nonneg [of in_CloseCh ps] by (cases "state s") auto
  then show "closedLog s = rev cs" using I(7) by blast
  have "length (filter in_CloseDone ps) = 1" using I(5) ch by (simp add: cnt_def)
  then obtain q where q: "filter in_CloseDone ps = [q]" by (auto simp: length_Suc_conv)
  then have "q \<in> set (filter in_CloseDone ps)" by simp
  then have "q \<in> set ps" "in_CloseDone q" by auto
  then have "q = CloseDone (firstErr (rev cs))" using bspec [OF I(9), of q] by (cases q rule: pc.exhaust) simp_all
  with q show "filter in_CloseDone ps = [CloseDone (firstErr (rev cs))]" by simp
qed

lemma run_schedule_steps: "run_schedule is c = Some c' \<Longrightarrow> step\<^sup>*\<^sup>* c c'"
proof (induction "is" arbitrary: c)
  case (Cons i "is")
  then show ?case
    by (auto split: option.splits intro: converse_rtranclp_into_rtranclp step.intros)
qed simp

lemma run_quiet_steps: "run_quiet is c = Some c' \<Longrightarrow> quiet_step\<^sup>*\<^sup>* c c'"
proof (induction "is" arbitrary: c)
  case (Cons i "is")
  then obtain d where d: "exec_at i c = Some d" "run_quiet is d = Some c'"
    "\<not> (state (fst c) = snapshotStateOpen \<and> state (fst d) = snapshotStateClosing \<and> cnt in_RelLoad (snd c) \<noteq> 0)"
    by (auto split: option.splits if_splits)
  then have "quiet_step c d" by (auto simp: quiet_step_def intro: step.intros)
  then show ?case using Cons.IH [OF d(2)] by (rule converse_rtranclp_into_rtranclp)
qed simp

section \<open>The properties\<close>

text \<open>
  C6. However requests and closers interleave, no channel is closed twice (which would panic), the
  counter is the number of goroutines between their \<^verbatim>\<open>Add(1)\<close> and \<^verbatim>\<open>Add(-1)\<close>,
  at most one goroutine closes, and the closers closed so far are the first ones in reverse order
  of registration, each closed once.
\<close>

theorem lifecycle_safe:
  assumes "step\<^sup>*\<^sup>* (initial cs m n) (s, ps)"
  shows "Panicked \<notin> set ps \<and> inFlight s = cnt counted ps \<and> cnt closing ps \<le> 1
    \<and> (\<exists>k. closedLog s = take k (rev cs))"
proof -
  have inv: "snapshot_inv cs (s, ps)" using lifecycle.inv_reachable [OF _ assms] by blast
  then show ?thesis
    using snapshot_invD(1,3,9) [OF inv] log_prefix [OF inv] by auto
qed

theorem lifecycle_safe_witness:
  "\<exists>s ps. step\<^sup>*\<^sup>* (initial [(''registry'', None)] 1 1) (s, ps) \<and> ps = [Holding, CloseWait]
    \<and> inFlight s = 1 \<and> Panicked \<notin> set ps \<and> inFlight s = cnt counted ps"
proof -
  have "run_schedule [0, 0, 0, 1, 1] (initial [(''registry'', None)] 1 1)
      = Some ((newRuntimeSnapshot [(''registry'', None)])\<lparr>inFlight := 1, state := snapshotStateClosing\<rparr>,
          [Holding, CloseWait])"
    by code_simp
  note r = run_schedule_steps [OF this]
  from lifecycle_safe [OF r] r show ?thesis by (intro exI conjI) auto
qed

text \<open>
  C7. Draining always completes: a run from a fresh snapshot with \<open>m\<close> requests and \<open>n\<close> calls of
  \<^verbatim>\<open>Close\<close> has at most \<open>8 m + (length cs + 9) n\<close> accesses; when no goroutine can move,
  every request and every \<^verbatim>\<open>Close\<close> has returned (no wake-up is lost); and then, if
  \<^verbatim>\<open>Close\<close> was called, every closer was closed once, in reverse order, and exactly one
  call returned the first error of that order, the others having waited for it.
\<close>

theorem lifecycle_completes:
  "((step ^^ k) (initial cs m n) c \<longrightarrow> k \<le> 8 * m + (length cs + 9) * n)
   \<and> (step\<^sup>*\<^sup>* (initial cs m n) (s, ps) \<and> (\<forall>c'. \<not> step (s, ps) c') \<longrightarrow>
        (\<forall>p\<in>set ps. finished p)
      \<and> (0 < n \<longrightarrow> state s = snapshotStateClosed \<and> closedLog s = rev cs
           \<and> filter in_CloseDone ps = [CloseDone (firstErr (rev cs))]))"
proof (intro conjI impI)
  assume "(step ^^ k) (initial cs m n) c"
  from lifecycle.run_bounded [OF this snapshot_inv_initial]
  have "k \<le> work (length cs) (initial cs m n)" by simp
  also have "\<dots> = 8 * m + (length cs + 9) * n"
    by (simp add: work_def initial_def sum_list_replicate)
  finally show "k \<le> 8 * m + (length cs + 9) * n" .
next
  assume r: "step\<^sup>*\<^sup>* (initial cs m n) (s, ps) \<and> (\<forall>c'. \<not> step (s, ps) c')"
  then have inv: "snapshot_inv cs (s, ps)" using lifecycle.inv_reachable by blast
  then show fin: "\<forall>p\<in>set ps. finished p" using stuck_finished r by blast
  assume "0 < n"
  have "cnt is_closer ps = cnt is_closer (snd (initial cs m n))"
    using closers_steps [OF conjunct1 [OF r] snapshot_inv_initial] by simp
  then have "0 < cnt is_closer ps" using \<open>0 < n\<close> by (simp add: initial_def cnt_def)
  from closed_when_finished [OF inv fin this]
  show "state s = snapshotStateClosed" and "closedLog s = rev cs"
    and "filter in_CloseDone ps = [CloseDone (firstErr (rev cs))]" by simp_all
qed

theorem lifecycle_completes_witness:
  "\<exists>s ps. step\<^sup>*\<^sup>* (initial [(''a'', Some ''e''), (''b'', None)] 0 1) (s, ps)
     \<and> (\<forall>c'. \<not> step (s, ps) c')
     \<and> closedLog s = [(''b'', None), (''a'', Some ''e'')] \<and> filter in_CloseDone ps = [CloseDone (Some ''e'')]"
proof -
  let ?cs = "[(''a'', Some ''e''), (''b'', None)]"
  obtain s ps where r: "step\<^sup>*\<^sup>* (initial ?cs 0 1) (s, ps)" "\<forall>c'. \<not> step (s, ps) c'"
    using lifecycle.final_reachable [OF snapshot_inv_initial] by (metis surj_pair)
  then have "closedLog s = rev ?cs" "filter in_CloseDone ps = [CloseDone (firstErr (rev ?cs))]"
    using lifecycle_completes [of 0 ?cs 0 1 "initial ?cs 0 1" s ps] by auto
  with r show ?thesis by (auto simp: firstErr_def)
qed

text \<open>
  Once the snapshot has left the open state, no request acquires it any more: the number of
  requests that hold it never grows.
\<close>

theorem no_acquire_after_close:
  assumes "step\<^sup>*\<^sup>* (s, ps) (s', qs)" and "state s \<noteq> snapshotStateOpen"
  shows "state s' \<noteq> snapshotStateOpen \<and> cnt (\<lambda>p. p = Holding) qs \<le> cnt (\<lambda>p. p = Holding) ps"
  using assms
proof (induction "(s', qs)" arbitrary: s' qs rule: rtranclp_induct)
  case (step c)
  obtain t rs where c: "c = (t, rs)" by (cases c)
  with step have open': "state t \<noteq> snapshotStateOpen" and le: "holders rs \<le> holders ps" by auto
  from step(2) have "state s' \<noteq> snapshotStateOpen"
    using open' exec_frame(3) by (auto simp: c step_iff)
  with holders_step [OF _ open'] step(2) le show ?case by (force simp: c)
qed simp

theorem no_acquire_after_close_witness:
  "\<exists>s qs. step\<^sup>*\<^sup>* ((newRuntimeSnapshot [])\<lparr>state := snapshotStateClosing\<rparr>, [AcqAdd, CloseLoad]) (s, qs)
     \<and> qs = [RequestDone Rejected, CloseWait] \<and> cnt (\<lambda>p. p = Holding) qs \<le> 0"
proof -
  let ?s = "(newRuntimeSnapshot [])\<lparr>state := snapshotStateClosing\<rparr>"
  have "run_schedule [0, 1, 0, 0, 0, 0, 0] (?s, [AcqAdd, CloseLoad])
      = Some (?s\<lparr>drainSignaled := True, drainedCh := True\<rparr>, [RequestDone Rejected, CloseWait])"
    by code_simp
  note r = run_schedule_steps [OF this]
  from no_acquire_after_close [OF r] r show ?thesis by (auto simp: newRuntimeSnapshot_def cnt_def)
qed

text \<open>
  C15. The drain signal can come too early: a \<^verbatim>\<open>release\<close> that has decremented the counter to
  zero while the snapshot was open, but loads the state only after a new request has acquired it
  and \<^verbatim>\<open>Close\<close> has started, signals the drain, and the plugins are closed under a request
  that still holds the snapshot.
\<close>

theorem close_under_holder:
  "\<exists>s ps. step\<^sup>*\<^sup>* (initial [(''registry'', None)] 2 1) (s, ps)
     \<and> Holding \<in> set ps \<and> closedLog s = [(''registry'', None)] \<and> state s = snapshotStateClosed"
proof -
  have "run_schedule ([0, 0, 0, 0, 0] @ [1, 1, 1] @ [2, 2] @ [0, 0, 0] @ [2, 2, 2, 2])
      (initial [(''registry'', None)] 2 1)
    = Some (\<lparr>closers = [], inFlight = 1, state = snapshotStateClosed, drainSignaled = True,
             drainedCh = True, closedCh = False, closedLog = [(''registry'', None)]\<rparr>,
            [RequestDone Served, Holding, CloseCh None])"
    by code_simp
  from run_schedule_steps [OF this] show ?thesis by (intro exI conjI) auto
qed

text \<open>
  That race is the only one: in every run in which the compare-and-swap of \<^verbatim>\<open>Close\<close>
  does not fall between the decrement to zero and the load of the state of some
  \<^verbatim>\<open>release\<close>, no closer is closed while a request holds the snapshot.
\<close>

theorem quiet_close_safe:
  assumes "quiet_step\<^sup>*\<^sup>* (initial cs m n) (s, ps)" and "closedLog s \<noteq> []"
  shows "Holding \<notin> set ps"
proof -
  have inv: "snapshot_inv cs (s, ps)" "drained_inv (s, ps)"
    using quiet.inv_reachable [OF _ assms(1)] by blast+
  have "state s \<noteq> snapshotStateOpen" "drainSignaled s"
    using log_prefix [OF inv(1)] assms(2) drained_signaled [OF inv(1)] by auto
  then have "holders ps = 0" using inv(2) by (simp add: drained_inv_def)
  then show ?thesis by (auto simp: cnt_zero_iff)
qed

theorem quiet_close_safe_witness:
  "\<exists>s ps. quiet_step\<^sup>*\<^sup>* (initial [(''registry'', None)] 1 1) (s, ps)
     \<and> closedLog s = [(''registry'', None)] \<and> Holding \<notin> set ps"
proof -
  have "run_quiet [0, 0, 0, 1, 1, 0, 0, 0, 0, 0, 1, 1] (initial [(''registry'', None)] 1 1)
     = Some (\<lparr>closers = [(''registry'', None)], inFlight = 0, state = snapshotStateClosing,
              drainSignaled = True, drainedCh = True, closedCh = False,
              closedLog = [(''registry'', None)]\<rparr>, [RequestDone Served, CloseClosers 0 None])"
    by code_simp
  note r = run_quiet_steps [OF this]
  from quiet_close_safe [OF r] r show ?thesis by (intro exI conjI) auto
qed

end
