(* ===== verification/Plugin_Registry.thy ===== *)
theory Plugin_Registry
  imports Http_World Config Snapshot
begin

text \<open>
  The plugin registry, \<^verbatim>\<open>internal/plugin/plugin.go\<close> with the registration helpers of
  \<^verbatim>\<open>internal/plugin/context.go\<close>, and the construction of a handler chain from plugin
  references, \<^verbatim>\<open>buildPluginHandlers\<close> and \<^verbatim>\<open>wrapObservedPluginHandler\<close> in
  \<^verbatim>\<open>internal/gateway/gateway.go\<close>.

  A handler transforms the world of a request. A factory takes its parameters and the resources of the registry (the closers it has
  registered so far and those already closed), since building a plugin may register a closer. The
  YAML encoder and decoder behind \<^verbatim>\<open>Decode\<close> are parameters.
\<close>

section \<open>The registry\<close>

type_synonym Scope = string

definition ScopeGlobal :: Scope where "ScopeGlobal = ''global''"
definition ScopeServer :: Scope where "ScopeServer = ''server''"
definition ScopeRoute :: Scope where "ScopeRoute = ''route''"
definition ScopeService :: Scope where "ScopeService = ''service''"
definition ScopeUpstream :: Scope where "ScopeUpstream = ''upstream''"

definition AllScopes :: "Scope list" where
  "AllScopes = [ScopeGlobal, ScopeServer, ScopeRoute, ScopeService, ScopeUpstream]"

record Metadata =
  md_Name :: string
  md_Scopes :: "Scope list"
  md_Priority :: int

record resources =
  res_closers :: "Closer list"
  res_closed :: "Closer list"

type_synonym 'h Factory = "any \<Rightarrow> resources \<Rightarrow> resources \<times> (string + 'h)"

record 'h Definition =
  def_factory :: "'h Factory"
  def_metadata :: Metadata

definition supportsScope :: "Scope list \<Rightarrow> Scope \<Rightarrow> bool" where
  "supportsScope scopes scope \<longleftrightarrow> scope \<in> set scopes"

definition Supports :: "'h Definition \<Rightarrow> Scope \<Rightarrow> bool" where
  "Supports d scope \<longleftrightarrow> supportsScope (md_Scopes (def_metadata d)) scope"

record 'h Registry =
  reg_definitions :: "(string \<times> 'h Definition) list"
  reg_resources :: resources

definition NewRegistry :: "'h Registry" where
  "NewRegistry = \<lparr>reg_definitions = [], reg_resources = \<lparr>res_closers = [], res_closed = []\<rparr>\<rparr>"

datatype register_error =
    PluginNameEmpty
  | FactoryNil string
  | ScopesEmpty string
  | AlreadyExists string

definition Register :: "'h Registry \<Rightarrow> Metadata \<Rightarrow> 'h Factory option \<Rightarrow> register_error + 'h Registry" where
  "Register r metadata factory =
     (if md_Name metadata = [] then Inl PluginNameEmpty
      else case factory of
        None \<Rightarrow> Inl (FactoryNil (md_Name metadata))
      | Some f \<Rightarrow>
          if length (md_Scopes metadata) = 0 then Inl (ScopesEmpty (md_Name metadata))
          else if map_of (reg_definitions r) (md_Name metadata) \<noteq> None then Inl (AlreadyExists (md_Name metadata))
          else Inr (r\<lparr>reg_definitions :=
                 map_put (md_Name metadata) \<lparr>def_factory = f, def_metadata = metadata\<rparr> (reg_definitions r)\<rparr>))"

definition lookupDefinition :: "'h Registry \<Rightarrow> string \<Rightarrow> 'h Definition option" where
  "lookupDefinition r name = map_of (reg_definitions r) name"

definition lookupFactory :: "'h Registry \<Rightarrow> string \<Rightarrow> 'h Factory option" where
  "lookupFactory r name = (case lookupDefinition r name of None \<Rightarrow> None | Some d \<Rightarrow> Some (def_factory d))"

definition Definitions :: "'h Registry \<Rightarrow> 'h Definition list" where
  "Definitions r = map snd (reg_definitions r)"

definition addCloser :: "Closer option \<Rightarrow> resources \<Rightarrow> resources" where
  "addCloser closer s =
     (case closer of None \<Rightarrow> s | Some c \<Rightarrow> s\<lparr>res_closers := res_closers s @ [c]\<rparr>)"

text \<open>The loop of \<^verbatim>\<open>Close\<close> from index \<open>i - 1\<close> down to 0.\<close>

fun closeLoop :: "Closer list \<Rightarrow> nat \<Rightarrow> string option \<Rightarrow> Closer list \<Rightarrow> Closer list \<times> string option" where
  "closeLoop cs 0 err acc = (acc, err)"
| "closeLoop cs (Suc i) err acc =
     (let c = cs ! i in closeLoop cs i (if err = None then snd c else err) (acc @ [c]))"

definition CloseResources :: "resources \<Rightarrow> resources \<times> string option" where
  "CloseResources s =
     (let (acc, err) = closeLoop (res_closers s) (length (res_closers s)) None (res_closed s)
      in (\<lparr>res_closers = [], res_closed = acc\<rparr>, err))"

definition RegistryClose :: "'h Registry \<Rightarrow> 'h Registry \<times> string option" where
  "RegistryClose r =
     (let (s, err) = CloseResources (reg_resources r) in (r\<lparr>reg_resources := s\<rparr>, err))"

section \<open>Typed registration\<close>

definition Decode :: "(any \<Rightarrow> string + string) \<Rightarrow> (string \<Rightarrow> string + 'T) \<Rightarrow> 'T \<Rightarrow> any \<Rightarrow> string + 'T" where
  "Decode marshal unmarshal zero params =
     (if params = ANil then Inr zero
      else case marshal params of
        Inl e \<Rightarrow> Inl (''failed to encode plugin params: '' @ e)
      | Inr data \<Rightarrow>
          (case unmarshal data of
             Inl e \<Rightarrow> Inl (''failed to decode plugin params: '' @ e)
           | Inr cfg \<Rightarrow> Inr cfg))"

definition RegisterTyped ::
    "(any \<Rightarrow> string + 'T) \<Rightarrow> 'h Registry \<Rightarrow> Metadata \<Rightarrow> ('T \<Rightarrow> string + 'h) \<Rightarrow> register_error + 'h Registry" where
  "RegisterTyped decode r metadata factory =
     Register r metadata (Some (\<lambda>params s.
       case decode params of Inl e \<Rightarrow> (s, Inl e) | Inr cfg \<Rightarrow> (s, factory cfg)))"

text \<open>\<open>wrap\<close> is \<^verbatim>\<open>WrapContextHandler\<close>.\<close>

definition RegisterContext ::
    "('ch \<Rightarrow> 'h) \<Rightarrow> 'h Registry \<Rightarrow> Metadata \<Rightarrow> 'ch Factory \<Rightarrow> register_error + 'h Registry" where
  "RegisterContext wrap r metadata factory =
     Register r metadata (Some (\<lambda>params s.
       case factory params s of
         (s', Inl e) \<Rightarrow> (s', Inl e)
       | (s', Inr handler) \<Rightarrow> (s', Inr (wrap handler))))"

definition RegisterTypedContext ::
    "('ch \<Rightarrow> 'h) \<Rightarrow> (any \<Rightarrow> string + 'T) \<Rightarrow> 'h Registry \<Rightarrow> Metadata \<Rightarrow> ('T \<Rightarrow> string + 'ch)
      \<Rightarrow> register_error + 'h Registry" where
  "RegisterTypedContext wrap decode r metadata factory =
     RegisterContext wrap r metadata (\<lambda>params s.
       case decode params of Inl e \<Rightarrow> (s, Inl e) | Inr cfg \<Rightarrow> (s, factory cfg))"

text \<open>The inner factory returns a handler, possibly a closer, and possibly an error.\<close>

definition closerFactory ::
    "(any \<Rightarrow> string + 'T) \<Rightarrow> ('T \<Rightarrow> 'ch \<times> Closer option \<times> string option) \<Rightarrow> 'ch Factory" where
  "closerFactory decode factory params s =
     (case decode params of
        Inl e \<Rightarrow> (s, Inl e)
      | Inr cfg \<Rightarrow>
          (case factory cfg of
             (handler, closer, Some err) \<Rightarrow>
               ((case closer of None \<Rightarrow> s | Some c \<Rightarrow> s\<lparr>res_closed := res_closed s @ [c]\<rparr>), Inl err)
           | (handler, closer, None) \<Rightarrow> (addCloser closer s, Inr handler)))"

definition RegisterTypedContextWithCloser ::
    "('ch \<Rightarrow> 'h) \<Rightarrow> (any \<Rightarrow> string + 'T) \<Rightarrow> 'h Registry \<Rightarrow> Metadata
      \<Rightarrow> ('T \<Rightarrow> 'ch \<times> Closer option \<times> string option) \<Rightarrow> register_error + 'h Registry" where
  "RegisterTypedContextWithCloser wrap decode r metadata factory =
     RegisterContext wrap r metadata (closerFactory decode factory)"

section \<open>Handler chains\<close>

definition wrapObservedPluginHandler :: "string \<Rightarrow> Scope \<Rightarrow> 'raw handler \<Rightarrow> 'raw handler" where
  "wrapObservedPluginHandler name scope nxt w =
     (let startPhase = Phase (w_ctx w);
          start = w_clock w;
          w = nxt w;
          p = w_ctx w;
          result = (if hpc_gatewayError p \<noteq> None then ''error''
                    else if IsAborted p then ''aborted'' else ''ok'')
      in w\<lparr>w_recorder := ObservePlugin
             \<lparr>pl_Plugin = name, pl_Scope = scope, pl_Phase = startPhase, pl_RouteID = hpc_routeID p,
              pl_ServiceID = hpc_serviceID p, pl_UpstreamID = hpc_upstreamID p, pl_Result = result\<rparr>
             (w_clock w - start) (w_recorder w)\<rparr>)"

record 'raw builtPlugin =
  bp_handler :: "'raw handler"
  bp_index :: nat
  bp_priority :: int

datatype build_error =
    UnsupportedScope string Scope
  | BuildFailed string string

text \<open>The name and parameters that a reference stands for.\<close>

definition resolveRef :: "(string \<times> PluginOptions) list \<Rightarrow> PluginRef \<Rightarrow> string \<times> any" where
  "resolveRef plugins ref =
     (if ref_Use ref \<noteq> [] then
        (case map_of plugins (ref_Use ref) of
           Some d \<Rightarrow> (plugin_Name d, plugin_Params d)
         | None \<Rightarrow> ([], ANil))
      else (ref_Name ref, ref_Params ref))"

fun buildLoop ::
    "(string \<times> 'raw handler Definition) list \<Rightarrow> (string \<times> PluginOptions) list \<Rightarrow> Scope \<Rightarrow> nat \<Rightarrow> PluginRef list
      \<Rightarrow> 'raw builtPlugin list \<Rightarrow> resources \<Rightarrow> resources \<times> (build_error + 'raw builtPlugin list)" where
  "buildLoop defs plugins scope index [] built s = (s, Inr built)"
| "buildLoop defs plugins scope index (ref # refs) built s =
     (let (name, params) = resolveRef plugins ref in
      case map_of defs name of
        None \<Rightarrow> buildLoop defs plugins scope (Suc index) refs built s
      | Some definition \<Rightarrow>
          if \<not> Supports definition scope then (s, Inl (UnsupportedScope name scope))
          else
            (case def_factory definition params s of
               (s', Inl err) \<Rightarrow> (s', Inl (BuildFailed name err))
             | (s', Inr handler) \<Rightarrow>
                 buildLoop defs plugins scope (Suc index) refs
                   (built @ [\<lparr>bp_handler = wrapObservedPluginHandler name scope handler, bp_index = index,
                              bp_priority = md_Priority (def_metadata definition)\<rparr>]) s'))"

definition pluginCompare :: "'raw builtPlugin \<Rightarrow> 'raw builtPlugin \<Rightarrow> int" where
  "pluginCompare left right =
     (if bp_priority left = bp_priority right then
        (if bp_index left < bp_index right then -1
         else if bp_index left > bp_index right then 1 else 0)
      else if bp_priority left > bp_priority right then -1 else 1)"

definition buildPluginHandlers ::
    "(string \<times> 'raw handler Definition) list \<Rightarrow> (string \<times> PluginOptions) list \<Rightarrow> Scope \<Rightarrow> PluginRef list
      \<Rightarrow> resources \<Rightarrow> resources \<times> (build_error + 'raw handler list)" where
  "buildPluginHandlers defs plugins scope refs s =
     (case buildLoop defs plugins scope 0 refs [] s of
        (s', Inl e) \<Rightarrow> (s', Inl e)
      | (s', Inr built) \<Rightarrow> (s', Inr (map bp_handler (SortStableFunc built pluginCompare))))"

section \<open>Notions used in the statements\<close>

text \<open>The reference names a registered plugin.\<close>

definition registered :: "(string \<times> 'h Definition) list \<Rightarrow> (string \<times> PluginOptions) list \<Rightarrow> PluginRef \<Rightarrow> bool" where
  "registered defs plugins ref \<longleftrightarrow> map_of defs (fst (resolveRef plugins ref)) \<noteq> None"

text \<open>
  The entry is the one built for the reference: its plugin supports the scope, its factory returned
  the handler, and the entry has that handler with the metrics around it and the plugin's priority.
\<close>

definition built_from ::
    "(string \<times> 'raw handler Definition) list \<Rightarrow> (string \<times> PluginOptions) list \<Rightarrow> Scope \<Rightarrow> PluginRef
      \<Rightarrow> 'raw builtPlugin \<Rightarrow> bool" where
  "built_from defs plugins scope ref b \<longleftrightarrow>
     (\<exists>name params d s s' h. resolveRef plugins ref = (name, params) \<and> map_of defs name = Some d
        \<and> Supports d scope \<and> def_factory d params s = (s', Inr h)
        \<and> bp_handler b = wrapObservedPluginHandler name scope h
        \<and> bp_priority b = md_Priority (def_metadata d))"

text \<open>The order in which the chain runs: higher priority first, then the order of the references.\<close>

definition runs_before :: "'raw builtPlugin \<Rightarrow> 'raw builtPlugin \<Rightarrow> bool" where
  "runs_before a b \<longleftrightarrow>
     bp_priority a > bp_priority b \<or> bp_priority a = bp_priority b \<and> bp_index a < bp_index b"

text \<open>A registry of two plugins, for concrete inputs.\<close>

definition tagDefinition :: "string \<Rightarrow> int \<Rightarrow> unit handler Definition" where
  "tagDefinition name prio =
     \<lparr>def_factory = (\<lambda>params s. (s, Inr (\<lambda>w. w\<lparr>w_clock := w_clock w + 1\<rparr>))),
      def_metadata = \<lparr>md_Name = name, md_Scopes = [ScopeRoute], md_Priority = prio\<rparr>\<rparr>"

definition refTo :: "string \<Rightarrow> PluginRef" where
  "refTo name = \<lparr>ref_Params = ANil, ref_Use = [], ref_Name = name\<rparr>"

section \<open>Closing\<close>

lemma closeLoop_spec:
  "i \<le> length cs \<Longrightarrow>
    closeLoop cs i err acc = (acc @ rev (take i cs), if err = None then firstErr (rev (take i cs)) else err)"
proof (induction i arbitrary: err acc)
  case (Suc i)
  then show ?case
    by (auto simp: take_Suc_conv_app_nth Let_def firstErr_def split: option.split)
qed (simp add: firstErr_def)

lemma CloseResources_spec:
  "CloseResources s =
     (\<lparr>res_closers = [], res_closed = res_closed s @ rev (res_closers s)\<rparr>, firstErr (rev (res_closers s)))"
  by (simp add: CloseResources_def closeLoop_spec)

section \<open>The chain\<close>

interpretation plugin_order: comparator pluginCompare "\<lambda>_. True"
  by unfold_locales (auto simp: pluginCompare_def split: if_splits)

lemma index_in_range: "map f xs = filter P ys \<Longrightarrow> \<forall>x\<in>set xs. f x \<in> set ys"
  by (metis filter_is_subset image_subset_iff list.set_map)

lemma buildLoop_spec:
  assumes "buildLoop defs plugins scope k refs built s = (s', Inr out)"
  shows "\<exists>new. out = built @ new
    \<and> map bp_index new = filter (\<lambda>i. registered defs plugins (refs ! (i - k))) [k..<k + length refs]
    \<and> (\<forall>b\<in>set new. built_from defs plugins scope (refs ! (bp_index b - k)) b)"
  using assms
proof (induction refs arbitrary: k built s)
  case (Cons ref refs)
  obtain name params where res: "resolveRef plugins ref = (name, params)" by (cases "resolveRef plugins ref")
  have upt: "[k..<k + length (ref # refs)] = k # [Suc k..<Suc k + length refs]"
    using upt_conv_Cons [of k "k + length (ref # refs)"] by simp
  have shift: "(ref # refs) ! (i - k) = refs ! (i - Suc k)" if "i \<in> set [Suc k..<Suc k + length refs]" for i
    using that by (auto simp: nth_Cons')
  have idx: "filter (\<lambda>i. registered defs plugins ((ref # refs) ! (i - k))) [Suc k..<Suc k + length refs]
      = filter (\<lambda>i. registered defs plugins (refs ! (i - Suc k))) [Suc k..<Suc k + length refs]"
    by (rule filter_cong) (simp_all only: shift)
  have indices: "filter (\<lambda>i. registered defs plugins ((ref # refs) ! (i - k))) [k..<k + length (ref # refs)]
      = (if registered defs plugins ref then [k] else [])
        @ filter (\<lambda>i. registered defs plugins (refs ! (i - Suc k))) [Suc k..<Suc k + length refs]"
    unfolding upt filter.simps idx by simp
  have lift: "built_from defs plugins scope ((ref # refs) ! (bp_index b - k)) b"
    if "built_from defs plugins scope (refs ! (bp_index b - Suc k)) b"
      "bp_index b \<in> set [Suc k..<Suc k + length refs]" for b
    using that shift by metis
  show ?case
  proof (cases "map_of defs name")
    case None
    then have reg: "\<not> registered defs plugins ref" by (simp add: registered_def res)
    from Cons.prems None have "buildLoop defs plugins scope (Suc k) refs built s = (s', Inr out)"
      by (simp add: res)
    from Cons.IH [OF this] obtain new where new: "out = built @ new"
      "map bp_index new = filter (\<lambda>i. registered defs plugins (refs ! (i - Suc k))) [Suc k..<Suc k + length refs]"
      "\<forall>b\<in>set new. built_from defs plugins scope (refs ! (bp_index b - Suc k)) b" by blast
    have "\<forall>b\<in>set new. built_from defs plugins scope ((ref # refs) ! (bp_index b - k)) b"
      using index_in_range [OF new(2)] new(3) lift by blast
    with new(1,2) reg show ?thesis unfolding indices by (intro exI [of _ new]) simp
  next
    case (Some d)
    with Cons.prems obtain s1 h where d: "Supports d scope" "def_factory d params s = (s1, Inr h)"
      "buildLoop defs plugins scope (Suc k) refs
        (built @ [\<lparr>bp_handler = wrapObservedPluginHandler name scope h, bp_index = k,
                   bp_priority = md_Priority (def_metadata d)\<rparr>]) s1 = (s', Inr out)"
      by (auto simp: res split: if_splits prod.splits sum.splits)
    let ?b = "\<lparr>bp_handler = wrapObservedPluginHandler name scope h, bp_index = k,
                   bp_priority = md_Priority (def_metadata d)\<rparr>"
    have reg: "registered defs plugins ref" by (simp add: registered_def res Some)
    have from_ref: "built_from defs plugins scope ref ?b"
      unfolding built_from_def using res Some d(1,2) by auto
    from Cons.IH [OF d(3)] obtain new where new: "out = (built @ [?b]) @ new"
      "map bp_index new = filter (\<lambda>i. registered defs plugins (refs ! (i - Suc k))) [Suc k..<Suc k + length refs]"
      "\<forall>b\<in>set new. built_from defs plugins scope (refs ! (bp_index b - Suc k)) b" by blast
    have "\<forall>b\<in>set new. built_from defs plugins scope ((ref # refs) ! (bp_index b - k)) b"
      using index_in_range [OF new(2)] new(3) lift by blast
    with new(1,2) reg from_ref show ?thesis unfolding indices by (intro exI [of _ "?b # new"]) simp
  qed
qed simp

lemma sorted_runs_before:
  assumes "distinct (map bp_index built)"
  shows "sorted_wrt runs_before (SortStableFunc built pluginCompare)"
proof -
  let ?xs = "SortStableFunc built pluginCompare"
  have "sorted_wrt (\<lambda>a b. pluginCompare a b \<le> 0) ?xs"
    by (rule plugin_order.sorted_SortStableFunc) simp
  moreover have "mset (map bp_index ?xs) = mset (map bp_index built)" by simp
  then have "distinct (map bp_index ?xs)" using assms by (metis mset_eq_imp_distinct_iff)
  then have "sorted_wrt (\<lambda>a b. bp_index a \<noteq> bp_index b) ?xs"
    by (simp add: distinct_map_sorted_wrt)
  ultimately have "sorted_wrt (\<lambda>a b. pluginCompare a b \<le> 0 \<and> bp_index a \<noteq> bp_index b) ?xs"
    by (simp add: sorted_wrt_conj)
  then show ?thesis
    by (rule sorted_wrt_mono_rel [rotated]) (auto simp: pluginCompare_def runs_before_def split: if_splits)
qed

lemma buildPluginHandlers_spec:
  assumes "buildPluginHandlers defs plugins scope refs s = (s', Inr hs)"
  shows "\<exists>bs. hs = map bp_handler bs \<and> sorted_wrt runs_before bs
    \<and> sort (map bp_index bs) = filter (\<lambda>i. registered defs plugins (refs ! i)) [0..<length refs]
    \<and> (\<forall>b\<in>set bs. built_from defs plugins scope (refs ! bp_index b) b)"
proof -
  obtain built where b: "buildLoop defs plugins scope 0 refs [] s = (s', Inr built)"
    and hs: "hs = map bp_handler (SortStableFunc built pluginCompare)"
    using assms by (auto simp: buildPluginHandlers_def split: prod.splits sum.splits)
  from buildLoop_spec [OF b] have idx: "map bp_index built = filter (\<lambda>i. registered defs plugins (refs ! i)) [0..<length refs]"
    and from_ref: "\<forall>b\<in>set built. built_from defs plugins scope (refs ! bp_index b) b" by auto
  let ?bs = "SortStableFunc built pluginCompare"
  have "sort (map bp_index ?bs) = sort (map bp_index built)"
    by (rule properties_for_sort) simp_all
  also have "\<dots> = map bp_index built" unfolding idx by (intro sorted_sort_id sorted_wrt_filter sorted_upt)
  finally have "sort (map bp_index ?bs) = map bp_index built" .
  moreover have "distinct (map bp_index built)" unfolding idx by simp
  ultimately show ?thesis
    using hs from_ref sorted_runs_before [of built] idx by (intro exI [of _ ?bs]) simp
qed

section \<open>The properties\<close>

text \<open>
  \<^verbatim>\<open>Register\<close> accepts exactly a named plugin with a factory, at least one scope and a
  name that is not taken; then that name, and no other, is looked up to the new definition.
\<close>

theorem Register_lookup:
  "((\<exists>r'. Register r metadata factory = Inr r') \<longleftrightarrow>
      md_Name metadata \<noteq> [] \<and> factory \<noteq> None \<and> md_Scopes metadata \<noteq> []
      \<and> lookupDefinition r (md_Name metadata) = None)
   \<and> (Register r metadata (Some f) = Inr r' \<longrightarrow>
        lookupDefinition r' name =
          (if name = md_Name metadata then Some \<lparr>def_factory = f, def_metadata = metadata\<rparr>
           else lookupDefinition r name)
      \<and> reg_resources r' = reg_resources r)"
  by (auto simp: Register_def lookupDefinition_def split: option.split)

theorem Register_lookup_witness:
  "\<exists>r'. Register NewRegistry \<lparr>md_Name = ''cors'', md_Scopes = [ScopeRoute], md_Priority = 4\<rparr>
          (Some (\<lambda>params s. (s, Inr (7::int)))) = Inr r'
     \<and> lookupDefinition r' ''other'' = None"
proof -
  let ?md = "\<lparr>md_Name = ''cors'', md_Scopes = [ScopeRoute], md_Priority = 4\<rparr>"
    and ?f = "\<lambda>params s. (s, Inr (7::int))"
  have none: "lookupDefinition (NewRegistry :: int Registry) n = None" for n
    by (simp add: lookupDefinition_def NewRegistry_def)
  obtain r' where "Register NewRegistry ?md (Some ?f) = Inr r'"
    using Register_lookup [of NewRegistry ?md "Some ?f" ?f NewRegistry "[]"] none by auto
  then show ?thesis
    using Register_lookup [of NewRegistry ?md None ?f r' "''other''"] none by auto
qed

text \<open>
  C14. The chain that \<^verbatim>\<open>buildPluginHandlers\<close> returns has exactly one handler for every
  reference to a registered plugin and none for the others; every plugin in it supports the scope;
  it runs in descending order of priority and, at equal priority, in the order of the references.
\<close>

theorem buildPluginHandlers_order:
  assumes "buildPluginHandlers defs plugins scope refs s = (s', Inr hs)"
  shows "\<exists>bs. hs = map bp_handler bs
    \<and> sorted_wrt (\<lambda>a b. bp_priority a > bp_priority b \<or> bp_priority a = bp_priority b \<and> bp_index a < bp_index b) bs
    \<and> sort (map bp_index bs) = filter (\<lambda>i. registered defs plugins (refs ! i)) [0..<length refs]
    \<and> (\<forall>b\<in>set bs. built_from defs plugins scope (refs ! bp_index b) b)"
  using buildPluginHandlers_spec [OF assms] unfolding runs_before_def by blast

theorem buildPluginHandlers_order_witness:
  "\<exists>hs. snd (buildPluginHandlers [(''a'', tagDefinition ''a'' 5), (''b'', tagDefinition ''b'' 9)] [] ScopeRoute
        [refTo ''a'', refTo ''missing'', refTo ''a'', refTo ''b''] \<lparr>res_closers = [], res_closed = []\<rparr>)
      = Inr hs \<and> length hs = 3"
proof -
  let ?defs = "[(''a'', tagDefinition ''a'' 5), (''b'', tagDefinition ''b'' 9)]"
  let ?refs = "[refTo ''a'', refTo ''missing'', refTo ''a'', refTo ''b'']"
  let ?s = "\<lparr>res_closers = [], res_closed = []\<rparr>"
  have reg: "registered ?defs [] (refTo ''a'')" "registered ?defs [] (refTo ''b'')" "\<not> registered ?defs [] (refTo ''missing'')"
    by (simp_all add: registered_def resolveRef_def refTo_def)
  have sup: "Supports (tagDefinition n p) ScopeRoute" for n p
    by (simp add: Supports_def supportsScope_def tagDefinition_def)
  obtain s' hs where h: "buildPluginHandlers ?defs [] ScopeRoute ?refs ?s = (s', Inr hs)"
    by (simp add: buildPluginHandlers_def resolveRef_def refTo_def sup) (simp add: tagDefinition_def)
  obtain bs :: "unit builtPlugin list" where bs: "hs = map bp_handler bs"
    "sort (map bp_index bs) = filter (\<lambda>i. registered ?defs [] (?refs ! i)) [0..<length ?refs]"
    using buildPluginHandlers_order [OF h] by blast
  have "filter (\<lambda>i. registered ?defs [] (?refs ! i)) [0..<length ?refs] = [0, 2, 3]"
    using reg by (simp add: upt_rec numeral_eq_Suc)
  with bs(2) have "length (sort (map bp_index bs)) = 3" by simp
  with h bs(1) show ?thesis by simp
qed

text \<open>
  Closing a registry closes every registered closer once, in reverse order of registration,
  returns the first error in that order, and leaves nothing to close.
\<close>

theorem RegistryClose_reverse:
  "RegistryClose r =
     (r\<lparr>reg_resources := \<lparr>res_closers = [],
          res_closed = res_closed (reg_resources r) @ rev (res_closers (reg_resources r))\<rparr>\<rparr>,
      firstErr (rev (res_closers (reg_resources r))))
   \<and> snd (RegistryClose (fst (RegistryClose r))) = None"
  by (simp add: RegistryClose_def CloseResources_spec firstErr_def)

end
