(* ===== verification/Proxy.thy ===== *)
theory Proxy
  imports Http_World Config
begin

text \<open>
  The reverse proxy, \<^verbatim>\<open>internal/proxy/proxy.go\<close>: the upstream request, the copy of the
  response, the classification of errors, the timings and their observation.

  The HTTP client is the parameter \<open>exchange\<close>: given the upstream request and the time it starts, the
  trace callbacks it makes, its result, and the times at which the round trip and the reading of
  the body end. \<open>validRequest\<close> tells whether \<^verbatim>\<open>http.NewRequestWithContext\<close> accepts the
  method and the URL. A zero \<^verbatim>\<open>time.Time\<close> is \<^term>\<open>None\<close>. An error is kept as what
  \<^verbatim>\<open>errors.Is\<close> and \<^verbatim>\<open>errors.As\<close> find in it.
\<close>

section \<open>Data\<close>

record Target =
  tg_Scheme :: string
  tg_Address :: string
  tg_Host :: string

datatype proxy_error = ErrInvalidTarget | ErrBadGateway | ErrTimeout

datatype net_error = DeadlineExceeded | NetTimeout | OtherError string

definition hopByHopHeaders :: "string list" where
  "hopByHopHeaders =
     [''Connection'', ''Keep-Alive'', ''Proxy-Authenticate'', ''Proxy-Authorization'', ''Te'', ''Trailer'',
      ''Transfer-Encoding'', ''Upgrade'', ''connection'', ''keep-alive'', ''proxy-authenticate'',
      ''proxy-authorization'', ''te'', ''trailer'', ''transfer-encoding'', ''upgrade'']"

definition isHopByHopHeader :: "string \<Rightarrow> bool" where
  "isHopByHopHeader key \<longleftrightarrow> key \<in> set hopByHopHeaders"

record UpstreamRequest =
  uq_Method :: string
  uq_Scheme :: string
  uq_Address :: string
  uq_Path :: string
  uq_RawQuery :: string
  uq_Host :: string
  uq_Headers :: "(string \<times> string list) list"
  uq_Body :: "string option"
  uq_ContentLength :: int

record UpstreamResponse =
  ur_StatusCode :: int
  ur_Headers :: "(string \<times> string list) list"
  ur_Body :: string
  ur_BodyErr :: "net_error option"

section \<open>The upstream request\<close>

text \<open>The body reader and the content length.\<close>

definition requestBody :: "HttpRequest \<Rightarrow> string option \<times> int" where
  "requestBody rq =
     (if rq_IsBodyStream rq
      then (Some (rq_Body rq), if rq_ContentLength rq \<ge> 0 then rq_ContentLength rq else -1)
      else if length (rq_Body rq) > 0 then (Some (rq_Body rq), int (length (rq_Body rq)))
      else (None, 0))"

text \<open>
  \<^verbatim>\<open>http.Header\<close>: a map from canonical names to values. A name is canonical when each letter at the start or after a hyphen is
  upper-case and all others are lower-case; a name with a byte that no name may have is left as it is.
\<close>

definition validHeaderByte :: "char \<Rightarrow> bool" where
  "validHeaderByte c \<longleftrightarrow>
     list_ex (\<lambda>(lo, hi). lo \<le> c \<and> c \<le> hi) [(CHR ''0'', CHR ''9''), (CHR ''A'', CHR ''Z''), (CHR ''a'', CHR ''z'')]
   \<or> c \<in> set (''!#$%&*+-.^_|~'' @ [CHR 0x27, CHR 0x60])"

fun canonicalRun :: "bool \<Rightarrow> string \<Rightarrow> string" where
  "canonicalRun first [] = []"
| "canonicalRun first (c # cs) = (if first then upper_char c else lower_char c) # canonicalRun (c = CHR ''-'') cs"

definition CanonicalHeaderKey :: "string \<Rightarrow> string" where
  "CanonicalHeaderKey key = (if list_all validHeaderByte key then canonicalRun True key else key)"

definition HeaderAdd :: "string \<times> string \<Rightarrow> (string \<times> string list) list \<Rightarrow> (string \<times> string list) list" where
  "HeaderAdd kv h = (let key = CanonicalHeaderKey (fst kv) in map_put key (map_get [] h key @ [snd kv]) h)"

definition forwardedHeader :: "string \<times> string \<Rightarrow> bool" where
  "forwardedHeader kv \<longleftrightarrow>
     \<not> (fst kv = [] \<or> EqualFold (fst kv) ''Host'' \<or> isHopByHopHeader (fst kv))"

definition newUpstreamRequest ::
    "(string \<Rightarrow> string \<times> string \<times> string \<times> string \<Rightarrow> bool) \<Rightarrow> HttpRequest \<Rightarrow> Target \<Rightarrow> proxy_error + UpstreamRequest" where
  "newUpstreamRequest validRequest rq target =
     (if tg_Address target = [] then Inl ErrInvalidTarget
      else
        let scheme = (if tg_Scheme target = [] then ''http'' else tg_Scheme target) in
        if scheme \<noteq> ''http'' \<and> scheme \<noteq> ''https'' then Inl ErrInvalidTarget
        else
          let (body, contentLength) = requestBody rq in
          if \<not> validRequest (rq_Method rq) (scheme, tg_Address target, rq_Path rq, rq_Query rq) then Inl ErrInvalidTarget
          else Inr
            \<lparr>uq_Method = rq_Method rq, uq_Scheme = scheme, uq_Address = tg_Address target,
             uq_Path = rq_Path rq, uq_RawQuery = rq_Query rq,
             uq_Host = (if tg_Host target \<noteq> [] then tg_Host target else tg_Address target),
             uq_Headers = fold HeaderAdd (filter forwardedHeader (rq_Headers rq)) [],
             uq_Body = body, uq_ContentLength = (if body \<noteq> None then contentLength else 0)\<rparr>)"

definition classifyRequestError :: "net_error \<Rightarrow> proxy_error" where
  "classifyRequestError err =
     (if err = DeadlineExceeded then ErrTimeout
      else if err = NetTimeout then ErrTimeout
      else ErrBadGateway)"

text \<open>The sum of the three timeouts is a 64-bit addition.\<close>

definition requestTimeout :: "TimeoutOptions \<Rightarrow> int" where
  "requestTimeout t =
     (let total = wrap64 (wrap64 (Connect t + Read t) + Write t) in
      if total > 0 then total
      else if Read t > 0 then Read t
      else if Write t > 0 then Write t
      else 0)"

section \<open>Timings\<close>

record traceTimings =
  tt_gotConnAt :: "int option"
  tt_bodyReadDoneAt :: "int option"
  tt_connectStart :: "int option"
  tt_connectDone :: "int option"
  tt_tlsHandshakeStart :: "int option"
  tt_tlsHandshakeDone :: "int option"
  tt_firstByteAt :: "int option"
  tt_wroteRequestAt :: "int option"
  tt_start :: int
  tt_writeErr :: "string option"
  tt_connectErr :: "string option"
  tt_tlsErr :: "string option"
  tt_target :: ProxyInfo
  tt_reusedConn :: bool

definition newTraceTimings :: "Target \<Rightarrow> int \<Rightarrow> traceTimings" where
  "newTraceTimings target now =
     \<lparr>tt_gotConnAt = None, tt_bodyReadDoneAt = None, tt_connectStart = None, tt_connectDone = None,
      tt_tlsHandshakeStart = None, tt_tlsHandshakeDone = None, tt_firstByteAt = None,
      tt_wroteRequestAt = None, tt_start = now, tt_writeErr = None, tt_connectErr = None, tt_tlsErr = None,
      tt_target = noProxyInfo\<lparr>pi_Scheme := tg_Scheme target, pi_Address := tg_Address target,
                             pi_Host := tg_Host target\<rparr>,
      tt_reusedConn = False\<rparr>"

datatype traceEvent =
    GotConn bool int
  | ConnectStart int
  | ConnectDone "string option" int
  | TLSHandshakeStart int
  | TLSHandshakeDone "string option" int
  | WroteRequest "string option" int
  | GotFirstResponseByte int

fun clientTrace :: "traceEvent \<Rightarrow> traceTimings \<Rightarrow> traceTimings" where
  "clientTrace (GotConn reused now) t = t\<lparr>tt_reusedConn := reused, tt_gotConnAt := Some now\<rparr>"
| "clientTrace (ConnectStart now) t = t\<lparr>tt_connectStart := Some now\<rparr>"
| "clientTrace (ConnectDone err now) t = t\<lparr>tt_connectDone := Some now, tt_connectErr := err\<rparr>"
| "clientTrace (TLSHandshakeStart now) t = t\<lparr>tt_tlsHandshakeStart := Some now\<rparr>"
| "clientTrace (TLSHandshakeDone err now) t = t\<lparr>tt_tlsHandshakeDone := Some now, tt_tlsErr := err\<rparr>"
| "clientTrace (WroteRequest err now) t = t\<lparr>tt_wroteRequestAt := Some now, tt_writeErr := err\<rparr>"
| "clientTrace (GotFirstResponseByte now) t = t\<lparr>tt_firstByteAt := Some now\<rparr>"

definition finishRoundTrip :: "net_error option \<Rightarrow> int \<Rightarrow> traceTimings \<Rightarrow> traceTimings" where
  "finishRoundTrip err now t =
     (if err = None \<and> tt_firstByteAt t = None then t\<lparr>tt_firstByteAt := Some now\<rparr> else t)"

definition finishBodyRead :: "int \<Rightarrow> traceTimings \<Rightarrow> traceTimings" where
  "finishBodyRead now t = t\<lparr>tt_bodyReadDoneAt := Some now\<rparr>"

text \<open>The difference of two times when both are set.\<close>

definition between :: "int option \<Rightarrow> int option \<Rightarrow> int option" where
  "between a b = (case (a, b) of (Some s, Some e) \<Rightarrow> Some (e - s) | _ \<Rightarrow> None)"

definition traceSnapshot :: "int \<Rightarrow> traceTimings \<Rightarrow> ProxyInfo" where
  "traceSnapshot now t =
     (let info = (tt_target t)\<lparr>pi_ReusedConnection := tt_reusedConn t\<rparr>;
          info = (case between (tt_connectStart t) (tt_connectDone t) of
                    Some d \<Rightarrow> info\<lparr>pi_ConnectTime := d\<rparr> | None \<Rightarrow> info);
          info = (case between (tt_tlsHandshakeStart t) (tt_tlsHandshakeDone t) of
                    Some d \<Rightarrow> info\<lparr>pi_TLSHandshakeTime := d\<rparr> | None \<Rightarrow> info);
          writeStart = (case tt_gotConnAt t of None \<Rightarrow> tt_start t | Some g \<Rightarrow> g);
          writeStart = (case tt_tlsHandshakeDone t of None \<Rightarrow> writeStart | Some d \<Rightarrow> d);
          info = (case tt_wroteRequestAt t of
                    None \<Rightarrow> info | Some wr \<Rightarrow> info\<lparr>pi_RequestWriteTime := wr - writeStart\<rparr>);
          info = (case between (tt_wroteRequestAt t) (tt_firstByteAt t) of
                    None \<Rightarrow> info | Some d \<Rightarrow> info\<lparr>pi_FirstByteTime := d, pi_ProcessingEstimate := d\<rparr>);
          end_at = (case tt_bodyReadDoneAt t of None \<Rightarrow> now | Some e \<Rightarrow> e);
          info = (case tt_firstByteAt t of
                    None \<Rightarrow> info | Some f \<Rightarrow> info\<lparr>pi_ResponseReadTime := end_at - f\<rparr>)
      in info\<lparr>pi_TotalTime := end_at - tt_start t\<rparr>)"

definition classifyErrorType :: "net_error \<Rightarrow> traceTimings \<Rightarrow> string" where
  "classifyErrorType err t =
     (if tt_connectErr t \<noteq> None then ''connect_error''
      else if tt_tlsErr t \<noteq> None then ''tls_error''
      else if tt_writeErr t \<noteq> None then ''write_error''
      else if err = DeadlineExceeded then ''timeout''
      else if err = NetTimeout then ''timeout''
      else if tt_firstByteAt t \<noteq> None then ''read_error''
      else ''bad_gateway'')"

definition statusClassFor :: "int \<Rightarrow> string" where
  "statusClassFor status =
     (let c = status sdiv 100 in
      if c = 1 then ''1xx'' else if c = 2 then ''2xx'' else if c = 3 then ''3xx''
      else if c = 4 then ''4xx'' else if c = 5 then ''5xx'' else '''')"

definition recordUpstreamObservation ::
    "Target \<Rightarrow> ProxyInfo \<Rightarrow> int \<Rightarrow> string \<Rightarrow> 'raw world \<Rightarrow> 'raw world" where
  "recordUpstreamObservation target info status errorType w =
     (let w = onCtx (SetProxyInfo info) w;
          w = (if status > 0 then onCtx (SetUpstreamStatusCode status) w else w);
          statusClass = (if status > 0 then statusClassFor status else '''');
          p = w_ctx w
      in w\<lparr>w_recorder := ObserveUpstream
            \<lparr>ul_RouteID = hpc_routeID p, ul_ServiceID = hpc_serviceID p, ul_UpstreamID = hpc_upstreamID p,
             ul_Endpoint = pi_Address info, ul_Scheme = tg_Scheme target, ul_Method = rq_Method (w_request w),
             ul_StatusClass = statusClass, ul_ErrorType = errorType,
             ul_ReusedConn = pi_ReusedConnection info\<rparr> info (w_recorder w)\<rparr>)"

section \<open>The proxy\<close>

record Exchange =
  ex_events :: "traceEvent list"
  ex_result :: "net_error + UpstreamResponse"
  ex_roundTripEnd :: int
  ex_bodyEnd :: int

text \<open>\<open>reset\<close> is \<^verbatim>\<open>Response.Reset\<close>; the header fields are added value by value.\<close>

definition copyResponse :: "(HttpResponse \<Rightarrow> HttpResponse) \<Rightarrow> UpstreamResponse \<Rightarrow> HttpResponse \<Rightarrow> HttpResponse" where
  "copyResponse reset resp rp =
     (let rp = (reset rp)\<lparr>rp_Status := ur_StatusCode resp\<rparr>;
          added = concat (map (\<lambda>(key, vals). map (\<lambda>value. (key, value)) vals)
                    (filter (\<lambda>kv. \<not> isHopByHopHeader (fst kv)) (ur_Headers resp)))
      in rp\<lparr>rp_Headers := rp_Headers rp @ added, rp_Body := ur_Body resp\<rparr>)"

definition proxyServeHTTP ::
    "(string \<Rightarrow> string \<times> string \<times> string \<times> string \<Rightarrow> bool) \<Rightarrow> (UpstreamRequest \<Rightarrow> int \<Rightarrow> Exchange) \<Rightarrow> (HttpResponse \<Rightarrow> HttpResponse)
      \<Rightarrow> Target \<Rightarrow> 'raw world \<Rightarrow> 'raw world \<times> proxy_error option" where
  "proxyServeHTTP validRequest exchange reset target w =
     (case newUpstreamRequest validRequest (w_request w) target of
        Inl e \<Rightarrow> (w, Some e)
      | Inr req \<Rightarrow>
          let ex = exchange req (w_clock w);
              t = fold clientTrace (ex_events ex) (newTraceTimings target (w_clock w));
              t = finishRoundTrip (case ex_result ex of Inl err \<Rightarrow> Some err | Inr _ \<Rightarrow> None) (ex_roundTripEnd ex) t
          in (case ex_result ex of
                Inl err \<Rightarrow>
                  let w = w\<lparr>w_clock := ex_roundTripEnd ex\<rparr> in
                  (recordUpstreamObservation target (traceSnapshot (ex_roundTripEnd ex) t) 0 (classifyErrorType err t) w,
                   Some (classifyRequestError err))
              | Inr resp \<Rightarrow>
                  let w = w\<lparr>w_response := copyResponse reset resp (w_response w), w_clock := ex_bodyEnd ex\<rparr>;
                      t = finishBodyRead (ex_bodyEnd ex) t
                  in (case ur_BodyErr resp of
                        Some err \<Rightarrow>
                          (recordUpstreamObservation target (traceSnapshot (ex_bodyEnd ex) t) (ur_StatusCode resp)
                             (classifyErrorType err t) w, Some (classifyRequestError err))
                      | None \<Rightarrow>
                          (recordUpstreamObservation target (traceSnapshot (ex_bodyEnd ex) t) (ur_StatusCode resp)
                             '''' w, None))))"

section \<open>Notions used in the statements\<close>

text \<open>The upstream observation that the proxy makes, as a function of the outcome.\<close>

definition upstreamLabelsOf :: "Target \<Rightarrow> 'raw world \<Rightarrow> ProxyInfo \<Rightarrow> int \<Rightarrow> string \<Rightarrow> UpstreamLabels" where
  "upstreamLabelsOf target w info status errorType =
     \<lparr>ul_RouteID = hpc_routeID (w_ctx w), ul_ServiceID = hpc_serviceID (w_ctx w),
      ul_UpstreamID = hpc_upstreamID (w_ctx w), ul_Endpoint = pi_Address info, ul_Scheme = tg_Scheme target,
      ul_Method = rq_Method (w_request w), ul_StatusClass = (if status > 0 then statusClassFor status else ''''),
      ul_ErrorType = errorType, ul_ReusedConn = pi_ReusedConnection info\<rparr>"

definition isTimeout :: "net_error \<Rightarrow> bool" where
  "isTimeout err \<longleftrightarrow> err = DeadlineExceeded \<or> err = NetTimeout"

text \<open>The error of an exchange: of the round trip, or of reading the body.\<close>

definition exchangeError :: "Exchange \<Rightarrow> net_error option" where
  "exchangeError ex = (case ex_result ex of Inl err \<Rightarrow> Some err | Inr resp \<Rightarrow> ur_BodyErr resp)"

definition exchangeStatus :: "Exchange \<Rightarrow> int" where
  "exchangeStatus ex = (case ex_result ex of Inl err \<Rightarrow> 0 | Inr resp \<Rightarrow> ur_StatusCode resp)"

text \<open>Concrete inputs.\<close>

definition plainRequest :: HttpRequest where
  "plainRequest = \<lparr>rq_Method = ''GET'', rq_Host = ''api.local'', rq_Path = ''/x'', rq_Query = '''',
     rq_Headers = [(''Accept'', ''*/*''), (''host'', ''evil''), (''Connection'', ''close''), (''Te'', ''trailers'')],
     rq_IsBodyStream = False, rq_ContentLength = 0, rq_Body = ''''\<rparr>"

definition plainWorld :: "unit world" where
  "plainWorld = \<lparr>w_ctx = FromRequestContext (), w_request = plainRequest,
     w_response = \<lparr>rp_Status = 200, rp_Headers = [], rp_Body = ''''\<rparr>, w_balancers = [],
     w_recorder = NewMemoryRecorder, w_clock = 0, w_panicked = False\<rparr>"

definition failingExchange :: "UpstreamRequest \<Rightarrow> int \<Rightarrow> Exchange" where
  "failingExchange req now = \<lparr>ex_events = [ConnectStart now, ConnectDone (Some ''refused'') (now + 5)],
     ex_result = Inl NetTimeout, ex_roundTripEnd = now + 5, ex_bodyEnd = now + 5\<rparr>"

definition localTarget :: Target where
  "localTarget = \<lparr>tg_Scheme = ''http'', tg_Address = ''127.0.0.1:80'', tg_Host = ''api.local''\<rparr>"

section \<open>Observations and errors\<close>

lemma recordUpstreamObservation_world:
  "w_recorder (recordUpstreamObservation target info status errorType w)
     = ObserveUpstream (upstreamLabelsOf target w info status errorType) info (w_recorder w)"
  "w_response (recordUpstreamObservation target info status errorType w) = w_response w"
  "w_request (recordUpstreamObservation target info status errorType w) = w_request w"
  by (simp_all add: recordUpstreamObservation_def upstreamLabelsOf_def Let_def SetProxyInfo_def
      SetUpstreamStatusCode_def)

lemma classifyRequestError_timeout: "classifyRequestError err = (if isTimeout err then ErrTimeout else ErrBadGateway)"
  by (simp add: classifyRequestError_def isTimeout_def)

lemma upstreamLabelsOf_world [simp]:
  "upstreamLabelsOf target (w\<lparr>w_clock := now\<rparr>) = upstreamLabelsOf target w"
  "upstreamLabelsOf target (w\<lparr>w_response := rp\<rparr>) = upstreamLabelsOf target w"
  by (intro ext; simp add: upstreamLabelsOf_def)+

text \<open>The two outcomes of an exchange.\<close>

lemma serve_round_trip_error:
  assumes "newUpstreamRequest valid (w_request w) target = Inr req"
    and "ex_result (exchange req (w_clock w)) = Inl err"
  shows "\<exists>info t. proxyServeHTTP valid exchange reset target w =
    (recordUpstreamObservation target info 0 (classifyErrorType err t)
       (w\<lparr>w_clock := ex_roundTripEnd (exchange req (w_clock w))\<rparr>), Some (classifyRequestError err))"
  using assms by (auto simp: proxyServeHTTP_def Let_def)

lemma serve_response:
  assumes "newUpstreamRequest valid (w_request w) target = Inr req"
    and "ex_result (exchange req (w_clock w)) = Inr resp"
  shows "\<exists>info t. proxyServeHTTP valid exchange reset target w =
    (recordUpstreamObservation target info (ur_StatusCode resp)
       (case ur_BodyErr resp of Some err \<Rightarrow> classifyErrorType err t | None \<Rightarrow> [])
       (w\<lparr>w_response := copyResponse reset resp (w_response w),
          w_clock := ex_bodyEnd (exchange req (w_clock w))\<rparr>),
     map_option classifyRequestError (ur_BodyErr resp))"
  using assms by (auto simp: proxyServeHTTP_def Let_def split: option.split)

lemma classifyErrorType_nonempty: "classifyErrorType err t \<noteq> []"
  by (simp add: classifyErrorType_def)

section \<open>Timings\<close>

lemma traceSnapshot_fields:
  "pi_TotalTime (traceSnapshot now t) = (case tt_bodyReadDoneAt t of None \<Rightarrow> now | Some e \<Rightarrow> e) - tt_start t"
  "tt_wroteRequestAt t = Some wr \<Longrightarrow> tt_firstByteAt t = Some fb \<Longrightarrow>
     pi_FirstByteTime (traceSnapshot now t) = fb - wr
     \<and> pi_ResponseReadTime (traceSnapshot now t) = (case tt_bodyReadDoneAt t of None \<Rightarrow> now | Some e \<Rightarrow> e) - fb
     \<and> pi_RequestWriteTime (traceSnapshot now t) =
         wr - (case tt_tlsHandshakeDone t of Some d \<Rightarrow> d
               | None \<Rightarrow> (case tt_gotConnAt t of None \<Rightarrow> tt_start t | Some g \<Rightarrow> g))"
  by (simp_all add: traceSnapshot_def Let_def between_def split: option.splits)

section \<open>The properties\<close>

text \<open>
  C17. A request to an unusable target is refused with \<^verbatim>\<open>ErrInvalidTarget\<close> before anything is
  sent, observed or changed. Every other call makes exactly one upstream observation, under the
  labels of the request, and returns no error exactly when the round trip and the reading of the
  body succeed, \<^verbatim>\<open>ErrTimeout\<close> when that failed with a timeout, and \<^verbatim>\<open>ErrBadGateway\<close>
  otherwise; the client's response is left alone when the round trip fails.
\<close>

theorem proxy_outcome:
  "case newUpstreamRequest valid (w_request w) target of
     Inl e \<Rightarrow> e = ErrInvalidTarget \<and> proxyServeHTTP valid exchange reset target w = (w, Some ErrInvalidTarget)
   | Inr req \<Rightarrow>
       let ex = exchange req (w_clock w); (w', err) = proxyServeHTTP valid exchange reset target w
       in (\<exists>info errorType. w_recorder w' =
             ObserveUpstream (upstreamLabelsOf target w info (exchangeStatus ex) errorType) info (w_recorder w)
             \<and> (errorType = '''' \<longleftrightarrow> exchangeError ex = None))
        \<and> err = map_option (\<lambda>e. if isTimeout e then ErrTimeout else ErrBadGateway) (exchangeError ex)
        \<and> w_response w' = (case ex_result ex of Inl _ \<Rightarrow> w_response w
                           | Inr resp \<Rightarrow> copyResponse reset resp (w_response w))"
proof (cases "newUpstreamRequest valid (w_request w) target")
  case (Inl e)
  then have "e = ErrInvalidTarget" by (auto simp: newUpstreamRequest_def Let_def split: if_splits prod.splits)
  with Inl show ?thesis by (simp add: proxyServeHTTP_def)
next
  case (Inr req)
  show ?thesis
  proof (cases "ex_result (exchange req (w_clock w))")
    case (Inl err)
    obtain info t where "proxyServeHTTP valid exchange reset target w =
      (recordUpstreamObservation target info 0 (classifyErrorType err t)
         (w\<lparr>w_clock := ex_roundTripEnd (exchange req (w_clock w))\<rparr>), Some (classifyRequestError err))"
      using serve_round_trip_error [of valid w target req exchange err reset] Inr Inl by blast
    with Inr Inl classifyErrorType_nonempty show ?thesis
      by (auto simp: recordUpstreamObservation_world classifyRequestError_timeout exchangeError_def
          exchangeStatus_def)
  next
    case resp: (Inr resp)
    obtain info t where "proxyServeHTTP valid exchange reset target w =
      (recordUpstreamObservation target info (ur_StatusCode resp)
         (case ur_BodyErr resp of Some err \<Rightarrow> classifyErrorType err t | None \<Rightarrow> [])
         (w\<lparr>w_response := copyResponse reset resp (w_response w),
            w_clock := ex_bodyEnd (exchange req (w_clock w))\<rparr>),
       map_option classifyRequestError (ur_BodyErr resp))"
      using serve_response [of valid w target req exchange resp reset] Inr resp by blast
    with Inr resp classifyErrorType_nonempty show ?thesis
      by (cases "ur_BodyErr resp") (auto simp: recordUpstreamObservation_world classifyRequestError_timeout
          exchangeError_def exchangeStatus_def)
  qed
qed

text \<open>The fields that a proxy keeps to itself, in any spelling, and the names as the framework and the client spell them.\<close>

definition hopByHopNames :: "string list" where
  "hopByHopNames = [''connection'', ''keep-alive'', ''proxy-authenticate'', ''proxy-authorization'', ''te'', ''trailer'',
     ''transfer-encoding'', ''upgrade'']"

definition spelled :: "string \<Rightarrow> bool" where
  "spelled key \<longleftrightarrow> CanonicalHeaderKey key = key \<or> ToLower key = key"

lemma validHeaderByte_lower: "validHeaderByte (lower_char c) = validHeaderByte c"
proof (cases "CHR ''A'' \<le> c \<and> c \<le> CHR ''Z''")
  case True
  then have "CHR ''a'' \<le> lower_char c \<and> lower_char c \<le> CHR ''z''" by (simp add: less_eq_char_def nat_lower_char)
  with True show ?thesis by (simp add: validHeaderByte_def)
next
  case False
  then have "lower_char c = c" by (simp only: lower_char_def if_False)
  then show ?thesis by simp
qed

lemma upper_lower_char: "upper_char (lower_char c) = upper_char c" and lower_lower_char: "lower_char (lower_char c) = lower_char c"
  and lower_hyphen: "lower_char c = CHR ''-'' \<longleftrightarrow> c = CHR ''-''"
proof -
  show *: "lower_char (lower_char c) = lower_char c" by (auto simp: char_eq_iff_nat nat_lower_char)
  then show "upper_char (lower_char c) = upper_char c" using lower_eq_iff_upper_eq by blast
  show "lower_char c = CHR ''-'' \<longleftrightarrow> c = CHR ''-''" by (auto simp: char_eq_iff_nat nat_lower_char)
qed

lemma canonicalRun_lower: "canonicalRun first (ToLower key) = canonicalRun first key"
  by (induction key arbitrary: first) (simp_all add: ToLower_def upper_lower_char lower_lower_char lower_hyphen)

lemma CanonicalHeaderKey_lower:
  assumes "list_all validHeaderByte (ToLower key)"
  shows "CanonicalHeaderKey key = CanonicalHeaderKey (ToLower key)"
proof -
  have "list_all validHeaderByte key" using assms by (simp add: ToLower_def list_all_iff validHeaderByte_lower)
  with assms show ?thesis by (simp add: CanonicalHeaderKey_def canonicalRun_lower)
qed

lemma spelled_cases:
  assumes "spelled key" and "ToLower key = name" and "list_all validHeaderByte name"
  shows "key = CanonicalHeaderKey name \<or> key = name"
  using assms CanonicalHeaderKey_lower [of key] by (auto simp: spelled_def)

lemma hop_by_hop_spelled:
  assumes "spelled key"
  shows "isHopByHopHeader key \<longleftrightarrow> ToLower key \<in> set hopByHopNames"
proof
  have "list_all (\<lambda>key. ToLower key \<in> set hopByHopNames) hopByHopHeaders" by code_simp
  then show "isHopByHopHeader key \<Longrightarrow> ToLower key \<in> set hopByHopNames" by (simp add: isHopByHopHeader_def list_all_iff)
  have "list_all (\<lambda>name. list_all validHeaderByte name \<and> CanonicalHeaderKey name \<in> set hopByHopHeaders \<and> name \<in> set hopByHopHeaders) hopByHopNames"
    by code_simp
  then show "isHopByHopHeader key" if "ToLower key \<in> set hopByHopNames"
    using spelled_cases [OF assms refl] that by (auto simp: isHopByHopHeader_def list_all_iff)
qed

lemma forwarded_spelled:
  assumes "spelled key"
  shows "forwardedHeader (key, value) \<longleftrightarrow> key \<noteq> [] \<and> ToLower key \<notin> set (''host'' # hopByHopNames)"
proof -
  have host: "map lower_char ''Host'' = ''host''" by code_simp
  have "EqualFold key ''Host'' \<longleftrightarrow> ToLower key = ''host''" by (simp only: EqualFold_def ToLower_def host)
  then show ?thesis using hop_by_hop_spelled [OF assms] by (auto simp: forwardedHeader_def)
qed

lemma HeaderAdd_values:
  "map_get [] (fold HeaderAdd kvs h) name = map_get [] h name @ map snd (filter (\<lambda>(k, v). CanonicalHeaderKey k = name) kvs)"
  by (induction kvs arbitrary: h) (auto simp: HeaderAdd_def Let_def map_get_def)

text \<open>
  C13. Header fields. Names are spelled canonically or in lower case, as the HTTP framework and the HTTP client of the library
  hand them out. The upstream request has, under each canonical name, the values of the client's fields of that name in their order, except
  that fields without a name, \<^verbatim>\<open>Host\<close>, and the eight hop-by-hop fields \<^verbatim>\<open>Connection\<close>, \<^verbatim>\<open>Keep-Alive\<close>, \<^verbatim>\<open>Proxy-Authenticate\<close>,
  \<^verbatim>\<open>Proxy-Authorization\<close>, \<^verbatim>\<open>Te\<close>, \<^verbatim>\<open>Trailer\<close>, \<^verbatim>\<open>Transfer-Encoding\<close> and \<^verbatim>\<open>Upgrade\<close> are left out; nothing else is added. The upstream
  host is the target's, or its address when there is none. Of the upstream's response every field is added to the client's response,
  value by value, except the hop-by-hop fields.
\<close>

theorem proxy_headers:
  assumes "newUpstreamRequest valid rq target = Inr req" and "\<forall>(key, value)\<in>set (rq_Headers rq). spelled key"
    and "\<forall>(key, vals)\<in>set (ur_Headers resp). spelled key"
  shows "map_get [] (uq_Headers req) name =
      map snd (filter (\<lambda>(key, value). CanonicalHeaderKey key = name \<and> key \<noteq> [] \<and> ToLower key \<notin> set (''host'' # hopByHopNames)) (rq_Headers rq))
    \<and> uq_Host req = (if tg_Host target \<noteq> [] then tg_Host target else tg_Address target)
    \<and> (uq_Scheme req = ''http'' \<or> uq_Scheme req = ''https'') \<and> uq_Address req \<noteq> []
    \<and> rp_Headers (copyResponse reset resp rp) = rp_Headers (reset rp)
        @ concat (map (\<lambda>(key, vals). if ToLower key \<in> set hopByHopNames then [] else map (Pair key) vals) (ur_Headers resp))"
proof -
  let ?name = "\<lambda>(key, value). CanonicalHeaderKey key = name"
  have req: "uq_Headers req = fold HeaderAdd (filter forwardedHeader (rq_Headers rq)) []"
    "uq_Host req = (if tg_Host target \<noteq> [] then tg_Host target else tg_Address target)"
    "uq_Scheme req = ''http'' \<or> uq_Scheme req = ''https''" "uq_Address req \<noteq> []"
    using assms(1) by (auto simp: newUpstreamRequest_def Let_def split: if_splits prod.splits)
  have "filter ?name (filter forwardedHeader (rq_Headers rq)) = filter (\<lambda>(key, value). CanonicalHeaderKey key = name
      \<and> key \<noteq> [] \<and> ToLower key \<notin> set (''host'' # hopByHopNames)) (rq_Headers rq)"
    unfolding filter_filter
  proof (rule filter_cong [OF refl])
    fix kv assume "kv \<in> set (rq_Headers rq)"
    moreover obtain key val where kv: "kv = (key, val)" by fastforce
    ultimately have "spelled key" using assms(2) by blast
    from forwarded_spelled [OF this, of val]
    show "(forwardedHeader kv \<and> ?name kv) = (case kv of (key, value) \<Rightarrow> CanonicalHeaderKey key = name
      \<and> key \<noteq> [] \<and> ToLower key \<notin> set (''host'' # hopByHopNames))" unfolding kv prod.case by blast
  qed
  then have vals: "map_get [] (uq_Headers req) name = map snd (filter (\<lambda>(key, value). CanonicalHeaderKey key = name
      \<and> key \<noteq> [] \<and> ToLower key \<notin> set (''host'' # hopByHopNames)) (rq_Headers rq))"
    unfolding req(1) HeaderAdd_values by (simp add: map_get_def [of "[]" "[]"])
  have "concat (map (\<lambda>(key, vals). map (\<lambda>value. (key, value)) vals) (filter (\<lambda>kv. \<not> isHopByHopHeader (fst kv)) hs))
      = concat (map (\<lambda>(key, vals). if ToLower key \<in> set hopByHopNames then [] else map (Pair key) vals) hs)"
    if "\<forall>(key, vals)\<in>set hs. spelled key" for hs :: "(string \<times> string list) list"
    using that by (induction hs) (auto simp: hop_by_hop_spelled)
  from this [OF assms(3)] have "rp_Headers (copyResponse reset resp rp) = rp_Headers (reset rp)
        @ concat (map (\<lambda>(key, vals). if ToLower key \<in> set hopByHopNames then [] else map (Pair key) vals) (ur_Headers resp))"
    by (simp add: copyResponse_def Let_def)
  with vals req show ?thesis by (intro conjI)
qed

theorem proxy_headers_witness:
  "\<exists>req. newUpstreamRequest (\<lambda>_ _. True) plainRequest localTarget = Inr req
     \<and> map_get [] (uq_Headers req) ''Accept'' = [''*/*''] \<and> map_get [] (uq_Headers req) ''Te'' = []
     \<and> map_get [] (uq_Headers req) ''Host'' = []"
proof -
  obtain req where r: "newUpstreamRequest (\<lambda>_ _. True) plainRequest localTarget = Inr req"
    by (simp add: newUpstreamRequest_def localTarget_def Let_def requestBody_def plainRequest_def)
  let ?kept = "\<lambda>name. map snd (filter (\<lambda>(key, value). CanonicalHeaderKey key = name \<and> key \<noteq> []
      \<and> ToLower key \<notin> set (''host'' # hopByHopNames)) (rq_Headers plainRequest))"
  have "list_all (\<lambda>(key, value). spelled key) (rq_Headers plainRequest)" by code_simp
  then have spell: "\<forall>(key, value)\<in>set (rq_Headers plainRequest). spelled key" by (simp add: list_all_iff)
  have kept: "?kept ''Accept'' = [''*/*'']" "?kept ''Te'' = []" "?kept ''Host'' = []" by code_simp+
  have "\<forall>(key, vals)\<in>set (ur_Headers \<lparr>ur_StatusCode = 200, ur_Headers = [(''Server'', [''x''])], ur_Body = [], ur_BodyErr = None\<rparr>). spelled key"
    by (simp add: spelled_def) code_simp
  note out = conjunct1 [OF proxy_headers [OF r spell this, where reset = "\<lambda>rp. rp"]]
  show ?thesis by (rule exI [of _ req], intro conjI) (simp_all only: r out kept)
qed

text \<open>
  The phases add up: once the request was written and the first byte received, the times for
  writing, waiting and reading sum to the time since writing started, which is the total time less
  the time spent before; none is negative when the trace times are in order.
\<close>

theorem phases_add_up:
  assumes "tt_wroteRequestAt t = Some wr" and "tt_firstByteAt t = Some fb"
    and "writeStart = (case tt_tlsHandshakeDone t of Some d \<Rightarrow> d
               | None \<Rightarrow> (case tt_gotConnAt t of None \<Rightarrow> tt_start t | Some g \<Rightarrow> g))"
    and "tt_start t \<le> writeStart" "writeStart \<le> wr" "wr \<le> fb"
    and "fb \<le> (case tt_bodyReadDoneAt t of None \<Rightarrow> now | Some e \<Rightarrow> e)"
  shows "let info = traceSnapshot now t in
    pi_RequestWriteTime info + pi_FirstByteTime info + pi_ResponseReadTime info
      = pi_TotalTime info - (writeStart - tt_start t)
    \<and> 0 \<le> pi_RequestWriteTime info \<and> 0 \<le> pi_FirstByteTime info \<and> 0 \<le> pi_ResponseReadTime info
    \<and> pi_RequestWriteTime info + pi_FirstByteTime info + pi_ResponseReadTime info \<le> pi_TotalTime info"
  using assms(3-7) traceSnapshot_fields(2) [OF assms(1,2), of now] traceSnapshot_fields(1) [of now t]
  by (simp add: Let_def)

theorem phases_add_up_witness:
  "pi_TotalTime (traceSnapshot 90 ((newTraceTimings localTarget 10)\<lparr>tt_gotConnAt := Some 20,
      tt_wroteRequestAt := Some 30, tt_firstByteAt := Some 70\<rparr>)) = 80
   \<and> pi_RequestWriteTime (traceSnapshot 90 ((newTraceTimings localTarget 10)\<lparr>tt_gotConnAt := Some 20,
      tt_wroteRequestAt := Some 30, tt_firstByteAt := Some 70\<rparr>)) = 10"
  using phases_add_up [of "(newTraceTimings localTarget 10)\<lparr>tt_gotConnAt := Some 20,
      tt_wroteRequestAt := Some 30, tt_firstByteAt := Some 70\<rparr>" 30 70 20 90]
  by (simp add: newTraceTimings_def traceSnapshot_def between_def Let_def)

text \<open>
  With timeouts that are not negative and whose sum fits in 64 bits, the client's timeout is
  the sum of the connect, read and write timeouts, so there is no timeout exactly when all three
  are zero.
\<close>

theorem requestTimeout_sum:
  assumes "0 \<le> Connect t" "0 \<le> Read t" "0 \<le> Write t" and "Connect t + Read t + Write t < 2 ^ 63"
  shows "requestTimeout t = Connect t + Read t + Write t"
proof -
  have "wrap64 (Connect t + Read t) = Connect t + Read t" by (rule wrap64_id) (use assms in linarith)+
  moreover have "wrap64 (Connect t + Read t + Write t) = Connect t + Read t + Write t"
    by (rule wrap64_id) (use assms in linarith)+
  ultimately show ?thesis using assms by (auto simp: requestTimeout_def Let_def)
qed

theorem requestTimeout_sum_witness:
  "requestTimeout \<lparr>Connect = 1000, Read = 2000, Write = 0\<rparr> = 3000"
  using requestTimeout_sum [of "\<lparr>Connect = 1000, Read = 2000, Write = 0\<rparr>"] by simp

end
