(* ===== verification/Router.thy ===== *)
theory Router
  imports Config
begin

text \<open>
  The request router, \<^verbatim>\<open>internal/router/router.go\<close>: compilation of path patterns, the
  general scan \<^verbatim>\<open>Match\<close>, the sorted table behind the host-less fast path and its
  rebuilding on every \<^verbatim>\<open>Add\<close>.

  The regular expression engine is a parameter \<open>rc\<close>: \<^verbatim>\<open>regexp.Compile\<close> followed by
  \<^verbatim>\<open>MatchString\<close>, \<^term>\<open>None\<close> when the expression does not compile. A nil
  \<^verbatim>\<open>*regexp.Regexp\<close> is \<^term>\<open>None\<close>. Scores are Go ints, so both the score and the
  difference that the sort compares wrap around at 64 bits. The boolean result of
  \<^verbatim>\<open>Match\<close> and the route it comes with are one \<^typ>\<open>RouteOptions option\<close>.
\<close>

section \<open>Compiled routes\<close>

type_synonym regexp = "string \<Rightarrow> bool"
type_synonym regexp_compiler = "string \<Rightarrow> regexp option"

datatype pathKind = pathPrefix | pathExact | pathRegex

record compiledPath =
  cp_regex :: "regexp option"
  cp_exact :: string
  cp_prefix :: string
  cp_kind :: pathKind
  cp_specificity :: int

record compiledRoute =
  cr_route :: RouteOptions
  cr_paths :: "compiledPath list"

record fastRoute =
  fr_path :: string
  fr_method :: string
  fr_score :: int
  fr_routeIndex :: nat
  fr_order :: int
  fr_kind :: pathKind

record Router =
  routes :: "compiledRoute list"
  fastRoutes :: "fastRoute list"
  fastEnabled :: bool

datatype path_error = PathEmpty | RegexEmpty | RegexInvalid string

datatype router_error =
    RouteIDEmpty
  | PathsEmpty string
  | PathInvalid string string path_error

definition NewRouter :: Router where
  "NewRouter = \<lparr>routes = [], fastRoutes = [], fastEnabled = True\<rparr>"

section \<open>Compilation of paths\<close>

definition exactPath :: "string \<Rightarrow> compiledPath" where
  "exactPath target = \<lparr>cp_regex = None, cp_exact = target, cp_prefix = [], cp_kind = pathExact,
     cp_specificity = int (length target)\<rparr>"

definition prefixPath :: "string \<Rightarrow> compiledPath" where
  "prefixPath p = \<lparr>cp_regex = None, cp_exact = [], cp_prefix = p, cp_kind = pathPrefix,
     cp_specificity = int (length p)\<rparr>"

text \<open>The three regular expression branches: \<open>flags\<close> is \<^verbatim>\<open>(?i)\<close> or empty.\<close>

definition regexPath :: "regexp_compiler \<Rightarrow> string \<Rightarrow> string \<Rightarrow> path_error + compiledPath" where
  "regexPath rc flags expr =
     (if expr = [] then Inl RegexEmpty
      else case rc (flags @ expr) of
        None \<Rightarrow> Inl (RegexInvalid (flags @ expr))
      | Some re \<Rightarrow> Inr \<lparr>cp_regex = Some re, cp_exact = [], cp_prefix = [], cp_kind = pathRegex,
                        cp_specificity = int (length expr)\<rparr>)"

definition compilePath :: "regexp_compiler \<Rightarrow> string \<Rightarrow> path_error + compiledPath" where
  "compilePath rc raw0 =
     (let raw = TrimSpace raw0 in
      if raw = [] then Inl PathEmpty
      else if HasPrefix raw ''= '' then Inr (exactPath (TrimSpace (TrimPrefix raw ''= '')))
      else if HasPrefix raw ''='' then Inr (exactPath (TrimSpace (TrimPrefix raw ''='')))
      else if HasPrefix raw ''~*'' then regexPath rc ''(?i)'' (TrimSpace (TrimPrefix raw ''~*''))
      else if HasPrefix raw ''~ '' then regexPath rc '''' (TrimSpace (TrimPrefix raw ''~ ''))
      else if HasPrefix raw ''~'' then regexPath rc '''' (TrimSpace (TrimPrefix raw ''~''))
      else if HasSuffix raw ''/*'' then Inr (prefixPath (TrimSuffix raw ''*''))
      else if HasSuffix raw ''*'' then Inr (prefixPath (TrimSuffix raw ''*''))
      else Inr (prefixPath raw))"

fun compilePaths :: "regexp_compiler \<Rightarrow> string \<Rightarrow> string list \<Rightarrow> router_error + compiledPath list" where
  "compilePaths rc rid [] = Inr []"
| "compilePaths rc rid (raw # raws) =
     (case compilePath rc raw of
        Inl e \<Rightarrow> Inl (PathInvalid rid raw e)
      | Inr cp \<Rightarrow>
          (case compilePaths rc rid raws of
             Inl e \<Rightarrow> Inl e
           | Inr cps \<Rightarrow> Inr (cp # cps)))"

definition compileRoute :: "regexp_compiler \<Rightarrow> RouteOptions \<Rightarrow> router_error + compiledRoute" where
  "compileRoute rc route =
     (if length (route_Paths route) = 0 then Inl (PathsEmpty (route_ID route))
      else case compilePaths rc (route_ID route) (route_Paths route) of
        Inl e \<Rightarrow> Inl e
      | Inr paths \<Rightarrow> Inr \<lparr>cr_route = route, cr_paths = paths\<rparr>)"

section \<open>Matching\<close>

definition matchMethod :: "string list \<Rightarrow> string \<Rightarrow> bool" where
  "matchMethod methods method \<longleftrightarrow>
     length methods = 0 \<or> list_ex (\<lambda>m. EqualFold m method) methods"

definition hasSuffixFold :: "string \<Rightarrow> string \<Rightarrow> bool" where
  "hasSuffixFold s suf \<longleftrightarrow>
     \<not> length s < length suf \<and> EqualFold (drop (length s - length suf) s) suf"

definition hasPrefixFold :: "string \<Rightarrow> string \<Rightarrow> bool" where
  "hasPrefixFold s pre \<longleftrightarrow>
     \<not> length s < length pre \<and> EqualFold (take (length pre) s) pre"

definition matchHostPattern :: "string \<Rightarrow> string \<Rightarrow> bool" where
  "matchHostPattern host h \<longleftrightarrow>
     EqualFold h host
   \<or> (HasPrefix h ''*.'' \<and>
      (let suf = drop 2 h in
       suf \<noteq> [] \<and> length host > length suf
       \<and> host ! (length host - length suf - 1) = CHR ''.'' \<and> hasSuffixFold host suf))
   \<or> (HasSuffix h ''.*'' \<and>
      (let pre = take (length h - 2) h in
       pre \<noteq> [] \<and> length host > length pre
       \<and> host ! length pre = CHR ''.'' \<and> hasPrefixFold host pre))"

definition matchHost :: "string list \<Rightarrow> string \<Rightarrow> bool" where
  "matchHost hosts host \<longleftrightarrow> length hosts = 0 \<or> list_ex (matchHostPattern host) hosts"

definition IsValidMethod :: "string \<Rightarrow> bool" where
  "IsValidMethod method \<longleftrightarrow> ToUpper method \<in> set [''GET'', ''POST'', ''PUT'', ''PATCH'',
     ''DELETE'', ''HEAD'', ''OPTIONS'', ''TRACE'', ''CONNECT'']"

definition pathMatches :: "compiledPath \<Rightarrow> string \<Rightarrow> bool" where
  "pathMatches p path \<longleftrightarrow>
     (case cp_kind p of
        pathExact \<Rightarrow> path = cp_exact p
      | pathRegex \<Rightarrow> (case cp_regex p of None \<Rightarrow> False | Some re \<Rightarrow> re path)
      | pathPrefix \<Rightarrow> path = cp_prefix p \<or> HasPrefix path (cp_prefix p))"

definition score :: "compiledPath \<Rightarrow> int" where
  "score p =
     (case cp_kind p of
        pathExact \<Rightarrow> wrap64 (300000 + cp_specificity p)
      | pathRegex \<Rightarrow> wrap64 (200000 + cp_specificity p)
      | pathPrefix \<Rightarrow> wrap64 (100000 + cp_specificity p))"

definition matchTarget :: "compiledPath \<Rightarrow> string" where
  "matchTarget p = (if cp_kind p = pathExact then cp_exact p else cp_prefix p)"

fun matchPathLoop :: "string \<Rightarrow> compiledPath list \<Rightarrow> int \<Rightarrow> int" where
  "matchPathLoop path [] best = best"
| "matchPathLoop path (p # ps) best =
     matchPathLoop path ps (if pathMatches p path \<and> score p > best then score p else best)"

definition matchPath :: "compiledRoute \<Rightarrow> string \<Rightarrow> int" where
  "matchPath r path = matchPathLoop path (cr_paths r) 0"

definition routeScore :: "RouteOptions \<Rightarrow> int \<Rightarrow> int" where
  "routeScore route pathScore = wrap64 (wrap64 (route_Priority route * 1000000) + pathScore)"

text \<open>The loop of \<^verbatim>\<open>Match\<close>; the accumulator is \<^verbatim>\<open>(bestRoute, bestScore)\<close> once \<^verbatim>\<open>found\<close>.\<close>

fun matchLoop ::
    "string \<Rightarrow> string \<Rightarrow> string \<Rightarrow> compiledRoute list \<Rightarrow> (RouteOptions \<times> int) option
      \<Rightarrow> (RouteOptions \<times> int) option" where
  "matchLoop method host path [] best = best"
| "matchLoop method host path (entry # entries) best =
     matchLoop method host path entries
      (let route = cr_route entry in
       if \<not> matchMethod (route_Methods route) method then best
       else if \<not> matchHost (route_Hosts route) host then best
       else
         let pathScore = matchPath entry path in
         if pathScore = 0 then best
         else
           let sc = routeScore route pathScore in
           case best of
             None \<Rightarrow> Some (route, sc)
           | Some (r, bestScore) \<Rightarrow> if sc > bestScore then Some (route, sc) else best)"

definition matchScan :: "Router \<Rightarrow> string \<Rightarrow> string \<Rightarrow> string \<Rightarrow> RouteOptions option" where
  "matchScan r method host path = map_option fst (matchLoop method host path (routes r) None)"

fun matchFastLoop :: "compiledRoute list \<Rightarrow> string \<Rightarrow> string \<Rightarrow> fastRoute list \<Rightarrow> RouteOptions option" where
  "matchFastLoop rs method path [] = None"
| "matchFastLoop rs method path (entry # entries) =
     (if fr_method entry \<noteq> [] \<and> fr_method entry \<noteq> method
      then matchFastLoop rs method path entries
      else case fr_kind entry of
        pathExact \<Rightarrow>
          if path = fr_path entry then Some (cr_route (rs ! fr_routeIndex entry))
          else matchFastLoop rs method path entries
      | pathPrefix \<Rightarrow>
          if path = fr_path entry \<or> HasPrefix path (fr_path entry)
          then Some (cr_route (rs ! fr_routeIndex entry))
          else matchFastLoop rs method path entries
      | pathRegex \<Rightarrow> matchFastLoop rs method path entries)"

definition matchFast :: "Router \<Rightarrow> string \<Rightarrow> string \<Rightarrow> RouteOptions option" where
  "matchFast r method path = matchFastLoop (routes r) method path (fastRoutes r)"

definition Match :: "Router \<Rightarrow> string \<Rightarrow> string \<Rightarrow> string \<Rightarrow> RouteOptions option" where
  "Match r method0 host path =
     (let method = ToUpper method0 in
      if fastEnabled r \<and> host = [] then matchFast r method path
      else matchScan r method host path)"

section \<open>The fast table\<close>

definition fastEntry :: "nat \<Rightarrow> compiledPath \<Rightarrow> int \<Rightarrow> string \<Rightarrow> fastRoute list \<Rightarrow> fastRoute" where
  "fastEntry routeIndex path sc method acc =
     \<lparr>fr_path = matchTarget path, fr_method = method, fr_score = sc,
      fr_routeIndex = routeIndex, fr_order = int (length acc), fr_kind = cp_kind path\<rparr>"

fun fastMethods ::
    "nat \<Rightarrow> compiledPath \<Rightarrow> int \<Rightarrow> string list \<Rightarrow> fastRoute list \<Rightarrow> fastRoute list" where
  "fastMethods ri path sc [] acc = acc"
| "fastMethods ri path sc (m # ms) acc =
     fastMethods ri path sc ms (acc @ [fastEntry ri path sc (ToUpper m) acc])"

text \<open>The loop over a route's paths; \<^term>\<open>None\<close> is the early return on a regular expression.\<close>

fun fastPaths ::
    "nat \<Rightarrow> RouteOptions \<Rightarrow> compiledPath list \<Rightarrow> fastRoute list \<Rightarrow> fastRoute list option" where
  "fastPaths ri route [] acc = Some acc"
| "fastPaths ri route (path # paths) acc =
     (if cp_kind path = pathRegex then None
      else
        let sc = routeScore route (score path) in
        if length (route_Methods route) = 0
        then fastPaths ri route paths (acc @ [fastEntry ri path sc [] acc])
        else fastPaths ri route paths (fastMethods ri path sc (route_Methods route) acc))"

fun fastScan :: "nat \<Rightarrow> compiledRoute list \<Rightarrow> fastRoute list \<Rightarrow> fastRoute list option" where
  "fastScan ri [] acc = Some acc"
| "fastScan ri (entry # entries) acc =
     (if length (route_Hosts (cr_route entry)) \<noteq> 0 then None
      else case fastPaths ri (cr_route entry) (cr_paths entry) acc of
        None \<Rightarrow> None
      | Some acc' \<Rightarrow> fastScan (Suc ri) entries acc')"

definition fastCompare :: "fastRoute \<Rightarrow> fastRoute \<Rightarrow> int" where
  "fastCompare a b =
     (if fr_score a \<noteq> fr_score b then wrap64 (fr_score b - fr_score a)
      else wrap64 (fr_order a - fr_order b))"

definition rebuildFastRoutes :: "Router \<Rightarrow> Router" where
  "rebuildFastRoutes r =
     (case fastScan 0 (routes r) [] of
        None \<Rightarrow> r\<lparr>fastEnabled := False, fastRoutes := []\<rparr>
      | Some fast \<Rightarrow> r\<lparr>fastRoutes := SortStableFunc fast fastCompare, fastEnabled := True\<rparr>)"

definition Add :: "regexp_compiler \<Rightarrow> Router \<Rightarrow> RouteOptions \<Rightarrow> router_error + Router" where
  "Add rc r route =
     (if route_ID route = [] then Inl RouteIDEmpty
      else case compileRoute rc route of
        Inl e \<Rightarrow> Inl e
      | Inr compiled \<Rightarrow> Inr (rebuildFastRoutes (r\<lparr>routes := routes r @ [compiled]\<rparr>)))"

fun AddAll :: "regexp_compiler \<Rightarrow> Router \<Rightarrow> RouteOptions list \<Rightarrow> router_error + Router" where
  "AddAll rc r [] = Inr r"
| "AddAll rc r (x # xs) = (case Add rc r x of Inl e \<Rightarrow> Inl e | Inr r' \<Rightarrow> AddAll rc r' xs)"

section \<open>Notions used in the statements\<close>

text \<open>Position \<open>i\<close> holds the first of the best elements of \<open>xs\<close> satisfying \<open>P\<close>, by measure \<open>f\<close>.\<close>

definition is_best :: "('a \<Rightarrow> bool) \<Rightarrow> ('a \<Rightarrow> int) \<Rightarrow> 'a list \<Rightarrow> nat \<Rightarrow> bool" where
  "is_best P f xs i \<longleftrightarrow> i < length xs \<and> P (xs ! i)
     \<and> (\<forall>j<length xs. P (xs ! j) \<longrightarrow> f (xs ! j) \<le> f (xs ! i))
     \<and> (\<forall>j<i. P (xs ! j) \<longrightarrow> f (xs ! j) < f (xs ! i))"

text \<open>A compiled route is a candidate for a request, and the score it competes with.\<close>

definition candidate :: "string \<Rightarrow> string \<Rightarrow> string \<Rightarrow> compiledRoute \<Rightarrow> bool" where
  "candidate method host path entry \<longleftrightarrow>
     matchMethod (route_Methods (cr_route entry)) method
   \<and> matchHost (route_Hosts (cr_route entry)) host
   \<and> matchPath entry path \<noteq> 0"

definition entryScore :: "string \<Rightarrow> compiledRoute \<Rightarrow> int" where
  "entryScore path entry = routeScore (cr_route entry) (matchPath entry path)"

text \<open>The entries of the fast table that accept a request.\<close>

definition fastMatches :: "string \<Rightarrow> string \<Rightarrow> fastRoute \<Rightarrow> bool" where
  "fastMatches method path e \<longleftrightarrow>
     (fr_method e = [] \<or> fr_method e = method)
   \<and> (case fr_kind e of
        pathExact \<Rightarrow> path = fr_path e
      | pathPrefix \<Rightarrow> path = fr_path e \<or> HasPrefix path (fr_path e)
      | pathRegex \<Rightarrow> False)"

definition wf_path :: "compiledPath \<Rightarrow> bool" where
  "wf_path p \<longleftrightarrow> 0 \<le> cp_specificity p \<and> cp_specificity p < 2 ^ 31"

definition wf_entry :: "compiledRoute \<Rightarrow> bool" where
  "wf_entry entry \<longleftrightarrow> \<bar>route_Priority (cr_route entry)\<bar> < 2 ^ 40 \<and> (\<forall>p\<in>set (cr_paths entry). wf_path p)"

text \<open>
  The routes for which no score overflows: priorities below \<open>2^40\<close> in absolute value and paths
  shorter than \<open>2^31\<close> bytes.
\<close>

definition route_bounded :: "RouteOptions \<Rightarrow> bool" where
  "route_bounded route \<longleftrightarrow>
     \<bar>route_Priority route\<bar> < 2 ^ 40 \<and> (\<forall>raw\<in>set (route_Paths route). length raw < 2 ^ 31)"

definition methods_nonempty :: "RouteOptions \<Rightarrow> bool" where
  "methods_nonempty route \<longleftrightarrow> [] \<notin> set (route_Methods route)"

text \<open>The fast table is the one computed from the routes.\<close>

definition fast_inv :: "Router \<Rightarrow> bool" where
  "fast_inv r \<longleftrightarrow> rebuildFastRoutes r = r"

text \<open>One iteration of the scan, the entries one path contributes, and the entries whose comparison
  does not overflow.\<close>

definition matchStep ::
    "string \<Rightarrow> string \<Rightarrow> string \<Rightarrow> compiledRoute \<Rightarrow> (RouteOptions \<times> int) option
      \<Rightarrow> (RouteOptions \<times> int) option" where
  "matchStep method host path entry best =
     (if candidate method host path entry then
        (case best of
           None \<Rightarrow> Some (cr_route entry, entryScore path entry)
         | Some (r, bestScore) \<Rightarrow>
             if entryScore path entry > bestScore
             then Some (cr_route entry, entryScore path entry) else best)
      else best)"

text \<open>A table entry without its position.\<close>

abbreviation erase :: "fastRoute \<Rightarrow> fastRoute" where
  "erase e \<equiv> e\<lparr>fr_order := 0\<rparr>"

abbreviation numbered :: "fastRoute list \<Rightarrow> bool" where
  "numbered fs \<equiv> map fr_order fs = map int [0..<length fs]"

definition pathEntries :: "nat \<Rightarrow> RouteOptions \<Rightarrow> compiledPath \<Rightarrow> fastRoute set" where
  "pathEntries ri route p =
     (if route_Methods route = [] then {fastEntry ri p (routeScore route (score p)) [] []}
      else (\<lambda>m. fastEntry ri p (routeScore route (score p)) (ToUpper m) []) ` set (route_Methods route))"

definition fastPathStep :: "nat \<Rightarrow> RouteOptions \<Rightarrow> compiledPath \<Rightarrow> fastRoute list \<Rightarrow> fastRoute list" where
  "fastPathStep ri route p acc =
     (if route_Methods route = [] then acc @ [fastEntry ri p (routeScore route (score p)) [] acc]
      else fastMethods ri p (routeScore route (score p)) (route_Methods route) acc)"

definition fast_ok :: "fastRoute \<Rightarrow> bool" where
  "fast_ok e \<longleftrightarrow> \<bar>fr_score e\<bar> < 2 ^ 62 \<and> 0 \<le> fr_order e \<and> fr_order e < 2 ^ 62"

text \<open>
  The same on the level of the configured routes: what a route accepts, and the rank it competes
  with, its priority times a million plus the score of its best matching path.
\<close>

definition compiledPaths :: "regexp_compiler \<Rightarrow> RouteOptions \<Rightarrow> compiledPath list" where
  "compiledPaths rc route = List.map_filter
     (\<lambda>raw. case compilePath rc raw of Inl _ \<Rightarrow> None | Inr cp \<Rightarrow> Some cp) (route_Paths route)"

definition accepts :: "regexp_compiler \<Rightarrow> string \<Rightarrow> string \<Rightarrow> string \<Rightarrow> RouteOptions \<Rightarrow> bool" where
  "accepts rc method host path route \<longleftrightarrow>
     matchMethod (route_Methods route) (ToUpper method) \<and> matchHost (route_Hosts route) host
   \<and> (\<exists>raw\<in>set (route_Paths route). \<exists>cp. compilePath rc raw = Inr cp \<and> pathMatches cp path)"

definition routeRank :: "regexp_compiler \<Rightarrow> string \<Rightarrow> RouteOptions \<Rightarrow> int" where
  "routeRank rc path route = route_Priority route * 1000000
     + fold max (map score (filter (\<lambda>p. pathMatches p path) (compiledPaths rc route))) 0"

text \<open>Exact paths go before regular expressions, those before prefixes; longer before shorter.\<close>

definition kindRank :: "pathKind \<Rightarrow> int" where
  "kindRank k = (case k of pathExact \<Rightarrow> 3 | pathRegex \<Rightarrow> 2 | pathPrefix \<Rightarrow> 1)"

definition at_least_as_specific :: "compiledPath \<Rightarrow> compiledPath \<Rightarrow> bool" where
  "at_least_as_specific cp cp' \<longleftrightarrow>
     kindRank (cp_kind cp') < kindRank (cp_kind cp)
   \<or> cp_kind cp' = cp_kind cp \<and> cp_specificity cp' \<le> cp_specificity cp"

definition paths_short :: "RouteOptions \<Rightarrow> bool" where
  "paths_short route \<longleftrightarrow> (\<forall>raw\<in>set (route_Paths route). length raw < 100000)"

section \<open>Routes for concrete instances\<close>

definition noRegex :: regexp_compiler where
  "noRegex expr = None"

definition routeOf :: "string \<Rightarrow> string list \<Rightarrow> string list \<Rightarrow> int \<Rightarrow> RouteOptions" where
  "routeOf rid methods paths prio =
     \<lparr>route_ID = rid, route_Service = ''s'', route_Hosts = [], route_Methods = methods,
      route_Paths = paths, route_Plugins = [], route_Priority = prio\<rparr>"

definition twoRoutes :: "RouteOptions list" where
  "twoRoutes = [routeOf ''a'' [''get''] [''/api''] 0, routeOf ''b'' [] [''= /api/x'', ''/z''] 0]"

section \<open>The scan finds the first best candidate\<close>

lemma is_best_unique: "is_best P f xs i \<Longrightarrow> is_best P f xs j \<Longrightarrow> i = j"
  by (metis is_best_def linorder_neqE_nat order.strict_iff_not)

lemma is_best_snoc_skip: "is_best P f xs i \<Longrightarrow> (P x \<Longrightarrow> f x \<le> f (xs ! i)) \<Longrightarrow> is_best P f (xs @ [x]) i"
  by (auto simp: is_best_def nth_append less_Suc_eq)

lemma is_best_snoc_take:
  "P x \<Longrightarrow> (\<And>j. j < length xs \<Longrightarrow> P (xs ! j) \<Longrightarrow> f (xs ! j) < f x) \<Longrightarrow> is_best P f (xs @ [x]) (length xs)"
  by (force simp: is_best_def nth_append less_Suc_eq)

lemma matchLoop_fold:
  "matchLoop method host path entries best = fold (matchStep method host path) entries best"
proof (induction entries arbitrary: best)
  case (Cons entry entries)
  have "matchLoop method host path (entry # entries) best
      = matchLoop method host path entries (matchStep method host path entry best)"
    by (simp add: matchStep_def candidate_def entryScore_def Let_def split: option.split)
  with Cons.IH show ?case by simp
qed simp

lemma matchLoop_is_best:
  "case matchLoop method host path rs None of
     None \<Rightarrow> \<forall>entry\<in>set rs. \<not> candidate method host path entry
   | Some (route, sc) \<Rightarrow> \<exists>i. is_best (candidate method host path) (entryScore path) rs i
        \<and> route = cr_route (rs ! i) \<and> sc = entryScore path (rs ! i)"
proof (induction rs rule: rev_induct)
  case Nil
  then show ?case by simp
next
  case (snoc x rs)
  let ?P = "candidate method host path" and ?f = "entryScore path"
  let ?prev = "matchLoop method host path rs None"
  have step: "matchLoop method host path (rs @ [x]) None = matchStep method host path x ?prev"
    by (simp add: matchLoop_fold)
  show ?case
  proof (cases ?prev)
    case None
    with snoc have none: "\<forall>entry\<in>set rs. \<not> ?P entry" by simp
    then have "?P x \<Longrightarrow> is_best ?P ?f (rs @ [x]) (length rs)"
      by (intro is_best_snoc_take) auto
    with None none show ?thesis
      by (auto simp: step matchStep_def intro!: exI [of _ "length rs"])
  next
    case (Some a)
    then obtain route sc where prev: "?prev = Some (route, sc)" by (cases a) auto
    with snoc obtain i where i: "is_best ?P ?f rs i" "route = cr_route (rs ! i)" "sc = ?f (rs ! i)"
      by auto
    then have "i < length rs" by (simp add: is_best_def)
    show ?thesis
    proof (cases "?P x \<and> ?f x > sc")
      case True
      then have "is_best ?P ?f (rs @ [x]) (length rs)"
        using i by (intro is_best_snoc_take) (auto simp: is_best_def)
      with True prev show ?thesis
        by (auto simp: step matchStep_def intro!: exI [of _ "length rs"])
    next
      case False
      then have "is_best ?P ?f (rs @ [x]) i"
        using i by (intro is_best_snoc_skip) auto
      with False prev i \<open>i < length rs\<close> show ?thesis
        by (auto simp: step matchStep_def nth_append intro!: exI [of _ i])
    qed
  qed
qed

lemma matchScan_Some:
  "is_best (candidate method host path) (entryScore path) (routes r) i
    \<Longrightarrow> matchScan r method host path = Some (cr_route (routes r ! i))"
  using matchLoop_is_best [of "routes r" "method" host path]
  by (auto simp: matchScan_def is_best_def split: option.splits prod.splits
      dest: nth_mem) (metis is_best_def is_best_unique)

lemma matchScan_None:
  "matchScan r method host path = None \<longleftrightarrow> (\<forall>entry\<in>set (routes r). \<not> candidate method host path entry)"
  using matchLoop_is_best [of "routes r" "method" host path]
  by (auto simp: matchScan_def is_best_def split: option.splits prod.splits)

section \<open>Path scores\<close>

lemma matchPathLoop_ge: "best \<le> matchPathLoop path ps best"
proof (induction ps arbitrary: best)
  case (Cons p ps)
  have "best \<le> (if pathMatches p path \<and> score p > best then score p else best)" by simp
  also have "\<dots> \<le> matchPathLoop path (p # ps) best" using Cons.IH by simp
  finally show ?case .
qed simp

lemma matchPathLoop_upper:
  "p \<in> set ps \<Longrightarrow> pathMatches p path \<Longrightarrow> score p \<le> matchPathLoop path ps best"
  by (induction ps arbitrary: best) (auto intro: order_trans [OF _ matchPathLoop_ge])

lemma matchPathLoop_attained:
  "matchPathLoop path ps best = best
    \<or> (\<exists>p\<in>set ps. pathMatches p path \<and> matchPathLoop path ps best = score p)"
  by (induction ps arbitrary: best) (simp_all, metis)

lemma score_bounds: "wf_path p \<Longrightarrow> 100000 \<le> score p \<and> score p < 2 ^ 32"
  by (cases "cp_kind p") (simp_all add: score_def wf_path_def)

lemma matchPath_nonneg: "0 \<le> matchPath entry path"
  by (simp add: matchPath_def matchPathLoop_ge)

lemma matchPath_attained:
  "matchPath entry path \<noteq> 0 \<Longrightarrow>
     \<exists>p\<in>set (cr_paths entry). pathMatches p path \<and> matchPath entry path = score p"
  using matchPathLoop_attained [of path "cr_paths entry" 0] by (auto simp: matchPath_def)

lemma matchPath_upper:
  "p \<in> set (cr_paths entry) \<Longrightarrow> pathMatches p path \<Longrightarrow> score p \<le> matchPath entry path"
  by (simp add: matchPath_def matchPathLoop_upper)

lemma matchPath_nonzero:
  assumes "wf_entry entry"
  shows "matchPath entry path \<noteq> 0 \<longleftrightarrow> (\<exists>p\<in>set (cr_paths entry). pathMatches p path)"
proof
  assume "\<exists>p\<in>set (cr_paths entry). pathMatches p path"
  then obtain p where p: "p \<in> set (cr_paths entry)" "pathMatches p path" by blast
  with assms have "100000 \<le> score p" by (simp add: wf_entry_def score_bounds)
  with matchPath_upper [OF p] show "matchPath entry path \<noteq> 0" by simp
qed (use matchPath_attained in blast)

lemma matchPath_bound:
  assumes "wf_entry entry"
  shows "matchPath entry path < 2 ^ 32"
proof (cases "matchPath entry path = 0")
  case False
  then obtain p where "p \<in> set (cr_paths entry)" "matchPath entry path = score p"
    using matchPath_attained by blast
  with assms score_bounds [of p] show ?thesis by (simp add: wf_entry_def)
qed simp

lemma routeScore_eq:
  assumes "\<bar>route_Priority route\<bar> < 2 ^ 40" and "0 \<le> ps" and "ps < 2 ^ 32"
  shows "routeScore route ps = route_Priority route * 1000000 + ps"
proof -
  have "wrap64 (route_Priority route * 1000000) = route_Priority route * 1000000"
    by (rule wrap64_id) (use assms in auto)
  moreover have "wrap64 (route_Priority route * 1000000 + ps) = route_Priority route * 1000000 + ps"
    by (rule wrap64_id) (use assms in auto)
  ultimately show ?thesis by (simp add: routeScore_def)
qed

lemma entryScore_eq:
  assumes "wf_entry entry"
  shows "entryScore path entry
     = route_Priority (cr_route entry) * 1000000 + matchPath entry path"
  unfolding entryScore_def using assms matchPath_nonneg matchPath_bound [OF assms]
  by (intro routeScore_eq) (auto simp: wf_entry_def)

section \<open>The fast table\<close>

lemma numbered_snoc: "numbered acc \<Longrightarrow> numbered (acc @ [fastEntry ri p sc m acc])"
  by (simp add: fastEntry_def)

lemma fastMethods_props:
  "numbered acc \<Longrightarrow> numbered (fastMethods ri p sc ms acc)"
  "erase ` set (fastMethods ri p sc ms acc) =
     erase ` set acc \<union> (\<lambda>m. fastEntry ri p sc (ToUpper m) []) ` set ms"
  "sorted (map fr_routeIndex acc) \<Longrightarrow> \<forall>e\<in>set acc. fr_routeIndex e \<le> ri \<Longrightarrow>
     sorted (map fr_routeIndex (fastMethods ri p sc ms acc))
     \<and> (\<forall>e\<in>set (fastMethods ri p sc ms acc). fr_routeIndex e \<le> ri)"
proof (induction ms arbitrary: acc)
  case (Cons m ms)
  {
    case 1
    then show ?case using Cons.IH(1) numbered_snoc by (simp del: map_append)
  next
    case 2
    show ?case using Cons.IH(2) [of "acc @ [fastEntry ri p sc (ToUpper m) acc]"]
      by (auto simp: fastEntry_def)
  next
    case 3
    then show ?case using Cons.IH(3) [of "acc @ [fastEntry ri p sc (ToUpper m) acc]"]
      by (auto simp: fastEntry_def sorted_append)
  }
qed simp_all

lemma fastPaths_Cons_Some:
  "fastPaths ri route (p # ps) acc = Some acc' \<longleftrightarrow>
     cp_kind p \<noteq> pathRegex \<and> fastPaths ri route ps (fastPathStep ri route p acc) = Some acc'"
  by (simp add: fastPathStep_def Let_def)

lemma fastPathStep_props:
  "numbered acc \<Longrightarrow> numbered (fastPathStep ri route p acc)"
  "erase ` set (fastPathStep ri route p acc) = erase ` set acc \<union> pathEntries ri route p"
  "sorted (map fr_routeIndex acc) \<Longrightarrow> \<forall>e\<in>set acc. fr_routeIndex e \<le> ri \<Longrightarrow>
     sorted (map fr_routeIndex (fastPathStep ri route p acc))
     \<and> (\<forall>e\<in>set (fastPathStep ri route p acc). fr_routeIndex e \<le> ri)"
proof -
  show "numbered acc \<Longrightarrow> numbered (fastPathStep ri route p acc)"
    unfolding fastPathStep_def by (rule if_split [THEN iffD2]) (blast intro: numbered_snoc fastMethods_props(1))
  show "erase ` set (fastPathStep ri route p acc) = erase ` set acc \<union> pathEntries ri route p"
    by (simp add: fastPathStep_def pathEntries_def fastMethods_props(2)) (simp add: fastEntry_def)
  assume "sorted (map fr_routeIndex acc)" and "\<forall>e\<in>set acc. fr_routeIndex e \<le> ri"
  then show "sorted (map fr_routeIndex (fastPathStep ri route p acc))
     \<and> (\<forall>e\<in>set (fastPathStep ri route p acc). fr_routeIndex e \<le> ri)"
    using fastMethods_props(3)
    by (simp add: fastPathStep_def sorted_append) (simp add: fastEntry_def)
qed

lemma fastPaths_props:
  assumes "fastPaths ri route ps acc = Some acc'"
  shows "numbered acc \<Longrightarrow> numbered acc'"
    and "erase ` set acc' = erase ` set acc \<union> (\<Union>p\<in>set ps. pathEntries ri route p)"
    and "sorted (map fr_routeIndex acc) \<Longrightarrow> \<forall>e\<in>set acc. fr_routeIndex e \<le> ri \<Longrightarrow>
           sorted (map fr_routeIndex acc') \<and> (\<forall>e\<in>set acc'. fr_routeIndex e \<le> ri)"
    and "\<forall>p\<in>set ps. cp_kind p \<noteq> pathRegex"
proof -
  from assms show "numbered acc \<Longrightarrow> numbered acc'"
  proof (induction ps arbitrary: acc)
    case (Cons p ps)
    show ?case
      by (rule Cons.IH [of "fastPathStep ri route p acc"])
        (use Cons.prems fastPaths_Cons_Some fastPathStep_props(1) in blast)+
  qed simp
  from assms show "erase ` set acc' = erase ` set acc \<union> (\<Union>p\<in>set ps. pathEntries ri route p)"
  proof (induction ps arbitrary: acc)
    case (Cons p ps)
    then have "fastPaths ri route ps (fastPathStep ri route p acc) = Some acc'"
      unfolding fastPaths_Cons_Some by blast
    from Cons.IH [OF this] show ?case by (simp add: fastPathStep_props(2) Un_assoc)
  qed simp
  from assms show "sorted (map fr_routeIndex acc) \<Longrightarrow> \<forall>e\<in>set acc. fr_routeIndex e \<le> ri \<Longrightarrow>
      sorted (map fr_routeIndex acc') \<and> (\<forall>e\<in>set acc'. fr_routeIndex e \<le> ri)"
  proof (induction ps arbitrary: acc)
    case (Cons p ps)
    show ?case
      by (rule Cons.IH [of "fastPathStep ri route p acc"])
        (use Cons.prems fastPaths_Cons_Some fastPathStep_props(3) in blast)+
  qed simp
  from assms show "\<forall>p\<in>set ps. cp_kind p \<noteq> pathRegex"
  proof (induction ps arbitrary: acc)
    case (Cons p ps)
    then show ?case unfolding fastPaths_Cons_Some by auto
  qed simp
qed

lemma fastScan_props:
  assumes "fastScan ri rs acc = Some F"
  shows "numbered acc \<Longrightarrow> numbered F"
    and "erase ` set F = erase ` set acc
           \<union> (\<Union>k<length rs. \<Union>p\<in>set (cr_paths (rs ! k)). pathEntries (ri + k) (cr_route (rs ! k)) p)"
    and "sorted (map fr_routeIndex acc) \<Longrightarrow> \<forall>e\<in>set acc. fr_routeIndex e \<le> ri \<Longrightarrow>
           sorted (map fr_routeIndex F)"
    and "\<forall>entry\<in>set rs. route_Hosts (cr_route entry) = []
           \<and> (\<forall>p\<in>set (cr_paths entry). cp_kind p \<noteq> pathRegex)"
  using assms
proof (induction rs arbitrary: ri acc)
  case (Cons x rs)
  have ex: "\<exists>acc'. fastPaths ri (cr_route x) (cr_paths x) acc = Some acc'
      \<and> fastScan (Suc ri) rs acc' = Some F \<and> route_Hosts (cr_route x) = []"
    if "fastScan ri (x # rs) acc = Some F" for ri acc
    using that by (auto split: if_splits option.splits)
  {
    case 1
    then obtain acc' where a: "fastPaths ri (cr_route x) (cr_paths x) acc = Some acc'"
      and b: "fastScan (Suc ri) rs acc' = Some F" using ex [OF 1(2)] by auto
    show ?case by (rule Cons.IH(1) [OF fastPaths_props(1) [OF a 1(1)] b])
  next
    case 2
    then obtain acc' where a: "fastPaths ri (cr_route x) (cr_paths x) acc = Some acc'"
      and b: "fastScan (Suc ri) rs acc' = Some F" using ex [OF 2] by auto
    have "(\<Union>k<length (x # rs). \<Union>p\<in>set (cr_paths ((x # rs) ! k)).
              pathEntries (ri + k) (cr_route ((x # rs) ! k)) p)
        = (\<Union>p\<in>set (cr_paths x). pathEntries ri (cr_route x) p)
          \<union> (\<Union>k<length rs. \<Union>p\<in>set (cr_paths (rs ! k)). pathEntries (Suc ri + k) (cr_route (rs ! k)) p)"
      by (simp add: lessThan_Suc_eq_insert_0 image_image)
    then show ?case
      unfolding Cons.IH(2) [OF b] fastPaths_props(2) [OF a] by (simp only: Un_assoc)
  next
    case 3
    then obtain acc' where a: "fastPaths ri (cr_route x) (cr_paths x) acc = Some acc'"
      and b: "fastScan (Suc ri) rs acc' = Some F" using ex [OF 3(3)] by auto
    have "sorted (map fr_routeIndex acc') \<and> (\<forall>e\<in>set acc'. fr_routeIndex e \<le> ri)"
      using 3(1,2) fastPaths_props(3) [OF a] by blast
    then show ?case using Cons.IH(3) [OF _ _ b] le_SucI by blast
  next
    case 4
    then obtain acc' where a: "fastPaths ri (cr_route x) (cr_paths x) acc = Some acc'"
      and b: "fastScan (Suc ri) rs acc' = Some F" and h: "route_Hosts (cr_route x) = []"
      using ex [OF 4] by auto
    show ?case using Cons.IH(4) [OF b] fastPaths_props(4) [OF a] h by simp
  }
qed simp_all

lemma erase_cong:
  assumes "erase e = erase e'"
  shows "fastMatches m path e = fastMatches m path e'" "fr_score e = fr_score e'"
    "fr_routeIndex e = fr_routeIndex e'"
proof -
  have "fr_path e = fr_path e'" "fr_method e = fr_method e'" "fr_kind e = fr_kind e'"
    using arg_cong [OF assms, of fr_path] arg_cong [OF assms, of fr_method]
      arg_cong [OF assms, of fr_kind] by simp_all
  then show "fastMatches m path e = fastMatches m path e'"
    by (simp add: fastMatches_def split: pathKind.split)
  show "fr_score e = fr_score e'" "fr_routeIndex e = fr_routeIndex e'"
    using arg_cong [OF assms, of fr_score] arg_cong [OF assms, of fr_routeIndex] by simp_all
qed

lemma numbered_order:
  assumes "numbered F" and "sorted (map fr_routeIndex F)" and "e \<in> set F" and "e' \<in> set F"
  shows "0 \<le> fr_order e \<and> fr_order e < int (length F)"
    and "fr_routeIndex e < fr_routeIndex e' \<Longrightarrow> fr_order e < fr_order e'"
proof -
  have ord: "fr_order (F ! k) = int k" if "k < length F" for k
    using assms(1) that by (metis add_0 length_map nth_map nth_upt minus_nat.diff_0)
  obtain i j where ij: "i < length F" "e = F ! i" "j < length F" "e' = F ! j"
    using assms(3,4) by (metis in_set_conv_nth)
  then show "0 \<le> fr_order e \<and> fr_order e < int (length F)" by (simp add: ord)
  assume lt: "fr_routeIndex e < fr_routeIndex e'"
  have "i < j"
  proof (rule ccontr)
    assume "\<not> i < j"
    then have "map fr_routeIndex F ! j \<le> map fr_routeIndex F ! i"
      using assms(2) ij by (intro sorted_nth_mono) simp_all
    with lt ij show False by simp
  qed
  with ij show "fr_order e < fr_order e'" by (simp add: ord)
qed

section \<open>The comparator of the fast table orders it\<close>

lemma fastCompare_le:
  assumes "fast_ok a" and "fast_ok b"
  shows "fastCompare a b \<le> 0 \<longleftrightarrow>
    fr_score b < fr_score a \<or> fr_score b = fr_score a \<and> fr_order a \<le> fr_order b"
proof -
  have "wrap64 (fr_score b - fr_score a) = fr_score b - fr_score a"
    "wrap64 (fr_order a - fr_order b) = fr_order a - fr_order b"
    by (rule wrap64_id; use assms in \<open>auto simp: fast_ok_def\<close>)+
  then show ?thesis by (auto simp: fastCompare_def)
qed

interpretation fast: comparator fastCompare fast_ok
  by unfold_locales (auto simp: fastCompare_le)

lemma matchFastLoop_find:
  "matchFastLoop rs method path fs =
     map_option (\<lambda>e. cr_route (rs ! fr_routeIndex e)) (find (fastMatches method path) fs)"
  by (induction fs) (auto simp: fastMatches_def split: pathKind.splits)

section \<open>The fast table and the scan agree\<close>

lemma fastEntry_matches:
  "cp_kind p \<noteq> pathRegex \<Longrightarrow>
     fastMatches m path (fastEntry ri p sc meth []) \<longleftrightarrow> (meth = [] \<or> meth = m) \<and> pathMatches p path"
  by (cases "cp_kind p") (auto simp: fastMatches_def fastEntry_def pathMatches_def matchTarget_def)

lemma pathEntries_sel:
  "t \<in> pathEntries ri route p \<Longrightarrow>
     fr_routeIndex t = ri \<and> fr_score t = routeScore route (score p) \<and> erase t = t"
  by (auto simp: pathEntries_def fastEntry_def split: if_splits)

lemma pathEntries_matches:
  assumes "t \<in> pathEntries ri route p" and "cp_kind p \<noteq> pathRegex" and "methods_nonempty route"
    and "fastMatches (ToUpper m) path t"
  shows "matchMethod (route_Methods route) (ToUpper m) \<and> pathMatches p path"
  using assms
  by (auto simp: pathEntries_def fastEntry_matches matchMethod_def list_ex_iff methods_nonempty_def
      EqualFold_iff_ToUpper split: if_splits)

lemma pathEntries_exists:
  assumes "matchMethod (route_Methods route) (ToUpper m)" and "pathMatches p path"
    and "cp_kind p \<noteq> pathRegex"
  shows "\<exists>t\<in>pathEntries ri route p. fastMatches (ToUpper m) path t"
  using assms
  by (auto simp: pathEntries_def fastEntry_matches matchMethod_def list_ex_iff
      EqualFold_iff_ToUpper)

lemma matchHost_Nil [simp]: "matchHost [] host"
  by (simp add: matchHost_def)

lemma table_to_candidate:
  assumes F: "fastScan 0 rs [] = Some F" and wf: "\<forall>entry\<in>set rs. wf_entry entry"
    and ne: "\<forall>entry\<in>set rs. methods_nonempty (cr_route entry)"
    and e: "e \<in> set F" "fastMatches (ToUpper m) path e"
  shows "fr_routeIndex e < length rs \<and> candidate (ToUpper m) [] path (rs ! fr_routeIndex e)
    \<and> fr_score e \<le> entryScore path (rs ! fr_routeIndex e)"
proof -
  have "erase e \<in> erase ` set F" using e by blast
  then obtain i p where i: "i < length rs" and p: "p \<in> set (cr_paths (rs ! i))"
    and t: "erase e \<in> pathEntries i (cr_route (rs ! i)) p"
    unfolding fastScan_props(2) [OF F] by auto
  have mem: "rs ! i \<in> set rs" using i by simp
  note noregex = fastScan_props(4) [OF F, rule_format, OF mem]
  have idx: "fr_routeIndex e = i" and sc: "fr_score e = routeScore (cr_route (rs ! i)) (score p)"
    using pathEntries_sel [OF t] by simp_all
  have "fastMatches (ToUpper m) path (erase e)"
    using e(2) erase_cong(1) [of "erase e" e] by simp
  then have mp: "matchMethod (route_Methods (cr_route (rs ! i))) (ToUpper m) \<and> pathMatches p path"
    using pathEntries_matches [OF t] noregex p ne mem by blast
  have wfi: "wf_entry (rs ! i)" using wf mem by blast
  then have "fr_score e = route_Priority (cr_route (rs ! i)) * 1000000 + score p"
    using p score_bounds [of p] by (simp add: sc routeScore_eq wf_entry_def)
  then have "fr_score e \<le> entryScore path (rs ! i)"
    using matchPath_upper [OF p] mp by (simp add: entryScore_eq [OF wfi])
  then show ?thesis
    using idx i mp noregex p by (auto simp: candidate_def matchPath_nonzero [OF wfi])
qed

lemma candidate_to_table:
  assumes F: "fastScan 0 rs [] = Some F"
    and i: "i < length rs" and cand: "candidate (ToUpper m) [] path (rs ! i)"
  shows "\<exists>e\<in>set F. fastMatches (ToUpper m) path e \<and> fr_routeIndex e = i
           \<and> fr_score e = entryScore path (rs ! i)"
proof -
  obtain p where p: "p \<in> set (cr_paths (rs ! i))" "pathMatches p path"
    and mp: "matchPath (rs ! i) path = score p"
    using matchPath_attained cand by (auto simp: candidate_def)
  have "cp_kind p \<noteq> pathRegex"
    using fastScan_props(4) [OF F] i p(1) nth_mem by blast
  then obtain t where t: "t \<in> pathEntries i (cr_route (rs ! i)) p" "fastMatches (ToUpper m) path t"
    using pathEntries_exists [OF _ p(2)] cand by (meson candidate_def)
  then have "t \<in> erase ` set F"
    unfolding fastScan_props(2) [OF F] using i p(1) by auto
  then obtain e where e: "e \<in> set F" "t = erase e" by blast
  then have "fastMatches (ToUpper m) path e"
    using t(2) erase_cong(1) [of "erase e" e] by simp
  with e pathEntries_sel [OF t(1)] show ?thesis by (auto simp: entryScore_def mp)
qed

lemma table_ok:
  assumes F: "fastScan 0 rs [] = Some F" and wf: "\<forall>entry\<in>set rs. wf_entry entry"
    and len: "int (length F) < 2 ^ 62" and e: "e \<in> set F"
  shows "fast_ok e"
proof -
  have "erase e \<in> erase ` set F" using e by blast
  then obtain i p where i: "i < length rs" and p: "p \<in> set (cr_paths (rs ! i))"
    and t: "erase e \<in> pathEntries i (cr_route (rs ! i)) p"
    unfolding fastScan_props(2) [OF F] by auto
  have wfi: "wf_entry (rs ! i)" using wf i by simp
  then have "fr_score e = route_Priority (cr_route (rs ! i)) * 1000000 + score p"
    using pathEntries_sel [OF t] p score_bounds [of p] by (simp add: routeScore_eq wf_entry_def)
  then have "\<bar>fr_score e\<bar> < 2 ^ 62"
    using wfi p score_bounds [of p] by (auto simp: wf_entry_def)
  with numbered_order(1) [OF fastScan_props(1) [OF F] fastScan_props(3) [OF F] e e] len
  show ?thesis by (simp add: fast_ok_def)
qed

lemma table_find_best:
  assumes F: "fastScan 0 rs [] = Some F" and wf: "\<forall>entry\<in>set rs. wf_entry entry"
    and ne: "\<forall>entry\<in>set rs. methods_nonempty (cr_route entry)" and len: "int (length F) < 2 ^ 62"
    and find: "find (fastMatches (ToUpper m) path) (SortStableFunc F fastCompare) = Some e"
  shows "is_best (candidate (ToUpper m) [] path) (entryScore path) rs (fr_routeIndex e)"
proof -
  note ok = table_ok [OF F wf len]
  have e: "e \<in> set F" "fastMatches (ToUpper m) path e"
    and least: "\<And>e'. e' \<in> set F \<Longrightarrow> fastMatches (ToUpper m) path e' \<Longrightarrow> fastCompare e e' \<le> 0"
    using fast.find_SortStableFunc [OF ok find] by blast+
  note cand = table_to_candidate [OF F wf ne e]
  have dom: "entryScore path (rs ! j) \<le> fr_score e
      \<and> (entryScore path (rs ! j) = fr_score e \<longrightarrow> fr_routeIndex e \<le> j)"
    if j: "j < length rs" "candidate (ToUpper m) [] path (rs ! j)" for j
  proof -
    obtain e' where e': "e' \<in> set F" "fastMatches (ToUpper m) path e'" "fr_routeIndex e' = j"
      "fr_score e' = entryScore path (rs ! j)"
      using candidate_to_table [OF F j] by blast
    have "fr_score e' < fr_score e \<or> fr_score e' = fr_score e \<and> fr_order e \<le> fr_order e'"
      using least [OF e'(1,2)] fastCompare_le [OF ok [OF e(1)] ok [OF e'(1)]] by blast
    moreover have "fr_routeIndex e \<le> fr_routeIndex e'" if "fr_order e \<le> fr_order e'"
      using numbered_order(2) [OF fastScan_props(1) [OF F] fastScan_props(3) [OF F] e'(1) e(1)] that
      by fastforce
    ultimately show ?thesis using e'(3,4) by auto
  qed
  have "fr_score e = entryScore path (rs ! fr_routeIndex e)"
    using cand dom [of "fr_routeIndex e"] by simp
  moreover have "entryScore path (rs ! j) < entryScore path (rs ! fr_routeIndex e)"
    if "j < fr_routeIndex e" "candidate (ToUpper m) [] path (rs ! j)" for j
    using dom [of j] that cand calculation by force
  ultimately show ?thesis using cand dom by (simp add: is_best_def)
qed

lemma matchFast_matchScan:
  assumes inv: "fast_inv r" "fastEnabled r" and wf: "\<forall>entry\<in>set (routes r). wf_entry entry"
    and ne: "\<forall>entry\<in>set (routes r). methods_nonempty (cr_route entry)"
    and len: "int (length (fastRoutes r)) < 2 ^ 62"
  shows "matchFast r (ToUpper m) path = matchScan r (ToUpper m) [] path"
proof -
  obtain F where F: "fastScan 0 (routes r) [] = Some F"
    and tab: "fastRoutes r = SortStableFunc F fastCompare"
    using inv by (cases r) (auto simp: fast_inv_def rebuildFastRoutes_def split: option.splits)
  have lenF: "int (length F) < 2 ^ 62" using len by (simp add: tab)
  show ?thesis
  proof (cases "find (fastMatches (ToUpper m) path) (fastRoutes r)")
    case None
    then have "\<forall>e\<in>set F. \<not> fastMatches (ToUpper m) path e"
      by (simp add: tab find_None_set)
    then have "matchScan r (ToUpper m) [] path = None"
      unfolding matchScan_None using candidate_to_table [OF F] by (metis in_set_conv_nth)
    with None show ?thesis by (simp add: matchFast_def matchFastLoop_find)
  next
    case (Some e)
    then have "is_best (candidate (ToUpper m) [] path) (entryScore path) (routes r) (fr_routeIndex e)"
      using table_find_best [OF F wf ne lenF] by (simp add: tab)
    from matchScan_Some [OF this] Some show ?thesis
      by (simp add: matchFast_def matchFastLoop_find)
  qed
qed

section \<open>Building a router\<close>

lemma length_TrimSpace: "length (TrimSpace s) \<le> length s"
  unfolding TrimSpace_def TrimFunc_def TrimRightFunc_def
  by (metis length_dropWhile_le length_rev order_trans)

lemma length_TrimPrefix: "length (TrimPrefix s p) \<le> length s"
  by (simp add: TrimPrefix_def)

lemma length_TrimSuffix: "length (TrimSuffix s p) \<le> length s"
  by (simp add: TrimSuffix_def)

lemma exactPath_wf: "length t < 2 ^ 31 \<Longrightarrow> wf_path (exactPath t)"
  and prefixPath_wf: "length t < 2 ^ 31 \<Longrightarrow> wf_path (prefixPath t)"
  by (simp_all add: wf_path_def exactPath_def prefixPath_def)

lemma regexPath_wf: "regexPath rc flags t = Inr cp \<Longrightarrow> length t < 2 ^ 31 \<Longrightarrow> wf_path cp"
  by (auto simp: wf_path_def regexPath_def split: if_splits option.splits)

lemma compilePath_wf:
  assumes "compilePath rc raw = Inr cp" and "length raw < 2 ^ 31"
  shows "wf_path cp"
proof -
  let ?t = "TrimSpace raw"
  have "length ?t < 2 ^ 31" using assms(2) length_TrimSpace [of raw] by simp
  then have "length (TrimSuffix ?t p) < 2 ^ 31" "length (TrimSpace (TrimPrefix ?t p)) < 2 ^ 31" for p
    using length_TrimSuffix [of ?t p] length_TrimSpace [of "TrimPrefix ?t p"]
      length_TrimPrefix [of ?t p] by simp_all
  with assms(1) \<open>length ?t < 2 ^ 31\<close> show ?thesis
    by (auto simp: compilePath_def Let_def intro: exactPath_wf prefixPath_wf regexPath_wf
        split: if_splits)
qed

lemma compilePaths_list: "compilePaths rc rid raws = Inr cps \<longleftrightarrow> map (compilePath rc) raws = map Inr cps"
proof (induction raws arbitrary: cps)
  case (Cons raw raws)
  have "map (compilePath rc) (raw # raws) = map Inr cps \<longleftrightarrow>
      (\<exists>cp cps'. cps = cp # cps' \<and> compilePath rc raw = Inr cp \<and> compilePaths rc rid raws = Inr cps')"
    unfolding Cons.IH by (simp add: Cons_eq_map_conv)
  then show ?case by (auto split: sum.split)
qed auto

lemma compileRoute_Inr:
  "compileRoute rc route = Inr entry \<longleftrightarrow>
     cr_route entry = route \<and> route_Paths route \<noteq> []
   \<and> map (compilePath rc) (route_Paths route) = map Inr (cr_paths entry)"
  using compilePaths_list [of rc "route_ID route" "route_Paths route"]
  by (cases entry; cases "compilePaths rc (route_ID route) (route_Paths route)")
    (auto simp: compileRoute_def)

lemma map_Inr_set: "map f xs = map Inr ys \<Longrightarrow> y \<in> set ys \<longleftrightarrow> (\<exists>x\<in>set xs. f x = Inr y)"
  by (metis (no_types, opaque_lifting) image_iff image_set sum.inject(2))

lemma compileRoute_paths:
  "compileRoute rc route = Inr entry \<Longrightarrow>
     p \<in> set (cr_paths entry) \<longleftrightarrow> (\<exists>raw\<in>set (route_Paths route). compilePath rc raw = Inr p)"
  unfolding compileRoute_Inr by (blast dest: map_Inr_set)

lemma compileRoute_wf:
  "compileRoute rc route = Inr entry \<Longrightarrow> route_bounded route \<Longrightarrow> wf_entry entry"
  using compileRoute_paths compilePath_wf
  by (fastforce simp: wf_entry_def route_bounded_def compileRoute_Inr)

lemma rebuildFastRoutes_routes [simp]: "routes (rebuildFastRoutes r) = routes r"
  by (simp add: rebuildFastRoutes_def split: option.split)

lemma rebuildFastRoutes_inv: "fast_inv (rebuildFastRoutes r)"
  unfolding fast_inv_def
  by (subst rebuildFastRoutes_def) (auto simp: rebuildFastRoutes_def split: option.split)

lemma NewRouter_inv: "fast_inv NewRouter"
  by (simp add: fast_inv_def NewRouter_def rebuildFastRoutes_def)

lemma Add_Inr:
  "Add rc r route = Inr r' \<longleftrightarrow> route_ID route \<noteq> []
     \<and> (\<exists>entry. compileRoute rc route = Inr entry
          \<and> r' = rebuildFastRoutes (r\<lparr>routes := routes r @ [entry]\<rparr>))"
  by (auto simp: Add_def split: sum.splits)

lemma AddAll_routes:
  "AddAll rc r rts = Inr r' \<Longrightarrow> fast_inv r \<Longrightarrow>
     fast_inv r' \<and> (\<exists>es. routes r' = routes r @ es
       \<and> list_all2 (\<lambda>route entry. compileRoute rc route = Inr entry) rts es)"
proof (induction rts arbitrary: r)
  case (Cons x rts)
  then obtain r1 where r1: "Add rc r x = Inr r1" "AddAll rc r1 rts = Inr r'"
    by (auto split: sum.splits)
  then obtain entry where e: "compileRoute rc x = Inr entry" "routes r1 = routes r @ [entry]"
    "fast_inv r1"
    by (auto simp: Add_Inr rebuildFastRoutes_inv)
  from Cons.IH [OF r1(2) e(3)] obtain es where "fast_inv r'" "routes r' = routes r1 @ es"
    "list_all2 (\<lambda>route entry. compileRoute rc route = Inr entry) rts es" by blast
  with e show ?case by (auto intro!: exI [of _ "entry # es"])
qed simp

section \<open>Routes as the configuration has them\<close>

lemma matchPathLoop_fold:
  "matchPathLoop path ps best = fold max (map score (filter (\<lambda>p. pathMatches p path) ps)) best"
  by (induction ps arbitrary: best) (auto simp: max_def)

lemma compileRoute_rank:
  assumes "compileRoute rc route = Inr entry" and "route_bounded route"
  shows "entryScore path entry = routeRank rc path route"
proof -
  have "List.map_filter (\<lambda>raw. case compilePath rc raw of Inl _ \<Rightarrow> None | Inr cp \<Rightarrow> Some cp) raws = cps"
    if "map (compilePath rc) raws = map Inr cps" for raws cps
    using that by (induction raws arbitrary: cps) (auto simp: List.map_filter_simps)
  then have "compiledPaths rc route = cr_paths entry"
    using assms(1) by (simp add: compileRoute_Inr compiledPaths_def)
  then show ?thesis
    using assms compileRoute_wf [OF assms]
    by (simp add: entryScore_eq routeRank_def matchPath_def matchPathLoop_fold compileRoute_Inr)
qed

lemma compileRoute_candidate:
  assumes "compileRoute rc route = Inr entry" and "route_bounded route"
  shows "candidate (ToUpper m) host path entry \<longleftrightarrow> accepts rc m host path route"
proof -
  have "matchPath entry path \<noteq> 0 \<longleftrightarrow>
      (\<exists>raw\<in>set (route_Paths route). \<exists>cp. compilePath rc raw = Inr cp \<and> pathMatches cp path)"
    unfolding matchPath_nonzero [OF compileRoute_wf [OF assms]]
    using compileRoute_paths [OF assms(1)] by blast
  moreover have "cr_route entry = route" using assms(1) by (simp add: compileRoute_Inr)
  ultimately show ?thesis by (simp add: candidate_def accepts_def)
qed

text \<open>Everything the theorems below use of a router that was built by \<^verbatim>\<open>Add\<close>.\<close>

lemma built_router:
  assumes "AddAll rc NewRouter rts = Inr r"
    and "\<forall>route\<in>set rts. route_bounded route"
    and "\<forall>route\<in>set rts. methods_nonempty route"
    and "int (length (fastRoutes r)) < 2 ^ 62"
  shows "map cr_route (routes r) = rts"
    and "fast_inv r"
    and "\<forall>entry\<in>set (routes r). compileRoute rc (cr_route entry) = Inr entry"
    and "fastEnabled r \<Longrightarrow> matchFast r (ToUpper m) path = matchScan r (ToUpper m) [] path"
    and "Match r m host path = matchScan r (ToUpper m) host path"
proof -
  obtain es where es: "fast_inv r" "routes r = es"
    "list_all2 (\<lambda>route entry. compileRoute rc route = Inr entry) rts es"
    using AddAll_routes [OF assms(1) NewRouter_inv] by (auto simp: NewRouter_def)
  show inv: "fast_inv r" by fact
  show "map cr_route (routes r) = rts"
    using es(3) unfolding es(2)
    by (induction rts es rule: list_all2_induct) (auto simp: compileRoute_Inr)
  show comp: "\<forall>entry\<in>set (routes r). compileRoute rc (cr_route entry) = Inr entry"
    using es(3) unfolding es(2)
    by (induction rts es rule: list_all2_induct) (auto simp: compileRoute_Inr)
  have "\<forall>entry\<in>set (routes r). cr_route entry \<in> set rts"
    using \<open>map cr_route (routes r) = rts\<close> by force
  then have "\<forall>entry\<in>set (routes r). wf_entry entry \<and> methods_nonempty (cr_route entry)"
    using comp assms(2,3) compileRoute_wf by blast
  then show fast: "fastEnabled r \<Longrightarrow> matchFast r (ToUpper m) path = matchScan r (ToUpper m) [] path"
    for m path
    using inv assms(4) by (intro matchFast_matchScan) auto
  show "Match r m host path = matchScan r (ToUpper m) host path"
    using fast by (simp add: Match_def Let_def)
qed

lemma built_router_spec:
  assumes "AddAll rc NewRouter rts = Inr r"
    and "\<forall>route\<in>set rts. route_bounded route"
    and "\<forall>route\<in>set rts. methods_nonempty route"
    and "int (length (fastRoutes r)) < 2 ^ 62"
  shows "Match r m host path = None \<longleftrightarrow> (\<forall>route\<in>set rts. \<not> accepts rc m host path route)"
    and "Match r m host path = Some route \<Longrightarrow>
           route \<in> set rts \<and> accepts rc m host path route
           \<and> (\<forall>route'\<in>set rts. accepts rc m host path route' \<longrightarrow>
                 routeRank rc path route' \<le> routeRank rc path route)"
proof -
  note b = built_router [OF assms]
  have set_rts: "set rts = cr_route ` set (routes r)" using b(1) by force
  have bounded: "route_bounded (cr_route entry)" if "entry \<in> set (routes r)" for entry
    using that assms(2) set_rts by blast
  note cand = compileRoute_candidate [OF b(3) [rule_format] bounded]
  note rank = compileRoute_rank [OF b(3) [rule_format] bounded]
  show "Match r m host path = None \<longleftrightarrow> (\<forall>route\<in>set rts. \<not> accepts rc m host path route)"
    unfolding b(5) matchScan_None set_rts using cand by blast
  assume "Match r m host path = Some route"
  then obtain i where i: "is_best (candidate (ToUpper m) host path) (entryScore path) (routes r) i"
    "route = cr_route (routes r ! i)"
    unfolding b(5) matchScan_def
    using matchLoop_is_best [of "routes r" "ToUpper m" host path]
    by (auto split: option.splits)
  then have mem: "routes r ! i \<in> set (routes r)" "candidate (ToUpper m) host path (routes r ! i)"
    and max: "\<forall>entry\<in>set (routes r). candidate (ToUpper m) host path entry
        \<longrightarrow> entryScore path entry \<le> entryScore path (routes r ! i)"
    by (auto simp: is_best_def in_set_conv_nth)
  then show "route \<in> set rts \<and> accepts rc m host path route
      \<and> (\<forall>route'\<in>set rts. accepts rc m host path route' \<longrightarrow>
            routeRank rc path route' \<le> routeRank rc path route)"
    using cand rank unfolding set_rts i(2) by auto
qed

section \<open>Ranks\<close>

lemma compiledPaths_set:
  "cp \<in> set (compiledPaths rc route) \<longleftrightarrow> (\<exists>raw\<in>set (route_Paths route). compilePath rc raw = Inr cp)"
  by (auto simp: compiledPaths_def List.map_filter_def split: sum.splits) force

lemma routeRank_loop:
  "routeRank rc path route =
     route_Priority route * 1000000 + matchPathLoop path (compiledPaths rc route) 0"
  by (simp add: routeRank_def matchPathLoop_fold)

lemma specificity_le:
  assumes "compilePath rc raw = Inr cp"
  shows "0 \<le> cp_specificity cp \<and> cp_specificity cp \<le> int (length raw)"
proof -
  let ?t = "TrimSpace raw"
  have "length (TrimSuffix ?t p) \<le> length raw" "length (TrimSpace (TrimPrefix ?t p)) \<le> length raw"
    "length ?t \<le> length raw" for p
    using length_TrimSuffix [of ?t p] length_TrimSpace [of "TrimPrefix ?t p"]
      length_TrimPrefix [of ?t p] length_TrimSpace [of raw] by simp_all
  with assms show ?thesis
    by (auto simp: compilePath_def Let_def exactPath_def prefixPath_def regexPath_def
        split: if_splits option.splits)
qed

lemma score_short:
  assumes "compilePath rc raw = Inr cp" and "length raw < 100000"
  shows "score cp = kindRank (cp_kind cp) * 100000 + cp_specificity cp"
    and "0 \<le> cp_specificity cp \<and> cp_specificity cp < 100000"
proof -
  show "0 \<le> cp_specificity cp \<and> cp_specificity cp < 100000"
    using specificity_le [OF assms(1)] assms(2) by simp
  then show "score cp = kindRank (cp_kind cp) * 100000 + cp_specificity cp"
    by (cases "cp_kind cp") (simp_all add: score_def kindRank_def)
qed

lemma score_le_specific:
  assumes "score cp' \<le> score cp" and "compilePath rc raw = Inr cp" and "length raw < 100000"
    and "compilePath rc raw' = Inr cp'" and "length raw' < 100000"
  shows "at_least_as_specific cp cp'"
  using assms(1) score_short [OF assms(2,3)] score_short [OF assms(4,5)]
  by (cases "cp_kind cp"; cases "cp_kind cp'") (simp_all add: at_least_as_specific_def kindRank_def)

text \<open>An accepted route's rank comes from one of its matching paths, and bounds the others.\<close>

lemma accepted_rank:
  assumes "accepts rc m host path route" and "paths_short route"
  obtains raw cp where "raw \<in> set (route_Paths route)" "compilePath rc raw = Inr cp"
    "pathMatches cp path" "routeRank rc path route = route_Priority route * 1000000 + score cp"
    "100000 \<le> score cp" "score cp < 400000"
proof -
  let ?mx = "matchPathLoop path (compiledPaths rc route) 0"
  obtain raw0 cp0 where 0: "raw0 \<in> set (route_Paths route)" "compilePath rc raw0 = Inr cp0"
    "pathMatches cp0 path"
    using assms(1) by (auto simp: accepts_def)
  have bounds: "100000 \<le> score cp \<and> score cp < 400000"
    if "raw \<in> set (route_Paths route)" "compilePath rc raw = Inr cp" for raw cp
    using score_short [OF that(2)] that(1) assms(2)
    by (cases "cp_kind cp") (auto simp: paths_short_def kindRank_def)
  have "score cp0 \<le> ?mx"
    using 0 by (intro matchPathLoop_upper) (auto simp: compiledPaths_set)
  with bounds [OF 0(1,2)] have "?mx \<noteq> 0" by simp
  then obtain cp where "cp \<in> set (compiledPaths rc route)" "pathMatches cp path" "?mx = score cp"
    using matchPathLoop_attained [of path "compiledPaths rc route" 0] by blast
  then show ?thesis
    using that bounds unfolding compiledPaths_set by (metis routeRank_loop)
qed

lemma rank_upper:
  assumes "raw \<in> set (route_Paths route)" and "compilePath rc raw = Inr cp" and "pathMatches cp path"
  shows "route_Priority route * 1000000 + score cp \<le> routeRank rc path route"
proof -
  have "cp \<in> set (compiledPaths rc route)" using assms by (auto simp: compiledPaths_set)
  from matchPathLoop_upper [OF this assms(3), of 0] show ?thesis by (simp add: routeRank_loop)
qed

lemma rank_lexicographic:
  assumes "accepts rc m host path route" "paths_short route"
    and "accepts rc m host path route'" "paths_short route'"
    and le: "routeRank rc path route' \<le> routeRank rc path route"
  shows "route_Priority route' \<le> route_Priority route"
    and "route_Priority route' = route_Priority route \<Longrightarrow> raw' \<in> set (route_Paths route') \<Longrightarrow>
      compilePath rc raw' = Inr cp' \<Longrightarrow> pathMatches cp' path \<Longrightarrow>
      \<exists>raw\<in>set (route_Paths route). \<exists>cp. compilePath rc raw = Inr cp \<and> pathMatches cp path
        \<and> at_least_as_specific cp cp'"
proof -
  obtain raw cp where r: "raw \<in> set (route_Paths route)" "compilePath rc raw = Inr cp"
    "pathMatches cp path" "routeRank rc path route = route_Priority route * 1000000 + score cp"
    "100000 \<le> score cp" "score cp < 400000"
    using accepted_rank [OF assms(1,2)] by metis
  obtain sc' where "routeRank rc path route' = route_Priority route' * 1000000 + sc'"
    "100000 \<le> sc'" "sc' < 400000"
    using accepted_rank [OF assms(3,4)] by metis
  with r le show "route_Priority route' \<le> route_Priority route" by simp
  assume eq: "route_Priority route' = route_Priority route" and r': "raw' \<in> set (route_Paths route')"
    "compilePath rc raw' = Inr cp'" "pathMatches cp' path"
  have "score cp' \<le> score cp"
    using rank_upper [OF r'] le eq r(4) by simp
  then have "at_least_as_specific cp cp'"
    using score_le_specific r r' assms(2,4) by (metis paths_short_def)
  with r show "\<exists>raw\<in>set (route_Paths route). \<exists>cp. compilePath rc raw = Inr cp \<and> pathMatches cp path
        \<and> at_least_as_specific cp cp'" by blast
qed

section \<open>The concrete routes are within the bounds\<close>

lemma twoRoutes_ok:
  "\<forall>route\<in>set twoRoutes. route_bounded route" "\<forall>route\<in>set twoRoutes. methods_nonempty route"
  by (simp_all add: twoRoutes_def routeOf_def route_bounded_def methods_nonempty_def)

lemma twoRoutes_router:
  "\<exists>r. AddAll noRegex NewRouter twoRoutes = Inr r \<and> fastEnabled r \<and> length (fastRoutes r) = 3"
proof -
  have "(case AddAll noRegex NewRouter twoRoutes of Inl _ \<Rightarrow> False
         | Inr r \<Rightarrow> fastEnabled r \<and> length (fastRoutes r) = 3)"
    by code_simp
  then show ?thesis by (auto split: sum.splits)
qed

lemma twoRoutes_accepts:
  "accepts noRegex ''GET'' '''' ''/api/x'' (routeOf ''a'' [''get''] [''/api''] 0)"
proof -
  have "matchMethod [''get''] (ToUpper ''GET'')" "matchHost [] ''''" by code_simp+
  moreover have "case compilePath noRegex ''/api'' of Inl _ \<Rightarrow> False | Inr cp \<Rightarrow> pathMatches cp ''/api/x''"
    by code_simp
  ultimately show ?thesis by (auto simp: accepts_def routeOf_def split: sum.splits)
qed

section \<open>Properties of routing\<close>

text \<open>
  C4. The fast path is an optimisation only: in every router built by \<^verbatim>\<open>Add\<close> whose scores
  cannot overflow and whose routes list no empty method, a request without a host is answered by
  the sorted table exactly as the general scan over all routes answers it.
\<close>

theorem Match_fast_path_correct:
  assumes "AddAll rc NewRouter rts = Inr r"
    and "\<forall>route\<in>set rts. route_bounded route"
    and "\<forall>route\<in>set rts. methods_nonempty route"
    and "int (length (fastRoutes r)) < 2 ^ 62"
  shows "Match r method host path = matchScan r (ToUpper method) host path"
  by (rule built_router(5) [OF assms])

theorem Match_fast_path_correct_witness:
  "\<exists>r. AddAll noRegex NewRouter twoRoutes = Inr r \<and> fastEnabled r
     \<and> Match r ''get'' '''' ''/api/x'' = matchScan r ''GET'' '''' ''/api/x''"
proof -
  obtain r where r: "AddAll noRegex NewRouter twoRoutes = Inr r" "fastEnabled r"
    "length (fastRoutes r) = 3"
    using twoRoutes_router by blast
  moreover have "ToUpper ''get'' = ''GET''" by code_simp
  ultimately show ?thesis
    using Match_fast_path_correct [OF r(1) twoRoutes_ok, of "''get''" "''''" "''/api/x''"] by auto
qed

text \<open>
  C3. Soundness, completeness and optimality of routing. The routes have priorities below \<open>2\<^sup>4\<^sup>0\<close> in size, paths shorter than \<open>2\<^sup>3\<^sup>1\<close>
  bytes and no empty method name, and the table for requests without a host has fewer than \<open>2\<^sup>6\<^sup>2\<close> entries. Then no route is returned
  exactly when no route accepts the request by method, host and path, and a returned route accepts the request and has the greatest rank
  among all routes that do. The rank is the one of the code: the priority first, then the best matching path, exact before regular expression
  before prefix, longer before shorter; the diagram of the README shows another order. With an empty method name the statement fails.
\<close>

theorem Match_best_route:
  assumes "AddAll rc NewRouter rts = Inr r"
    and "\<forall>route\<in>set rts. route_bounded route"
    and "\<forall>route\<in>set rts. methods_nonempty route"
    and "int (length (fastRoutes r)) < 2 ^ 62"
  shows "case Match r method host path of
      None \<Rightarrow> \<forall>route\<in>set rts. \<not> accepts rc method host path route
    | Some route \<Rightarrow> route \<in> set rts \<and> accepts rc method host path route
        \<and> (\<forall>route'\<in>set rts. accepts rc method host path route' \<longrightarrow>
              routeRank rc path route' \<le> routeRank rc path route)"
  using built_router_spec [OF assms, of "method" host path] by (auto split: option.split)

theorem Match_best_route_witness:
  "\<exists>r route. AddAll noRegex NewRouter twoRoutes = Inr r
     \<and> Match r ''GET'' '''' ''/api/x'' = Some route
     \<and> routeRank noRegex ''/api/x'' (routeOf ''a'' [''get''] [''/api''] 0)
         \<le> routeRank noRegex ''/api/x'' route"
proof -
  obtain r where r: "AddAll noRegex NewRouter twoRoutes = Inr r" "length (fastRoutes r) = 3"
    using twoRoutes_router by blast
  then have small: "int (length (fastRoutes r)) < 2 ^ 62" by simp
  have acc: "accepts noRegex ''GET'' '''' ''/api/x'' (routeOf ''a'' [''get''] [''/api''] 0)"
    by (rule twoRoutes_accepts)
  have mem: "routeOf ''a'' [''get''] [''/api''] 0 \<in> set twoRoutes" by (simp add: twoRoutes_def)
  show ?thesis
    using Match_best_route [OF r(1) twoRoutes_ok small, of "''GET''" "''''" "''/api/x''"] acc mem r(1)
    by (auto split: option.splits)
qed

text \<open>
  Precedence of routes: with paths shorter than 100000 bytes, the chosen route has the
  highest priority among the accepting routes, and among those of the same priority none has a
  matching path that is more specific, exact before regular expression before prefix, then longer
  before shorter.
\<close>

theorem Match_precedence:
  assumes "AddAll rc NewRouter rts = Inr r"
    and "\<forall>route\<in>set rts. route_bounded route"
    and "\<forall>route\<in>set rts. methods_nonempty route"
    and "int (length (fastRoutes r)) < 2 ^ 62"
    and "\<forall>route\<in>set rts. paths_short route"
    and "Match r method host path = Some route"
    and "route' \<in> set rts" and "accepts rc method host path route'"
  shows "route_Priority route' \<le> route_Priority route
    \<and> (route_Priority route' = route_Priority route \<longrightarrow>
       (\<forall>raw'\<in>set (route_Paths route'). \<forall>cp'. compilePath rc raw' = Inr cp' \<and> pathMatches cp' path \<longrightarrow>
         (\<exists>raw\<in>set (route_Paths route). \<exists>cp. compilePath rc raw = Inr cp \<and> pathMatches cp path
            \<and> at_least_as_specific cp cp')))"
proof -
  have "route \<in> set rts" "accepts rc method host path route"
    "routeRank rc path route' \<le> routeRank rc path route"
    using built_router_spec(2) [OF assms(1-4,6)] assms(7,8) by blast+
  then show ?thesis
    using rank_lexicographic [of rc "method" host path route route'] assms(5,7,8) by blast
qed

theorem Match_precedence_witness:
  "\<exists>r route. AddAll noRegex NewRouter twoRoutes = Inr r
     \<and> Match r ''GET'' '''' ''/api/x'' = Some route
     \<and> route_Priority (routeOf ''a'' [''get''] [''/api''] 0) \<le> route_Priority route"
proof -
  obtain r where r: "AddAll noRegex NewRouter twoRoutes = Inr r" "length (fastRoutes r) = 3"
    using twoRoutes_router by blast
  then have small: "int (length (fastRoutes r)) < 2 ^ 62" by simp
  have mem: "routeOf ''a'' [''get''] [''/api''] 0 \<in> set twoRoutes" by (simp add: twoRoutes_def)
  have "Match r ''GET'' '''' ''/api/x'' \<noteq> None"
    using built_router_spec(1) [OF r(1) twoRoutes_ok small] mem twoRoutes_accepts by blast
  then obtain route where route: "Match r ''GET'' '''' ''/api/x'' = Some route" by blast
  have short: "\<forall>route\<in>set twoRoutes. paths_short route"
    by (simp add: twoRoutes_def routeOf_def paths_short_def)
  show ?thesis
    using Match_precedence [OF r(1) twoRoutes_ok small short route mem twoRoutes_accepts] r(1) route
    by blast
qed

text \<open>
  When no two accepting routes have the same rank, the answer does not depend on the order
  in which the routes were added, which for the gateway is the iteration order of a Go map.
\<close>

theorem Match_order_independent:
  assumes "AddAll rc NewRouter rts = Inr r" and "AddAll rc NewRouter rts' = Inr r'"
    and "mset rts = mset rts'"
    and "\<forall>route\<in>set rts. route_bounded route"
    and "\<forall>route\<in>set rts. methods_nonempty route"
    and "int (length (fastRoutes r)) < 2 ^ 62" and "int (length (fastRoutes r')) < 2 ^ 62"
    and "inj_on (routeRank rc path) {route \<in> set rts. accepts rc method host path route}"
  shows "Match r method host path = Match r' method host path"
proof -
  have same: "set rts' = set rts" using assms(3) by (metis set_mset_mset)
  note spec = built_router_spec [OF assms(1,4,5,6)]
  note spec' = built_router_spec [OF assms(2) _ _ assms(7), unfolded same, OF assms(4,5)]
  show ?thesis
  proof (cases "Match r method host path")
    case None
    then show ?thesis using spec(1) spec'(1) by metis
  next
    case (Some route)
    then have "Match r' method host path \<noteq> None" using spec(1) spec'(1) by (metis option.distinct(1))
    then obtain route' where Some': "Match r' method host path = Some route'" by blast
    have "routeRank rc path route = routeRank rc path route'"
      using spec(2) [OF Some] spec'(2) [OF Some'] by (meson order_antisym)
    then have "route = route'"
      using assms(8) spec(2) [OF Some] spec'(2) [OF Some'] by (auto simp: inj_on_def)
    with Some Some' show ?thesis by simp
  qed
qed

theorem Match_order_independent_witness:
  "\<exists>r r'. AddAll noRegex NewRouter twoRoutes = Inr r
     \<and> AddAll noRegex NewRouter (rev twoRoutes) = Inr r'
     \<and> Match r ''GET'' '''' ''/api/x'' = Match r' ''GET'' '''' ''/api/x''"
proof -
  obtain r where r: "AddAll noRegex NewRouter twoRoutes = Inr r" "length (fastRoutes r) = 3"
    using twoRoutes_router by blast
  obtain r' where r': "AddAll noRegex NewRouter (rev twoRoutes) = Inr r'" "length (fastRoutes r') = 3"
  proof -
    have "(case AddAll noRegex NewRouter (rev twoRoutes) of Inl _ \<Rightarrow> False
           | Inr r \<Rightarrow> length (fastRoutes r) = 3)"
      by code_simp
    then show ?thesis using that by (auto split: sum.splits)
  qed
  have "distinct (map (routeRank noRegex ''/api/x'') twoRoutes)" by code_simp
  then have "inj_on (routeRank noRegex ''/api/x'') (set twoRoutes)" by (simp add: distinct_map)
  then have inj: "inj_on (routeRank noRegex ''/api/x'')
      {route \<in> set twoRoutes. accepts noRegex ''GET'' '''' ''/api/x'' route}"
    by (rule inj_on_subset) blast
  have small: "int (length (fastRoutes r)) < 2 ^ 62" "int (length (fastRoutes r')) < 2 ^ 62"
    using r r' by simp_all
  show ?thesis
    using Match_order_independent [OF r(1) r'(1) _ twoRoutes_ok small inj] r(1) r'(1) by auto
qed

text \<open>
  Two accepting routes of the same rank: the one added first wins, so with the routes of a Go
  map the answer depends on the iteration order.
\<close>

theorem Match_tie_first_added:
  "\<exists>a b. route_ID a \<noteq> route_ID b
     \<and> (case AddAll noRegex NewRouter [a, b] of
          Inl _ \<Rightarrow> False | Inr r \<Rightarrow> Match r ''GET'' ''h'' ''/x'' = Some a)
     \<and> (case AddAll noRegex NewRouter [b, a] of
          Inl _ \<Rightarrow> False | Inr r \<Rightarrow> Match r ''GET'' ''h'' ''/x'' = Some b)"
proof (intro exI conjI)
  let ?a = "routeOf ''a'' [] [''/x''] 0" and ?b = "routeOf ''b'' [] [''/x''] 0"
  show "route_ID ?a \<noteq> route_ID ?b" by (simp add: routeOf_def)
  show "case AddAll noRegex NewRouter [?a, ?b] of
      Inl _ \<Rightarrow> False | Inr r \<Rightarrow> Match r ''GET'' ''h'' ''/x'' = Some ?a"
    by code_simp
  show "case AddAll noRegex NewRouter [?b, ?a] of
      Inl _ \<Rightarrow> False | Inr r \<Rightarrow> Match r ''GET'' ''h'' ''/x'' = Some ?b"
    by code_simp
qed

text \<open>
  An empty string in a route's method list means "any method" to the fast path and "no
  method" to the scan: the same route accepts a request without a host and refuses it with one.
\<close>

theorem Match_empty_method_diverges:
  "case AddAll noRegex NewRouter [routeOf ''a'' [''''] [''/x''] 0] of
     Inl _ \<Rightarrow> False
   | Inr r \<Rightarrow> Match r ''GET'' '''' ''/x'' = Some (routeOf ''a'' [''''] [''/x''] 0)
          \<and> matchScan r ''GET'' '''' ''/x'' = None
          \<and> Match r ''GET'' ''example.com'' ''/x'' = None"
  by code_simp

text \<open>
  A host pattern \<open>*.domain\<close> accepts, up to case, exactly the pattern itself and the hosts
  that end in a dot followed by the domain.
\<close>

theorem matchHost_wildcard:
  assumes "domain \<noteq> []" and "\<not> HasSuffix domain ''*''"
  shows "matchHost [''*.'' @ domain] host \<longleftrightarrow>
    EqualFold (''*.'' @ domain) host
    \<or> (\<exists>sub tail. host = sub @ ''.'' @ tail \<and> EqualFold tail domain)"
proof -
  have "\<not> HasSuffix (''*.'' @ domain) ''.*''"
    using assms by (cases domain rule: rev_cases) (auto simp: HasSuffix_iff)
  moreover have "(length host > length domain \<and> host ! (length host - length domain - 1) = CHR ''.''
        \<and> hasSuffixFold host domain)
      \<longleftrightarrow> (\<exists>sub tail. host = sub @ ''.'' @ tail \<and> EqualFold tail domain)" (is "?l \<longleftrightarrow> ?r")
  proof
    assume ?l
    let ?k = "length host - length domain - 1"
    have "host = take ?k host @ host ! ?k # drop (Suc ?k) host"
      using \<open>?l\<close> by (intro id_take_nth_drop) linarith
    moreover have "Suc ?k = length host - length domain" using \<open>?l\<close> by linarith
    ultimately have "host = take ?k host @ ''.'' @ drop (length host - length domain) host"
      using \<open>?l\<close> by simp
    with \<open>?l\<close> show ?r by (auto simp: hasSuffixFold_def)
  next
    assume ?r
    then obtain sub tail where "host = sub @ ''.'' @ tail" "EqualFold tail domain" by blast
    with EqualFold_length [of tail domain] show ?l
      by (auto simp: hasSuffixFold_def nth_append)
  qed
  ultimately show ?thesis
    using assms by (auto simp: matchHost_def matchHostPattern_def Let_def)
qed

theorem matchHost_wildcard_witness:
  "matchHost [''*.example.com''] ''api.Example.com'' \<and> \<not> matchHost [''*.example.com''] ''example.com''"
proof -
  have suf: "\<not> HasSuffix ''example.com'' ''*''" by code_simp
  have eq: "EqualFold ''Example.com'' ''example.com''" "\<not> EqualFold ''*.example.com'' ''example.com''"
    by code_simp+
  have "matchHost [''*.'' @ ''example.com''] ''api.Example.com''"
  proof (rule iffD2 [OF matchHost_wildcard])
    show "EqualFold (''*.'' @ ''example.com'') ''api.Example.com''
        \<or> (\<exists>sub tail. ''api.Example.com'' = sub @ ''.'' @ tail \<and> EqualFold tail ''example.com'')"
      using eq(1) by (intro disjI2 exI [of _ "''api''"] exI [of _ "''Example.com''"]) simp
  qed (use suf in simp_all)
  moreover have "\<not> matchHost [''*.example.com''] ''example.com''" by code_simp
  ultimately show ?thesis by simp
qed

end
