(* ===== verification/Gateway.thy ===== *)
theory Gateway
  imports Plugin_Registry Proxy Router
begin

text \<open>
  The runtime: the compiler of a configuration into a snapshot
  (\<^verbatim>\<open>internal/gateway/compiler.go\<close>) and the request path of the gateway
  (\<^verbatim>\<open>ServeHTTP\<close>, the execution chains and the target of \<^verbatim>\<open>internal/gateway/gateway.go\<close>).

  Parameters: \<open>rc\<close>, the regular expression engine; \<open>runHandlers\<close>, the framework's execution of a
  handler chain (\<^verbatim>\<open>SetIndex(-1)\<close>, \<^verbatim>\<open>SetHandlers\<close>, \<^verbatim>\<open>Next\<close>); the three
  factories of the compiler; \<open>serveProxy\<close>, the \<^verbatim>\<open>ServeHTTP\<close> of a proxy. The balancer of an
  upstream is kept in the world under the upstream's id, since picking changes it. A Go map is an
  association list in the order in which \<^verbatim>\<open>range\<close> visits it.
\<close>

section \<open>Targets\<close>

text \<open>\<^verbatim>\<open>net.SplitHostPort\<close>, for the host part; \<^term>\<open>None\<close> is an error.\<close>

definition SplitHostPort :: "string \<Rightarrow> string option" where
  "SplitHostPort hostport =
     (case LastIndexByte hostport CHR '':'' of
        None \<Rightarrow> None
      | Some i \<Rightarrow>
          if hostport \<noteq> [] \<and> hostport ! 0 = CHR ''['' then
            (case Cut hostport CHR '']'' of
               None \<Rightarrow> None
             | Some (before, after) \<Rightarrow>
                 if Suc (length before) = i
                    \<and> CHR ''['' \<notin> set (tl before) \<and> CHR ''['' \<notin> set after \<and> CHR '']'' \<notin> set after
                 then Some (tl before) else None)
          else
            let host = take i hostport in
            if CHR '':'' \<in> set host \<or> CHR ''['' \<in> set hostport \<or> CHR '']'' \<in> set hostport
            then None else Some host)"

definition resolveUpstreamHost :: "UpstreamOptions \<Rightarrow> Endpoint \<Rightarrow> string \<Rightarrow> string" where
  "resolveUpstreamHost options endpoint host =
     (if upstream_PassHost options = [] \<or> upstream_PassHost options = ''pass'' then host
      else if upstream_PassHost options = ''rewrite'' then upstream_UpstreamHost options
      else if upstream_PassHost options = ''node'' then
        (case SplitHostPort (Address endpoint) of Some h \<Rightarrow> h | None \<Rightarrow> Address endpoint)
      else host)"

definition resolveTarget :: "ServiceOptions \<Rightarrow> UpstreamOptions \<Rightarrow> Endpoint \<Rightarrow> string \<Rightarrow> Target" where
  "resolveTarget service upstream endpoint host =
     (let scheme = upstream_Scheme upstream;
          scheme = (if scheme = [] then service_Protocol service else scheme);
          scheme = (if scheme = [] then ''http'' else scheme)
      in \<lparr>tg_Scheme = scheme, tg_Address = Address endpoint,
          tg_Host = resolveUpstreamHost upstream endpoint host\<rparr>)"

definition mergedTimeout :: "ServiceOptions \<Rightarrow> UpstreamOptions option \<Rightarrow> TimeoutOptions" where
  "mergedTimeout service upstream =
     (let t = service_Timeout service in
      case upstream of
        None \<Rightarrow> t
      | Some u \<Rightarrow>
          let t = (if Connect t = 0 then t\<lparr>Connect := Connect (upstream_Timeout u)\<rparr> else t);
              t = (if Read t = 0 then t\<lparr>Read := Read (upstream_Timeout u)\<rparr> else t)
          in (if Write t = 0 then t\<lparr>Write := Write (upstream_Timeout u)\<rparr> else t))"

definition statusClass :: "int \<Rightarrow> string" where
  "statusClass status = (if status \<le> 0 then '''' else Itoa (status sdiv 100) @ ''xx'')"

section \<open>Services and upstreams\<close>

record 'raw Upstream =
  us_ID :: string
  us_Options :: UpstreamOptions
  us_Handlers :: "'raw handler list"
  us_Endpoints :: "Endpoint list"

record ('raw, 'p) Service =
  sv_Proxy :: "'p option"
  sv_Upstream :: "'raw Upstream option"
  sv_ID :: string
  sv_Handlers :: "'raw handler list"
  sv_ExecutionHandlers :: "'raw handler list"
  sv_Options :: ServiceOptions

type_synonym ('raw, 'p) serve_proxy = "'p \<Rightarrow> Target \<Rightarrow> 'raw world \<Rightarrow> 'raw world \<times> proxy_error option"
type_synonym 'raw run_handlers = "'raw handler list \<Rightarrow> 'raw handler"

text \<open>The last handler of a service: pick an endpoint, resolve the target, call the proxy.\<close>

definition upstreamHandler :: "('raw, 'p) serve_proxy \<Rightarrow> 'p \<Rightarrow> ServiceOptions \<Rightarrow> 'raw Upstream \<Rightarrow> 'raw handler" where
  "upstreamHandler serveProxy proxy service upstream w =
     (case Pick (map_get (New []) (w_balancers w) (us_ID upstream)) of
        (b, picked) \<Rightarrow>
          let w = w\<lparr>w_balancers := map_put (us_ID upstream) b (w_balancers w)\<rparr> in
          case picked of
            Picked endpoint \<Rightarrow>
              let target = resolveTarget service (us_Options upstream) endpoint (rq_Host (w_request w));
                  w = onCtx (SetEndpointAddress (Address endpoint)) w;
                  w = onCtx (SetUpstreamHost (tg_Host target)) w;
                  w = onCtx (SetPhase ''proxy'') w;
                  (w, err) = serveProxy proxy target w;
                  w = (case err of
                         None \<Rightarrow> w
                       | Some e \<Rightarrow>
                           let w = onCtx (SetGatewayError (Some (case e of ErrTimeout \<Rightarrow> ''upstream request timed out''
                                     | ErrInvalidTarget \<Rightarrow> ''invalid upstream target''
                                     | ErrBadGateway \<Rightarrow> ''upstream request failed''))) w
                           in if e = ErrTimeout then SetStatusCode 504 w
                              else if e = ErrInvalidTarget then SetStatusCode 502 w
                              else SetStatusCode 502 w)
              in onCtx (SetPhase ''response'') w
          | ErrNotAvailable \<Rightarrow> SetStatusCode 503 w
          | PickPanic \<Rightarrow> w\<lparr>w_panicked := True\<rparr>)"

text \<open>The proxy of a service that the compiler builds is not nil: a failing factory stops the compilation.\<close>

definition buildServiceExecutionHandlers ::
    "('raw, 'p) serve_proxy \<Rightarrow> ('raw, 'p) Service option \<Rightarrow> 'raw handler list" where
  "buildServiceExecutionHandlers serveProxy service =
     (case service of
        None \<Rightarrow> []
      | Some sv \<Rightarrow>
          (case (sv_Upstream sv, sv_Proxy sv) of
             (Some u, Some p) \<Rightarrow>
               sv_Handlers sv @ us_Handlers u @ [upstreamHandler serveProxy p (sv_Options sv) u]
           | _ \<Rightarrow> []))"

text \<open>The last handler of a route: hand over to the service's chain.\<close>

definition serviceHandler :: "'raw run_handlers \<Rightarrow> ('raw, 'p) Service option \<Rightarrow> 'raw handler" where
  "serviceHandler runHandlers service w =
     (case service of
        None \<Rightarrow> SetStatusCode 503 w
      | Some sv \<Rightarrow>
          (case (sv_Upstream sv, sv_Proxy sv) of
             (Some u, Some p) \<Rightarrow>
               runHandlers (sv_ExecutionHandlers sv) (onCtx (SetUpstreamID (us_ID u)) w)
           | _ \<Rightarrow> SetStatusCode 503 w))"

definition buildRouteExecutionHandlers ::
    "'raw run_handlers \<Rightarrow> 'raw handler list \<Rightarrow> 'raw handler list \<Rightarrow> 'raw handler list
      \<Rightarrow> ('raw, 'p) Service option \<Rightarrow> 'raw handler list" where
  "buildRouteExecutionHandlers runHandlers globalHandlers serverHandlers routeHandlers service =
     globalHandlers @ serverHandlers @ routeHandlers @ [serviceHandler runHandlers service]"

section \<open>The compiler\<close>

datatype compile_error =
    MultipleServers int
  | RegistryFailed string
  | PluginsFailed string string build_error
  | BalancerFailed string string
  | ProxyFailed string string
  | RouteFailed router_error

record ('raw, 'p) Compiler =
  registryFactory :: "string + 'raw handler Registry"
  balancerFactory :: "UpstreamOptions \<Rightarrow> Endpoint list \<Rightarrow> string + Balancer"
  proxyFactory :: "ServiceOptions \<Rightarrow> 'raw Upstream option \<Rightarrow> string + 'p"

definition defaultBalancerFactory :: "UpstreamOptions \<Rightarrow> Endpoint list \<Rightarrow> string + Balancer" where
  "defaultBalancerFactory options endpoints =
     (if balancer_Type (upstream_Balancer options) = [] \<or> balancer_Type (upstream_Balancer options) = ''round_robin''
      then Inr (New endpoints)
      else Inl (''balancer type '' @ balancer_Type (upstream_Balancer options) @ '' is not supported''))"

text \<open>\<open>newHTTP\<close> is \<^verbatim>\<open>proxy.NewHTTP\<close> with the given timeouts.\<close>

definition defaultProxyFactory ::
    "(TimeoutOptions \<Rightarrow> 'p) \<Rightarrow> ServiceOptions \<Rightarrow> 'raw Upstream option \<Rightarrow> string + 'p" where
  "defaultProxyFactory newHTTP service upstream =
     Inr (newHTTP (mergedTimeout service (map_option us_Options upstream)))"

definition makeEndpoint :: "EndpointOptions \<Rightarrow> Endpoint" where
  "makeEndpoint e =
     \<lparr>Tags = endpoint_Tags e, Addr = endpoint_Address e,
      Load = (if endpoint_Weight e = 0 then 1 else endpoint_Weight e), Available = True\<rparr>"

text \<open>The compiled snapshot; \<open>sn_Balancers\<close> are the balancers of its upstreams.\<close>

record ('raw, 'p) Compiled =
  sn_Router :: Router
  sn_RouteHandlers :: "(string \<times> 'raw handler list) list"
  sn_Services :: "(string \<times> ('raw, 'p) Service) list"
  sn_Upstreams :: "(string \<times> 'raw Upstream) list"
  sn_Balancers :: "(string \<times> Balancer) list"
  sn_GlobalHandlers :: "'raw handler list"
  sn_ServerHandlers :: "'raw handler list"

type_synonym 'x compiling = "resources \<times> (compile_error + 'x)"

fun compileUpstreams ::
    "('raw, 'p) Compiler \<Rightarrow> (string \<times> 'raw handler Definition) list \<Rightarrow> (string \<times> PluginOptions) list
      \<Rightarrow> (string \<times> UpstreamOptions) list \<Rightarrow> resources
      \<Rightarrow> ((string \<times> 'raw Upstream) list \<times> (string \<times> Balancer) list) compiling" where
  "compileUpstreams c defs plugins [] s = (s, Inr ([], []))"
| "compileUpstreams c defs plugins ((k, options) # rest) s =
     (case buildPluginHandlers defs plugins ScopeUpstream (upstream_Plugins options) s of
        (s, Inl e) \<Rightarrow> (s, Inl (PluginsFailed ''upstream'' k e))
      | (s, Inr handlers) \<Rightarrow>
          let endpoints = map makeEndpoint (upstream_Endpoints options) in
          case balancerFactory c options endpoints of
            Inl e \<Rightarrow> (s, Inl (BalancerFailed k e))
          | Inr b \<Rightarrow>
              (case compileUpstreams c defs plugins rest s of
                 (s, Inl e) \<Rightarrow> (s, Inl e)
               | (s, Inr (ups, bals)) \<Rightarrow>
                   (s, Inr ((k, \<lparr>us_ID = k, us_Options = options, us_Handlers = handlers,
                                 us_Endpoints = endpoints\<rparr>) # ups, (k, b) # bals))))"

fun compileServices ::
    "('raw, 'p) serve_proxy \<Rightarrow> ('raw, 'p) Compiler \<Rightarrow> (string \<times> 'raw handler Definition) list
      \<Rightarrow> (string \<times> PluginOptions) list \<Rightarrow> (string \<times> 'raw Upstream) list \<Rightarrow> (string \<times> ServiceOptions) list
      \<Rightarrow> resources \<Rightarrow> (string \<times> ('raw, 'p) Service) list compiling" where
  "compileServices serveProxy c defs plugins ups [] s = (s, Inr [])"
| "compileServices serveProxy c defs plugins ups ((k, options) # rest) s =
     (case buildPluginHandlers defs plugins ScopeService (service_Plugins options) s of
        (s, Inl e) \<Rightarrow> (s, Inl (PluginsFailed ''service'' k e))
      | (s, Inr handlers) \<Rightarrow>
          let upstream = map_of ups (service_Upstream options) in
          case proxyFactory c options upstream of
            Inl e \<Rightarrow> (s, Inl (ProxyFailed k e))
          | Inr p \<Rightarrow>
              let sv = \<lparr>sv_Proxy = Some p, sv_Upstream = upstream, sv_ID = k, sv_Handlers = handlers,
                        sv_ExecutionHandlers = [], sv_Options = options\<rparr>;
                  sv = sv\<lparr>sv_ExecutionHandlers := buildServiceExecutionHandlers serveProxy (Some sv)\<rparr>
              in (case compileServices serveProxy c defs plugins ups rest s of
                    (s, Inl e) \<Rightarrow> (s, Inl e)
                  | (s, Inr svs) \<Rightarrow> (s, Inr ((k, sv) # svs))))"

fun compileRoutes ::
    "regexp_compiler \<Rightarrow> 'raw run_handlers \<Rightarrow> (string \<times> 'raw handler Definition) list
      \<Rightarrow> (string \<times> PluginOptions) list \<Rightarrow> 'raw handler list \<Rightarrow> 'raw handler list
      \<Rightarrow> (string \<times> ('raw, 'p) Service) list \<Rightarrow> (string \<times> RouteOptions) list \<Rightarrow> Router \<Rightarrow> resources
      \<Rightarrow> (Router \<times> (string \<times> 'raw handler list) list) compiling" where
  "compileRoutes rc runHandlers defs plugins gh sh svs [] r s = (s, Inr (r, []))"
| "compileRoutes rc runHandlers defs plugins gh sh svs ((k, options) # rest) r s =
     (let options = options\<lparr>route_ID := k\<rparr> in
      case Add rc r options of
        Inl e \<Rightarrow> (s, Inl (RouteFailed e))
      | Inr r \<Rightarrow>
          (case buildPluginHandlers defs plugins ScopeRoute (route_Plugins options) s of
             (s, Inl e) \<Rightarrow> (s, Inl (PluginsFailed ''route'' k e))
           | (s, Inr handlers) \<Rightarrow>
               (case compileRoutes rc runHandlers defs plugins gh sh svs rest r s of
                  (s, Inl e) \<Rightarrow> (s, Inl e)
                | (s, Inr (r, hs)) \<Rightarrow>
                    (s, Inr (r, (k, buildRouteExecutionHandlers runHandlers gh sh handlers
                                      (map_of svs (route_Service options))) # hs)))))"

text \<open>Everything between the creation of the registry and the end of \<^verbatim>\<open>Compile\<close>.\<close>

definition compileWith ::
    "regexp_compiler \<Rightarrow> 'raw run_handlers \<Rightarrow> ('raw, 'p) serve_proxy \<Rightarrow> ('raw, 'p) Compiler
      \<Rightarrow> (string \<times> 'raw handler Definition) list \<Rightarrow> Options \<Rightarrow> resources \<Rightarrow> ('raw, 'p) Compiled compiling" where
  "compileWith rc runHandlers serveProxy c defs options s =
     (case buildPluginHandlers defs (Plugins options) ScopeGlobal (GlobalPlugins options) s of
        (s, Inl e) \<Rightarrow> (s, Inl (PluginsFailed ''global'' '''' e))
      | (s, Inr gh) \<Rightarrow>
     (case (case Servers options of
              [] \<Rightarrow> (s, Inr [])
            | (_, server) # _ \<Rightarrow>
                (case buildPluginHandlers defs (Plugins options) ScopeServer (server_Plugins server) s of
                   (s, Inl e) \<Rightarrow> (s, Inl (PluginsFailed ''server'' (server_ID server) e))
                 | (s, Inr hs) \<Rightarrow> (s, Inr hs))) of
        (s, Inl e) \<Rightarrow> (s, Inl e)
      | (s, Inr sh) \<Rightarrow>
     (case compileUpstreams c defs (Plugins options) (Upstreams options) s of
        (s, Inl e) \<Rightarrow> (s, Inl e)
      | (s, Inr (ups, bals)) \<Rightarrow>
     (case compileServices serveProxy c defs (Plugins options) ups (Services options) s of
        (s, Inl e) \<Rightarrow> (s, Inl e)
      | (s, Inr svs) \<Rightarrow>
     (case compileRoutes rc runHandlers defs (Plugins options) gh sh svs (Routes options) NewRouter s of
        (s, Inl e) \<Rightarrow> (s, Inl e)
      | (s, Inr (r, hs)) \<Rightarrow>
          (s, Inr \<lparr>sn_Router = r, sn_RouteHandlers = hs, sn_Services = svs, sn_Upstreams = ups,
                   sn_Balancers = bals, sn_GlobalHandlers = gh, sn_ServerHandlers = sh\<rparr>))))))"

text \<open>On an error after the registry exists, the deferred call closes the registry.\<close>

definition Compile ::
    "regexp_compiler \<Rightarrow> 'raw run_handlers \<Rightarrow> ('raw, 'p) serve_proxy \<Rightarrow> ('raw, 'p) Compiler \<Rightarrow> Options
      \<Rightarrow> ('raw, 'p) Compiled compiling" where
  "Compile rc runHandlers serveProxy c options =
     (if length (Servers options) > 1
      then (\<lparr>res_closers = [], res_closed = []\<rparr>, Inl (MultipleServers (int (length (Servers options)))))
      else case registryFactory c of
        Inl e \<Rightarrow> (\<lparr>res_closers = [], res_closed = []\<rparr>, Inl (RegistryFailed e))
      | Inr registry \<Rightarrow>
          (case compileWith rc runHandlers serveProxy c (reg_definitions registry) options (reg_resources registry) of
             (s, Inl e) \<Rightarrow> (fst (CloseResources s), Inl e)
           | (s, Inr snapshot) \<Rightarrow> (s, Inr snapshot)))"

section \<open>The request path\<close>

text \<open>
  \<open>admin\<close> is the admin handler, if there is one; \<open>metricsText\<close> renders the recorder and the standard
  metrics; \<open>rawAbort\<close> is the framework's \<^verbatim>\<open>Abort\<close>. \<open>snapshot\<close> is what the loop around
  \<^verbatim>\<open>acquire\<close> ends with: a held snapshot, or none when the gateway has none.
\<close>

definition serveRoute ::
    "'raw run_handlers \<Rightarrow> ('raw \<Rightarrow> 'raw) \<Rightarrow> ('raw, 'p) Compiled \<Rightarrow> RouteOptions \<Rightarrow> 'raw handler" where
  "serveRoute runHandlers rawAbort snapshot route w =
     (let w = onCtx (SetRouteID (route_ID route)) w;
          w = onCtx (SetServiceID (route_Service route)) w;
          w = (case map_of (sn_Services snapshot) (route_Service route) of
                 None \<Rightarrow> w
               | Some sv \<Rightarrow>
                   (case sv_Upstream sv of None \<Rightarrow> w | Some u \<Rightarrow> onCtx (SetUpstreamID (us_ID u)) w));
          w = onCtx (SetPhase ''request'') w;
          handlers = map_get [] (sn_RouteHandlers snapshot) (route_ID route)
      in if length handlers = 0 then SetStatusCode 503 w
         else onCtx (\<lambda>p. p\<lparr>hpc_raw := rawAbort (hpc_raw p)\<rparr>) (runHandlers handlers w))"

definition observeRequest :: "string \<Rightarrow> string \<Rightarrow> int \<Rightarrow> 'raw handler" where
  "observeRequest handlerName routeID startedAt w =
     w\<lparr>w_recorder := ObserveGateway
         \<lparr>gl_Handler = handlerName, gl_Method = rq_Method (w_request w), gl_RouteID = routeID,
          gl_StatusClass = statusClass (rp_Status (w_response w))\<rparr>
         (w_clock w - startedAt) (w_recorder w)\<rparr>"

definition gatewayServeHTTP ::
    "'raw run_handlers \<Rightarrow> ('raw \<Rightarrow> 'raw) \<Rightarrow> ('raw world \<Rightarrow> 'raw world \<times> bool) option
      \<Rightarrow> ('raw world \<Rightarrow> string) \<Rightarrow> ('raw, 'p) Compiled option \<Rightarrow> 'raw handler" where
  "gatewayServeHTTP runHandlers rawAbort admin metricsText snapshot w0 =
     (let startedAt = w_clock w0;
          (w, served) = (case admin of None \<Rightarrow> (w0, False) | Some h \<Rightarrow> h w0)
      in if served then observeRequest ''admin'' '''' startedAt w
         else if rq_Path (w_request w) = ''/metrics'' then
           observeRequest ''metrics'' '''' startedAt
             (w\<lparr>w_response := (w_response w)\<lparr>
                  rp_Headers := map_put ''Content-Type'' ''text/plain; version=0.0.4; charset=utf-8''
                                  (rp_Headers (w_response w)),
                  rp_Status := 200, rp_Body := metricsText w\<rparr>\<rparr>)
         else case snapshot of
           None \<Rightarrow> observeRequest ''unavailable'' '''' startedAt (SetStatusCode 503 w)
         | Some sn \<Rightarrow>
             (case Match (sn_Router sn) (rq_Method (w_request w)) (rq_Host (w_request w)) (rq_Path (w_request w)) of
                None \<Rightarrow> observeRequest ''unmatched'' '''' startedAt (SetStatusCode 404 w)
              | Some route \<Rightarrow>
                  observeRequest ''proxy'' (route_ID route) startedAt
                    (serveRoute runHandlers rawAbort sn route w)))"

section \<open>Notions used in the statements\<close>

definition routesOf :: "Options \<Rightarrow> RouteOptions list" where
  "routesOf options = map (\<lambda>(k, route). route\<lparr>route_ID := k\<rparr>) (Routes options)"

text \<open>The context in which a route's chain starts.\<close>

definition routeContext :: "string \<Rightarrow> string \<Rightarrow> string \<Rightarrow> 'raw hertzPluginContext \<Rightarrow> 'raw hertzPluginContext" where
  "routeContext routeID serviceID upstreamID p =
     p\<lparr>hpc_routeID := routeID, hpc_serviceID := serviceID, hpc_upstreamID := upstreamID, hpc_phase := ''request''\<rparr>"

text \<open>The service, its upstream and its proxy are in place.\<close>

definition ready_service :: "('raw, 'p) Compiled \<Rightarrow> string \<Rightarrow> ('raw, 'p) Service \<Rightarrow> 'raw Upstream \<Rightarrow> bool" where
  "ready_service sn k sv u \<longleftrightarrow>
     map_of (sn_Services sn) k = Some sv \<and> sv_Upstream sv = Some u \<and> sv_Proxy sv \<noteq> None
   \<and> map_of (sn_Upstreams sn) (service_Upstream (sv_Options sv)) = Some u
   \<and> us_ID u = service_Upstream (sv_Options sv)
   \<and> us_Endpoints u \<noteq> [] \<and> (\<forall>e\<in>set (us_Endpoints u). IsAvailable e \<and> Address e \<noteq> [])"

text \<open>A compiler without plugins and a configuration of one route, for concrete inputs.\<close>

definition plainCompiler :: "(unit, unit) Compiler" where
  "plainCompiler = \<lparr>registryFactory = Inr NewRegistry, balancerFactory = defaultBalancerFactory,
     proxyFactory = defaultProxyFactory (\<lambda>_. ())\<rparr>"

definition runAll :: "unit run_handlers" where
  "runAll hs w = fold (\<lambda>h w. h w) hs w"

definition echoProxy :: "(unit, unit) serve_proxy" where
  "echoProxy p target w = (w\<lparr>w_response := (w_response w)\<lparr>rp_Status := 200\<rparr>\<rparr>, None)"

definition apiWorld :: "unit world" where
  "apiWorld = plainWorld\<lparr>w_request := plainRequest\<lparr>rq_Path := ''/api/x''\<rparr>\<rparr>"

section \<open>What the compiler builds\<close>

lemma compileUpstreams_spec:
  assumes "compileUpstreams c defs plugins opts s = (s', Inr (ups, bals))"
  shows "map_of ups k = None \<longleftrightarrow> map_of opts k = None"
    and "map_of ups k = Some u \<Longrightarrow> \<exists>o'. map_of opts k = Some o' \<and> us_ID u = k \<and> us_Options u = o'
           \<and> us_Endpoints u = map makeEndpoint (upstream_Endpoints o')"
proof -
  have "list_all2 (\<lambda>ko ku. fst ko = fst ku \<and> us_ID (snd ku) = fst ko \<and> us_Options (snd ku) = snd ko
      \<and> us_Endpoints (snd ku) = map makeEndpoint (upstream_Endpoints (snd ko))) opts ups"
    using assms
  proof (induction opts arbitrary: s s' ups bals)
    case (Cons ko opts)
    then show ?case
      by (cases ko) (auto simp: Let_def split: prod.splits sum.splits)
  qed simp
  then show "map_of ups k = None \<longleftrightarrow> map_of opts k = None"
    and "map_of ups k = Some u \<Longrightarrow> \<exists>o'. map_of opts k = Some o' \<and> us_ID u = k \<and> us_Options u = o'
           \<and> us_Endpoints u = map makeEndpoint (upstream_Endpoints o')"
    by (induction rule: list_all2_induct) (auto split: if_splits)
qed

lemma compileServices_spec:
  assumes "compileServices serveProxy c defs plugins ups opts s = (s', Inr svs)"
  shows "map_of svs k = None \<longleftrightarrow> map_of opts k = None"
    and "map_of svs k = Some sv \<Longrightarrow> \<exists>o'. map_of opts k = Some o' \<and> sv_Options sv = o' \<and> sv_Proxy sv \<noteq> None
           \<and> sv_Upstream sv = map_of ups (service_Upstream o')
           \<and> (\<forall>u p. sv_Upstream sv = Some u \<longrightarrow> sv_Proxy sv = Some p \<longrightarrow>
                sv_ExecutionHandlers sv = sv_Handlers sv @ us_Handlers u @ [upstreamHandler serveProxy p o' u])"
proof -
  have "list_all2 (\<lambda>ko ks. fst ko = fst ks \<and> sv_Options (snd ks) = snd ko \<and> sv_Proxy (snd ks) \<noteq> None
      \<and> sv_Upstream (snd ks) = map_of ups (service_Upstream (snd ko))
      \<and> (\<forall>u p. sv_Upstream (snd ks) = Some u \<longrightarrow> sv_Proxy (snd ks) = Some p \<longrightarrow>
           sv_ExecutionHandlers (snd ks)
             = sv_Handlers (snd ks) @ us_Handlers u @ [upstreamHandler serveProxy p (snd ko) u])) opts svs"
    using assms
  proof (induction opts arbitrary: s s' svs)
    case (Cons ko opts)
    then show ?case
      by (cases ko) (auto simp: Let_def buildServiceExecutionHandlers_def split: prod.splits sum.splits)
  qed simp
  then show "map_of svs k = None \<longleftrightarrow> map_of opts k = None"
    and "map_of svs k = Some sv \<Longrightarrow> \<exists>o'. map_of opts k = Some o' \<and> sv_Options sv = o' \<and> sv_Proxy sv \<noteq> None
           \<and> sv_Upstream sv = map_of ups (service_Upstream o')
           \<and> (\<forall>u p. sv_Upstream sv = Some u \<longrightarrow> sv_Proxy sv = Some p \<longrightarrow>
                sv_ExecutionHandlers sv = sv_Handlers sv @ us_Handlers u @ [upstreamHandler serveProxy p o' u])"
    by (induction rule: list_all2_induct) (auto split: if_splits)
qed

lemma compileRoutes_spec:
  assumes "compileRoutes rc run defs plugins gh sh svs opts r s = (s', Inr (r', hs))"
  shows "AddAll rc r (map (\<lambda>(k, route). route\<lparr>route_ID := k\<rparr>) opts) = Inr r'"
    and "map_of hs k = None \<longleftrightarrow> map_of opts k = None"
    and "map_of opts k = Some route \<Longrightarrow> \<exists>handlers. map_of hs k = Some (gh @ sh @ handlers @
           [serviceHandler run (map_of svs (route_Service route))])"
proof -
  have both: "AddAll rc r (map (\<lambda>(k, route). route\<lparr>route_ID := k\<rparr>) opts) = Inr r'
    \<and> list_all2 (\<lambda>ko kh. fst ko = fst kh \<and> (\<exists>handlers. snd kh = gh @ sh @ handlers @
           [serviceHandler run (map_of svs (route_Service (snd ko)))])) opts hs"
    using assms
  proof (induction opts arbitrary: r s s' r' hs)
    case (Cons ko opts)
    then show ?case
      by (cases ko)
        (auto simp: Let_def buildRouteExecutionHandlers_def split: prod.splits sum.splits)
  qed simp
  then show "AddAll rc r (map (\<lambda>(k, route). route\<lparr>route_ID := k\<rparr>) opts) = Inr r'" by blast
  from conjunct2 [OF both] show "map_of hs k = None \<longleftrightarrow> map_of opts k = None"
    and "map_of opts k = Some route \<Longrightarrow> \<exists>handlers. map_of hs k = Some (gh @ sh @ handlers @
           [serviceHandler run (map_of svs (route_Service route))])"
    by (induction rule: list_all2_induct) (auto split: if_splits)
qed

lemma Compile_parts:
  assumes "Compile rc run serveProxy c options = (s, Inr sn)"
  shows "\<exists>defs s1 s2 s3. compileUpstreams c defs (Plugins options) (Upstreams options) s1
      = (s2, Inr (sn_Upstreams sn, sn_Balancers sn))
    \<and> compileServices serveProxy c defs (Plugins options) (sn_Upstreams sn) (Services options) s2
      = (s3, Inr (sn_Services sn))
    \<and> compileRoutes rc run defs (Plugins options) (sn_GlobalHandlers sn) (sn_ServerHandlers sn) (sn_Services sn)
        (Routes options) NewRouter s3 = (s, Inr (sn_Router sn, sn_RouteHandlers sn))
    \<and> length (Servers options) \<le> 1"
proof -
  obtain defs s0 where len: "length (Servers options) \<le> 1"
    and cw: "compileWith rc run serveProxy c defs options s0 = (s, Inr sn)"
    using assms by (auto simp: Compile_def split: if_splits sum.splits prod.splits)
  from cw obtain s1 s2 s3 ups bals svs gh sh r hs where
    "compileUpstreams c defs (Plugins options) (Upstreams options) s1 = (s2, Inr (ups, bals))"
    "compileServices serveProxy c defs (Plugins options) ups (Services options) s2 = (s3, Inr svs)"
    "compileRoutes rc run defs (Plugins options) gh sh svs (Routes options) NewRouter s3 = (s, Inr (r, hs))"
    "sn = \<lparr>sn_Router = r, sn_RouteHandlers = hs, sn_Services = svs, sn_Upstreams = ups,
           sn_Balancers = bals, sn_GlobalHandlers = gh, sn_ServerHandlers = sh\<rparr>"
    unfolding compileWith_def by (elim prod_caseE sum_caseE) simp_all
  with len show ?thesis by auto
qed

lemma makeEndpoint_sel [simp]:
  "IsAvailable (makeEndpoint e)" "Address (makeEndpoint e) = endpoint_Address e"
  by (simp_all add: makeEndpoint_def IsAvailable_def Address_def)

lemma well_formedD:
  assumes "well_formed options"
  shows "map_of (Routes options) k = Some route \<Longrightarrow> route_Service route \<in> fst ` set (Services options)"
    and "map_of (Services options) k = Some service \<Longrightarrow> service_Upstream service \<in> fst ` set (Upstreams options)"
    and "map_of (Upstreams options) k = Some upstream \<Longrightarrow> upstream_ok (Plugins options) upstream"
  using assms by (auto simp: well_formed_def dest!: map_of_SomeD)

lemma compiled_service_ready:
  assumes "Compile rc run serveProxy c options = (s, Inr sn)" and "well_formed options"
    and "k \<in> fst ` set (Services options)"
  shows "\<exists>sv u. ready_service sn k sv u"
proof -
  obtain defs s1 s2 s3 where parts:
    "compileUpstreams c defs (Plugins options) (Upstreams options) s1 = (s2, Inr (sn_Upstreams sn, sn_Balancers sn))"
    "compileServices serveProxy c defs (Plugins options) (sn_Upstreams sn) (Services options) s2
      = (s3, Inr (sn_Services sn))"
    using Compile_parts [OF assms(1)] by blast
  obtain service where "map_of (Services options) k = Some service"
    using assms(3) by (metis map_of_eq_None_iff not_None_eq)
  then obtain sv where sv: "map_of (sn_Services sn) k = Some sv" "sv_Options sv = service" "sv_Proxy sv \<noteq> None"
    "sv_Upstream sv = map_of (sn_Upstreams sn) (service_Upstream service)"
    using compileServices_spec [OF parts(2)] by (metis not_None_eq option.inject)
  have "service_Upstream service \<in> fst ` set (Upstreams options)"
    using well_formedD(2) [OF assms(2)] \<open>map_of (Services options) k = Some service\<close> by blast
  then obtain u where u: "map_of (sn_Upstreams sn) (service_Upstream service) = Some u"
    using compileUpstreams_spec(1) [OF parts(1)] by (metis map_of_eq_None_iff not_None_eq)
  then obtain uo where uo: "map_of (Upstreams options) (service_Upstream service) = Some uo"
    "us_ID u = service_Upstream service" "us_Endpoints u = map makeEndpoint (upstream_Endpoints uo)"
    using compileUpstreams_spec(2) [OF parts(1)] by blast
  have "upstream_ok (Plugins options) uo" using well_formedD(3) [OF assms(2) uo(1)] .
  with sv u uo show ?thesis by (auto simp: ready_service_def upstream_ok_def)
qed

lemma compiled_route:
  assumes "Compile rc run serveProxy c options = (s, Inr sn)"
  shows "AddAll rc NewRouter (routesOf options) = Inr (sn_Router sn)"
    and "map_of (Routes options) k = Some route \<Longrightarrow> \<exists>handlers. map_of (sn_RouteHandlers sn) k =
      Some (sn_GlobalHandlers sn @ sn_ServerHandlers sn @ handlers
        @ [serviceHandler run (map_of (sn_Services sn) (route_Service route))])"
proof -
  obtain defs s3 where "compileRoutes rc run defs (Plugins options) (sn_GlobalHandlers sn) (sn_ServerHandlers sn)
      (sn_Services sn) (Routes options) NewRouter s3 = (s, Inr (sn_Router sn, sn_RouteHandlers sn))"
    using Compile_parts [OF assms] by blast
  from compileRoutes_spec [OF this]
  show "AddAll rc NewRouter (routesOf options) = Inr (sn_Router sn)"
    and "map_of (Routes options) k = Some route \<Longrightarrow> \<exists>handlers. map_of (sn_RouteHandlers sn) k =
      Some (sn_GlobalHandlers sn @ sn_ServerHandlers sn @ handlers
        @ [serviceHandler run (map_of (sn_Services sn) (route_Service route))])"
    unfolding routesOf_def by blast+
qed

lemma routesOf_lookup:
  assumes "distinct (map fst (Routes options))" and "route \<in> set (routesOf options)"
  shows "\<exists>ro. map_of (Routes options) (route_ID route) = Some ro \<and> route_Service route = route_Service ro"
  using assms by (auto simp: routesOf_def)

lemma serveRoute_chain:
  assumes "ready_service sn (route_Service route) sv u"
    and "map_of (sn_RouteHandlers sn) (route_ID route) = Some (h # hs)"
  shows "serveRoute run rawAbort sn route w =
    onCtx (\<lambda>p. p\<lparr>hpc_raw := rawAbort (hpc_raw p)\<rparr>)
      (run (h # hs) (w\<lparr>w_ctx := routeContext (route_ID route) (route_Service route) (us_ID u) (w_ctx w)\<rparr>))"
  using assms
  by (simp add: serveRoute_def ready_service_def Let_def map_get_def onCtx_def routeContext_def
      SetRouteID_def SetServiceID_def SetUpstreamID_def SetPhase_def)

lemma sample_route: "\<exists>r. Add noRegex NewRouter ((snd (hd (Routes sampleOptions)))\<lparr>route_ID := ''r1''\<rparr>) = Inr r
    \<and> length (fastRoutes r) = 1"
proof -
  have "(case Add noRegex NewRouter ((snd (hd (Routes sampleOptions)))\<lparr>route_ID := ''r1''\<rparr>) of
      Inl _ \<Rightarrow> False | Inr r \<Rightarrow> length (fastRoutes r) = 1)" by code_simp
  then show ?thesis by (auto split: sum.splits)
qed

lemma sample_compiles:
  "\<exists>s sn. Compile noRegex runAll echoProxy plainCompiler sampleOptions = (s, Inr sn)
     \<and> length (fastRoutes (sn_Router sn)) = 1"
proof -
  obtain r where r: "Add noRegex NewRouter ((snd (hd (Routes sampleOptions)))\<lparr>route_ID := ''r1''\<rparr>) = Inr r"
    "length (fastRoutes r) = 1" using sample_route by blast
  show ?thesis
    using r by (simp add: Compile_def compileWith_def plainCompiler_def NewRegistry_def buildPluginHandlers_def
        sample_defs defaultBalancerFactory_def defaultProxyFactory_def Let_def)
qed

section \<open>The properties\<close>

text \<open>
  A validated configuration that compiles is complete: the router has its routes under their
  ids, and every route has a chain of the global, the server's and the route's plugins, in this
  order, followed by the hand-over to its service, which exists, has its proxy and its upstream,
  and that upstream has at least one endpoint, all available and with an address.
\<close>

theorem Compile_complete:
  assumes "Compile rc run serveProxy c options = (s, Inr sn)" and "Validate options = None"
  shows "length (Servers options) = 1
    \<and> AddAll rc NewRouter (routesOf options) = Inr (sn_Router sn)
    \<and> (\<forall>k route. map_of (Routes options) k = Some route \<longrightarrow>
        (\<exists>handlers sv u. ready_service sn (route_Service route) sv u
          \<and> map_of (sn_RouteHandlers sn) k = Some (sn_GlobalHandlers sn @ sn_ServerHandlers sn @ handlers
              @ [serviceHandler run (Some sv)])))"
proof (intro conjI allI impI)
  have wf: "well_formed options" using assms(2) by (simp add: Validate_well_formed)
  show "length (Servers options) = 1"
    using Compile_parts [OF assms(1)] wf by (cases "Servers options") (auto simp: well_formed_def)
  show "AddAll rc NewRouter (routesOf options) = Inr (sn_Router sn)" by (rule compiled_route(1) [OF assms(1)])
  fix k route assume r: "map_of (Routes options) k = Some route"
  obtain sv u where "ready_service sn (route_Service route) sv u"
    using compiled_service_ready [OF assms(1) wf well_formedD(1) [OF wf r]] by blast
  moreover obtain handlers where "map_of (sn_RouteHandlers sn) k = Some (sn_GlobalHandlers sn @ sn_ServerHandlers sn
      @ handlers @ [serviceHandler run (map_of (sn_Services sn) (route_Service route))])"
    using compiled_route(2) [OF assms(1) r] by blast
  ultimately show "\<exists>handlers sv u. ready_service sn (route_Service route) sv u
      \<and> map_of (sn_RouteHandlers sn) k = Some (sn_GlobalHandlers sn @ sn_ServerHandlers sn @ handlers
          @ [serviceHandler run (Some sv)])"
    by (auto simp: ready_service_def)
qed

theorem Compile_complete_witness:
  "\<exists>s sn handlers sv u. Compile noRegex runAll echoProxy plainCompiler sampleOptions = (s, Inr sn)
     \<and> ready_service sn ''s1'' sv u
     \<and> map_of (sn_RouteHandlers sn) ''r1'' = Some (handlers @ [serviceHandler runAll (Some sv)])"
proof -
  obtain s sn where c: "Compile noRegex runAll echoProxy plainCompiler sampleOptions = (s, Inr sn)"
    using sample_compiles by blast
  have v: "Validate sampleOptions = None" by code_simp
  have "map_of (Routes sampleOptions) ''r1'' = Some (snd (hd (Routes sampleOptions)))"
    "route_Service (snd (hd (Routes sampleOptions))) = ''s1''" by (simp_all add: sample_defs)
  then obtain handlers sv u where "ready_service sn ''s1'' sv u"
    "map_of (sn_RouteHandlers sn) ''r1'' = Some (sn_GlobalHandlers sn @ sn_ServerHandlers sn @ handlers
       @ [serviceHandler runAll (Some sv)])"
    using Compile_complete [OF c v] by metis
  then show ?thesis using c by (metis append.assoc)
qed

text \<open>The chain of a configured route, and what serving it is.\<close>

lemma configured_chain:
  assumes compiled: "Compile rc run serveProxy c options = (s, Inr sn)" and wf: "well_formed options"
    and dist: "distinct (map fst (Routes options))" and route: "route \<in> set (routesOf options)"
  obtains sv u hs where "ready_service sn (route_Service route) sv u"
    and "map_of (sn_RouteHandlers sn) (route_ID route) = Some hs" and "last hs = serviceHandler run (Some sv)"
    and "\<And>w. serveRoute run rawAbort sn route w = onCtx (\<lambda>p. p\<lparr>hpc_raw := rawAbort (hpc_raw p)\<rparr>)
        (run hs (w\<lparr>w_ctx := routeContext (route_ID route) (route_Service route) (us_ID u) (w_ctx w)\<rparr>))"
proof -
  obtain ro where ro: "map_of (Routes options) (route_ID route) = Some ro" "route_Service route = route_Service ro"
    using routesOf_lookup [OF dist route] by blast
  obtain sv u where sv: "ready_service sn (route_Service route) sv u"
    using compiled_service_ready [OF compiled wf well_formedD(1) [OF wf ro(1)]] ro(2) by auto
  obtain handlers where hs: "map_of (sn_RouteHandlers sn) (route_ID route) = Some ((sn_GlobalHandlers sn
      @ sn_ServerHandlers sn @ handlers) @ [serviceHandler run (Some sv)])"
    using compiled_route(2) [OF compiled ro(1)] sv ro(2) by (auto simp: ready_service_def)
  let ?hs = "(sn_GlobalHandlers sn @ sn_ServerHandlers sn @ handlers) @ [serviceHandler run (Some sv)]"
  obtain h hs' where hh: "?hs = h # hs'" by (cases "sn_GlobalHandlers sn @ sn_ServerHandlers sn @ handlers") auto
  show ?thesis
  proof (rule that [OF sv hs])
    show "last ?hs = serviceHandler run (Some sv)" by simp
    show "serveRoute run rawAbort sn route w = onCtx (\<lambda>p. p\<lparr>hpc_raw := rawAbort (hpc_raw p)\<rparr>)
        (run ?hs (w\<lparr>w_ctx := routeContext (route_ID route) (route_Service route) (us_ID u) (w_ctx w)\<rparr>))" for w
      unfolding hh by (rule serveRoute_chain [OF sv]) (simp only: hs hh)
  qed
qed

text \<open>
  C2. The request path end to end. The snapshot was compiled from a validated configuration whose routes are within the bounds of the
  router and have no empty method names. Let a request be one that the admin handler, if there is one, declines and that is not for
  \<^verbatim>\<open>/metrics\<close>. If no configured route accepts it, it is answered 404 as unmatched; otherwise the chain of an accepting
  route of highest rank runs, which ends in the ready service of the route, in a context that names the route, its service and
  its upstream, and the answer is what the chain leaves. Either way the request is observed once, under the status it was
  answered with.
\<close>

theorem gateway_serves_best_route:
  assumes "Compile rc run serveProxy c options = (s, Inr sn)" and "Validate options = None"
    and "distinct (map fst (Routes options))"
    and "\<forall>route\<in>set (routesOf options). route_bounded route"
    and "\<forall>route\<in>set (routesOf options). methods_nonempty route"
    and "int (length (fastRoutes (sn_Router sn))) < 2 ^ 62"
    and "(case admin of None \<Rightarrow> (w0, False) | Some h \<Rightarrow> h w0) = (w, False)" and "rq_Path (w_request w) \<noteq> ''/metrics''"
  shows "(\<forall>route\<in>set (routesOf options). \<not> accepts rc (rq_Method (w_request w)) (rq_Host (w_request w)) (rq_Path (w_request w)) route)
      \<and> gatewayServeHTTP run rawAbort admin metricsText (Some sn) w0
          = observeRequest ''unmatched'' '''' (w_clock w0) (SetStatusCode 404 w)
   \<or> (\<exists>route sv u hs. route \<in> set (routesOf options)
      \<and> accepts rc (rq_Method (w_request w)) (rq_Host (w_request w)) (rq_Path (w_request w)) route
      \<and> (\<forall>route'\<in>set (routesOf options).
            accepts rc (rq_Method (w_request w)) (rq_Host (w_request w)) (rq_Path (w_request w)) route' \<longrightarrow>
            routeRank rc (rq_Path (w_request w)) route' \<le> routeRank rc (rq_Path (w_request w)) route)
      \<and> ready_service sn (route_Service route) sv u
      \<and> map_of (sn_RouteHandlers sn) (route_ID route) = Some hs \<and> last hs = serviceHandler run (Some sv)
      \<and> gatewayServeHTTP run rawAbort admin metricsText (Some sn) w0
          = observeRequest ''proxy'' (route_ID route) (w_clock w0)
              (onCtx (\<lambda>p. p\<lparr>hpc_raw := rawAbort (hpc_raw p)\<rparr>)
                (run hs (w\<lparr>w_ctx := routeContext (route_ID route) (route_Service route) (us_ID u) (w_ctx w)\<rparr>))))"
proof -
  let ?m = "rq_Method (w_request w)" and ?h = "rq_Host (w_request w)" and ?p = "rq_Path (w_request w)"
  have wf: "well_formed options" using assms(2) by (simp add: Validate_well_formed)
  note spec = built_router_spec [OF compiled_route(1) [OF assms(1)] assms(4-6)]
  show ?thesis
  proof (cases "Match (sn_Router sn) ?m ?h ?p")
    case None
    then have "gatewayServeHTTP run rawAbort admin metricsText (Some sn) w0
        = observeRequest ''unmatched'' [] (w_clock w0) (SetStatusCode 404 w)"
      using assms(7,8) by (simp add: gatewayServeHTTP_def Let_def)
    with iffD1 [OF spec(1) None] show ?thesis by (intro disjI1 conjI)
  next
    case (Some route)
    note best = spec(2) [OF Some]
    obtain sv u hs where chain: "ready_service sn (route_Service route) sv u"
      "map_of (sn_RouteHandlers sn) (route_ID route) = Some hs" "last hs = serviceHandler run (Some sv)"
      "\<And>w. serveRoute run rawAbort sn route w = onCtx (\<lambda>p. p\<lparr>hpc_raw := rawAbort (hpc_raw p)\<rparr>)
        (run hs (w\<lparr>w_ctx := routeContext (route_ID route) (route_Service route) (us_ID u) (w_ctx w)\<rparr>))"
      using configured_chain [OF assms(1) wf assms(3) conjunct1 [OF best], where rawAbort = rawAbort] by blast
    have out: "gatewayServeHTTP run rawAbort admin metricsText (Some sn) w0
        = observeRequest ''proxy'' (route_ID route) (w_clock w0) (onCtx (\<lambda>p. p\<lparr>hpc_raw := rawAbort (hpc_raw p)\<rparr>)
            (run hs (w\<lparr>w_ctx := routeContext (route_ID route) (route_Service route) (us_ID u) (w_ctx w)\<rparr>)))"
      using assms(7,8) Some by (simp add: gatewayServeHTTP_def Let_def chain(4))
    show ?thesis
      by (rule disjI2, rule exI [of _ route], rule exI [of _ sv], rule exI [of _ u], rule exI [of _ hs])
        (intro conjI conjunct1 [OF best] conjunct1 [OF conjunct2 [OF best]] conjunct2 [OF conjunct2 [OF best]] chain(1-3) out)
  qed
qed

theorem gateway_serves_best_route_witness:
  "\<exists>s sn (route :: RouteOptions) sv u hs. Compile noRegex runAll echoProxy plainCompiler sampleOptions = (s, Inr sn)
     \<and> route_ID route = ''r1'' \<and> ready_service sn (route_Service route) sv u
     \<and> gatewayServeHTTP runAll (\<lambda>_. ()) (Some (\<lambda>w. (w, False))) (\<lambda>_. []) (Some sn) apiWorld
        = observeRequest ''proxy'' ''r1'' 0 (onCtx (\<lambda>p. p\<lparr>hpc_raw := ()\<rparr>)
            (runAll hs (apiWorld\<lparr>w_ctx := routeContext ''r1'' (route_Service route) (us_ID u) (w_ctx apiWorld)\<rparr>)))"
proof -
  obtain s sn where c: "Compile noRegex runAll echoProxy plainCompiler sampleOptions = (s, Inr sn)"
    and small: "length (fastRoutes (sn_Router sn)) = 1"
    using sample_compiles by blast
  have v: "Validate sampleOptions = None" by code_simp
  let ?route = "(snd (hd (Routes sampleOptions)))\<lparr>route_ID := ''r1''\<rparr>"
  have rts: "routesOf sampleOptions = [?route]" by (simp add: routesOf_def sample_defs)
  have ok: "route_bounded ?route" "methods_nonempty ?route"
    by (simp_all add: sample_defs route_bounded_def methods_nonempty_def)
  have w: "rq_Method (w_request apiWorld) = ''GET''" "rq_Host (w_request apiWorld) = ''api.local''"
    "rq_Path (w_request apiWorld) = ''/api/x''" "w_clock apiWorld = 0"
    by (simp_all add: apiWorld_def plainWorld_def plainRequest_def)
  have "matchMethod (route_Methods ?route) (ToUpper ''GET'')" "matchHost (route_Hosts ?route) ''api.local''"
    "case compilePath noRegex ''/api'' of Inl _ \<Rightarrow> False | Inr cp \<Rightarrow> pathMatches cp ''/api/x''" by code_simp+
  then have acc: "accepts noRegex ''GET'' ''api.local'' ''/api/x'' ?route"
    by (auto simp: accepts_def sample_defs split: sum.splits)
  have small': "int (length (fastRoutes (sn_Router sn))) < 2 ^ 62" using small by simp
  have dist: "distinct (map fst (Routes sampleOptions))" by (simp add: sample_defs)
  have bounds: "\<forall>route\<in>set (routesOf sampleOptions). route_bounded route"
    "\<forall>route\<in>set (routesOf sampleOptions). methods_nonempty route" using ok by (simp_all add: rts)
  have path: "rq_Path (w_request apiWorld) \<noteq> ''/metrics''" using w by simp
  have "\<not> (\<forall>route\<in>set (routesOf sampleOptions). \<not> accepts noRegex (rq_Method (w_request apiWorld))
      (rq_Host (w_request apiWorld)) (rq_Path (w_request apiWorld)) route)"
    using acc by (simp add: rts w)
  with gateway_serves_best_route [where admin = "Some (\<lambda>w. (w, False))", unfolded option.case, OF c v dist bounds small' refl path,
      of "\<lambda>_. ()" "\<lambda>_. []"] obtain route sv u hs where
    "route \<in> set (routesOf sampleOptions)" "ready_service sn (route_Service route) sv u"
    "gatewayServeHTTP runAll (\<lambda>_. ()) (Some (\<lambda>w. (w, False))) (\<lambda>_. []) (Some sn) apiWorld
        = observeRequest ''proxy'' (route_ID route) (w_clock apiWorld) (onCtx (\<lambda>p. p\<lparr>hpc_raw := ()\<rparr>)
            (runAll hs (apiWorld\<lparr>w_ctx := routeContext (route_ID route) (route_Service route) (us_ID u) (w_ctx apiWorld)\<rparr>)))"
    by blast
  moreover from this(1) have "route = ?route" by (simp add: rts)
  ultimately show ?thesis
    using c w(4) by (intro exI [of _ s] exI [of _ sn] exI [of _ ?route] exI [of _ sv] exI [of _ u] exI [of _ hs]) simp
qed

text \<open>
  C18. The last handler of a service: with a balancer below its signed limit it answers 503 exactly
  when no endpoint is available, calling no proxy; otherwise it calls the proxy once, with the
  first available endpoint in turn as the target, and answers 504 after a timeout, 502 after any
  other error, and what the proxy left in the response when there is none.
\<close>

theorem upstreamHandler_outcome:
  assumes "map_of (w_balancers w) (us_ID u) = Some b" and "unat (rr_next b) < 2 ^ 63"
  shows "if \<forall>e\<in>set (rr_endpoints b). \<not> IsAvailable e
    then rp_Status (w_response (upstreamHandler serveProxy p service u w)) = 503
       \<and> w_ctx (upstreamHandler serveProxy p service u w) = w_ctx w
    else \<exists>e w1 w2 err. e \<in> set (rr_endpoints b) \<and> IsAvailable e
       \<and> pick_spec (rr_endpoints b) (unat (rr_next b)) = Picked e
       \<and> hpc_endpointAddress (w_ctx w1) = Address e \<and> w_request w1 = w_request w \<and> w_response w1 = w_response w
       \<and> serveProxy p (resolveTarget service (us_Options u) e (rq_Host (w_request w))) w1 = (w2, err)
       \<and> rp_Status (w_response (upstreamHandler serveProxy p service u w)) =
           (case err of None \<Rightarrow> rp_Status (w_response w2) | Some ErrTimeout \<Rightarrow> 504 | Some _ \<Rightarrow> 502)
       \<and> hpc_phase (w_ctx (upstreamHandler serveProxy p service u w)) = ''response''"
proof -
  have ready: "rr_ready b" using assms(2) by (simp add: rr_ready_iff)
  have get: "map_get (New []) (w_balancers w) (us_ID u) = b" using assms(1) by (simp add: map_get_def)
  obtain b' r where pick: "Pick b = (b', r)" by (cases "Pick b")
  note spec = Pick_rotate [OF ready] and unavail = rr.pick_unavailable_iff [OF ready]
  show ?thesis
  proof (cases r)
    case ErrNotAvailable
    with unavail pick have "\<forall>e\<in>set (rr_endpoints b). \<not> IsAvailable e" by simp
    then show ?thesis using ErrNotAvailable pick by (simp add: upstreamHandler_def get)
  next
    case PickPanic
    then show ?thesis using rr.pick_no_panic [OF ready] pick by simp
  next
    case (Picked e)
    then have e: "e \<in> set (rr_endpoints b)" "IsAvailable e" using rr.pick_sound [OF ready] pick by auto
    let ?t = "resolveTarget service (us_Options u) e (rq_Host (w_request w))"
    let ?w1 = "onCtx (SetPhase ''proxy'') (onCtx (SetUpstreamHost (tg_Host ?t)) (onCtx (SetEndpointAddress (Address e))
        (w\<lparr>w_balancers := map_put (us_ID u) b' (w_balancers w)\<rparr>)))"
    obtain w2 err where sp: "serveProxy p ?t ?w1 = (w2, err)" by (cases "serveProxy p ?t ?w1")
    have out: "rp_Status (w_response (upstreamHandler serveProxy p service u w)) =
          (case err of None \<Rightarrow> rp_Status (w_response w2) | Some ErrTimeout \<Rightarrow> 504 | Some _ \<Rightarrow> 502)"
      "hpc_phase (w_ctx (upstreamHandler serveProxy p service u w)) = ''response''"
      using sp by (simp_all add: upstreamHandler_def get pick Picked Let_def SetPhase_def split: option.split proxy_error.split)
    have "pick_spec (rr_endpoints b) (unat (rr_next b)) = Picked e" using spec pick Picked by simp
    moreover have "hpc_endpointAddress (w_ctx ?w1) = Address e" "w_request ?w1 = w_request w" "w_response ?w1 = w_response w"
      by (simp_all add: SetPhase_def SetUpstreamHost_def SetEndpointAddress_def)
    moreover have "\<not> (\<forall>e\<in>set (rr_endpoints b). \<not> IsAvailable e)" using e by blast
    ultimately show ?thesis using e sp out by (simp only: if_False) blast
  qed
qed

theorem upstreamHandler_outcome_witness:
  "rp_Status (w_response (upstreamHandler echoProxy () (snd (hd (Services sampleOptions)))
      \<lparr>us_ID = ''u1'', us_Options = sampleUpstream, us_Handlers = [], us_Endpoints = []\<rparr>
      (plainWorld\<lparr>w_balancers := [(''u1'', New [ep ''a'' False])]\<rparr>))) = 503"
  using upstreamHandler_outcome [of "plainWorld\<lparr>w_balancers := [(''u1'', New [ep ''a'' False])]\<rparr>"
      "\<lparr>us_ID = ''u1'', us_Options = sampleUpstream, us_Handlers = [], us_Endpoints = []\<rparr>" "New [ep ''a'' False]"
      echoProxy "()" "snd (hd (Services sampleOptions))"]
  by (simp add: New_def Update_def ep_def IsAvailable_def)

text \<open>
  An endpoint of a validated upstream gives the proxy a usable target, provided the upstream has
  a scheme or the service's protocol is http, https or empty.
\<close>

theorem resolveTarget_usable:
  assumes "upstream_ok plugins o'" and "Address e \<noteq> []"
    and "upstream_Scheme o' \<noteq> [] \<or> service_Protocol service \<in> {'''', ''http'', ''https''}"
    and "valid (rq_Method rq) (tg_Scheme (resolveTarget service o' e host), Address e, rq_Path rq, rq_Query rq)"
  shows "\<exists>req. newUpstreamRequest valid rq (resolveTarget service o' e host) = Inr req
     \<and> uq_Address req = Address e \<and> uq_Scheme req = tg_Scheme (resolveTarget service o' e host)"
proof -
  let ?t = "resolveTarget service o' e host"
  have "tg_Scheme ?t = ''http'' \<or> tg_Scheme ?t = ''https''"
    using assms(1,3) by (auto simp: resolveTarget_def upstream_ok_def Let_def)
  moreover have "tg_Address ?t = Address e" by (simp add: resolveTarget_def Let_def)
  ultimately show ?thesis
    using assms(2,4) by (cases "requestBody rq") (auto simp: newUpstreamRequest_def Let_def)
qed

theorem resolveTarget_usable_witness:
  "\<exists>req. newUpstreamRequest (\<lambda>_ _. True) plainRequest
      (resolveTarget (snd (hd (Services sampleOptions))) sampleUpstream (ep ''127.0.0.1:80'' True) ''h'') = Inr req
    \<and> uq_Address req = ''127.0.0.1:80''"
proof -
  have "upstream_ok [] sampleUpstream" by (simp add: upstream_ok_def sample_defs refs_ok_def)
  then show ?thesis
    using resolveTarget_usable [of "[]" sampleUpstream "ep ''127.0.0.1:80'' True"
        "snd (hd (Services sampleOptions))" "\<lambda>_ _. True" plainRequest "''h''"]
    by (auto simp: sample_defs Address_def ep_def)
qed

end
