(* ===== verification/Bootstrap.thy ===== *)
theory Bootstrap
  imports Go_Prelude
begin

text \<open>
  The bootstrap options of the binaries (\<^verbatim>\<open>internal/bootstrap/bootstrap.go\<close>): where to listen, which source
  configures the gateway, and how to reach it. Reading the file and the YAML decoder are parameters of
  \<^verbatim>\<open>Load\<close>; a duration counts nanoseconds.
\<close>

record GatewayOptions =
  go_Listen :: string
  go_Source :: string

record AdminOptions =
  ad_Key :: string

record EtcdOptions =
  eo_Prefix :: string
  eo_Username :: string
  eo_Password :: string
  eo_Endpoints :: "string list"
  eo_DialTimeout :: int

record FileOptions =
  fo_Path :: string

record BootOptions =
  bo_Gateway :: GatewayOptions
  bo_Admin :: AdminOptions
  bo_Etcd :: EtcdOptions
  bo_File :: FileOptions

datatype boot_error =
    ListenMissing
  | FilePathMissing
  | EndpointsMissing
  | PrefixMissing
  | SourceUnsupported string
  | BootUnreadable
  | BootUndecodable

definition orElse :: "string \<Rightarrow> string \<Rightarrow> string" where
  "orElse s d = (if s = [] then d else s)"

definition applyDefaults :: "BootOptions \<Rightarrow> BootOptions" where
  "applyDefaults b =
     \<lparr>bo_Gateway = \<lparr>go_Listen = orElse (go_Listen (bo_Gateway b)) '':18080'', go_Source = orElse (go_Source (bo_Gateway b)) ''file''\<rparr>,
      bo_Admin = \<lparr>ad_Key = orElse (ad_Key (bo_Admin b)) ''local-dev-admin-key''\<rparr>,
      bo_Etcd = (bo_Etcd b)\<lparr>eo_Prefix := orElse (eo_Prefix (bo_Etcd b)) ''/apisix'',
                           eo_DialTimeout := if eo_DialTimeout (bo_Etcd b) = 0 then 3 * 1000000000 else eo_DialTimeout (bo_Etcd b)\<rparr>,
      bo_File = \<lparr>fo_Path = orElse (fo_Path (bo_File b)) ''configs/lumen.yaml''\<rparr>\<rparr>"

definition BootValidate :: "BootOptions \<Rightarrow> boot_error option" where
  "BootValidate b =
     (if go_Listen (bo_Gateway b) = [] then Some ListenMissing
      else if go_Source (bo_Gateway b) = ''file'' then
        (if fo_Path (bo_File b) = [] then Some FilePathMissing else None)
      else if go_Source (bo_Gateway b) = ''etcd_apisix'' then
        (if eo_Endpoints (bo_Etcd b) = [] then Some EndpointsMissing
         else if eo_Prefix (bo_Etcd b) = [] then Some PrefixMissing
         else None)
      else Some (SourceUnsupported (go_Source (bo_Gateway b))))"

definition BootLoad :: "(string \<Rightarrow> 'data option) \<Rightarrow> ('data \<Rightarrow> BootOptions option) \<Rightarrow> string \<Rightarrow> boot_error + BootOptions" where
  "BootLoad readFile unmarshal path =
     (case readFile path of
        None \<Rightarrow> Inl BootUnreadable
      | Some data \<Rightarrow>
          (case unmarshal data of
             None \<Rightarrow> Inl BootUndecodable
           | Some options0 \<Rightarrow>
               (let options = applyDefaults options0 in
                case BootValidate options of
                  Some e \<Rightarrow> Inl e
                | None \<Rightarrow> Inr options)))"

section \<open>Facts\<close>

lemma orElse_nonempty [simp]: "d \<noteq> [] \<Longrightarrow> orElse s d \<noteq> []"
  by (simp add: orElse_def)

lemma orElse_orElse [simp]: "orElse (orElse s d) d = orElse s d"
  by (simp add: orElse_def)

lemma applyDefaults_idem: "applyDefaults (applyDefaults b) = applyDefaults b"
  by (simp add: applyDefaults_def)

text \<open>After the defaults only an unknown source and an etcd source without endpoints are refused.\<close>

lemma BootValidate_defaults:
  "BootValidate (applyDefaults b) =
     (if go_Source (bo_Gateway b) \<in> {[], ''file''} then None
      else if go_Source (bo_Gateway b) = ''etcd_apisix'' then (if eo_Endpoints (bo_Etcd b) = [] then Some EndpointsMissing else None)
      else Some (SourceUnsupported (go_Source (bo_Gateway b))))"
  by (simp add: BootValidate_def applyDefaults_def) (simp add: orElse_def)

end
