(* ===== verification/Json.thy ===== *)
theory Json
  imports Go_Prelude
begin

text \<open>
  JSON documents as the control plane and the translation see them, and what they use of Go's
  \<^verbatim>\<open>encoding/json\<close>, \<^verbatim>\<open>reflect\<close>, \<^verbatim>\<open>fmt\<close> and \<^verbatim>\<open>strconv\<close>.

  \<^item> A document is the value it denotes, of type \<^typ>\<open>any\<close> without the constructor \<^const>\<open>AInt\<close>:
    decoding into \<^verbatim>\<open>any\<close> yields the document itself and \<open>jsonify\<close> is
    \<^verbatim>\<open>json.Marshal\<close>, which writes an integer as the number that decodes to a
    \<^verbatim>\<open>float64\<close>. A \<^verbatim>\<open>float64\<close> is a rational and a number is written the way
    \<^verbatim>\<open>json.Marshal\<close> writes it, without an exponent (\<open>numText\<close>).
  \<^item> A raw message, \<^verbatim>\<open>json.RawMessage\<close> or a request body, is an optional document:
    \<^term>\<open>None\<close> is the empty message or one that is not JSON, both of which
    \<^verbatim>\<open>json.Unmarshal\<close> refuses.
  \<^item> The decoders into Go types return \<^term>\<open>None\<close> where \<^verbatim>\<open>json.Unmarshal\<close> reports a type
    error. A struct field takes the last member whose name equals the field's up to case (\<open>jsonField\<close>). Where several
    members match one field of struct or pointer type, which takes names that differ in case only, Go merges them
    into one value; that is not modelled.
  \<^item> Numbers are exact: the loss of digits when a decimal, or an integer beyond \<open>2\<^sup>5\<^sup>3\<close>, is read into a
    \<^verbatim>\<open>float64\<close> is not modelled. Strings are taken to be valid UTF-8, for which encoding and decoding are inverse;
    \<^verbatim>\<open>json.Marshal\<close> replaces other bytes by U+FFFD.
\<close>

type_synonym RawMessage = "any option"

section \<open>Numbers\<close>

text \<open>The digits of the fraction \<open>n / d\<close>, by long division; 400 digits are more than any \<^verbatim>\<open>float64\<close> has
  between \<open>10\<^sup>-\<^sup>4\<close> and \<open>1\<close>.\<close>

fun fracDigits :: "nat \<Rightarrow> int \<Rightarrow> int \<Rightarrow> string" where
  "fracDigits 0 n d = []"
| "fracDigits (Suc fuel) n d =
     (if n = 0 then [] else char_of (48 + nat (10 * n div d)) # fracDigits fuel (10 * n mod d) d)"

definition numText :: "rat \<Rightarrow> string" where
  "numText r =
     (let (n, d) = quotient_of \<bar>r\<bar>;
          whole = (if r < 0 then ''-'' else []) @ decimal (nat (n div d))
      in if d = 1 then whole else whole @ ''.'' @ fracDigits 400 (n mod d) d)"

definition digits :: "string \<Rightarrow> bool" where
  "digits s \<longleftrightarrow> s \<noteq> [] \<and> (\<forall>c\<in>set s. CHR ''0'' \<le> c \<and> c \<le> CHR ''9'')"

fun digitsValue :: "nat \<Rightarrow> string \<Rightarrow> nat" where
  "digitsValue acc [] = acc"
| "digitsValue acc (c # s) = digitsValue (10 * acc + (of_char c - 48)) s"

text \<open>A JSON number without exponent: an optional sign, digits without superfluous zeros, an optional
  fraction.\<close>

definition parseFloat :: "string \<Rightarrow> rat option" where
  "parseFloat text =
     (let neg = HasPrefix text ''-'';
          s = (if neg then drop 1 text else text);
          (whole, frac) = (case Cut s CHR ''.'' of None \<Rightarrow> (s, None) | Some (w, f) \<Rightarrow> (w, Some f));
          ok = digits whole \<and> (length whole > 1 \<longrightarrow> hd whole \<noteq> CHR ''0'')
                 \<and> (case frac of None \<Rightarrow> True | Some f \<Rightarrow> digits f);
          value = of_nat (digitsValue 0 whole)
            + (case frac of None \<Rightarrow> 0 | Some f \<Rightarrow> of_nat (digitsValue 0 f) / 10 ^ length f)
      in if ok then Some (if neg then - value else value) else None)"

text \<open>The conversion of a \<^verbatim>\<open>float64\<close> to \<^verbatim>\<open>int64\<close> cuts the fraction off; outside the range of
  \<^verbatim>\<open>int64\<close> it gives the least \<^verbatim>\<open>int64\<close>, as amd64 does.\<close>

definition int64_of :: "rat \<Rightarrow> int" where
  "int64_of r =
     (let i = (if r < 0 then - \<lfloor>- r\<rfloor> else \<lfloor>r\<rfloor>)
      in if - (2 ^ 63) \<le> i \<and> i < 2 ^ 63 then i else - (2 ^ 63))"

definition isInt :: "rat \<Rightarrow> bool" where
  "isInt r \<longleftrightarrow> of_int \<lfloor>r\<rfloor> = r"

section \<open>Documents\<close>

primrec jsonify :: "any \<Rightarrow> any" where
  "jsonify ANil = ANil"
| "jsonify (ABool b) = ABool b"
| "jsonify (AInt i) = AFloat (of_int i)"
| "jsonify (AFloat r) = AFloat r"
| "jsonify (AString s) = AString s"
| "jsonify (AList xs) = AList (map jsonify xs)"
| "jsonify (AMap m) = AMap (map (map_prod id jsonify) m)"

text \<open>A document: no integers, and the members of an object have distinct names.\<close>

primrec document :: "any \<Rightarrow> bool" where
  "document ANil \<longleftrightarrow> True"
| "document (ABool b) \<longleftrightarrow> True"
| "document (AInt i) \<longleftrightarrow> False"
| "document (AFloat r) \<longleftrightarrow> True"
| "document (AString s) \<longleftrightarrow> True"
| "document (AList xs) \<longleftrightarrow> list_all document xs"
| "document (AMap m) \<longleftrightarrow> distinct (map fst m) \<and> list_all snd (map (map_prod id document) m)"

text \<open>\<^verbatim>\<open>reflect.DeepEqual\<close> on decoded values: maps are compared without regard to order.\<close>

function (sequential) DeepEqual :: "any \<Rightarrow> any \<Rightarrow> bool" where
  "DeepEqual (AList xs) (AList ys) \<longleftrightarrow>
     length xs = length ys \<and> (\<forall>(x, y)\<in>set (zip xs ys). DeepEqual x y)"
| "DeepEqual (AMap m) (AMap n) \<longleftrightarrow>
     length m = length n
     \<and> (\<forall>(k, v)\<in>set m. case map_of n k of None \<Rightarrow> False | Some w \<Rightarrow> DeepEqual v w)"
| "DeepEqual a b \<longleftrightarrow> a = b"
  by pat_completeness auto

termination DeepEqual
proof (relation "measure (\<lambda>(a, b). size a)", goal_cases)
  case (2 xs ys p x y)
  then have "x \<in> set xs" by (auto dest: set_zip_leftD)
  then show ?case by (simp add: size_list_estimation' less_Suc_eq_le)
next
  case (3 m n p k v w)
  then have "(k, v) \<in> set m" by auto
  then show ?case by (auto simp: less_Suc_eq_le intro: size_list_estimation' [where x = "(k, v)"])
qed simp

text \<open>\<^verbatim>\<open>fmt.Sprint\<close>; the keys of a map are printed in order.\<close>

primrec Sprint :: "any \<Rightarrow> string" where
  "Sprint ANil = ''<nil>''"
| "Sprint (ABool b) = (if b then ''true'' else ''false'')"
| "Sprint (AInt i) = Itoa i"
| "Sprint (AFloat r) = numText r"
| "Sprint (AString s) = s"
| "Sprint (AList xs) = ''['' @ Join (map Sprint xs) '' '' @ '']''"
| "Sprint (AMap m) =
     ''map['' @ Join (map (\<lambda>(k, s). k @ '':'' @ s) (sort_key fst (map (map_prod id Sprint) m))) '' '' @ '']''"

section \<open>Decoding\<close>

text \<open>Into \<^verbatim>\<open>map[string]any\<close>; \<^verbatim>\<open>null\<close> leaves the nil map.\<close>

definition decodeMap :: "RawMessage \<Rightarrow> (string \<times> any) list option" where
  "decodeMap raw =
     (case raw of Some (AMap m) \<Rightarrow> Some m | Some ANil \<Rightarrow> Some [] | _ \<Rightarrow> None)"

text \<open>The member that a struct field takes: the last one, names being compared without regard to case.\<close>

definition jsonField :: "string \<Rightarrow> (string \<times> any) list \<Rightarrow> any option" where
  "jsonField name m = (case filter (\<lambda>(k, v). EqualFold k name) m of [] \<Rightarrow> None | kvs \<Rightarrow> Some (snd (last kvs)))"

text \<open>The decoders of a field, with the zero value for an absent member and for \<^verbatim>\<open>null\<close>.\<close>

definition asString :: "any option \<Rightarrow> string option" where
  "asString v = (case v of None \<Rightarrow> Some [] | Some ANil \<Rightarrow> Some [] | Some (AString s) \<Rightarrow> Some s | _ \<Rightarrow> None)"

definition asBool :: "any option \<Rightarrow> bool option" where
  "asBool v = (case v of None \<Rightarrow> Some False | Some ANil \<Rightarrow> Some False | Some (ABool b) \<Rightarrow> Some b | _ \<Rightarrow> None)"

definition asInt :: "any option \<Rightarrow> int option" where
  "asInt v =
     (case v of None \<Rightarrow> Some 0 | Some ANil \<Rightarrow> Some 0
      | Some (AFloat r) \<Rightarrow> (if isInt r \<and> - (2 ^ 63) \<le> r \<and> r < 2 ^ 63 then Some \<lfloor>r\<rfloor> else None) | _ \<Rightarrow> None)"

definition asUint32 :: "any option \<Rightarrow> int option" where
  "asUint32 v =
     (case v of None \<Rightarrow> Some 0 | Some ANil \<Rightarrow> Some 0
      | Some (AFloat r) \<Rightarrow> (if isInt r \<and> 0 \<le> r \<and> r < 2 ^ 32 then Some \<lfloor>r\<rfloor> else None) | _ \<Rightarrow> None)"

text \<open>A slice or a map of values that are all decoded.\<close>

fun decodeAll :: "('a \<Rightarrow> 'b option) \<Rightarrow> 'a list \<Rightarrow> 'b list option" where
  "decodeAll f [] = Some []"
| "decodeAll f (x # xs) =
     (case f x of None \<Rightarrow> None | Some y \<Rightarrow> map_option ((#) y) (decodeAll f xs))"

definition asStrings :: "any option \<Rightarrow> string list option" where
  "asStrings v =
     (case v of None \<Rightarrow> Some [] | Some ANil \<Rightarrow> Some []
      | Some (AList xs) \<Rightarrow> decodeAll (\<lambda>x. asString (Some x)) xs | _ \<Rightarrow> None)"

definition asMapOf :: "(any option \<Rightarrow> 'b option) \<Rightarrow> any option \<Rightarrow> (string \<times> 'b) list option" where
  "asMapOf f v =
     (case v of None \<Rightarrow> Some [] | Some ANil \<Rightarrow> Some []
      | Some (AMap m) \<Rightarrow> decodeAll (\<lambda>(k, x). map_option (Pair k) (f (Some x))) m | _ \<Rightarrow> None)"

text \<open>A \<^verbatim>\<open>json.Number\<close> is its text; a string is accepted when it is a number.\<close>

definition asNumber :: "any option \<Rightarrow> string option" where
  "asNumber v =
     (case v of None \<Rightarrow> Some [] | Some ANil \<Rightarrow> Some []
      | Some (AFloat r) \<Rightarrow> Some (numText r)
      | Some (AString s) \<Rightarrow> (if parseFloat s \<noteq> None then Some s else None) | _ \<Rightarrow> None)"

section \<open>Facts\<close>

lemma document_AMap [simp]:
  "document (AMap m) \<longleftrightarrow> distinct (map fst m) \<and> (\<forall>(k, v)\<in>set m. document v)"
  by (auto simp: list_all_iff)

declare document.simps(7) [simp del]

lemma DeepEqual_refl: "document v \<Longrightarrow> DeepEqual v v"
proof (induction v)
  case (AList xs)
  then show ?case by (auto simp: list_all_iff set_zip)
next
  case (AMap m)
  then show ?case by (force simp: map_of_is_SomeI)
qed auto

lemma jsonify_document [simp]: "document v \<Longrightarrow> jsonify v = v"
proof (induction v)
  case (AList xs)
  then show ?case by (auto simp: list_all_iff intro!: map_idI)
next
  case (AMap m)
  then show ?case by (auto intro!: map_idI)
qed auto

lemma jsonify_idem [simp]: "jsonify (jsonify v) = jsonify v"
  by (induction v) auto

lemma decodeAll_length: "decodeAll f xs = Some ys \<Longrightarrow> length ys = length xs"
  by (induction xs arbitrary: ys) (auto split: option.splits)

lemma decodeAll_nth:
  "decodeAll f xs = Some ys \<Longrightarrow> i < length xs \<Longrightarrow> f (xs ! i) = Some (ys ! i)"
  by (induction xs arbitrary: ys i) (auto simp: nth_Cons split: option.splits nat.splits)

lemma jsonField_Cons: "jsonField name ((k, v) # m) = (case jsonField name m of Some w \<Rightarrow> Some w | None \<Rightarrow> if EqualFold k name then Some v else None)"
  by (auto simp: jsonField_def split: list.splits)

lemma jsonField_Nil [simp]: "jsonField name [] = None"
  by (simp add: jsonField_def)

lemma jsonField_append: "jsonField name (m @ n) = (case jsonField name n of Some w \<Rightarrow> Some w | None \<Rightarrow> jsonField name m)"
  by (induction m) (auto simp: jsonField_Cons split: option.splits)

end
