(* ===== verification/Apisix.thy ===== *)
theory Apisix
  imports Json "HOL-Library.Monad_Syntax"
begin

text \<open>
  The APISIX resource model, \<^verbatim>\<open>internal/apisix\<close>: identifiers, the resource structs with their
  JSON decoding, the decoding of an etcd value that may be wrapped, and the snapshot of all
  resources. \<^term>\<open>None\<close> as the result of a decoder is the error of \<^verbatim>\<open>json.Unmarshal\<close>.
\<close>

section \<open>Identifiers\<close>

type_synonym ID = string

definition UnmarshalID :: "any option \<Rightarrow> ID option" where
  "UnmarshalID v =
     (case v of
        None \<Rightarrow> Some []
      | Some ANil \<Rightarrow> Some []
      | Some (AString s) \<Rightarrow> Some s
      | Some (AFloat n) \<Rightarrow>
          if isInt n \<and> - (2 ^ 63) \<le> n \<and> n < 2 ^ 63 then Some (Itoa \<lfloor>n\<rfloor>) else Some (numText n)
      | _ \<Rightarrow> None)"

section \<open>Resources\<close>

record UpstreamTimeout =
  ut_Connect :: string
  ut_Send :: string
  ut_Read :: string

record ApisixUpstream =
  au_ID :: ID
  au_Type :: string
  au_Scheme :: string
  au_PassHost :: string
  au_UpstreamHost :: string
  au_Timeout :: "UpstreamTimeout option"
  au_Nodes :: RawMessage

record ApisixService =
  as_ID :: ID
  as_UpstreamID :: ID
  as_PluginConfigID :: ID
  as_Upstream :: "ApisixUpstream option"
  as_Plugins :: RawMessage

record ApisixRoute =
  ar_Upstream :: "ApisixUpstream option"
  ar_ID :: ID
  ar_URI :: string
  ar_ServiceID :: ID
  ar_UpstreamID :: ID
  ar_PluginConfigID :: ID
  ar_URIs :: "string list"
  ar_Methods :: "string list"
  ar_Hosts :: "string list"
  ar_Plugins :: RawMessage
  ar_Priority :: int
  ar_Status :: int

record PluginConfig =
  pc_ID :: ID
  pc_Plugins :: RawMessage

record GlobalRule =
  gr_ID :: ID
  gr_Plugins :: RawMessage

text \<open>A pointer field: \<^verbatim>\<open>null\<close> and an absent member leave it nil. A struct is decoded from an object.\<close>

definition asPointer :: "((string \<times> any) list \<Rightarrow> 'a option) \<Rightarrow> any option \<Rightarrow> 'a option option" where
  "asPointer f v =
     (case v of
        None \<Rightarrow> Some None
      | Some ANil \<Rightarrow> Some None
      | Some (AMap m) \<Rightarrow> map_option Some (f m)
      | _ \<Rightarrow> None)"

definition decodeTimeout :: "(string \<times> any) list \<Rightarrow> UpstreamTimeout option" where
  "decodeTimeout m = do {
     connect \<leftarrow> asNumber (jsonField ''connect'' m);
     send \<leftarrow> asNumber (jsonField ''send'' m);
     rd \<leftarrow> asNumber (jsonField ''read'' m);
     Some \<lparr>ut_Connect = connect, ut_Send = send, ut_Read = rd\<rparr>
   }"

definition decodeUpstream :: "(string \<times> any) list \<Rightarrow> ApisixUpstream option" where
  "decodeUpstream m = do {
     i \<leftarrow> UnmarshalID (jsonField ''id'' m);
     type \<leftarrow> asString (jsonField ''type'' m);
     scheme \<leftarrow> asString (jsonField ''scheme'' m);
     passHost \<leftarrow> asString (jsonField ''pass_host'' m);
     upstreamHost \<leftarrow> asString (jsonField ''upstream_host'' m);
     timeout \<leftarrow> asPointer decodeTimeout (jsonField ''timeout'' m);
     Some \<lparr>au_ID = i, au_Type = type, au_Scheme = scheme, au_PassHost = passHost,
           au_UpstreamHost = upstreamHost, au_Timeout = timeout, au_Nodes = jsonField ''nodes'' m\<rparr>
   }"

definition decodeService :: "(string \<times> any) list \<Rightarrow> ApisixService option" where
  "decodeService m = do {
     i \<leftarrow> UnmarshalID (jsonField ''id'' m);
     upstreamID \<leftarrow> UnmarshalID (jsonField ''upstream_id'' m);
     pluginConfigID \<leftarrow> UnmarshalID (jsonField ''plugin_config_id'' m);
     upstream \<leftarrow> asPointer decodeUpstream (jsonField ''upstream'' m);
     Some \<lparr>as_ID = i, as_UpstreamID = upstreamID, as_PluginConfigID = pluginConfigID,
           as_Upstream = upstream, as_Plugins = jsonField ''plugins'' m\<rparr>
   }"

definition decodeRoute :: "(string \<times> any) list \<Rightarrow> ApisixRoute option" where
  "decodeRoute m = do {
     upstream \<leftarrow> asPointer decodeUpstream (jsonField ''upstream'' m);
     i \<leftarrow> UnmarshalID (jsonField ''id'' m);
     uri \<leftarrow> asString (jsonField ''uri'' m);
     serviceID \<leftarrow> UnmarshalID (jsonField ''service_id'' m);
     upstreamID \<leftarrow> UnmarshalID (jsonField ''upstream_id'' m);
     pluginConfigID \<leftarrow> UnmarshalID (jsonField ''plugin_config_id'' m);
     uris \<leftarrow> asStrings (jsonField ''uris'' m);
     methods \<leftarrow> asStrings (jsonField ''methods'' m);
     hosts \<leftarrow> asStrings (jsonField ''hosts'' m);
     priority \<leftarrow> asInt (jsonField ''priority'' m);
     status \<leftarrow> asInt (jsonField ''status'' m);
     Some \<lparr>ar_Upstream = upstream, ar_ID = i, ar_URI = uri, ar_ServiceID = serviceID,
           ar_UpstreamID = upstreamID, ar_PluginConfigID = pluginConfigID, ar_URIs = uris,
           ar_Methods = methods, ar_Hosts = hosts, ar_Plugins = jsonField ''plugins'' m,
           ar_Priority = priority, ar_Status = status\<rparr>
   }"

definition decodePluginConfig :: "(string \<times> any) list \<Rightarrow> PluginConfig option" where
  "decodePluginConfig m = do {
     i \<leftarrow> UnmarshalID (jsonField ''id'' m);
     Some \<lparr>pc_ID = i, pc_Plugins = jsonField ''plugins'' m\<rparr>
   }"

definition decodeGlobalRule :: "(string \<times> any) list \<Rightarrow> GlobalRule option" where
  "decodeGlobalRule m = do {
     i \<leftarrow> UnmarshalID (jsonField ''id'' m);
     Some \<lparr>gr_ID = i, gr_Plugins = jsonField ''plugins'' m\<rparr>
   }"

text \<open>\<^verbatim>\<open>json.Unmarshal\<close> of a whole message into a struct; \<^verbatim>\<open>null\<close> leaves the zero struct, which is
  what the empty object gives.\<close>

definition unmarshalStruct :: "((string \<times> any) list \<Rightarrow> 'a option) \<Rightarrow> RawMessage \<Rightarrow> 'a option" where
  "unmarshalStruct f raw = Option.bind (decodeMap raw) f"

definition UnmarshalEtcdValue :: "((string \<times> any) list \<Rightarrow> 'a option) \<Rightarrow> RawMessage \<Rightarrow> 'a option" where
  "UnmarshalEtcdValue f data =
     (case decodeMap data of
        Some m \<Rightarrow>
          (case jsonField ''value'' m of
             Some value \<Rightarrow> unmarshalStruct f (Some value)
           | None \<Rightarrow> unmarshalStruct f data)
      | None \<Rightarrow> unmarshalStruct f data)"

section \<open>Snapshots\<close>

record ApisixSnapshot =
  ss_Routes :: "(string \<times> ApisixRoute) list"
  ss_Services :: "(string \<times> ApisixService) list"
  ss_Upstreams :: "(string \<times> ApisixUpstream) list"
  ss_PluginConfig :: "(string \<times> PluginConfig) list"
  ss_GlobalRules :: "(string \<times> GlobalRule) list"

definition NewSnapshot :: ApisixSnapshot where
  "NewSnapshot = \<lparr>ss_Routes = [], ss_Services = [], ss_Upstreams = [], ss_PluginConfig = [], ss_GlobalRules = []\<rparr>"

section \<open>Facts\<close>

lemma UnmarshalEtcdValue_plain:
  "decodeMap data = Some m \<Longrightarrow> jsonField ''value'' m = None \<Longrightarrow> UnmarshalEtcdValue f data = f m"
  by (simp add: UnmarshalEtcdValue_def unmarshalStruct_def)

lemma UnmarshalEtcdValue_wrapped:
  "decodeMap data = Some m \<Longrightarrow> jsonField ''value'' m = Some (AMap v) \<Longrightarrow> UnmarshalEtcdValue f data = f v"
  by (simp add: UnmarshalEtcdValue_def unmarshalStruct_def decodeMap_def)

end
