(* ===== verification/Translate.thy ===== *)
theory Translate
  imports Apisix Router
begin

text \<open>
  The translation of APISIX resources into the gateway's configuration,
  \<^verbatim>\<open>internal/translate/apisix_to_config.go\<close>: URIs, upstream nodes and timeouts, plugins and
  their merging, and the lenient assembly \<^verbatim>\<open>ApisixSnapshotToConfig\<close>, which skips a resource
  that does not translate and validates the result.

  An error is a constructor of \<open>translate_error\<close>, one per \<^verbatim>\<open>errors.New\<close> or
  \<^verbatim>\<open>fmt.Errorf\<close>. A Go map is an association list in the order of one iteration; a map that a
  callee changes is returned with its result. The log messages for skipped resources are not
  modelled.
\<close>

section \<open>Errors\<close>

datatype translate_error =
    ListenEmpty
  | GlobalRuleFailed string translate_error
  | UriEmpty
  | MissingUpstream
  | NodesEmpty
  | NodesMapEmpty
  | NodesListEmpty
  | NodesFormat
  | PluginConfigNotFound string
  | PluginConfigFailed string translate_error
  | DecodePlugins
  | PluginFailed string translate_error
  | DecodeParams string
  | RegexUriPairs
  | DecodeHeaders string
  | DecodeBodyBase64
  | ConfigInvalid config_error

section \<open>URIs\<close>

text \<open>A byte appended as a rune: from 128 up it is encoded in two bytes.\<close>

definition runeBytes :: "char \<Rightarrow> string" where
  "runeBytes c =
     (let n = of_char c :: nat in
      if n < 128 then [c] else [char_of (192 + n div 64), char_of (128 + n mod 64)])"

definition escapeByte :: "char \<Rightarrow> string" where
  "escapeByte ch =
     (if ch \<in> set [CHR ''.'', CHR ''+'', CHR ''?'', CHR ''('', CHR '')'', CHR ''['', CHR '']'', CHR ''{'',
                   CHR ''}'', CHR ''^'', CHR ''$'', CHR ''|'', CHR 0x5C]
      then [CHR 0x5C, ch] else runeBytes ch)"

definition apisixWildcardToRegex :: "string \<Rightarrow> string" where
  "apisixWildcardToRegex uri =
     (let s = concat (map escapeByte uri);
          s = ReplaceAll s ''/*'' ''/[^/]+'';
          s = ReplaceAll s ''*'' ''[^/]+'';
          parts = map (\<lambda>p. if HasPrefix p '':'' \<and> length p > 1 then ''[^/]+'' else p) (Split s CHR ''/'')
      in ''^'' @ Join parts ''/'' @ ''$'')"

definition normalizeApisixURI :: "string \<Rightarrow> string" where
  "normalizeApisixURI uri0 =
     (let uri = TrimSpace uri0 in
      if uri = [] then uri
      else if HasPrefix uri ''= '' \<or> HasPrefix uri ''~ '' \<or> HasPrefix uri ''~*'' then uri
      else
        let uri = (if \<not> HasPrefix uri ''/'' then ''/'' @ uri else uri) in
        if Contains uri ''*'' then
          (if HasSuffix uri ''/*'' then TrimSuffix uri ''*''
           else if HasSuffix uri ''*'' then TrimSuffix uri ''*''
           else ''~ '' @ apisixWildcardToRegex uri)
        else ''= '' @ uri)"

section \<open>Plugins\<close>

definition decodeApisixPlugins :: "RawMessage \<Rightarrow> translate_error + (string \<times> any) list" where
  "decodeApisixPlugins raw =
     (case raw of
        None \<Rightarrow> Inr []
      | Some _ \<Rightarrow> (case decodeMap raw of None \<Rightarrow> Inl DecodePlugins | Some plugins \<Rightarrow> Inr plugins))"

text \<open>The struct \<^verbatim>\<open>Meta struct { Disable bool }\<close> under the member \<^verbatim>\<open>_meta\<close>.\<close>

definition isDisabledApisixPlugin :: "any \<Rightarrow> bool" where
  "isDisabledApisixPlugin raw =
     (case decodeMap (Some raw) of
        None \<Rightarrow> False
      | Some m \<Rightarrow>
          (case jsonField ''_meta'' m of
             None \<Rightarrow> False
           | Some meta \<Rightarrow>
               (case decodeMap (Some meta) of
                  None \<Rightarrow> False
                | Some mm \<Rightarrow> (case asBool (jsonField ''disable'' mm) of None \<Rightarrow> False | Some b \<Rightarrow> b))))"

fun mergeApisixPluginMaps :: "(string \<times> any) list \<Rightarrow> (string \<times> any) list \<Rightarrow> (string \<times> any) list" where
  "mergeApisixPluginMaps dst [] = dst"
| "mergeApisixPluginMaps dst ((name, raw) # src) =
     mergeApisixPluginMaps
       (if isDisabledApisixPlugin raw then map_delete name dst else map_put name raw dst) src"

text \<open>Header actions of a rewrite plugin: added, set and removed headers.\<close>

record headerActions =
  ha_Add :: "(string \<times> string) list"
  ha_Set :: "(string \<times> string) list"
  ha_Remove :: "string list"

definition noHeaders :: headerActions where
  "noHeaders = \<lparr>ha_Add = [], ha_Set = [], ha_Remove = []\<rparr>"

definition decodeActions :: "(string \<times> any) list \<Rightarrow> headerActions option" where
  "decodeActions m = do {
     add \<leftarrow> asMapOf asString (jsonField ''add'' m);
     set' \<leftarrow> asMapOf asString (jsonField ''set'' m);
     remove \<leftarrow> asStrings (jsonField ''remove'' m);
     Some \<lparr>ha_Add = add, ha_Set = set', ha_Remove = remove\<rparr>
   }"

definition decodeProxyRewriteHeaders :: "RawMessage \<Rightarrow> translate_error + headerActions" where
  "decodeProxyRewriteHeaders raw =
     (case raw of
        None \<Rightarrow> Inr noHeaders
      | Some _ \<Rightarrow>
          (case unmarshalStruct decodeActions raw of
             None \<Rightarrow> Inl (DecodeHeaders ''proxy-rewrite'')
           | Some h \<Rightarrow>
               if length (ha_Add h) > 0 \<or> length (ha_Set h) > 0 \<or> length (ha_Remove h) > 0 then Inr h
               else (case asMapOf asString raw of
                       None \<Rightarrow> Inl (DecodeHeaders ''proxy-rewrite'')
                     | Some plainSet \<Rightarrow> Inr (noHeaders\<lparr>ha_Set := plainSet\<rparr>))))"

definition decodeResponseRewriteHeaders :: "RawMessage \<Rightarrow> translate_error + headerActions" where
  "decodeResponseRewriteHeaders raw =
     (case raw of
        None \<Rightarrow> Inr noHeaders
      | Some _ \<Rightarrow>
          (case unmarshalStruct decodeActions raw of
             None \<Rightarrow> Inl (DecodeHeaders ''response-rewrite'')
           | Some h \<Rightarrow>
               if length (ha_Add h) > 0 \<or> length (ha_Set h) > 0 \<or> length (ha_Remove h) > 0 then Inr h
               else (case asMapOf asString raw of
                       None \<Rightarrow> Inl (DecodeHeaders ''response-rewrite'')
                     | Some plainSet \<Rightarrow> Inr (noHeaders\<lparr>ha_Set := plainSet\<rparr>))))"

definition pluginRef :: "string \<Rightarrow> (string \<times> any) list \<Rightarrow> PluginRef" where
  "pluginRef name params = \<lparr>ref_Params = AMap params, ref_Use = [], ref_Name = name\<rparr>"

definition stringMap :: "(string \<times> string) list \<Rightarrow> any" where
  "stringMap m = AMap (map (\<lambda>(k, v). (k, AString v)) m)"

definition stringList :: "string list \<Rightarrow> any" where
  "stringList xs = AList (map AString xs)"

text \<open>\<^verbatim>\<open>params[action] = map[string]any{"headers": ...}\<close> when there is something to do.\<close>

definition headersParam :: "string \<Rightarrow> bool \<Rightarrow> any \<Rightarrow> (string \<times> any) list" where
  "headersParam action nonEmpty headers =
     (if nonEmpty then [(action, AMap [(''headers'', headers)])] else [])"

record proxyRewrite =
  pw_Host :: string
  pw_URI :: string
  pw_Method :: string
  pw_RegexURI :: "string list"
  pw_Headers :: RawMessage

definition decodeProxyRewrite :: "(string \<times> any) list \<Rightarrow> proxyRewrite option" where
  "decodeProxyRewrite m = do {
     host \<leftarrow> asString (jsonField ''host'' m);
     uri \<leftarrow> asString (jsonField ''uri'' m);
     verb \<leftarrow> asString (jsonField ''method'' m);
     regexURI \<leftarrow> asStrings (jsonField ''regex_uri'' m);
     _ \<leftarrow> asBool (jsonField ''use_real_request_uri_unsafe'' m);
     Some \<lparr>pw_Host = host, pw_URI = uri, pw_Method = verb, pw_RegexURI = regexURI,
           pw_Headers = jsonField ''headers'' m\<rparr>
   }"

text \<open>The loop that pairs patterns with replacements.\<close>

fun regexRules :: "string list \<Rightarrow> any list" where
  "regexRules (p # r # rest) = AMap [(''pattern'', AString p), (''replacement'', AString r)] # regexRules rest"
| "regexRules _ = []"

definition translateProxyRewrite :: "any \<Rightarrow> translate_error + PluginRef list" where
  "translateProxyRewrite raw =
     (case unmarshalStruct decodeProxyRewrite (Some raw) of
        None \<Rightarrow> Inl (DecodeParams ''proxy-rewrite'')
      | Some cfg \<Rightarrow>
     (case decodeProxyRewriteHeaders (pw_Headers cfg) of
        Inl e \<Rightarrow> Inl e
      | Inr headers \<Rightarrow>
          if pw_URI cfg = [] \<and> length (pw_RegexURI cfg) > 0 \<and> length (pw_RegexURI cfg) mod 2 \<noteq> 0
          then Inl RegexUriPairs
          else
            let regexRef =
                  (if pw_URI cfg = [] \<and> length (pw_RegexURI cfg) > 0
                   then [pluginRef ''rewrite_path_regex'' [(''rules'', AList (regexRules (pw_RegexURI cfg)))]]
                   else []);
                transformRef =
                  (if pw_Method cfg \<noteq> [] \<or> pw_Host cfg \<noteq> [] \<or> length (ha_Add headers) > 0
                      \<or> length (ha_Set headers) > 0 \<or> length (ha_Remove headers) > 0
                   then [pluginRef ''request_transformer''
                           ([(''method'', AString (pw_Method cfg)), (''host'', AString (pw_Host cfg))]
                            @ headersParam ''add'' (length (ha_Add headers) > 0) (stringMap (ha_Add headers))
                            @ headersParam ''remove'' (length (ha_Remove headers) > 0) (stringList (ha_Remove headers))
                            @ headersParam ''set'' (length (ha_Set headers) > 0) (stringMap (ha_Set headers)))]
                   else []);
                pathRef =
                  (if pw_URI cfg \<noteq> [] then [pluginRef ''replace_path'' [(''path'', AString (pw_URI cfg))]] else [])
            in Inr (regexRef @ transformRef @ pathRef)))"

record responseRewrite =
  rw_Body :: string
  rw_Headers :: RawMessage
  rw_StatusCode :: int
  rw_BodyBase64 :: bool

definition decodeResponseRewrite :: "(string \<times> any) list \<Rightarrow> responseRewrite option" where
  "decodeResponseRewrite m = do {
     body \<leftarrow> asString (jsonField ''body'' m);
     statusCode \<leftarrow> asInt (jsonField ''status_code'' m);
     bodyBase64 \<leftarrow> asBool (jsonField ''body_base64'' m);
     Some \<lparr>rw_Body = body, rw_Headers = jsonField ''headers'' m, rw_StatusCode = statusCode,
           rw_BodyBase64 = bodyBase64\<rparr>
   }"

definition translateResponseRewrite :: "any \<Rightarrow> translate_error + PluginRef list" where
  "translateResponseRewrite raw =
     (case unmarshalStruct decodeResponseRewrite (Some raw) of
        None \<Rightarrow> Inl (DecodeParams ''response-rewrite'')
      | Some cfg \<Rightarrow>
     (case decodeResponseRewriteHeaders (rw_Headers cfg) of
        Inl e \<Rightarrow> Inl e
      | Inr headers \<Rightarrow>
          if rw_StatusCode cfg = 0 \<and> rw_Body cfg = [] \<and> \<not> rw_BodyBase64 cfg \<and> length (ha_Add headers) = 0
             \<and> length (ha_Set headers) = 0 \<and> length (ha_Remove headers) = 0
          then Inr []
          else if rw_BodyBase64 cfg \<and> base64Decode (rw_Body cfg) = None then Inl DecodeBodyBase64
          else Inr [pluginRef ''response_transformer''
                 ([(''status'', AInt (rw_StatusCode cfg)), (''body'', AString (rw_Body cfg))]
                  @ (if rw_BodyBase64 cfg then [(''body_base64'', ABool True)] else [])
                  @ headersParam ''add'' (length (ha_Add headers) > 0) (stringMap (ha_Add headers))
                  @ headersParam ''set'' (length (ha_Set headers) > 0) (stringMap (ha_Set headers))
                  @ headersParam ''remove'' (length (ha_Remove headers) > 0) (stringList (ha_Remove headers)))]))"

definition translateRequestID :: "any \<Rightarrow> translate_error + PluginRef list" where
  "translateRequestID raw =
     (case decodeMap (Some raw) of
        None \<Rightarrow> Inl (DecodeParams ''request-id'')
      | Some params \<Rightarrow> Inr [pluginRef ''request_id'' params])"

definition translateLimitCount :: "any \<Rightarrow> translate_error + PluginRef list" where
  "translateLimitCount raw =
     (case decodeMap (Some raw) of
        None \<Rightarrow> Inl (DecodeParams ''limit-count'')
      | Some params \<Rightarrow> Inr [pluginRef ''limit_count'' params])"

definition translateApisixPlugin :: "string \<Rightarrow> any \<Rightarrow> translate_error + PluginRef list" where
  "translateApisixPlugin name raw =
     (if name = ''proxy-rewrite'' then translateProxyRewrite raw
      else if name = ''response-rewrite'' then translateResponseRewrite raw
      else if name = ''request-id'' then translateRequestID raw
      else if name = ''limit-count'' then translateLimitCount raw
      else if raw \<noteq> ANil then
        (case decodeMap (Some raw) of
           None \<Rightarrow> Inl (DecodeParams name)
         | Some params \<Rightarrow> Inr [pluginRef name params])
      else Inr [pluginRef name []])"

fun translateAll :: "(string \<times> any) list \<Rightarrow> translate_error + PluginRef list" where
  "translateAll [] = Inr []"
| "translateAll ((name, raw) # plugins) =
     (case translateApisixPlugin name raw of
        Inl e \<Rightarrow> Inl (PluginFailed name e)
      | Inr translated \<Rightarrow>
          (case translateAll plugins of Inl e \<Rightarrow> Inl e | Inr refs \<Rightarrow> Inr (translated @ refs)))"

definition apisixPluginsToRefs :: "(string \<times> any) list \<Rightarrow> translate_error + PluginRef list" where
  "apisixPluginsToRefs plugins =
     (let names = sort (map fst plugins)
      in translateAll (map (\<lambda>name. (name, map_get ANil plugins name)) names))"

fun mergeGlobalRules ::
    "(string \<times> GlobalRule) list \<Rightarrow> string list \<Rightarrow> (string \<times> any) list \<Rightarrow> translate_error + (string \<times> any) list" where
  "mergeGlobalRules globalRules [] merged = Inr merged"
| "mergeGlobalRules globalRules (i # ids) merged =
     (case decodeApisixPlugins (case map_of globalRules i of None \<Rightarrow> None | Some rule \<Rightarrow> gr_Plugins rule) of
        Inl e \<Rightarrow> Inl (GlobalRuleFailed i e)
      | Inr plugins \<Rightarrow> mergeGlobalRules globalRules ids (mergeApisixPluginMaps merged plugins))"

definition apisixGlobalRulesToPlugins :: "(string \<times> GlobalRule) list \<Rightarrow> translate_error + PluginRef list" where
  "apisixGlobalRulesToPlugins globalRules =
     (if length globalRules = 0 then Inr []
      else case mergeGlobalRules globalRules (sort (map fst globalRules)) [] of
        Inl e \<Rightarrow> Inl e
      | Inr merged \<Rightarrow> apisixPluginsToRefs merged)"

definition apisixMergePlugins ::
    "ID \<Rightarrow> RawMessage \<Rightarrow> (string \<times> PluginConfig) list \<Rightarrow> translate_error + PluginRef list" where
  "apisixMergePlugins pluginConfigID inline pluginConfigs =
     (case (if pluginConfigID = [] then Inr []
            else case map_of pluginConfigs pluginConfigID of
              None \<Rightarrow> Inl (PluginConfigNotFound pluginConfigID)
            | Some pluginConfig \<Rightarrow>
                (case decodeApisixPlugins (pc_Plugins pluginConfig) of
                   Inl e \<Rightarrow> Inl (PluginConfigFailed pluginConfigID e)
                 | Inr plugins \<Rightarrow> Inr (mergeApisixPluginMaps [] plugins))) of
        Inl e \<Rightarrow> Inl e
      | Inr merged \<Rightarrow>
          (case decodeApisixPlugins inline of
             Inl e \<Rightarrow> Inl e
           | Inr inlinePlugins \<Rightarrow> apisixPluginsToRefs (mergeApisixPluginMaps merged inlinePlugins)))"

section \<open>Upstreams\<close>

definition mapEndpoint :: "string \<times> int \<Rightarrow> EndpointOptions list" where
  "mapEndpoint aw =
     (if fst aw = [] then []
      else [\<lparr>endpoint_Tags = [], endpoint_Address = fst aw,
             endpoint_Weight = (if snd aw = 0 then 1 else of_int (snd aw))\<rparr>])"

text \<open>A node of the list form: host, port and weight; its priority is read and not used.\<close>

definition decodeNode :: "any \<Rightarrow> (string \<times> int \<times> int) option" where
  "decodeNode v = unmarshalStruct (\<lambda>m. do {
     host \<leftarrow> asString (jsonField ''host'' m);
     port \<leftarrow> asInt (jsonField ''port'' m);
     weight \<leftarrow> asUint32 (jsonField ''weight'' m);
     _ \<leftarrow> asInt (jsonField ''priority'' m);
     Some (host, port, weight)
   }) (Some v)"

definition listEndpoint :: "string \<times> int \<times> int \<Rightarrow> EndpointOptions list" where
  "listEndpoint node = (case node of (host, port, weight) \<Rightarrow>
     if host = [] \<or> port = 0 then []
     else [\<lparr>endpoint_Tags = [], endpoint_Address = host @ '':'' @ Itoa port,
            endpoint_Weight = (if weight = 0 then 1 else of_int weight)\<rparr>])"

definition apisixNodesToEndpoints :: "RawMessage \<Rightarrow> translate_error + EndpointOptions list" where
  "apisixNodesToEndpoints raw =
     (case raw of
        None \<Rightarrow> Inl NodesEmpty
      | Some v \<Rightarrow>
          (case asMapOf asUint32 raw of
             Some (aw # rest) \<Rightarrow>
               let endpoints = concat (map mapEndpoint (aw # rest))
               in if length endpoints = 0 then Inl NodesMapEmpty else Inr endpoints
           | _ \<Rightarrow>
               (case (case v of AList nodes \<Rightarrow> decodeAll decodeNode nodes | ANil \<Rightarrow> Some [] | _ \<Rightarrow> None) of
                  None \<Rightarrow> Inl NodesFormat
                | Some asList \<Rightarrow>
                    let endpoints = concat (map listEndpoint asList)
                    in if length endpoints = 0 then Inl NodesListEmpty else Inr endpoints)))"

definition parseAPISIXTimeoutSeconds :: "string \<Rightarrow> int" where
  "parseAPISIXTimeoutSeconds value =
     (if value = [] then 0
      else case parseFloat value of
        None \<Rightarrow> 0
      | Some seconds \<Rightarrow> if seconds \<le> 0 then 0 else int64_of (seconds * 1000000000))"

definition apisixTimeoutToConfig :: "UpstreamTimeout option \<Rightarrow> TimeoutOptions" where
  "apisixTimeoutToConfig timeout =
     (case timeout of
        None \<Rightarrow> noTimeout
      | Some t \<Rightarrow> \<lparr>Connect = parseAPISIXTimeoutSeconds (ut_Connect t),
                  Read = parseAPISIXTimeoutSeconds (ut_Read t),
                  Write = parseAPISIXTimeoutSeconds (ut_Send t)\<rparr>)"

definition apisixUpstreamToConfig :: "ApisixUpstream \<Rightarrow> translate_error + UpstreamOptions" where
  "apisixUpstreamToConfig up =
     (let i = (if au_ID up = [] then ''upstream'' else au_ID up) in
      case apisixNodesToEndpoints (au_Nodes up) of
        Inl e \<Rightarrow> Inl e
      | Inr endpoints \<Rightarrow>
          Inr \<lparr>upstream_Balancer = \<lparr>balancer_Params = ANil, balancer_Type = []\<rparr>, upstream_ID = i,
               upstream_Scheme = au_Scheme up, upstream_PassHost = au_PassHost up,
               upstream_UpstreamHost = au_UpstreamHost up, upstream_Endpoints = endpoints,
               upstream_Plugins = [], upstream_HealthCheck = noHealthCheck,
               upstream_Timeout = apisixTimeoutToConfig (au_Timeout up)\<rparr>)"

section \<open>Services and routes\<close>

text \<open>The identifiers of the resources that are made for inline upstreams and for upstream references.\<close>

definition serviceUpstreamID :: "string \<Rightarrow> string" where
  "serviceUpstreamID i = ''upstream-service-'' @ i"

definition routeUpstreamID :: "string \<Rightarrow> string" where
  "routeUpstreamID i = ''upstream-route-'' @ i"

definition upstreamServiceID :: "string \<Rightarrow> string" where
  "upstreamServiceID i = ''service-'' @ i"

definition serviceFor :: "string \<Rightarrow> string \<Rightarrow> TimeoutOptions \<Rightarrow> PluginRef list \<Rightarrow> ServiceOptions" where
  "serviceFor i upstreamID timeout plugins =
     \<lparr>service_ID = i, service_Protocol = ''http'', service_Upstream = upstreamID,
      service_Plugins = plugins, service_Timeout = timeout\<rparr>"

text \<open>The zero value of a timeout for an upstream that is not in the map.\<close>

definition timeoutOf :: "(string \<times> UpstreamOptions) list \<Rightarrow> string \<Rightarrow> TimeoutOptions" where
  "timeoutOf upstreams i = (case map_of upstreams i of None \<Rightarrow> noTimeout | Some u \<Rightarrow> upstream_Timeout u)"

text \<open>The upstream of a service: the one it names, or its inline upstream, which is added to the map.\<close>

definition serviceUpstream ::
    "ApisixService \<Rightarrow> string \<Rightarrow> (string \<times> UpstreamOptions) list
      \<Rightarrow> translate_error + string \<times> (string \<times> UpstreamOptions) list" where
  "serviceUpstream service i upstreams =
     (let upstreamID = as_UpstreamID service in
      if upstreamID \<noteq> [] then Inr (upstreamID, upstreams)
      else case as_Upstream service of
        None \<Rightarrow> Inl MissingUpstream
      | Some inline \<Rightarrow>
          (case apisixUpstreamToConfig inline of
             Inl e \<Rightarrow> Inl e
           | Inr up \<Rightarrow>
               let upstreamID = serviceUpstreamID i
               in Inr (upstreamID, map_put upstreamID (up\<lparr>upstream_ID := upstreamID\<rparr>) upstreams)))"

definition apisixServiceToConfig ::
    "ApisixService \<Rightarrow> (string \<times> PluginConfig) list \<Rightarrow> (string \<times> UpstreamOptions) list
      \<Rightarrow> (string \<times> UpstreamOptions) list \<times> (translate_error + ServiceOptions)" where
  "apisixServiceToConfig service pluginConfigs upstreams =
     (let i = (if as_ID service = [] then ''service'' else as_ID service)
      in case serviceUpstream service i upstreams of
           Inl e \<Rightarrow> (upstreams, Inl e)
         | Inr (upstreamID, upstreams) \<Rightarrow>
             (case apisixMergePlugins (as_PluginConfigID service) (as_Plugins service) pluginConfigs of
                Inl e \<Rightarrow> (upstreams, Inl e)
              | Inr plugins \<Rightarrow>
                  (upstreams, Inr (serviceFor i upstreamID (timeoutOf upstreams upstreamID) plugins))))"

definition apisixRouteToConfig ::
    "ApisixRoute \<Rightarrow> (string \<times> PluginConfig) list \<Rightarrow> translate_error + RouteOptions" where
  "apisixRouteToConfig route pluginConfigs =
     (let i = (if ar_ID route = [] then ''route'' else ar_ID route);
          paths = (if ar_URI route \<noteq> [] then [normalizeApisixURI (ar_URI route)] else [])
                  @ map normalizeApisixURI (filter (\<lambda>uri. uri \<noteq> []) (ar_URIs route))
      in if length paths = 0 then Inl UriEmpty
         else case apisixMergePlugins (ar_PluginConfigID route) (ar_Plugins route) pluginConfigs of
           Inl e \<Rightarrow> Inl e
         | Inr plugins \<Rightarrow>
             Inr \<lparr>route_ID = i, route_Service = [], route_Hosts = ar_Hosts route,
                  route_Methods = ar_Methods route, route_Paths = paths, route_Plugins = plugins,
                  route_Priority = 0\<rparr>)"

section \<open>The whole snapshot\<close>

fun translateUpstreams :: "(string \<times> ApisixUpstream) list \<Rightarrow> Options \<Rightarrow> Options" where
  "translateUpstreams [] out = out"
| "translateUpstreams ((i, upstream) # rest) out =
     translateUpstreams rest
       (case apisixUpstreamToConfig upstream of
          Inl e \<Rightarrow> out
        | Inr up \<Rightarrow>
            if upstream_Scheme up \<in> set ['''', ''http'', ''https'']
            then out\<lparr>Upstreams := map_put i up (Upstreams out)\<rparr> else out)"

fun translateServices ::
    "(string \<times> PluginConfig) list \<Rightarrow> (string \<times> ApisixService) list \<Rightarrow> Options \<Rightarrow> Options" where
  "translateServices pluginConfigs [] out = out"
| "translateServices pluginConfigs ((i, service) # rest) out =
     translateServices pluginConfigs rest
       (case apisixServiceToConfig service pluginConfigs (Upstreams out) of
          (upstreams, result) \<Rightarrow>
            let out = out\<lparr>Upstreams := upstreams\<rparr> in
            case result of
              Inl e \<Rightarrow> out
            | Inr svc \<Rightarrow>
                if map_of (Upstreams out) (service_Upstream svc) = None then out
                else out\<lparr>Services := map_put i svc (Services out)\<rparr>)"

text \<open>
  The service of a route: the one it names, the one made for the upstream it names, or the one made
  for its inline upstream; \<^term>\<open>None\<close> when the route is skipped.
\<close>

definition routeService :: "string \<Rightarrow> ApisixRoute \<Rightarrow> Options \<Rightarrow> (string \<times> Options) option" where
  "routeService i route out =
     (if ar_ServiceID route \<noteq> [] then
        (let serviceID = ar_ServiceID route in
         if map_of (Services out) serviceID = None then None else Some (serviceID, out))
      else if ar_UpstreamID route \<noteq> [] then
        (let upstreamID = ar_UpstreamID route in
         case map_of (Upstreams out) upstreamID of
           None \<Rightarrow> None
         | Some upstream \<Rightarrow>
             let serviceID = upstreamServiceID upstreamID in
             Some (serviceID,
               if map_of (Services out) serviceID = None
               then out\<lparr>Services :=
                 map_put serviceID (serviceFor serviceID upstreamID (upstream_Timeout upstream) []) (Services out)\<rparr>
               else out))
      else case ar_Upstream route of
        None \<Rightarrow> None
      | Some inline \<Rightarrow>
          (case apisixUpstreamToConfig inline of
             Inl e \<Rightarrow> None
           | Inr up \<Rightarrow>
               let upstreamID = routeUpstreamID i;
                   serviceID = upstreamServiceID upstreamID;
                   out = out\<lparr>Upstreams := map_put upstreamID (up\<lparr>upstream_ID := upstreamID\<rparr>) (Upstreams out)\<rparr>
               in Some (serviceID, out\<lparr>Services :=
                    map_put serviceID (serviceFor serviceID upstreamID (upstream_Timeout up) []) (Services out)\<rparr>)))"

text \<open>One iteration of the loop over the routes.\<close>

definition translateRoute ::
    "(string \<times> PluginConfig) list \<Rightarrow> string \<Rightarrow> ApisixRoute \<Rightarrow> Options \<Rightarrow> Options" where
  "translateRoute pluginConfigs i route out =
     (case apisixRouteToConfig route pluginConfigs of
        Inl e \<Rightarrow> out
      | Inr rt \<Rightarrow>
          (case routeService i route out of
             None \<Rightarrow> out
           | Some (serviceID, out) \<Rightarrow>
               out\<lparr>Routes := map_put i (rt\<lparr>route_Service := serviceID\<rparr>) (Routes out)\<rparr>))"

fun translateRoutes ::
    "(string \<times> PluginConfig) list \<Rightarrow> (string \<times> ApisixRoute) list \<Rightarrow> Options \<Rightarrow> Options" where
  "translateRoutes pluginConfigs [] out = out"
| "translateRoutes pluginConfigs ((i, route) # rest) out =
     translateRoutes pluginConfigs rest (translateRoute pluginConfigs i route out)"

text \<open>\<^verbatim>\<open>ApisixToConfigOptions\<close> has one field, the listen address.\<close>

definition assembled :: "ApisixSnapshot \<Rightarrow> string \<Rightarrow> PluginRef list \<Rightarrow> Options" where
  "assembled s listen globalPlugins =
     translateRoutes (ss_PluginConfig s) (ss_Routes s)
       (translateServices (ss_PluginConfig s) (ss_Services s)
         (translateUpstreams (ss_Upstreams s)
           (emptyOptions\<lparr>Servers := [(''main'', \<lparr>server_ID = ''main'', server_Listen = listen, server_Plugins = []\<rparr>)],
                         GlobalPlugins := globalPlugins\<rparr>)))"

definition ApisixSnapshotToConfig :: "ApisixSnapshot \<Rightarrow> string \<Rightarrow> translate_error + Options" where
  "ApisixSnapshotToConfig s listen =
     (if listen = [] then Inl ListenEmpty
      else case apisixGlobalRulesToPlugins (ss_GlobalRules s) of
        Inl e \<Rightarrow> Inl e
      | Inr globalPlugins \<Rightarrow>
          let out = assembled s listen globalPlugins in
          case Validate out of
            Some e \<Rightarrow> Inl (ConfigInvalid e)
          | None \<Rightarrow> Inr out)"

section \<open>Notions used in the statements\<close>

text \<open>The references between routes, services and upstreams resolve.\<close>

definition addressed :: "UpstreamOptions \<Rightarrow> bool" where
  "addressed u \<longleftrightarrow> upstream_Endpoints u \<noteq> [] \<and> (\<forall>e\<in>set (upstream_Endpoints u). endpoint_Address e \<noteq> [])
     \<and> upstream_Plugins u = []"

definition direct_refs :: "PluginRef list \<Rightarrow> bool" where
  "direct_refs refs \<longleftrightarrow> (\<forall>ref\<in>set refs. ref_Use ref = [])"

definition resolved :: "Options \<Rightarrow> bool" where
  "resolved out \<longleftrightarrow>
     (\<forall>(k, r)\<in>set (Routes out). route_Paths r \<noteq> [] \<and> route_Service r \<noteq> []
        \<and> route_Service r \<in> fst ` set (Services out) \<and> direct_refs (route_Plugins r))
   \<and> (\<forall>(k, s)\<in>set (Services out). service_Upstream s \<noteq> []
        \<and> service_Upstream s \<in> fst ` set (Upstreams out) \<and> direct_refs (service_Plugins s))
   \<and> (\<forall>(k, u)\<in>set (Upstreams out). addressed u)"

text \<open>The parts of the result that no loop changes.\<close>

definition frame :: "Options \<Rightarrow> (string \<times> ServerOptions) list \<times> (string \<times> PluginOptions) list \<times> LoggingOptions \<times> PluginRef list" where
  "frame out = (Servers out, Plugins out, Logging out, GlobalPlugins out)"

text \<open>The errors with which the assembled configuration can be refused.\<close>

definition resource_error :: "config_error \<Rightarrow> bool" where
  "resource_error e \<longleftrightarrow>
     (\<exists>k x. e = UpstreamSchemeUnsupported k x) \<or> (\<exists>k x. e = UpstreamPassHostUnsupported k x)
   \<or> (\<exists>k. e = UpstreamHostEmpty k) \<or> (\<exists>owner. e = Config.PluginNameEmpty owner)"

text \<open>The URIs of the APISIX syntax: no white space and not in the gateway's own path syntax.\<close>

definition plainURI :: "string \<Rightarrow> bool" where
  "plainURI uri \<longleftrightarrow> uri \<noteq> [] \<and> (\<forall>c\<in>set uri. \<not> isSpace c) \<and> \<not> HasPrefix uri ''='' \<and> \<not> HasPrefix uri ''~''"

definition rooted :: "string \<Rightarrow> string" where
  "rooted uri = (if HasPrefix uri ''/'' then uri else ''/'' @ uri)"

text \<open>The plugin definition in force: the inline one, else the shared one, unless it is disabled.\<close>

definition effective :: "(string \<times> any) list \<Rightarrow> (string \<times> any) list \<Rightarrow> string \<Rightarrow> any option" where
  "effective shared inline name =
     (case (case map_of inline name of None \<Rightarrow> map_of shared name | Some raw \<Rightarrow> Some raw) of
        None \<Rightarrow> None
      | Some raw \<Rightarrow> if isDisabledApisixPlugin raw then None else Some raw)"

text \<open>A snapshot of one route, service and upstream, for concrete inputs.\<close>

definition sampleNodes :: RawMessage where
  "sampleNodes = Some (AMap [(''127.0.0.1:80'', AFloat 1)])"

definition sampleApisixUpstream :: ApisixUpstream where
  "sampleApisixUpstream = \<lparr>au_ID = ''u1'', au_Type = [], au_Scheme = ''http'', au_PassHost = [],
     au_UpstreamHost = [], au_Timeout = None, au_Nodes = sampleNodes\<rparr>"

definition sampleApisixService :: ApisixService where
  "sampleApisixService = \<lparr>as_ID = ''s1'', as_UpstreamID = ''u1'', as_PluginConfigID = [], as_Upstream = None, as_Plugins = None\<rparr>"

definition sampleApisixRoute :: ApisixRoute where
  "sampleApisixRoute = \<lparr>ar_Upstream = None, ar_ID = ''r1'', ar_URI = ''/api/*'', ar_ServiceID = ''s1'', ar_UpstreamID = [],
     ar_PluginConfigID = [], ar_URIs = [], ar_Methods = [], ar_Hosts = [], ar_Plugins = None, ar_Priority = 0, ar_Status = 1\<rparr>"

definition sampleSnapshot :: ApisixSnapshot where
  "sampleSnapshot = NewSnapshot\<lparr>ss_Routes := [(''r1'', sampleApisixRoute)], ss_Services := [(''s1'', sampleApisixService)],
     ss_Upstreams := [(''u1'', sampleApisixUpstream)]\<rparr>"

definition danglingSnapshot :: ApisixSnapshot where
  "danglingSnapshot = sampleSnapshot\<lparr>ss_Upstreams := []\<rparr>"

definition grpcUpstream :: ApisixUpstream where
  "grpcUpstream = sampleApisixUpstream\<lparr>au_Scheme := ''grpc''\<rparr>"

definition sharedPlugins :: "(string \<times> any) list" where
  "sharedPlugins = [(''request-id'', AMap []), (''limit-count'', AMap [])]"

definition ownPlugins :: "(string \<times> any) list" where
  "ownPlugins = [(''limit-count'', AMap [(''_meta'', AMap [(''disable'', ABool True)])])]"

section \<open>Plugins\<close>

lemma direct_refs_simps [simp]:
  "direct_refs []" "direct_refs (xs @ ys) \<longleftrightarrow> direct_refs xs \<and> direct_refs ys"
  "direct_refs (pluginRef name params # xs) \<longleftrightarrow> direct_refs xs"
  by (auto simp: direct_refs_def pluginRef_def)

lemma translateApisixPlugin_direct: "translateApisixPlugin name raw = Inr refs \<Longrightarrow> direct_refs refs"
  by (auto simp: translateApisixPlugin_def translateProxyRewrite_def translateResponseRewrite_def
      translateRequestID_def translateLimitCount_def Let_def split: if_splits option.splits sum.splits)

lemma translateAll_direct: "translateAll ps = Inr refs \<Longrightarrow> direct_refs refs"
  by (induction ps arbitrary: refs rule: translateAll.induct)
    (auto split: sum.splits dest: translateApisixPlugin_direct)

lemma apisixMergePlugins_direct: "apisixMergePlugins c inline pcs = Inr refs \<Longrightarrow> direct_refs refs"
  by (auto simp: apisixMergePlugins_def apisixPluginsToRefs_def split: sum.splits dest: translateAll_direct)

lemma apisixGlobalRulesToPlugins_direct: "apisixGlobalRulesToPlugins rules = Inr refs \<Longrightarrow> direct_refs refs"
  by (auto simp: apisixGlobalRulesToPlugins_def apisixPluginsToRefs_def
      split: sum.splits if_splits dest: translateAll_direct)

text \<open>The later of two definitions of a plugin wins; a disabled one removes the plugin.\<close>

lemma map_of_mergeApisixPluginMaps:
  "distinct (map fst src) \<Longrightarrow>
   map_of (mergeApisixPluginMaps dst src) name =
     (case map_of src name of
        None \<Rightarrow> map_of dst name
      | Some raw \<Rightarrow> if isDisabledApisixPlugin raw then None else Some raw)"
proof (induction src arbitrary: dst)
  case (Cons p src)
  obtain n raw where p: "p = (n, raw)" by fastforce
  have "map_of src n = None" using Cons.prems p by (simp add: map_of_eq_None_iff)
  with Cons p show ?case by (auto split: option.split)
qed simp

section \<open>Upstreams\<close>

lemma endpoint_addressed:
  "e \<in> set (mapEndpoint aw) \<Longrightarrow> endpoint_Address e \<noteq> []"
  "e \<in> set (listEndpoint node) \<Longrightarrow> endpoint_Address e \<noteq> []"
  by (auto simp: mapEndpoint_def listEndpoint_def split: if_splits prod.splits)

lemma apisixNodesToEndpoints_addressed:
  "apisixNodesToEndpoints raw = Inr es \<Longrightarrow> es \<noteq> [] \<and> (\<forall>e\<in>set es. endpoint_Address e \<noteq> [])"
  unfolding apisixNodesToEndpoints_def Let_def
  by (elim option_caseE)
    (auto split: list.split_asm if_split_asm option.split_asm dest: endpoint_addressed)

lemma apisixUpstreamToConfig_addressed: "apisixUpstreamToConfig up = Inr u \<Longrightarrow> addressed u"
  by (auto simp: apisixUpstreamToConfig_def addressed_def Let_def split: sum.splits
      dest: apisixNodesToEndpoints_addressed)

lemma addressed_ID [simp]: "addressed (u\<lparr>upstream_ID := i\<rparr>) = addressed u"
  by (simp add: addressed_def)

section \<open>The loops keep the references resolved\<close>

lemma resolved_putUpstream:
  "resolved out \<Longrightarrow> addressed u \<Longrightarrow> resolved (out\<lparr>Upstreams := map_put k u (Upstreams out)\<rparr>)"
  unfolding resolved_def by (auto dest!: set_map_put)

lemma resolved_putService:
  assumes "resolved out" and "service_Upstream s \<noteq> []" and "service_Upstream s \<in> fst ` set (Upstreams out)"
    and "direct_refs (service_Plugins s)"
  shows "resolved (out\<lparr>Services := map_put k s (Services out)\<rparr>)"
  using assms unfolding resolved_def by (auto dest!: set_map_put)

lemma resolved_putRoute:
  assumes "resolved out" and "route_Paths r \<noteq> []" and "route_Service r \<noteq> []"
    and "route_Service r \<in> fst ` set (Services out)" and "direct_refs (route_Plugins r)"
  shows "resolved (out\<lparr>Routes := map_put k r (Routes out)\<rparr>)"
  using assms unfolding resolved_def by (auto dest!: set_map_put)

lemma resolved_translateUpstreams: "resolved out \<Longrightarrow> resolved (translateUpstreams ups out)"
proof (induction ups out rule: translateUpstreams.induct)
  case (2 i upstream rest out)
  then show ?case
    using resolved_putUpstream [OF "2.prems"] apisixUpstreamToConfig_addressed [of upstream]
    by (cases "apisixUpstreamToConfig upstream") simp_all
qed simp

lemma made_IDs [simp]: "serviceUpstreamID i \<noteq> []" "routeUpstreamID i \<noteq> []" "upstreamServiceID i \<noteq> []"
  by (simp_all add: serviceUpstreamID_def routeUpstreamID_def upstreamServiceID_def)

lemma serviceUpstream_cases:
  assumes "serviceUpstream svc i ups = Inr (uid, ups')"
  shows "uid \<noteq> [] \<and> (ups' = ups \<or> (\<exists>u. addressed u \<and> ups' = map_put uid u ups))"
  using assms unfolding serviceUpstream_def Let_def
proof (elim caseE)
  fix inline up
  assume "apisixUpstreamToConfig inline = Inr up"
    and "Inr (serviceUpstreamID i, map_put (serviceUpstreamID i) (up\<lparr>upstream_ID := serviceUpstreamID i\<rparr>) ups) = Inr (uid, ups')"
  then show ?thesis
    using apisixUpstreamToConfig_addressed [of inline up] by (auto intro: exI [of _ "up\<lparr>upstream_ID := serviceUpstreamID i\<rparr>"])
qed auto

lemma apisixServiceToConfig_cases:
  assumes "apisixServiceToConfig svc pcs ups = (ups', res)"
  shows "(ups' = ups \<or> (\<exists>k u. addressed u \<and> ups' = map_put k u ups))
    \<and> (\<forall>s. res = Inr s \<longrightarrow> service_Upstream s \<noteq> [] \<and> direct_refs (service_Plugins s))"
  using assms unfolding apisixServiceToConfig_def Let_def
  by (elim caseE) (auto simp: serviceFor_def dest: serviceUpstream_cases apisixMergePlugins_direct)

lemma apisixRouteToConfig_route:
  "apisixRouteToConfig route pcs = Inr r \<Longrightarrow> route_Paths r \<noteq> [] \<and> direct_refs (route_Plugins r)"
  unfolding apisixRouteToConfig_def Let_def
  by (auto split: sum.splits if_splits dest: apisixMergePlugins_direct)

lemma resolved_setUpstreams:
  "resolved out \<Longrightarrow> apisixServiceToConfig svc pcs (Upstreams out) = (ups', res) \<Longrightarrow> resolved (out\<lparr>Upstreams := ups'\<rparr>)"
  using apisixServiceToConfig_cases [of svc pcs "Upstreams out" ups' res] resolved_putUpstream [of out]
  by auto

lemma resolved_translateServices: "resolved out \<Longrightarrow> resolved (translateServices pcs svcs out)"
proof (induction pcs svcs out rule: translateServices.induct)
  case (2 pcs i service rest out)
  obtain ups' res where res: "apisixServiceToConfig service pcs (Upstreams out) = (ups', res)" by fastforce
  have base: "resolved (out\<lparr>Upstreams := ups'\<rparr>)" using resolved_setUpstreams [OF "2.prems" res] .
  show ?case
  proof (cases res)
    case (Inr svc)
    have "resolved (out\<lparr>Upstreams := ups', Services := map_put i svc (Services out)\<rparr>)"
      if "map_of ups' (service_Upstream svc) \<noteq> None"
      using resolved_putService [OF base, of svc i] that apisixServiceToConfig_cases [OF res] Inr
      by (auto simp: map_of_eq_None_iff)
    with 2 res Inr base show ?thesis by (auto simp: Let_def)
  qed (use 2 res base in \<open>auto simp: Let_def\<close>)
qed simp

lemma service_made:
  assumes "resolved out" and "uid \<noteq> []" and "uid \<in> fst ` set (Upstreams out)"
  shows "resolved (out\<lparr>Services := map_put k (serviceFor k uid t []) (Services out)\<rparr>)"
  by (rule resolved_putService [OF assms(1)]) (use assms in \<open>auto simp: serviceFor_def\<close>)

lemma routeService_cases:
  assumes "routeService i route out = Some (sid, out')"
  obtains (service) "ar_ServiceID route \<noteq> []" "sid = ar_ServiceID route" "out' = out" "map_of (Services out) sid \<noteq> None"
  | (upstream) uid u where "uid \<noteq> []" "map_of (Upstreams out) uid = Some u" "sid = upstreamServiceID uid"
      "out' = out \<and> map_of (Services out) sid \<noteq> None
       \<or> out' = out\<lparr>Services := map_put sid (serviceFor sid uid (upstream_Timeout u) []) (Services out)\<rparr>"
  | (inline) uid u t out1 where "uid = routeUpstreamID i" "sid = upstreamServiceID uid" "addressed u"
      "out1 = out\<lparr>Upstreams := map_put uid u (Upstreams out)\<rparr>"
      "out' = out1\<lparr>Services := map_put sid (serviceFor sid uid t []) (Services out1)\<rparr>"
proof (cases "ar_ServiceID route = []")
  case False
  then show thesis using assms service by (auto simp: routeService_def Let_def split: if_splits)
next
  case True
  note noService = this
  show thesis
  proof (cases "ar_UpstreamID route = []")
    case False
    then obtain u where "map_of (Upstreams out) (ar_UpstreamID route) = Some u"
      using assms noService by (auto simp: routeService_def Let_def split: option.splits)
    with assms noService False show thesis
      by (intro upstream [of "ar_UpstreamID route" u]) (auto simp: routeService_def Let_def split: if_splits)
  next
    case True
    then obtain inl up where "ar_Upstream route = Some inl" "apisixUpstreamToConfig inl = Inr up"
      using assms noService by (auto simp: routeService_def split: option.splits sum.splits)
    with assms noService True show thesis
      by (intro inline [of "routeUpstreamID i" "up\<lparr>upstream_ID := routeUpstreamID i\<rparr>"
            "out\<lparr>Upstreams := map_put (routeUpstreamID i) (up\<lparr>upstream_ID := routeUpstreamID i\<rparr>) (Upstreams out)\<rparr>"
            "upstream_Timeout up"])
        (auto simp: routeService_def Let_def dest: apisixUpstreamToConfig_addressed)
  qed
qed

lemma routeService_resolved:
  assumes "resolved out" and "routeService i route out = Some (sid, out')"
  shows "resolved out' \<and> sid \<noteq> [] \<and> sid \<in> fst ` set (Services out')"
proof -
  from assms(2) show ?thesis
  proof (cases rule: routeService_cases)
    case service
    with assms(1) show ?thesis by (auto intro: in_keys)
  next
    case (upstream uid u)
    then have "uid \<in> fst ` set (Upstreams out)" by (blast intro: in_keys)
    with service_made [OF assms(1) upstream(1) this, of sid "upstream_Timeout u"] upstream assms(1)
    show ?thesis by (auto intro: in_keys)
  next
    case (inline uid u t out1)
    then have "resolved out1" using resolved_putUpstream [OF assms(1)] by simp
    from service_made [OF this, of uid sid t] inline show ?thesis by auto
  qed
qed

lemma resolved_translateRoute:
  assumes "resolved out"
  shows "resolved (translateRoute pcs i route out)"
proof (cases "apisixRouteToConfig route pcs")
  case (Inr rt)
  show ?thesis
  proof (cases "routeService i route out")
    case (Some p)
    obtain sid out' where p: "p = (sid, out')" by fastforce
    note ok = routeService_resolved [OF assms Some [unfolded p]]
    have "resolved (out'\<lparr>Routes := map_put i (rt\<lparr>route_Service := sid\<rparr>) (Routes out')\<rparr>)"
      by (rule resolved_putRoute) (use ok apisixRouteToConfig_route [OF Inr] in auto)
    with Inr Some p show ?thesis by (simp add: translateRoute_def)
  qed (use Inr assms in \<open>simp add: translateRoute_def\<close>)
qed (use assms in \<open>simp add: translateRoute_def\<close>)

lemma resolved_translateRoutes: "resolved out \<Longrightarrow> resolved (translateRoutes pcs rts out)"
  by (induction pcs rts out rule: translateRoutes.induct) (auto intro: resolved_translateRoute)

lemma frame_Upstreams [simp]: "frame (out\<lparr>Upstreams := x\<rparr>) = frame out"
  and frame_Services [simp]: "frame (out\<lparr>Services := y\<rparr>) = frame out"
  and frame_Routes [simp]: "frame (out\<lparr>Routes := z\<rparr>) = frame out"
  by (simp_all add: frame_def)

lemma frame_translateUpstreams [simp]: "frame (translateUpstreams ups out) = frame out"
  by (induction ups out rule: translateUpstreams.induct) (auto split: sum.split)

lemma frame_translateServices [simp]: "frame (translateServices pcs svcs out) = frame out"
  by (induction pcs svcs out rule: translateServices.induct) (auto simp: Let_def split: sum.split prod.split)

lemma frame_routeService: "routeService i route out = Some (sid, out') \<Longrightarrow> frame out' = frame out"
  unfolding routeService_def Let_def by (elim caseE) (auto split: if_splits)

lemma frame_translateRoute [simp]: "frame (translateRoute pcs i route out) = frame out"
  by (auto simp: translateRoute_def split: sum.split option.split dest: frame_routeService)

lemma frame_translateRoutes [simp]: "frame (translateRoutes pcs rts out) = frame out"
  by (induction pcs rts out rule: translateRoutes.induct) auto

section \<open>The errors of the final validation\<close>

lemma direct_refs_error:
  assumes "direct_refs refs" and "validatePluginRefs ps owner refs = Some e"
  shows "resource_error e"
  using first_error_Some [OF assms(2) [unfolded validatePluginRefs_def]] assms(1)
  by (auto simp: direct_refs_def resource_error_def split: if_splits)

lemma route_error:
  assumes "resolved out" and "entry \<in> set (Routes out)" and "validateRoute out entry = Some e"
  shows "resource_error e"
proof -
  obtain k r where entry: "entry = (k, r)" by fastforce
  with assms have ok: "route_Paths r \<noteq> []" "route_Service r \<noteq> []" "map_of (Services out) (route_Service r) \<noteq> None"
    "direct_refs (route_Plugins r)"
    by (auto simp: resolved_def map_of_eq_None_iff)
  then show ?thesis
    using assms(3) entry by (auto simp: validateRoute_def dest: direct_refs_error [rotated])
qed

lemma service_error:
  assumes "resolved out" and "entry \<in> set (Services out)" and "validateService out entry = Some e"
  shows "resource_error e"
proof -
  obtain k s where entry: "entry = (k, s)" by fastforce
  with assms have ok: "service_Upstream s \<noteq> []" "map_of (Upstreams out) (service_Upstream s) \<noteq> None"
    "direct_refs (service_Plugins s)"
    by (auto simp: resolved_def map_of_eq_None_iff)
  then show ?thesis
    using assms(3) entry by (auto simp: validateService_def dest: direct_refs_error [rotated])
qed

lemma upstream_error:
  assumes "resolved out" and "entry \<in> set (Upstreams out)" and "validateUpstream out entry = Some e"
  shows "resource_error e"
proof -
  obtain k u where entry: "entry = (k, u)" by fastforce
  with assms have ok: "addressed u" by (auto simp: resolved_def)
  then have inner: "or_else (first_error (\<lambda>endpoint. if endpoint_Address endpoint = [] then Some (EndpointAddressEmpty k) else None)
      (upstream_Endpoints u)) (validatePluginRefs ps owner (upstream_Plugins u)) = None" for ps owner
    by (simp add: addressed_def refs_ok_def)
  show ?thesis
    using assms(3) ok unfolding entry validateUpstream_def prod.case inner
    by (elim if_caseE) (auto simp: resource_error_def addressed_def)
qed

lemma Validate_resolved_error:
  assumes "resolved out" and "direct_refs (GlobalPlugins out)" and "Validate out = Some e"
    and "Servers out = [(i, server)]" and "server_Listen server \<noteq> []" and "server_Plugins server = []"
    and "Logging out = Logging emptyOptions"
  shows "resource_error e"
proof -
  have logging: "validateLogging (Logging out) = None" unfolding assms(7) by code_simp
  have server: "first_error (validateServer out) (Servers out) = None"
    using assms(4-6) by (simp add: validateServer_def validatePluginRefs_def)
  have "length (Servers out) \<noteq> 0" using assms(4) by simp
  with assms(3) have "or_else (validatePluginRefs (Plugins out) ''global_plugins'' (GlobalPlugins out))
      (or_else (first_error (validateRoute out) (Routes out))
        (or_else (first_error (validateService out) (Services out))
          (first_error (validateUpstream out) (Upstreams out)))) = Some e"
    unfolding Validate_def logging server or_else_left by (simp only: if_False)
  then consider "validatePluginRefs (Plugins out) ''global_plugins'' (GlobalPlugins out) = Some e"
    | "first_error (validateRoute out) (Routes out) = Some e"
    | "first_error (validateService out) (Services out) = Some e"
    | "first_error (validateUpstream out) (Upstreams out) = Some e"
    by (auto dest!: or_else_Some)
  then show ?thesis
    by cases (auto dest!: first_error_Some intro: direct_refs_error [OF assms(2)] route_error [OF assms(1)]
        service_error [OF assms(1)] upstream_error [OF assms(1)])
qed

lemma resolved_assembled: "resolved (assembled s listen gps)"
proof -
  have "resolved (emptyOptions\<lparr>Servers := x, GlobalPlugins := gps\<rparr>)" for x
    by (simp add: resolved_def emptyOptions_def)
  then show ?thesis
    unfolding assembled_def by (intro resolved_translateRoutes resolved_translateServices resolved_translateUpstreams)
qed

lemma frame_assembled:
  "frame (assembled s listen gps) =
     ([(''main'', \<lparr>server_ID = ''main'', server_Listen = listen, server_Plugins = []\<rparr>)], [],
      Logging emptyOptions, gps)"
  unfolding assembled_def frame_translateRoutes frame_translateServices frame_translateUpstreams
  by (simp add: frame_def emptyOptions_def)

section \<open>What the loops keep\<close>

lemma keys_Upstreams_translateUpstreams:
  "fst ` set (Upstreams out) \<subseteq> fst ` set (Upstreams (translateUpstreams ups out))"
proof (induction ups out rule: translateUpstreams.induct)
  case (2 i upstream rest out)
  then show ?case by (cases "apisixUpstreamToConfig upstream") (auto split: if_splits)
qed simp

lemma translateUpstreams_adds:
  assumes "(i, up) \<in> set ups" and "apisixUpstreamToConfig up = Inr u" and "upstream_Scheme u \<in> {'''', ''http'', ''https''}"
  shows "i \<in> fst ` set (Upstreams (translateUpstreams ups out))"
  using assms(1)
proof (induction ups arbitrary: out)
  case (Cons p ups)
  show ?case
  proof (cases "p = (i, up)")
    case True
    then show ?thesis
      using assms(2,3) keys_Upstreams_translateUpstreams [of "out\<lparr>Upstreams := map_put i u (Upstreams out)\<rparr>" ups]
      by auto
  next
    case False
    then show ?thesis using Cons by (cases p) auto
  qed
qed simp

lemma keys_apisixServiceToConfig:
  "apisixServiceToConfig svc pcs ups = (ups', res) \<Longrightarrow> fst ` set ups \<subseteq> fst ` set ups'"
  by (drule apisixServiceToConfig_cases) (elim conjE disjE exE; simp add: subset_insertI)

lemma keys_translateServices:
  "fst ` set (Upstreams out) \<subseteq> fst ` set (Upstreams (translateServices pcs svcs out))
   \<and> fst ` set (Services out) \<subseteq> fst ` set (Services (translateServices pcs svcs out))"
proof (induction pcs svcs out rule: translateServices.induct)
  case (2 pcs i service rest out)
  obtain ups' res where res: "apisixServiceToConfig service pcs (Upstreams out) = (ups', res)" by fastforce
  with 2 keys_apisixServiceToConfig [OF res] show ?case
    by (cases res) (auto simp: Let_def split: if_splits)
qed simp

lemma translateServices_adds:
  assumes "(sid, svc) \<in> set svcs" and "as_UpstreamID svc = uid" and "uid \<noteq> []" and "uid \<in> fst ` set (Upstreams out)"
    and "apisixMergePlugins (as_PluginConfigID svc) (as_Plugins svc) pcs = Inr ps"
  shows "sid \<in> fst ` set (Services (translateServices pcs svcs out))"
  using assms(1,4)
proof (induction svcs arbitrary: out)
  case (Cons p svcs)
  obtain i service where p: "p = (i, service)" by fastforce
  obtain ups' res where res: "apisixServiceToConfig service pcs (Upstreams out) = (ups', res)" by fastforce
  have uid: "uid \<in> fst ` set ups'" using keys_apisixServiceToConfig [OF res] Cons.prems(2) by auto
  show ?case
  proof (cases "p = (sid, svc)")
    case True
    then obtain s where s: "res = Inr s" "service_Upstream s = uid" "ups' = Upstreams out"
      using res p assms(2,3,5) by (auto simp: apisixServiceToConfig_def serviceUpstream_def serviceFor_def Let_def)
    then have "map_of ups' (service_Upstream s) \<noteq> None" using uid by (simp add: map_of_eq_None_iff)
    with True p res s show ?thesis
      using keys_translateServices [of "out\<lparr>Services := map_put sid s (Services out)\<rparr>" pcs svcs] by (auto simp: Let_def)
  next
    case False
    then have "(sid, svc) \<in> set svcs" using Cons.prems by auto
    with Cons.IH p res uid show ?thesis
      by (cases res) (auto simp: Let_def)
  qed
qed simp

lemma keys_routeService:
  "routeService i route out = Some (sid, out') \<Longrightarrow>
     fst ` set (Services out) \<subseteq> fst ` set (Services out') \<and> fst ` set (Upstreams out) \<subseteq> fst ` set (Upstreams out')
     \<and> Routes out' = Routes out"
  by (erule routeService_cases) force+

lemma keys_translateRoute:
  "fst ` set (Services out) \<subseteq> fst ` set (Services (translateRoute pcs i route out))
   \<and> fst ` set (Upstreams out) \<subseteq> fst ` set (Upstreams (translateRoute pcs i route out))
   \<and> (\<forall>k. k \<noteq> i \<longrightarrow> map_of (Routes (translateRoute pcs i route out)) k = map_of (Routes out) k)"
  by (auto simp: translateRoute_def split: sum.split option.split dest!: keys_routeService)

lemma keys_translateRoutes:
  "fst ` set (Services out) \<subseteq> fst ` set (Services (translateRoutes pcs rts out))
   \<and> fst ` set (Upstreams out) \<subseteq> fst ` set (Upstreams (translateRoutes pcs rts out))
   \<and> (\<forall>k. k \<notin> fst ` set rts \<longrightarrow> map_of (Routes (translateRoutes pcs rts out)) k = map_of (Routes out) k)"
proof (induction pcs rts out rule: translateRoutes.induct)
  case (2 pcs i route rest out)
  note step = keys_translateRoute [of out pcs i route]
  show ?case
  proof (intro conjI allI impI)
    fix k assume "k \<notin> fst ` set ((i, route) # rest)"
    then show "map_of (Routes (translateRoutes pcs ((i, route) # rest) out)) k = map_of (Routes out) k"
      using 2 step by simp
  next
    show "fst ` set (Services out) \<subseteq> fst ` set (Services (translateRoutes pcs ((i, route) # rest) out))"
      using subset_trans [OF conjunct1 [OF step] conjunct1 [OF 2]] by simp
    show "fst ` set (Upstreams out) \<subseteq> fst ` set (Upstreams (translateRoutes pcs ((i, route) # rest) out))"
      using subset_trans [OF conjunct1 [OF conjunct2 [OF step]] conjunct1 [OF conjunct2 [OF 2]]] by simp
  qed
qed simp

lemma translateRoutes_adds:
  assumes "(k, route) \<in> set rts" and "distinct (map fst rts)" and "apisixRouteToConfig route pcs = Inr rt"
    and "ar_ServiceID route = sid" and "sid \<noteq> []" and "sid \<in> fst ` set (Services out)"
  shows "map_of (Routes (translateRoutes pcs rts out)) k = Some (rt\<lparr>route_Service := sid\<rparr>)"
  using assms(1,2,6)
proof (induction rts arbitrary: out)
  case (Cons p rts)
  obtain i route' where p: "p = (i, route')" by fastforce
  show ?case
  proof (cases "p = (k, route)")
    case True
    have "routeService k route out = Some (sid, out)"
      using assms(4,5) Cons.prems(3) by (simp add: routeService_def map_of_eq_None_iff)
    then have "map_of (Routes (translateRoute pcs k route out)) k = Some (rt\<lparr>route_Service := sid\<rparr>)"
      using assms(3) by (simp add: translateRoute_def)
    with True Cons.prems keys_translateRoutes [of "translateRoute pcs k route out" pcs rts] show ?thesis by auto
  next
    case False
    then have "(k, route) \<in> set rts" "distinct (map fst rts)" using Cons.prems by auto
    moreover have "sid \<in> fst ` set (Services (translateRoute pcs i route' out))"
      using keys_translateRoute [of out pcs i route'] Cons.prems(3) by blast
    ultimately show ?thesis using Cons.IH p by simp
  qed
qed simp

text \<open>The upstream made for an inline upstream stays.\<close>

lemma Upstreams_translateRoute:
  "x \<noteq> routeUpstreamID i \<Longrightarrow> map_of (Upstreams (translateRoute pcs i route out)) x = map_of (Upstreams out) x"
  by (auto simp: translateRoute_def split: sum.split option.split elim!: routeService_cases)

lemma routeUpstreamID_inject [simp]: "routeUpstreamID i = routeUpstreamID k \<longleftrightarrow> i = k"
  by (simp add: routeUpstreamID_def)

lemma Upstreams_translateRoutes:
  "k \<notin> fst ` set rts \<Longrightarrow>
   map_of (Upstreams (translateRoutes pcs rts out)) (routeUpstreamID k) = map_of (Upstreams out) (routeUpstreamID k)"
  by (induction pcs rts out rule: translateRoutes.induct) (auto simp: Upstreams_translateRoute)

lemma translateRoutes_inline:
  assumes "(k, route) \<in> set rts" and "distinct (map fst rts)" and "apisixRouteToConfig route pcs = Inr rt"
    and "ar_ServiceID route = []" and "ar_UpstreamID route = []" and "ar_Upstream route = Some inline"
    and "apisixUpstreamToConfig inline = Inr u"
  shows "map_of (Upstreams (translateRoutes pcs rts out)) (routeUpstreamID k)
    = Some (u\<lparr>upstream_ID := routeUpstreamID k\<rparr>)"
  using assms(1,2)
proof (induction rts arbitrary: out)
  case (Cons p rts)
  show ?case
  proof (cases "p = (k, route)")
    case True
    have "map_of (Upstreams (translateRoute pcs k route out)) (routeUpstreamID k)
        = Some (u\<lparr>upstream_ID := routeUpstreamID k\<rparr>)"
      using assms(3-7) by (simp add: translateRoute_def routeService_def Let_def)
    with True Cons.prems Upstreams_translateRoutes [of k rts pcs "translateRoute pcs k route out"]
    show ?thesis by simp
  next
    case False
    then have "(k, route) \<in> set rts" "distinct (map fst rts)" using Cons.prems by auto
    with Cons.IH show ?thesis by (cases p) simp
  qed
qed simp

section \<open>URIs\<close>

lemma isSpace_consts [simp]:
  "\<not> isSpace CHR ''/''" "\<not> isSpace CHR ''*''" "\<not> isSpace CHR ''^''" "\<not> isSpace CHR ''$''" "\<not> isSpace CHR ''=''"
  "\<not> isSpace CHR ''~''" "isSpace CHR '' ''"
  by (simp_all add: isSpace_def)

lemma rooted_plain:
  assumes "plainURI uri"
  shows "\<exists>r. rooted uri = CHR ''/'' # r" and "\<forall>c\<in>set (rooted uri). \<not> isSpace c"
    and "CHR ''*'' \<in> set (rooted uri) \<longleftrightarrow> CHR ''*'' \<in> set uri" and "HasSuffix (rooted uri) ''*'' \<longleftrightarrow> HasSuffix uri ''*''"
  using assms by (auto simp: rooted_def plainURI_def HasPrefix_iff HasSuffix_iff Cons_eq_append_conv)

lemma normalize_plain:
  assumes "plainURI uri"
  shows "normalizeApisixURI uri =
    (if CHR ''*'' \<notin> set uri then ''= '' @ rooted uri
     else if HasSuffix uri ''*'' then TrimSuffix (rooted uri) ''*''
     else ''~ '' @ apisixWildcardToRegex (rooted uri))"
proof -
  have "TrimSpace uri = uri" "uri \<noteq> []" using assms by (simp_all add: TrimSpace_plain plainURI_def)
  moreover have "\<not> HasPrefix uri ''= ''" "\<not> HasPrefix uri ''~ ''" "\<not> HasPrefix uri ''~*''"
    using assms by (auto simp: plainURI_def HasPrefix_iff)
  moreover have "HasSuffix (rooted uri) ''/*'' \<Longrightarrow> HasSuffix (rooted uri) ''*''"
    by (auto simp: HasSuffix_iff)
  ultimately show ?thesis
    using rooted_plain(3,4) [OF assms] by (auto simp: normalizeApisixURI_def Let_def Contains_char rooted_def)
qed

lemma compile_exact:
  assumes "u = CHR ''/'' # r" and "\<forall>c\<in>set u. \<not> isSpace c"
  shows "compilePath rc (''= '' @ u) = Inr (exactPath u)"
proof -
  have "TrimSpace (''= '' @ u) = ''= '' @ u" using assms by (intro TrimSpace_ends) auto
  moreover have "TrimSpace u = u" using assms by (simp add: TrimSpace_plain)
  ultimately show ?thesis by (simp add: compilePath_def Let_def TrimPrefix_def)
qed

lemma compile_prefix:
  assumes "u = CHR ''/'' # r" and "\<forall>c\<in>set u. \<not> isSpace c" and "\<not> HasSuffix u ''*''"
  shows "compilePath rc u = Inr (prefixPath u)"
proof -
  have "TrimSpace u = u" using assms by (simp add: TrimSpace_plain)
  moreover have "\<not> HasSuffix u ''/*''" using assms(3) by (auto simp: HasSuffix_iff)
  ultimately show ?thesis using assms(1,3) by (simp add: compilePath_def)
qed

lemma compile_regex: "compilePath rc (''~ '' @ apisixWildcardToRegex u) = regexPath rc '''' (apisixWildcardToRegex u)"
proof -
  obtain x where x: "apisixWildcardToRegex u = ''^'' @ x @ ''$''" by (simp add: apisixWildcardToRegex_def Let_def)
  have "TrimSpace (''~ '' @ apisixWildcardToRegex u) = ''~ '' @ apisixWildcardToRegex u"
    "TrimSpace (apisixWildcardToRegex u) = apisixWildcardToRegex u"
    unfolding x by (simp_all add: TrimSpace_ends)
  then show ?thesis by (simp add: compilePath_def Let_def TrimPrefix_def)
qed

section \<open>Results\<close>

text \<open>
  C19. The translation is lenient and safe: with a listen address and readable global rules it either
  returns a well-formed configuration, or it refuses the snapshot because of an upstream's scheme
  or host policy or a plugin without a name. No missing or broken reference between routes,
  services, plugin configurations and upstreams, and no unreadable resource, makes it fail.
\<close>

theorem translate_outcome:
  assumes "listen \<noteq> []" and "apisixGlobalRulesToPlugins (ss_GlobalRules s) = Inr gps"
  shows "(\<exists>out. ApisixSnapshotToConfig s listen = Inr out \<and> well_formed out)
    \<or> (\<exists>e. ApisixSnapshotToConfig s listen = Inl (ConfigInvalid e) \<and> resource_error e)"
proof (cases "Validate (assembled s listen gps)")
  case None
  with Validate_well_formed [of "assembled s listen gps"] assms show ?thesis
    by (simp add: ApisixSnapshotToConfig_def Let_def)
next
  case (Some e)
  have "resource_error e"
    by (rule Validate_resolved_error [OF resolved_assembled _ Some])
      (use assms frame_assembled [of s listen gps] apisixGlobalRulesToPlugins_direct in \<open>auto simp: frame_def\<close>)
  with Some assms show ?thesis by (simp add: ApisixSnapshotToConfig_def Let_def)
qed

theorem translate_outcome_witness:
  "\<exists>out. ApisixSnapshotToConfig danglingSnapshot '':80'' = Inr out \<and> well_formed out \<and> Routes out = []"
proof -
  have "apisixGlobalRulesToPlugins (ss_GlobalRules danglingSnapshot) = Inr []" by code_simp
  with translate_outcome [of "'':80''" danglingSnapshot "[]"]
  have "(\<exists>out. ApisixSnapshotToConfig danglingSnapshot '':80'' = Inr out \<and> well_formed out)
    \<or> (\<exists>e. ApisixSnapshotToConfig danglingSnapshot '':80'' = Inl (ConfigInvalid e))" by auto
  moreover have "(case ApisixSnapshotToConfig danglingSnapshot '':80'' of Inl e \<Rightarrow> False | Inr out \<Rightarrow> Routes out = [])" by code_simp
  ultimately show ?thesis by auto
qed

lemma translate_keeps:
  assumes "ApisixSnapshotToConfig s listen = Inr out"
    and "distinct (map fst (ss_Routes s))"
    and "(k, route) \<in> set (ss_Routes s)" and "apisixRouteToConfig route (ss_PluginConfig s) = Inr rt"
    and "ar_ServiceID route = sid" and "sid \<noteq> []"
    and "(sid, svc) \<in> set (ss_Services s)" and "as_UpstreamID svc = uid" and "uid \<noteq> []"
    and "apisixMergePlugins (as_PluginConfigID svc) (as_Plugins svc) (ss_PluginConfig s) = Inr plugins"
    and "(uid, up) \<in> set (ss_Upstreams s)" and "apisixUpstreamToConfig up = Inr u"
    and "upstream_Scheme u \<in> {'''', ''http'', ''https''}"
  shows "map_of (Routes out) k = Some (rt\<lparr>route_Service := sid\<rparr>)
    \<and> map_of (Services out) sid \<noteq> None \<and> map_of (Upstreams out) uid \<noteq> None"
proof -
  obtain gps where out: "out = assembled s listen gps"
    using assms(1) by (auto simp: ApisixSnapshotToConfig_def Let_def split: if_splits sum.splits option.splits)
  let ?u = "translateUpstreams (ss_Upstreams s) (emptyOptions\<lparr>Servers := [(''main'', \<lparr>server_ID = ''main'',
    server_Listen = listen, server_Plugins = []\<rparr>)], GlobalPlugins := gps\<rparr>)"
  let ?s = "translateServices (ss_PluginConfig s) (ss_Services s) ?u"
  have u: "uid \<in> fst ` set (Upstreams ?u)" by (rule translateUpstreams_adds [OF assms(11-13)])
  have s: "sid \<in> fst ` set (Services ?s)" by (rule translateServices_adds [OF assms(7-9) u assms(10)])
  have "map_of (Routes out) k = Some (rt\<lparr>route_Service := sid\<rparr>)"
    unfolding out assembled_def by (rule translateRoutes_adds [OF assms(3,2,4-6) s])
  moreover have "sid \<in> fst ` set (Services out)" "uid \<in> fst ` set (Upstreams out)"
    using u s keys_translateRoutes [of ?s "ss_PluginConfig s" "ss_Routes s"]
      keys_translateServices [of ?u "ss_PluginConfig s" "ss_Services s"]
    unfolding out assembled_def by blast+
  ultimately show ?thesis by (simp add: map_of_eq_None_iff)
qed

text \<open>
  A route is not lost: when the translation succeeds, a route that translates, names a service
  whose plugins translate and whose upstream translates with a supported scheme, is in the result
  under its key, with that service, and the service and its upstream are there too.
\<close>

theorem translate_keeps_route:
  assumes "ApisixSnapshotToConfig s listen = Inr out"
    and "distinct (map fst (ss_Routes s))"
    and "(k, route) \<in> set (ss_Routes s)" and "apisixRouteToConfig route (ss_PluginConfig s) = Inr rt"
    and "ar_ServiceID route = sid" and "sid \<noteq> []"
    and "(sid, svc) \<in> set (ss_Services s)" and "as_UpstreamID svc = uid" and "uid \<noteq> []"
    and "apisixMergePlugins (as_PluginConfigID svc) (as_Plugins svc) (ss_PluginConfig s) = Inr plugins"
    and "(uid, up) \<in> set (ss_Upstreams s)" and "apisixUpstreamToConfig up = Inr u"
    and "upstream_Scheme u \<in> {'''', ''http'', ''https''}"
  shows "map_of (Routes out) k = Some (rt\<lparr>route_Service := sid\<rparr>)
    \<and> map_of (Services out) sid \<noteq> None \<and> map_of (Upstreams out) uid \<noteq> None"
  by (rule translate_keeps [OF assms])

theorem translate_keeps_route_witness:
  "\<exists>out rt. ApisixSnapshotToConfig sampleSnapshot '':80'' = Inr out
     \<and> map_of (Routes out) ''r1'' = Some (rt\<lparr>route_Service := ''s1''\<rparr>) \<and> route_Paths (rt :: RouteOptions) = [''/api/'']"
proof -
  have "\<not> isl (ApisixSnapshotToConfig sampleSnapshot '':80'')" by code_simp
  then obtain out where out: "ApisixSnapshotToConfig sampleSnapshot '':80'' = Inr out" by (metis isl_def sum.exhaust)
  have r: "apisixRouteToConfig sampleApisixRoute [] = Inr \<lparr>route_ID = ''r1'', route_Service = [], route_Hosts = [],
      route_Methods = [], route_Paths = [''/api/''], route_Plugins = [], route_Priority = 0\<rparr>" by code_simp
  have "\<not> isl (apisixUpstreamToConfig sampleApisixUpstream)"
    "upstream_Scheme (projr (apisixUpstreamToConfig sampleApisixUpstream)) = ''http''" by code_simp+
  then obtain u where u: "apisixUpstreamToConfig sampleApisixUpstream = Inr u" "upstream_Scheme u = ''http''"
    by (metis isl_def sum.exhaust sum.sel(2))
  have p: "apisixMergePlugins [] None [] = Inr []" by code_simp
  have "map_of (Routes out) ''r1'' = Some (\<lparr>route_ID = ''r1'', route_Service = [], route_Hosts = [],
      route_Methods = [], route_Paths = [''/api/''], route_Plugins = [], route_Priority = 0\<rparr>\<lparr>route_Service := ''s1''\<rparr>)"
    using translate_keeps_route [OF out, of "''r1''" sampleApisixRoute _ "''s1''" sampleApisixService "''u1''" "[]"
        sampleApisixUpstream u] r u p
    by (simp add: sampleSnapshot_def NewSnapshot_def sampleApisixRoute_def sampleApisixService_def)
  with out show ?thesis by fastforce
qed

text \<open>
  C20. What a translated URI accepts, through the router's own compilation of it. The URI is not empty, has no white space and does not start with
  \<open>=\<close> or \<open>~\<close>, which would be the gateway's own syntax; a missing leading slash is added. Without a star the URI accepts exactly
  itself, also when it has a segment that starts with a colon, which a comment calls a parameter. A URI \<open>p*\<close>, where \<open>p\<close> does not end in a
  star, accepts exactly the paths that start with \<open>p\<close>, in which an earlier star stands for itself. A URI with stars and none at its end is compiled as
  the regular expression that \<open>apisixWildcardToRegex\<close> gives.
\<close>

theorem normalizeApisixURI_meaning:
  assumes "plainURI uri"
  shows "(CHR ''*'' \<notin> set uri \<longrightarrow>
        (\<exists>cp. compilePath rc (normalizeApisixURI uri) = Inr cp \<and> (\<forall>path. pathMatches cp path \<longleftrightarrow> path = rooted uri)))
    \<and> (\<forall>p. rooted uri = p @ ''*'' \<and> \<not> HasSuffix p ''*'' \<longrightarrow>
        (\<exists>cp. compilePath rc (normalizeApisixURI uri) = Inr cp \<and> (\<forall>path. pathMatches cp path \<longleftrightarrow> HasPrefix path p)))
    \<and> (CHR ''*'' \<in> set uri \<and> \<not> HasSuffix uri ''*'' \<longrightarrow>
        compilePath rc (normalizeApisixURI uri) = regexPath rc '''' (apisixWildcardToRegex (rooted uri)))"
proof (intro conjI allI impI)
  obtain r where r: "rooted uri = CHR ''/'' # r" using rooted_plain(1) [OF assms] by blast
  note plain = rooted_plain(2) [OF assms]
  {
    assume "CHR ''*'' \<notin> set uri"
    then have "compilePath rc (normalizeApisixURI uri) = Inr (exactPath (rooted uri))"
      using compile_exact [OF r plain] by (simp add: normalize_plain [OF assms])
    then show "\<exists>cp. compilePath rc (normalizeApisixURI uri) = Inr cp \<and> (\<forall>path. pathMatches cp path \<longleftrightarrow> path = rooted uri)"
      by (auto simp: pathMatches_def exactPath_def)
  next
    fix p assume p: "rooted uri = p @ ''*'' \<and> \<not> HasSuffix p ''*''"
    then have "HasSuffix uri ''*''" "CHR ''*'' \<in> set uri"
      using rooted_plain(3,4) [OF assms] by simp_all
    then have norm: "normalizeApisixURI uri = p" using p normalize_plain [OF assms] by simp
    obtain q where q: "p = CHR ''/'' # q" using p r by (cases p) auto
    have "compilePath rc p = Inr (prefixPath p)"
      using compile_prefix [OF q] plain p by simp
    then show "\<exists>cp. compilePath rc (normalizeApisixURI uri) = Inr cp \<and> (\<forall>path. pathMatches cp path \<longleftrightarrow> HasPrefix path p)"
      unfolding norm by (auto simp: pathMatches_def prefixPath_def)
  next
    assume "CHR ''*'' \<in> set uri \<and> \<not> HasSuffix uri ''*''"
    then show "compilePath rc (normalizeApisixURI uri) = regexPath rc '''' (apisixWildcardToRegex (rooted uri))"
      using compile_regex by (simp add: normalize_plain [OF assms])
  }
qed

theorem normalizeApisixURI_meaning_witness:
  "(\<exists>cp. compilePath noRegex (normalizeApisixURI ''api/*'') = Inr cp
      \<and> pathMatches cp ''/api/x'' \<and> \<not> pathMatches cp ''/apix'')
   \<and> (\<exists>cp. compilePath noRegex (normalizeApisixURI ''/a/*/b/*'') = Inr cp \<and> \<not> pathMatches cp ''/a/x/b/y'')"
proof (rule conjI)
  have "plainURI ''api/*''" "plainURI ''/a/*/b/*''" by code_simp+
  then obtain cp cp' where "compilePath noRegex (normalizeApisixURI ''api/*'') = Inr cp"
    "\<forall>path. pathMatches cp path \<longleftrightarrow> HasPrefix path ''/api/''"
    "compilePath noRegex (normalizeApisixURI ''/a/*/b/*'') = Inr cp'"
    "\<forall>path. pathMatches cp' path \<longleftrightarrow> HasPrefix path ''/a/*/b/''"
    using normalizeApisixURI_meaning [of "''api/*''" noRegex] normalizeApisixURI_meaning [of "''/a/*/b/*''" noRegex]
    by (auto simp: rooted_def HasSuffix_def)
  moreover have "HasPrefix ''/api/x'' ''/api/''" "\<not> HasPrefix ''/apix'' ''/api/''" "\<not> HasPrefix ''/a/x/b/y'' ''/a/*/b/''"
    by code_simp+
  ultimately show "\<exists>cp. compilePath noRegex (normalizeApisixURI ''api/*'') = Inr cp
      \<and> pathMatches cp ''/api/x'' \<and> \<not> pathMatches cp ''/apix''"
    "\<exists>cp. compilePath noRegex (normalizeApisixURI ''/a/*/b/*'') = Inr cp \<and> \<not> pathMatches cp ''/a/x/b/y''"
    by blast+
qed

text \<open>
  One inline upstream can refuse a whole snapshot: a route whose inline upstream has an unsupported
  scheme makes the translation fail, while an upstream resource with that scheme is skipped.
\<close>

theorem inline_scheme_refuses_all:
  assumes "listen \<noteq> []" and "apisixGlobalRulesToPlugins (ss_GlobalRules s) = Inr gps"
    and "distinct (map fst (ss_Routes s))"
    and "(k, route) \<in> set (ss_Routes s)" and "apisixRouteToConfig route (ss_PluginConfig s) = Inr rt"
    and "ar_ServiceID route = []" and "ar_UpstreamID route = []" and "ar_Upstream route = Some inline"
    and "apisixUpstreamToConfig inline = Inr u" and "upstream_Scheme u \<notin> {'''', ''http'', ''https''}"
  shows "(\<exists>e. ApisixSnapshotToConfig s listen = Inl (ConfigInvalid e))
    \<and> translateUpstreams ((i, inline) # ups) out = translateUpstreams ups out"
proof
  have "map_of (Upstreams (assembled s listen gps)) (routeUpstreamID k) = Some (u\<lparr>upstream_ID := routeUpstreamID k\<rparr>)"
    unfolding assembled_def by (rule translateRoutes_inline [OF assms(4,3,5-9)])
  then have "(routeUpstreamID k, u\<lparr>upstream_ID := routeUpstreamID k\<rparr>) \<in> set (Upstreams (assembled s listen gps))"
    by (rule map_of_SomeD)
  moreover have "\<not> upstream_ok ps (u\<lparr>upstream_ID := routeUpstreamID k\<rparr>)" for ps
    using assms(10) by (simp add: upstream_ok_def)
  ultimately have "\<not> well_formed (assembled s listen gps)"
    unfolding well_formed_def by blast
  then show "\<exists>e. ApisixSnapshotToConfig s listen = Inl (ConfigInvalid e)"
    using assms(1,2) Validate_well_formed [of "assembled s listen gps"]
    by (cases "Validate (assembled s listen gps)") (simp_all add: ApisixSnapshotToConfig_def Let_def)
  show "translateUpstreams ((i, inline) # ups) out = translateUpstreams ups out"
    using assms(9,10) by simp
qed

theorem inline_scheme_refuses_all_witness:
  "\<exists>e. ApisixSnapshotToConfig (sampleSnapshot\<lparr>ss_Routes := [(''r1'', sampleApisixRoute),
      (''r2'', sampleApisixRoute\<lparr>ar_ServiceID := [], ar_Upstream := Some grpcUpstream\<rparr>)]\<rparr>) '':80'' = Inl (ConfigInvalid e)"
proof -
  let ?route = "sampleApisixRoute\<lparr>ar_ServiceID := [], ar_Upstream := Some grpcUpstream\<rparr>"
  let ?s = "sampleSnapshot\<lparr>ss_Routes := [(''r1'', sampleApisixRoute), (''r2'', ?route)]\<rparr>"
  have "apisixGlobalRulesToPlugins (ss_GlobalRules ?s) = Inr []" by code_simp
  moreover have "\<not> isl (apisixRouteToConfig ?route (ss_PluginConfig ?s))" by code_simp
  then obtain rt where "apisixRouteToConfig ?route (ss_PluginConfig ?s) = Inr rt" by (metis isl_def sum.exhaust)
  moreover have "\<not> isl (apisixUpstreamToConfig grpcUpstream)"
    "upstream_Scheme (projr (apisixUpstreamToConfig grpcUpstream)) = ''grpc''" by code_simp+
  then obtain u where "apisixUpstreamToConfig grpcUpstream = Inr u" "upstream_Scheme u = ''grpc''"
    by (metis isl_def sum.exhaust sum.sel(2))
  ultimately show ?thesis
    using inline_scheme_refuses_all [of "'':80''" ?s "[]" "''r2''" ?route rt grpcUpstream u]
    by (simp add: sampleApisixRoute_def)
qed

lemma distinct_mergeApisixPluginMaps:
  "distinct (map fst dst) \<Longrightarrow> distinct (map fst (mergeApisixPluginMaps dst src))"
  by (induction dst src rule: mergeApisixPluginMaps.induct)
    (auto simp: map_delete_def distinct_delete)

lemma apisixPluginsToRefs_sorted:
  assumes "distinct (map fst m)"
  shows "\<exists>eff. apisixPluginsToRefs m = translateAll eff \<and> sorted (map fst eff) \<and> distinct (map fst eff)
    \<and> map_of eff = map_of m"
proof -
  let ?eff = "map (\<lambda>name. (name, map_get ANil m name)) (sort (map fst m))"
  have "map_of ?eff name = map_of m name" for name
  proof (cases "map_of m name")
    case None
    then have "name \<notin> set (sort (map fst m))" by (simp add: map_of_eq_None_iff)
    with None show ?thesis by (simp add: map_of_graph)
  next
    case (Some raw)
    then have "name \<in> set (sort (map fst m))" using in_keys [of m name] by simp
    with Some show ?thesis by (simp add: map_of_graph map_get_def)
  qed
  moreover have "map fst ?eff = sort (map fst m)" by (simp add: comp_def)
  ultimately show ?thesis
    using assms by (intro exI [of _ ?eff]) (simp add: apisixPluginsToRefs_def Let_def fun_eq_iff)
qed

text \<open>
  Plugins of a plugin configuration and of the resource itself are merged by name: an inline
  definition replaces the shared one, a disabled one removes the plugin, and the plugins in force
  are translated in the order of their names.
\<close>

theorem apisixMergePlugins_effective:
  assumes "c \<noteq> []" and "map_of pcs c = Some pc" and "decodeApisixPlugins (pc_Plugins pc) = Inr shared"
    and "decodeApisixPlugins inline = Inr own" and "distinct (map fst shared)" and "distinct (map fst own)"
  shows "\<exists>eff. apisixMergePlugins c inline pcs = translateAll eff \<and> sorted (map fst eff) \<and> distinct (map fst eff)
    \<and> map_of eff = effective shared own"
proof -
  let ?m = "mergeApisixPluginMaps (mergeApisixPluginMaps [] shared) own"
  have "distinct (map fst ?m)" by (intro distinct_mergeApisixPluginMaps) simp
  moreover have "map_of ?m = effective shared own"
    using assms(5,6) by (auto simp: effective_def map_of_mergeApisixPluginMaps fun_eq_iff split: option.split)
  moreover have "apisixMergePlugins c inline pcs = apisixPluginsToRefs ?m"
    using assms(1-4) by (simp add: apisixMergePlugins_def)
  ultimately show ?thesis using apisixPluginsToRefs_sorted [of ?m] by simp
qed

theorem apisixMergePlugins_effective_witness:
  "\<exists>eff. apisixMergePlugins ''c1'' (Some (AMap ownPlugins)) [(''c1'', \<lparr>pc_ID = ''c1'', pc_Plugins = Some (AMap sharedPlugins)\<rparr>)]
      = translateAll eff \<and> map_of eff ''request-id'' = Some (AMap []) \<and> map_of eff ''limit-count'' = None"
proof -
  let ?pc = "\<lparr>pc_ID = ''c1'', pc_Plugins = Some (AMap sharedPlugins)\<rparr>"
  have "distinct (map fst sharedPlugins)" "distinct (map fst ownPlugins)" by code_simp+
  then obtain eff where eff: "apisixMergePlugins ''c1'' (Some (AMap ownPlugins)) [(''c1'', ?pc)] = translateAll eff"
      "map_of eff = effective sharedPlugins ownPlugins"
    using apisixMergePlugins_effective [of "''c1''" "[(''c1'', ?pc)]" ?pc sharedPlugins "Some (AMap ownPlugins)" ownPlugins]
    by (auto simp: decodeApisixPlugins_def decodeMap_def)
  moreover have "effective sharedPlugins ownPlugins ''request-id'' = Some (AMap [])"
    "effective sharedPlugins ownPlugins ''limit-count'' = None" by code_simp+
  ultimately show ?thesis by metis
qed

end
