(* ===== verification/Etcd_Keys.thy ===== *)
theory Etcd_Keys
  imports Go_Prelude
begin

text \<open>
  The keys under which resources live in etcd: \<^verbatim>\<open>path.Clean\<close> and \<^verbatim>\<open>path.Join\<close> of Go's
  library, \<^verbatim>\<open>normalizePrefix\<close>, the keys that the control plane writes
  (\<^verbatim>\<open>internal/controlplane/etcdstore.go\<close>) and the keys that the gateway reads
  (\<^verbatim>\<open>internal/provider/provider.go\<close>).
\<close>

section \<open>Paths\<close>

text \<open>The segments of a cleaned path; \<open>out\<close> holds the segments so far, the last one first.\<close>

fun cleanSegments :: "bool \<Rightarrow> string list \<Rightarrow> string list \<Rightarrow> string list" where
  "cleanSegments rtd [] out = rev out"
| "cleanSegments rtd (seg # segs) out =
     (if seg = [] \<or> seg = ''.'' then cleanSegments rtd segs out
      else if seg = ''..'' then
        (case out of
           [] \<Rightarrow> cleanSegments rtd segs (if rtd then [] else [''..''])
         | o' # os \<Rightarrow> cleanSegments rtd segs (if o' = ''..'' then ''..'' # out else os))
      else cleanSegments rtd segs (seg # out))"

definition Clean :: "string \<Rightarrow> string" where
  "Clean p =
     (if p = [] then ''.''
      else
        let rtd = HasPrefix p ''/'';
            body = Join (cleanSegments rtd (Split p CHR ''/'') []) ''/''
        in if rtd then ''/'' @ body else if body = [] then ''.'' else body)"

definition pathJoin :: "string list \<Rightarrow> string" where
  "pathJoin elems =
     (let parts = filter (\<lambda>e. e \<noteq> []) elems
      in if parts = [] then [] else Clean (Join parts ''/''))"

section \<open>Prefixes and keys\<close>

definition normalizePrefix :: "string \<Rightarrow> string" where
  "normalizePrefix prefix0 =
     (let prefix = TrimSpace prefix0 in
      if prefix = [] then ''/apisix''
      else TrimRight (if \<not> HasPrefix prefix ''/'' then ''/'' @ prefix else prefix) ''/'')"

definition kindRoot :: "string \<Rightarrow> string \<Rightarrow> string" where
  "kindRoot prefix kind = pathJoin [prefix, kind] @ ''/''"

definition resourceKey :: "string \<Rightarrow> string \<Rightarrow> string \<Rightarrow> string" where
  "resourceKey prefix kind i = pathJoin [prefix, kind, i]"

definition resourceRoot :: "string \<Rightarrow> string" where
  "resourceRoot prefix = pathJoin [prefix, ''/''] @ ''/''"

text \<open>\<^verbatim>\<open>strings.SplitN(relative, "/", 2)\<close> has two parts exactly when there is a slash.\<close>

definition parseResourceKey :: "string \<Rightarrow> string \<Rightarrow> (string \<times> string) option" where
  "parseResourceKey prefix key =
     (let root = pathJoin [prefix, ''/''] @ ''/'' in
      if \<not> HasPrefix key root then None
      else case Cut (TrimPrefix key root) CHR ''/'' of
        None \<Rightarrow> None
      | Some (kind, i) \<Rightarrow> if kind = [] \<or> i = [] then None else Some (kind, i))"

section \<open>Notions used in the statements\<close>

text \<open>A path segment that cleaning leaves alone.\<close>

definition plainSegment :: "string \<Rightarrow> bool" where
  "plainSegment s \<longleftrightarrow> s \<noteq> [] \<and> s \<noteq> ''.'' \<and> s \<noteq> ''..'' \<and> CHR ''/'' \<notin> set s"

text \<open>A prefix that names a directory below the root.\<close>

definition properPrefix :: "string \<Rightarrow> bool" where
  "properPrefix prefix \<longleftrightarrow> HasPrefix prefix ''/'' \<and> cleanSegments True (Split prefix CHR ''/'') [] \<noteq> []"

section \<open>Facts about paths\<close>

lemma Join_append: "xs \<noteq> [] \<Longrightarrow> ys \<noteq> [] \<Longrightarrow> Join (xs @ ys) sep = Join xs sep @ sep @ Join ys sep"
proof (induction xs)
  case (Cons x xs)
  then show ?case by (cases xs; cases ys) auto
qed simp

text \<open>Plain segments at the end are kept.\<close>

lemma cleanSegments_plain: "\<forall>s\<in>set ps. plainSegment s \<Longrightarrow> cleanSegments rtd ps out = rev out @ ps"
  by (induction ps arbitrary: out) (auto simp: plainSegment_def)

lemma cleanSegments_append:
  "\<forall>s\<in>set ps. plainSegment s \<Longrightarrow> cleanSegments rtd (segs @ ps) out = cleanSegments rtd segs out @ ps"
  by (induction rtd segs out rule: cleanSegments.induct) (auto simp: cleanSegments_plain split: list.splits)

lemma cleanSegments_slash: "cleanSegments rtd (segs @ [[], []]) out = cleanSegments rtd segs out"
  by (induction rtd segs out rule: cleanSegments.induct) (auto split: list.splits)

text \<open>A parent segment undoes the segment before it.\<close>

lemma cleanSegments_up:
  "plainSegment k \<Longrightarrow> cleanSegments rtd (segs @ k # ''..'' # ps) out = cleanSegments rtd (segs @ ps) out"
  by (induction rtd segs out rule: cleanSegments.induct) (auto simp: plainSegment_def split: list.splits)

lemma Join_two [simp]: "Join [a, b] sep = a @ sep @ b" "Join [a, b, c] sep = a @ sep @ b @ sep @ c"
  by simp_all

lemma properPrefix_nonempty: "properPrefix p \<Longrightarrow> p \<noteq> []"
  by (auto simp: properPrefix_def)

lemma Clean_proper:
  "properPrefix p \<Longrightarrow> Clean p = ''/'' @ Join (cleanSegments True (Split p CHR ''/'') []) ''/''"
  by (auto simp: Clean_def properPrefix_def Let_def)

lemma pathJoin_root: "properPrefix p \<Longrightarrow> pathJoin [p, ''/''] = Clean p"
proof -
  assume p: "properPrefix p"
  have "Split (p @ ''//'') CHR ''/'' = Split p CHR ''/'' @ [[], []]"
    using Split_append [of p "CHR ''/''" "''/''"] by simp
  with p properPrefix_nonempty [OF p] show ?thesis
    by (auto simp: pathJoin_def Clean_def properPrefix_def Let_def HasPrefix_iff cleanSegments_slash)
qed

lemma pathJoin_key:
  assumes "properPrefix p" and "plainSegment k" and "plainSegment i"
  shows "pathJoin [p, k, i] = Clean p @ ''/'' @ k @ ''/'' @ i" and "pathJoin [p, k] = Clean p @ ''/'' @ k"
proof -
  have ne: "p \<noteq> []" "k \<noteq> []" "i \<noteq> []" and pre: "HasPrefix (p @ x) ''/''" for x
    using assms by (auto simp: properPrefix_def plainSegment_def HasPrefix_iff)
  have "Split (p @ ''/'' @ k @ ''/'' @ i) CHR ''/'' = Split p CHR ''/'' @ [k, i]"
    "Split (p @ ''/'' @ k) CHR ''/'' = Split p CHR ''/'' @ [k]"
    using assms(2,3) Split_append [of p "CHR ''/''"] Split_append [of k "CHR ''/''"]
    by (auto simp: plainSegment_def Split_no_sep)
  moreover have "cleanSegments True (Split p CHR ''/'' @ [k, i]) [] = cleanSegments True (Split p CHR ''/'') [] @ [k, i]"
    "cleanSegments True (Split p CHR ''/'' @ [k]) [] = cleanSegments True (Split p CHR ''/'') [] @ [k]"
    using assms(2,3) by (auto intro: cleanSegments_append)
  moreover have "cleanSegments True (Split p CHR ''/'') [] \<noteq> []" using assms(1) by (simp add: properPrefix_def)
  ultimately show "pathJoin [p, k, i] = Clean p @ ''/'' @ k @ ''/'' @ i" "pathJoin [p, k] = Clean p @ ''/'' @ k"
    using ne pre Clean_proper [OF assms(1)] by (auto simp: pathJoin_def Clean_def Let_def Join_append)
qed

lemma resourceKey_plain:
  "properPrefix p \<Longrightarrow> plainSegment k \<Longrightarrow> plainSegment i \<Longrightarrow> resourceKey p k i = Clean p @ ''/'' @ k @ ''/'' @ i"
  by (simp add: resourceKey_def pathJoin_key)

lemma kindRoot_plain: "properPrefix p \<Longrightarrow> plainSegment k \<Longrightarrow> kindRoot p k = Clean p @ ''/'' @ k @ ''/''"
  using pathJoin_key(2) [of p k k] by (simp add: kindRoot_def)

lemma parse_plain:
  assumes "properPrefix p" and "plainSegment k" and "i \<noteq> []"
  shows "parseResourceKey p (Clean p @ ''/'' @ k @ ''/'' @ i) = Some (k, i)"
proof -
  let ?root = "Clean p @ ''/''"
  have root: "pathJoin [p, ''/''] @ ''/'' = ?root" using pathJoin_root [OF assms(1)] by simp
  have key: "Clean p @ ''/'' @ k @ ''/'' @ i = ?root @ k @ CHR ''/'' # i" by simp
  have "Cut (k @ CHR ''/'' # i) CHR ''/'' = Some (k, i)" using assms(2) by (simp add: Cut_append plainSegment_def)
  then show ?thesis
    unfolding parseResourceKey_def Let_def root key using assms(2,3)
    by (simp only: HasPrefix_append TrimPrefix_append option.case prod.case plainSegment_def) simp
qed

lemma resourceKey_inject:
  assumes "properPrefix p" and "plainSegment k" "plainSegment i" "plainSegment k'" "plainSegment i'"
  shows "resourceKey p k i = resourceKey p k' i' \<longleftrightarrow> k = k' \<and> i = i'"
proof
  assume "resourceKey p k i = resourceKey p k' i'"
  then have "parseResourceKey p (Clean p @ ''/'' @ k @ ''/'' @ i) = parseResourceKey p (Clean p @ ''/'' @ k' @ ''/'' @ i')"
    using assms by (simp only: resourceKey_plain)
  then show "k = k' \<and> i = i'"
    using parse_plain [OF assms(1,2), of i] parse_plain [OF assms(1,4), of i'] assms by (simp add: plainSegment_def)
qed simp

section \<open>Results\<close>

text \<open>
  C21. The key that the control plane writes is the key that the gateway reads: below every prefix that
  is not the root, the key of a resource is parsed back to its kind and identifier, as long as both
  are plain path segments.
\<close>

theorem resource_key_roundtrip:
  assumes "properPrefix (normalizePrefix prefix)" and "plainSegment kind" and "plainSegment i"
  shows "parseResourceKey (normalizePrefix prefix) (resourceKey (normalizePrefix prefix) kind i) = Some (kind, i)"
  using assms parse_plain [OF assms(1,2), of i] by (simp only: resourceKey_plain) (simp add: plainSegment_def)

theorem resource_key_roundtrip_witness:
  "parseResourceKey (normalizePrefix ''lumen/prod/'') (resourceKey (normalizePrefix ''lumen/prod/'') ''routes'' ''42'')
     = Some (''routes'', ''42'')"
proof -
  have "properPrefix (normalizePrefix ''lumen/prod/'')" "plainSegment ''routes''" "plainSegment ''42''" by code_simp+
  then show ?thesis by (rule resource_key_roundtrip)
qed

text \<open>
  Identifiers are not confined to their kind: an identifier with a parent segment names a resource
  of another kind, so a write to one kind can replace a resource of another. With the root as the
  prefix the two sides use different keys and the gateway reads nothing of what is written.
\<close>

theorem resource_key_escapes:
  "(\<forall>p k k' i. properPrefix p \<and> plainSegment k \<and> plainSegment k' \<and> plainSegment i \<longrightarrow>
      resourceKey p k (''../'' @ k' @ ''/'' @ i) = resourceKey p k' i)
   \<and> parseResourceKey (normalizePrefix ''/'') (resourceKey (normalizePrefix ''/'') ''routes'' ''42'') = None"
proof (intro conjI allI impI)
  fix p k k' i assume "properPrefix p \<and> plainSegment k \<and> plainSegment k' \<and> plainSegment i"
  then have ok: "properPrefix p" "plainSegment k" "plainSegment k'" "plainSegment i" by blast+
  have "Split (p @ ''/'' @ k @ ''/'' @ ''../'' @ k' @ ''/'' @ i) CHR ''/'' = Split p CHR ''/'' @ [k, ''..'', k', i]"
    "Split (p @ ''/'' @ k' @ ''/'' @ i) CHR ''/'' = Split p CHR ''/'' @ [k', i]"
    using ok Split_append [of p "CHR ''/''"] Split_append [of k "CHR ''/''"] Split_append [of k' "CHR ''/''"]
    by (auto simp: plainSegment_def Split_no_sep)
  moreover have "HasPrefix (p @ x) ''/''" for x using ok(1) by (auto simp: properPrefix_def HasPrefix_iff)
  moreover have "p \<noteq> []" "k \<noteq> []" "k' \<noteq> []" "i \<noteq> []"
    using ok by (auto simp: properPrefix_def plainSegment_def)
  ultimately show "resourceKey p k (''../'' @ k' @ ''/'' @ i) = resourceKey p k' i"
    using cleanSegments_up [OF ok(2), of True "Split p CHR ''/''" "[k', i]" "[]"]
    by (simp add: resourceKey_def pathJoin_def Clean_def Let_def)
next
  show "parseResourceKey (normalizePrefix ''/'') (resourceKey (normalizePrefix ''/'') ''routes'' ''42'') = None"
    by code_simp
qed

theorem resource_key_escapes_witness:
  "resourceKey ''/apisix'' ''routes'' ''../upstreams/1'' = resourceKey ''/apisix'' ''upstreams'' ''1''"
proof -
  have "properPrefix ''/apisix'' \<and> plainSegment ''routes'' \<and> plainSegment ''upstreams'' \<and> plainSegment ''1''" by code_simp
  from mp [OF spec [OF spec [OF spec [OF spec [OF conjunct1 [OF resource_key_escapes], of "''/apisix''"], of "''routes''"],
      of "''upstreams''"], of "''1''"] this] show ?thesis by simp
qed

end
