(* ===== verification/Controlplane.thy ===== *)
theory Controlplane
  imports Etcd_Keys Apisix
begin

text \<open>
  The control plane: resources in a store (\<^verbatim>\<open>internal/controlplane/controlplane.go\<close>), the etcd
  store behind it (\<^verbatim>\<open>etcdstore.go\<close>), bundles of resources, their application and export
  (\<^verbatim>\<open>filebundle.go\<close>), and the plan of an application (\<^verbatim>\<open>preview.go\<close>).

  \<^item> The interface \<^verbatim>\<open>Store\<close> is a record of operations that transform the state \<open>'s\<close> of the
    outside world and return an error or a result; \<^verbatim>\<open>etcdKVClient\<close> is such a record for etcd.
    Every operation may fail, and a failed operation may have changed the state.
  \<^item> A document is the value it denotes, see \<open>Json\<close>. \<^verbatim>\<open>now\<close> reads the clock in seconds,
    \<^verbatim>\<open>nano\<close> in nanoseconds, both from the state.
  \<^item> An error is known by its class, which is what \<^verbatim>\<open>errors.Is\<close> looks for; \<open>StoreFailed\<close> is any
    other error, of etcd or of decoding a stored value.
\<close>

section \<open>Kinds, errors, envelopes\<close>

type_synonym ResourceKind = string

definition KindRoute :: ResourceKind where "KindRoute = ''routes''"
definition KindService :: ResourceKind where "KindService = ''services''"
definition KindUpstream :: ResourceKind where "KindUpstream = ''upstreams''"
definition KindPluginConfig :: ResourceKind where "KindPluginConfig = ''plugin_configs''"
definition KindGlobalRule :: ResourceKind where "KindGlobalRule = ''global_rules''"

definition supportedKinds :: "ResourceKind list" where
  "supportedKinds = [KindRoute, KindService, KindUpstream, KindPluginConfig, KindGlobalRule]"

definition SupportedKinds :: "ResourceKind list" where
  "SupportedKinds = supportedKinds"

definition ParseKind :: "string \<Rightarrow> ResourceKind \<times> bool" where
  "ParseKind raw = (raw, raw \<in> set supportedKinds)"

datatype cp_error =
    ErrUnsupportedKind
  | ErrNotFound
  | ErrInvalidBody
  | StoreFailed string

definition validateKind :: "ResourceKind \<Rightarrow> cp_error option" where
  "validateKind kind = (if kind \<in> set supportedKinds then None else Some ErrUnsupportedKind)"

record Envelope =
  env_Key :: string
  env_Value :: RawMessage
  env_CreatedIndex :: int
  env_ModifiedIndex :: int

record DeleteResult =
  del_Key :: string
  del_Deleted :: int

type_synonym ('s, 'a) op = "'s \<Rightarrow> 's \<times> (cp_error + 'a)"

record 's Store =
  st_List :: "ResourceKind \<Rightarrow> ('s, Envelope list) op"
  st_Get :: "ResourceKind \<Rightarrow> string \<Rightarrow> ('s, Envelope) op"
  st_Put :: "ResourceKind \<Rightarrow> string \<Rightarrow> RawMessage \<Rightarrow> ('s, Envelope) op"
  st_Delete :: "ResourceKind \<Rightarrow> string \<Rightarrow> ('s, DeleteResult) op"

section \<open>The etcd store\<close>

record KeyValue =
  kv_Key :: string
  kv_Value :: RawMessage
  kv_CreateRevision :: int
  kv_ModRevision :: int

text \<open>The client of etcd; \<open>ec_GetPrefix\<close> is \<^verbatim>\<open>Get\<close> with the option \<^verbatim>\<open>WithPrefix\<close>. An error
  carries its message.\<close>

record 's etcdKVClient =
  ec_Get :: "string \<Rightarrow> 's \<Rightarrow> 's \<times> (string + KeyValue list)"
  ec_GetPrefix :: "string \<Rightarrow> 's \<Rightarrow> 's \<times> (string + KeyValue list)"
  ec_Put :: "string \<Rightarrow> RawMessage \<Rightarrow> 's \<Rightarrow> 's \<times> (string + unit)"
  ec_Delete :: "string \<Rightarrow> 's \<Rightarrow> 's \<times> (string + int)"

record 's EtcdStore =
  es_client :: "'s etcdKVClient"
  es_prefix :: string

definition NewEtcdStoreWithClient :: "'s etcdKVClient \<Rightarrow> string \<Rightarrow> 's EtcdStore" where
  "NewEtcdStoreWithClient client prefix = \<lparr>es_client = client, es_prefix = normalizePrefix prefix\<rparr>"

text \<open>An etcd value is the resource itself or an object with the resource under \<^verbatim>\<open>value\<close>;
  \<^term>\<open>Inr None\<close> is the result \<^verbatim>\<open>ok = false\<close>.\<close>

definition kvToEnvelope :: "KeyValue \<Rightarrow> cp_error + Envelope option" where
  "kvToEnvelope kv =
     (let wrapped = (case decodeMap (kv_Value kv) of None \<Rightarrow> None | Some m \<Rightarrow> jsonField ''value'' m);
          value = (if wrapped \<noteq> None then wrapped else kv_Value kv)
      in if wrapped = None \<and> kv_Value kv = None then Inl (StoreFailed ''decode etcd value'')
         else if value = None then Inr None
         else Inr (Some \<lparr>env_Key = kv_Key kv, env_Value = value, env_CreatedIndex = kv_CreateRevision kv,
                         env_ModifiedIndex = kv_ModRevision kv\<rparr>))"

fun listLoop :: "string \<Rightarrow> KeyValue list \<Rightarrow> cp_error + Envelope list" where
  "listLoop rootKey [] = Inr []"
| "listLoop rootKey (kv # kvs) =
     (if kv_Key kv = rootKey \<or> kv_Key kv = TrimSuffix rootKey ''/'' then listLoop rootKey kvs
      else case kvToEnvelope kv of
        Inl e \<Rightarrow> Inl e
      | Inr env \<Rightarrow>
          (case listLoop rootKey kvs of
             Inl e \<Rightarrow> Inl e
           | Inr envs \<Rightarrow> Inr (case env of None \<Rightarrow> envs | Some e \<Rightarrow> e # envs)))"

definition etcdList :: "'s EtcdStore \<Rightarrow> ResourceKind \<Rightarrow> ('s, Envelope list) op" where
  "etcdList es kind s =
     (let rootKey = kindRoot (es_prefix es) kind in
      case ec_GetPrefix (es_client es) rootKey s of
        (s, Inl err) \<Rightarrow> (s, Inl (StoreFailed err))
      | (s, Inr kvs) \<Rightarrow>
          (case listLoop rootKey kvs of
             Inl e \<Rightarrow> (s, Inl e)
           | Inr items \<Rightarrow> (s, Inr (sort_key env_Key items))))"

definition etcdGet :: "'s EtcdStore \<Rightarrow> ResourceKind \<Rightarrow> string \<Rightarrow> ('s, Envelope) op" where
  "etcdGet es kind i s =
     (case ec_Get (es_client es) (resourceKey (es_prefix es) kind i) s of
        (s, Inl err) \<Rightarrow> (s, Inl (StoreFailed err))
      | (s, Inr []) \<Rightarrow> (s, Inl ErrNotFound)
      | (s, Inr (kv # _)) \<Rightarrow>
          (case kvToEnvelope kv of
             Inl e \<Rightarrow> (s, Inl e)
           | Inr None \<Rightarrow> (s, Inl ErrNotFound)
           | Inr (Some env) \<Rightarrow> (s, Inr env)))"

definition etcdPut :: "'s EtcdStore \<Rightarrow> ResourceKind \<Rightarrow> string \<Rightarrow> RawMessage \<Rightarrow> ('s, Envelope) op" where
  "etcdPut es kind i body s =
     (case ec_Put (es_client es) (resourceKey (es_prefix es) kind i) body s of
        (s, Inl err) \<Rightarrow> (s, Inl (StoreFailed err))
      | (s, Inr _) \<Rightarrow> etcdGet es kind i s)"

definition etcdDelete :: "'s EtcdStore \<Rightarrow> ResourceKind \<Rightarrow> string \<Rightarrow> ('s, DeleteResult) op" where
  "etcdDelete es kind i s =
     (let key = resourceKey (es_prefix es) kind i in
      case ec_Delete (es_client es) key s of
        (s, Inl err) \<Rightarrow> (s, Inl (StoreFailed err))
      | (s, Inr n) \<Rightarrow> (s, Inr \<lparr>del_Key = key, del_Deleted = n\<rparr>))"

definition etcdStore :: "'s EtcdStore \<Rightarrow> 's Store" where
  "etcdStore es = \<lparr>st_List = etcdList es, st_Get = etcdGet es, st_Put = etcdPut es, st_Delete = etcdDelete es\<rparr>"

section \<open>Documents\<close>

definition decodeJSONObject :: "RawMessage \<Rightarrow> cp_error + (string \<times> any) list" where
  "decodeJSONObject data = (case decodeMap data of None \<Rightarrow> Inl ErrInvalidBody | Some m \<Rightarrow> Inr m)"

definition NormalizeResourceBody :: "RawMessage \<Rightarrow> string \<Rightarrow> cp_error + RawMessage" where
  "NormalizeResourceBody data i =
     (case decodeJSONObject data of
        Inl e \<Rightarrow> Inl e
      | Inr decoded \<Rightarrow> Inr (Some (jsonify (AMap (map_put ''id'' (AString i) decoded)))))"

definition ExtractResourceID :: "RawMessage \<Rightarrow> cp_error + string" where
  "ExtractResourceID data =
     (case decodeMap data of
        None \<Rightarrow> Inl ErrInvalidBody
      | Some decoded \<Rightarrow>
          Inr (case map_get ANil decoded ''id'' of
                 AString value \<Rightarrow> value
               | ANil \<Rightarrow> []
               | AFloat value \<Rightarrow> Itoa (int64_of value)
               | value \<Rightarrow> Sprint value))"

function mergeObject :: "(string \<times> any) list \<Rightarrow> (string \<times> any) list \<Rightarrow> (string \<times> any) list" where
  "mergeObject base [] = base"
| "mergeObject base ((key, patchValue) # patch) =
     mergeObject
       (if patchValue = ANil then map_delete key base
        else case map_of base key of
          None \<Rightarrow> map_put key patchValue base
        | Some baseValue \<Rightarrow>
            (case baseValue of
               AMap baseMap \<Rightarrow>
                 (case patchValue of
                    AMap patchMap \<Rightarrow> map_put key (AMap (mergeObject baseMap patchMap)) base
                  | _ \<Rightarrow> map_put key patchValue base)
             | _ \<Rightarrow> map_put key patchValue base)) patch"
  by pat_completeness auto

termination mergeObject
  by (relation "measure (\<lambda>(base, patch). size_list (size_prod (\<lambda>_. 0) size) patch)") auto

definition mergeJSON :: "RawMessage \<Rightarrow> RawMessage \<Rightarrow> cp_error + RawMessage" where
  "mergeJSON baseData patchData =
     (case decodeMap baseData of
        None \<Rightarrow> Inl ErrInvalidBody
      | Some baseValue \<Rightarrow>
          (case decodeMap patchData of
             None \<Rightarrow> Inl ErrInvalidBody
           | Some patchValue \<Rightarrow> Inr (Some (jsonify (AMap (mergeObject baseValue patchValue))))))"

section \<open>The service\<close>

text \<open>The resource operations of the service; the history is in its own section below.\<close>

definition ServiceList :: "'s Store \<Rightarrow> ResourceKind \<Rightarrow> ('s, Envelope list) op" where
  "ServiceList store kind s =
     (case validateKind kind of Some e \<Rightarrow> (s, Inl e) | None \<Rightarrow> st_List store kind s)"

definition ServiceGet :: "'s Store \<Rightarrow> ResourceKind \<Rightarrow> string \<Rightarrow> ('s, Envelope) op" where
  "ServiceGet store kind i s =
     (case validateKind kind of
        Some e \<Rightarrow> (s, Inl e)
      | None \<Rightarrow> if i = [] then (s, Inl ErrInvalidBody) else st_Get store kind i s)"

text \<open>The creation time: the one in the body, else the stored one, else now.\<close>

definition withCreateTime ::
    "'s Store \<Rightarrow> ResourceKind \<Rightarrow> string \<Rightarrow> int \<Rightarrow> (string \<times> any) list \<Rightarrow> ('s, (string \<times> any) list) op" where
  "withCreateTime store kind i now decoded s =
     (if map_of decoded ''create_time'' \<noteq> None then (s, Inr decoded)
      else case st_Get store kind i s of
        (s, Inr existing) \<Rightarrow>
          (case decodeJSONObject (env_Value existing) of
             Inl e \<Rightarrow> (s, Inl e)
           | Inr existingDecoded \<Rightarrow>
               (case map_of existingDecoded ''create_time'' of
                  Some created \<Rightarrow> (s, Inr (map_put ''create_time'' created decoded))
                | None \<Rightarrow> (s, Inr (map_put ''create_time'' (AInt now) decoded))))
      | (s, Inl getErr) \<Rightarrow>
          if getErr = ErrNotFound then (s, Inr (map_put ''create_time'' (AInt now) decoded))
          else (s, Inl getErr))"

definition normalizeForWrite ::
    "'s Store \<Rightarrow> ('s \<Rightarrow> int) \<Rightarrow> ResourceKind \<Rightarrow> string \<Rightarrow> RawMessage \<Rightarrow> ('s, RawMessage) op" where
  "normalizeForWrite store now kind i body s =
     (case decodeJSONObject body of
        Inl e \<Rightarrow> (s, Inl e)
      | Inr decoded \<Rightarrow>
          (let t = now s;
               decoded = map_put ''update_time'' (AInt t) (map_put ''id'' (AString i) decoded)
           in case withCreateTime store kind i t decoded s of
                (s, Inl e) \<Rightarrow> (s, Inl e)
              | (s, Inr decoded) \<Rightarrow> (s, Inr (Some (jsonify (AMap decoded))))))"

definition ServicePut ::
    "'s Store \<Rightarrow> ('s \<Rightarrow> int) \<Rightarrow> ResourceKind \<Rightarrow> string \<Rightarrow> RawMessage \<Rightarrow> ('s, Envelope) op" where
  "ServicePut store now kind i body s =
     (case validateKind kind of
        Some e \<Rightarrow> (s, Inl e)
      | None \<Rightarrow>
          if i = [] then (s, Inl ErrInvalidBody)
          else case normalizeForWrite store now kind i body s of
            (s, Inl e) \<Rightarrow> (s, Inl e)
          | (s, Inr normalized) \<Rightarrow> st_Put store kind i normalized s)"

definition generateResourceID :: "('s \<Rightarrow> int) \<Rightarrow> 's \<Rightarrow> string" where
  "generateResourceID nano s = Itoa (nano s)"

definition ServicePost ::
    "'s Store \<Rightarrow> ('s \<Rightarrow> int) \<Rightarrow> ('s \<Rightarrow> int) \<Rightarrow> ResourceKind \<Rightarrow> RawMessage \<Rightarrow> ('s, Envelope) op" where
  "ServicePost store now nano kind body s =
     (case validateKind kind of
        Some e \<Rightarrow> (s, Inl e)
      | None \<Rightarrow>
          (case ExtractResourceID body of
             Inl e \<Rightarrow> (s, Inl e)
           | Inr i0 \<Rightarrow>
               (let i = (if i0 = [] then generateResourceID nano s else i0) in
                case normalizeForWrite store now kind i body s of
                  (s, Inl e) \<Rightarrow> (s, Inl e)
                | (s, Inr normalized) \<Rightarrow> st_Put store kind i normalized s)))"

definition ServicePatch ::
    "'s Store \<Rightarrow> ('s \<Rightarrow> int) \<Rightarrow> ResourceKind \<Rightarrow> string \<Rightarrow> RawMessage \<Rightarrow> ('s, Envelope) op" where
  "ServicePatch store now kind i patch s =
     (case validateKind kind of
        Some e \<Rightarrow> (s, Inl e)
      | None \<Rightarrow>
          if i = [] then (s, Inl ErrInvalidBody)
          else case st_Get store kind i s of
            (s, Inl e) \<Rightarrow> (s, Inl e)
          | (s, Inr current) \<Rightarrow>
              (case mergeJSON (env_Value current) patch of
                 Inl e \<Rightarrow> (s, Inl e)
               | Inr merged \<Rightarrow>
                   (case normalizeForWrite store now kind i merged s of
                      (s, Inl e) \<Rightarrow> (s, Inl e)
                    | (s, Inr normalized) \<Rightarrow> st_Put store kind i normalized s)))"

definition ServiceDelete :: "'s Store \<Rightarrow> ResourceKind \<Rightarrow> string \<Rightarrow> ('s, DeleteResult) op" where
  "ServiceDelete store kind i s =
     (case validateKind kind of
        Some e \<Rightarrow> (s, Inl e)
      | None \<Rightarrow> if i = [] then (s, Inl ErrInvalidBody) else st_Delete store kind i s)"

end
