(* ===== verification/Resource_Summary.thy ===== *)
theory Resource_Summary
  imports Controlplane
begin

text \<open>
  The titles, summaries and warnings that the control plane shows for a resource or a planned change:
  the second half of \<^verbatim>\<open>internal/controlplane/preview.go\<close> and
  \<^verbatim>\<open>resource_summary.go\<close>. A Go slice in a summary, of strings or of any values, is an \<^const>\<open>AList\<close>.
\<close>

section \<open>Lookups\<close>

definition lookupString :: "(string \<times> any) list \<Rightarrow> string \<Rightarrow> string" where
  "lookupString value key = (case map_of value key of Some (AString text) \<Rightarrow> text | _ \<Rightarrow> [])"

definition lookupAny :: "(string \<times> any) list \<Rightarrow> string \<Rightarrow> any" where
  "lookupAny value key = map_get ANil value key"

definition firstStringArrayItem :: "(string \<times> any) list \<Rightarrow> string \<Rightarrow> string" where
  "firstStringArrayItem value key =
     (case map_of value key of Some (AList (AString first # _)) \<Rightarrow> first | _ \<Rightarrow> [])"

fun firstNonEmptyString :: "string list \<Rightarrow> string" where
  "firstNonEmptyString [] = []"
| "firstNonEmptyString (v # vs) = (if v \<noteq> [] then v else firstNonEmptyString vs)"

definition countNodes :: "(string \<times> any) list \<Rightarrow> int" where
  "countNodes value =
     (case map_of value ''nodes'' of
        Some (AMap m) \<Rightarrow> int (length m)
      | Some (AList xs) \<Rightarrow> int (length xs)
      | _ \<Rightarrow> 0)"

definition sortedPluginKeys :: "(string \<times> any) list \<Rightarrow> string list" where
  "sortedPluginKeys value =
     (case map_of value ''plugins'' of Some (AMap plugins) \<Rightarrow> sort (map fst plugins) | _ \<Rightarrow> [])"

definition compactSummary :: "(string \<times> any) list \<Rightarrow> (string \<times> any) list" where
  "compactSummary input =
     filter (\<lambda>(key, value). case value of ANil \<Rightarrow> False | AString s \<Rightarrow> s \<noteq> [] | AList xs \<Rightarrow> length xs \<noteq> 0 | _ \<Rightarrow> True) input"

section \<open>Summaries\<close>

definition summarizeChangeResource :: "ResourceKind \<Rightarrow> string \<Rightarrow> RawMessage \<Rightarrow> string \<times> (string \<times> any) list" where
  "summarizeChangeResource kind i raw =
     (case decodeMap raw of
        None \<Rightarrow> (kind @ ''/'' @ i, [(''id'', AString i)])
      | Some value \<Rightarrow>
          if kind = KindRoute then
            (firstNonEmptyString [lookupString value ''name'', lookupString value ''uri'', firstStringArrayItem value ''uris'', i],
             compactSummary
               [(''id'', AString i), (''uri'', AString (lookupString value ''uri'')), (''uris'', lookupAny value ''uris''),
                (''methods'', lookupAny value ''methods''),
                (''service_id'', AString (firstNonEmptyString [lookupString value ''service'', lookupString value ''service_id''])),
                (''upstream_id'', AString (lookupString value ''upstream_id'')), (''priority'', lookupAny value ''priority'')])
          else if kind = KindService then
            (firstNonEmptyString [lookupString value ''name'', i],
             compactSummary
               [(''id'', AString i),
                (''upstream_id'', AString (firstNonEmptyString [lookupString value ''upstream'', lookupString value ''upstream_id''])),
                (''plugin_config_id'', AString (lookupString value ''plugin_config_id''))])
          else if kind = KindUpstream then
            (firstNonEmptyString [lookupString value ''name'', i],
             compactSummary
               [(''id'', AString i), (''scheme'', AString (lookupString value ''scheme'')),
                (''pass_host'', AString (lookupString value ''pass_host'')),
                (''upstream_host'', AString (lookupString value ''upstream_host'')), (''nodes_count'', AInt (countNodes value))])
          else if kind = KindPluginConfig \<or> kind = KindGlobalRule then
            (firstNonEmptyString [lookupString value ''name'', i],
             compactSummary [(''id'', AString i), (''plugin_keys'', AList (map AString (sortedPluginKeys value)))])
          else (kind @ ''/'' @ i, compactSummary [(''id'', AString i)]))"

definition summaryLookupString :: "(string \<times> any) list \<Rightarrow> string \<Rightarrow> string" where
  "summaryLookupString flds key = (case map_of flds key of Some (AString value) \<Rightarrow> value | _ \<Rightarrow> [])"

definition stringValueWithPrefix :: "(string \<times> any) list \<Rightarrow> string \<Rightarrow> string \<Rightarrow> string" where
  "stringValueWithPrefix flds key pre =
     (let value = summaryLookupString flds key in if value = [] then [] else pre @ value)"

definition appendNonEmpty :: "string list \<Rightarrow> string list \<Rightarrow> string list" where
  "appendNonEmpty out values = out @ filter (\<lambda>v. v \<noteq> []) values"

definition firstMethod :: "(string \<times> any) list \<Rightarrow> string" where
  "firstMethod flds = (case map_of flds ''methods'' of Some (AList (AString value # _)) \<Rightarrow> value | _ \<Rightarrow> [])"

definition routeMatchTag :: "(string \<times> any) list \<Rightarrow> string" where
  "routeMatchTag flds =
     (let uri = summaryLookupString flds ''uri'' in
      if uri \<noteq> [] then uri
      else case map_of flds ''uris'' of Some (AList (AString value # _)) \<Rightarrow> value | _ \<Rightarrow> [])"

record ResourceSummary =
  rs_Title :: string
  rs_Description :: string
  rs_Tags :: "string list"
  rs_Fields :: "(string \<times> any) list"

text \<open>The separator is a middle dot between spaces, two bytes in UTF-8.\<close>

definition dotSeparator :: string where
  "dotSeparator = [CHR '' '', CHR 0xC2, CHR 0xB7, CHR '' '']"

definition SummarizeResource :: "ResourceKind \<Rightarrow> string \<Rightarrow> RawMessage \<Rightarrow> ResourceSummary" where
  "SummarizeResource kind i raw =
     (case summarizeChangeResource kind i raw of
        (title, flds) \<Rightarrow>
          let summary = \<lparr>rs_Title = title, rs_Description = [], rs_Tags = [], rs_Fields = flds\<rparr> in
          if kind = KindRoute then
            summary\<lparr>rs_Description := Join (appendNonEmpty []
                [stringValueWithPrefix flds ''service_id'' ''service '', stringValueWithPrefix flds ''upstream_id'' ''upstream ''])
                dotSeparator,
              rs_Tags := appendNonEmpty [] [firstMethod flds, routeMatchTag flds]\<rparr>
          else if kind = KindService then
            summary\<lparr>rs_Description := firstNonEmptyString
              [stringValueWithPrefix flds ''upstream_id'' ''upstream '',
               stringValueWithPrefix flds ''plugin_config_id'' ''plugin_config '']\<rparr>
          else if kind = KindUpstream then
            summary\<lparr>rs_Description := Join (appendNonEmpty []
                [summaryLookupString flds ''scheme'',
                 (case map_of flds ''nodes_count'' of Some (AInt n) \<Rightarrow> if n > 0 then Itoa n @ '' nodes'' else [] | _ \<Rightarrow> []),
                 stringValueWithPrefix flds ''pass_host'' ''pass_host='']) dotSeparator\<rparr>
          else if kind = KindPluginConfig \<or> kind = KindGlobalRule then
            (case map_of flds ''plugin_keys'' of
               Some (AList keys) \<Rightarrow>
                 if length keys > 0
                 then summary\<lparr>rs_Description := ''plugins: '' @ Join (map Sprint keys) '', '', rs_Tags := map Sprint keys\<rparr>
                 else summary
             | _ \<Rightarrow> summary)
          else summary)"

section \<open>Facts\<close>

lemma firstNonEmptyString_cases:
  "firstNonEmptyString vs = [] \<and> (\<forall>v\<in>set vs. v = []) \<or> firstNonEmptyString vs \<in> set vs \<and> firstNonEmptyString vs \<noteq> []"
  by (induction vs) auto

lemma compactSummary_subset: "map_of (compactSummary m) k = Some v \<Longrightarrow> distinct (map fst m) \<Longrightarrow> map_of m k = Some v"
  by (auto simp: compactSummary_def dest!: map_of_SomeD)

text \<open>Every resource that has an identifier has a title.\<close>

lemma summary_titled: "i \<noteq> [] \<Longrightarrow> rs_Title (SummarizeResource kind i raw) \<noteq> []"
  by (auto simp: SummarizeResource_def summarizeChangeResource_def Let_def split: option.splits any.splits)

end
