(* ===== verification/Bundle.thy ===== *)
theory Bundle
  imports Resource_Summary
begin

text \<open>
  Bundles of resources, their parsing, application, export and preview:
  \<^verbatim>\<open>internal/controlplane/filebundle.go\<close> and the first half of \<^verbatim>\<open>preview.go\<close>.

  \<^item> A Go map is an association list with distinct keys, in no particular order.
  \<^item> The YAML codec is a parameter. A decoded YAML value is an \<^typ>\<open>any\<close>, in which the keys of a map are
    strings already; \<^verbatim>\<open>normalizeYAMLValue\<close>, which makes them so, is the identity on it.
  \<^item> \<^verbatim>\<open>stamp\<close> reads the clock as an RFC 3339 text.
  \<^item> An error that is wrapped with the name of a resource keeps its class.
\<close>

section \<open>Bundles\<close>

record BundleMeta =
  bm_Format :: string
  bm_ExportedAt :: string
  bm_EtcdPrefix :: string
  bm_ManagedKinds :: "ResourceKind list"

type_synonym group = "(string \<times> RawMessage) list"

record FileBundle =
  fb_Resources :: "(ResourceKind \<times> group) list"
  fb_Meta :: BundleMeta

record HistorySummary =
  hs_Counts :: "(ResourceKind \<times> int) list"
  hs_ManagedKinds :: "ResourceKind list"

record ExportOptions =
  eo_EtcdPrefix :: string
  eo_IncludeKinds :: "ResourceKind list"
  eo_IncludeMeta :: bool

record ApplyOptions =
  ao_PruneKinds :: "ResourceKind list"
  ao_Prune :: bool

type_synonym ApplyResult = "(ResourceKind \<times> int) list"

definition emptyMeta :: BundleMeta where
  "emptyMeta = \<lparr>bm_Format = [], bm_ExportedAt = [], bm_EtcdPrefix = [], bm_ManagedKinds = []\<rparr>"

definition summarizeBundle :: "FileBundle \<Rightarrow> HistorySummary" where
  "summarizeBundle bundle =
     \<lparr>hs_Counts = concat (map (\<lambda>kind. case map_of (fb_Resources bundle) kind of
                                 None \<Rightarrow> [] | Some items \<Rightarrow> [(kind, int (length items))]) SupportedKinds),
      hs_ManagedKinds = bm_ManagedKinds (fb_Meta bundle)\<rparr>"

definition isZero :: "BundleMeta \<Rightarrow> bool" where
  "isZero m \<longleftrightarrow> bm_Format m = [] \<and> bm_ExportedAt m = [] \<and> bm_EtcdPrefix m = [] \<and> length (bm_ManagedKinds m) = 0"

definition applyOrder :: "ResourceKind list" where
  "applyOrder = [KindUpstream, KindService, KindPluginConfig, KindGlobalRule, KindRoute]"

text \<open>The selected kinds without repetition and in order; no selection is every kind.\<close>

fun dedupKinds :: "ResourceKind list \<Rightarrow> ResourceKind list \<Rightarrow> ResourceKind list" where
  "dedupKinds seen [] = []"
| "dedupKinds seen (kind # kinds) =
     (if kind \<in> set seen then dedupKinds seen kinds else kind # dedupKinds (kind # seen) kinds)"

definition normalizeResourceKindSelection :: "ResourceKind list \<Rightarrow> ResourceKind list" where
  "normalizeResourceKindSelection kinds =
     (if length kinds = 0 then SupportedKinds else sort (dedupKinds [] kinds))"

definition resourceKinds :: "FileBundle \<Rightarrow> ResourceKind list" where
  "resourceKinds b = normalizeResourceKindSelection (map fst (fb_Resources b))"

definition resolvePruneKinds :: "FileBundle \<Rightarrow> ApplyOptions \<Rightarrow> ResourceKind list" where
  "resolvePruneKinds bundle options =
     (if \<not> ao_Prune options then []
      else let selected = ao_PruneKinds options;
               selected = (if length selected = 0 then bm_ManagedKinds (fb_Meta bundle) else selected);
               selected = (if length selected = 0 then resourceKinds bundle else selected)
           in normalizeResourceKindSelection selected)"

definition metaToMap :: "BundleMeta \<Rightarrow> (string \<times> any) list" where
  "metaToMap m =
     (if bm_Format m \<noteq> [] then [(''format'', AString (bm_Format m))] else [])
     @ (if bm_ExportedAt m \<noteq> [] then [(''exported_at'', AString (bm_ExportedAt m))] else [])
     @ (if bm_EtcdPrefix m \<noteq> [] then [(''etcd_prefix'', AString (bm_EtcdPrefix m))] else [])
     @ (if length (bm_ManagedKinds m) > 0
        then [(''managed_kinds'', AList (map AString (normalizeResourceKindSelection (bm_ManagedKinds m))))] else [])"

section \<open>Parsing\<close>

fun managedKinds :: "any list \<Rightarrow> cp_error + ResourceKind list" where
  "managedKinds [] = Inr []"
| "managedKinds (item # items) =
     (case item of
        AString text \<Rightarrow>
          (case ParseKind text of
             (kind, supported) \<Rightarrow>
               if \<not> supported then Inl ErrInvalidBody
               else case managedKinds items of Inl e \<Rightarrow> Inl e | Inr kinds \<Rightarrow> Inr (kind # kinds))
      | _ \<Rightarrow> Inl ErrInvalidBody)"

definition parseManagedKinds :: "any \<Rightarrow> cp_error + ResourceKind list" where
  "parseManagedKinds raw =
     (case raw of
        AList values \<Rightarrow>
          (case managedKinds values of Inl e \<Rightarrow> Inl e | Inr kinds \<Rightarrow> Inr (normalizeResourceKindSelection kinds))
      | _ \<Rightarrow> Inl ErrInvalidBody)"

definition parseBundleMeta :: "any \<Rightarrow> cp_error + BundleMeta" where
  "parseBundleMeta raw =
     (case raw of
        AMap metaMap \<Rightarrow>
          if length metaMap = 0 then Inr emptyMeta
          else let meta = \<lparr>bm_Format = lookupString metaMap ''format'', bm_ExportedAt = lookupString metaMap ''exported_at'',
                           bm_EtcdPrefix = lookupString metaMap ''etcd_prefix'', bm_ManagedKinds = []\<rparr>
               in (case map_of metaMap ''managed_kinds'' of
                     None \<Rightarrow> Inr meta
                   | Some managedRaw \<Rightarrow>
                       (case parseManagedKinds managedRaw of
                          Inl e \<Rightarrow> Inl e
                        | Inr kinds \<Rightarrow> Inr (meta\<lparr>bm_ManagedKinds := kinds\<rparr>)))
      | _ \<Rightarrow> Inr emptyMeta)"

definition bundleResource :: "string \<Rightarrow> any \<Rightarrow> RawMessage" where
  "bundleResource i resource =
     (case resource of
        AMap resourceMap \<Rightarrow> Some (jsonify (AMap (map_put ''id'' (AString i) resourceMap)))
      | _ \<Rightarrow> Some (jsonify resource))"

fun bundleItems :: "group \<Rightarrow> any list \<Rightarrow> cp_error + group" where
  "bundleItems out [] = Inr out"
| "bundleItems out (item # items) =
     (let encoded = Some (jsonify item) in
      case ExtractResourceID encoded of
        Inl e \<Rightarrow> Inl e
      | Inr i \<Rightarrow> if i = [] then Inl ErrInvalidBody else bundleItems (map_put i encoded out) items)"

definition normalizeBundleResources :: "any \<Rightarrow> cp_error + group" where
  "normalizeBundleResources raw =
     (case raw of
        AMap value \<Rightarrow> Inr (map (\<lambda>(i, resource). (i, bundleResource i resource)) value)
      | AList value \<Rightarrow> bundleItems [] value
      | _ \<Rightarrow> Inl ErrInvalidBody)"

fun parseKinds :: "(string \<times> any) list \<Rightarrow> ResourceKind list \<Rightarrow> cp_error + (ResourceKind \<times> group) list" where
  "parseKinds decoded [] = Inr []"
| "parseKinds decoded (kind # kinds) =
     (case map_of decoded kind of
        None \<Rightarrow> parseKinds decoded kinds
      | Some raw \<Rightarrow>
          (case normalizeBundleResources raw of
             Inl e \<Rightarrow> Inl e
           | Inr normalized \<Rightarrow>
               (case parseKinds decoded kinds of
                  Inl e \<Rightarrow> Inl e
                | Inr rest \<Rightarrow> Inr (if length normalized > 0 then (kind, normalized) # rest else rest))))"

definition bundleOfMap :: "(string \<times> any) list \<Rightarrow> cp_error + FileBundle" where
  "bundleOfMap decoded =
     (case parseBundleMeta (map_get ANil decoded ''_meta'') of
        Inl e \<Rightarrow> Inl e
      | Inr meta \<Rightarrow>
          (case parseKinds decoded SupportedKinds of
             Inl e \<Rightarrow> Inl e
           | Inr resources \<Rightarrow> Inr \<lparr>fb_Resources = resources, fb_Meta = meta\<rparr>))"

definition ParseBundle :: "(string \<Rightarrow> (string \<times> any) list option) \<Rightarrow> string \<Rightarrow> cp_error + FileBundle" where
  "ParseBundle yamlUnmarshal data =
     (case yamlUnmarshal data of None \<Rightarrow> Inl ErrInvalidBody | Some decoded \<Rightarrow> bundleOfMap decoded)"

section \<open>Printing\<close>

text \<open>A message that is not JSON makes the conversion fail.\<close>

fun groupToMap :: "group \<Rightarrow> string list \<Rightarrow> (string \<times> any) list option" where
  "groupToMap items [] = Some []"
| "groupToMap items (i # ids) =
     (case map_get None items i of
        None \<Rightarrow> None
      | Some decoded \<Rightarrow> map_option ((#) (i, decoded)) (groupToMap items ids))"

fun kindsToMap :: "FileBundle \<Rightarrow> ResourceKind list \<Rightarrow> (string \<times> any) list option" where
  "kindsToMap b [] = Some []"
| "kindsToMap b (kind # kinds) =
     (case map_of (fb_Resources b) kind of
        None \<Rightarrow> kindsToMap b kinds
      | Some items \<Rightarrow>
          if length items = 0 then kindsToMap b kinds
          else case groupToMap items (sort (map fst items)) of
            None \<Rightarrow> None
          | Some grp \<Rightarrow> map_option ((#) (kind, AMap grp)) (kindsToMap b kinds))"

definition ToMap :: "FileBundle \<Rightarrow> (string \<times> any) list option" where
  "ToMap b =
     map_option ((@) (if isZero (fb_Meta b) then [] else [(''_meta'', AMap (metaToMap (fb_Meta b)))]))
       (kindsToMap b SupportedKinds)"

definition ToYAML :: "((string \<times> any) list \<Rightarrow> string) \<Rightarrow> FileBundle \<Rightarrow> string option" where
  "ToYAML yamlMarshal b = map_option yamlMarshal (ToMap b)"

section \<open>Export\<close>

fun exportGroup :: "group \<Rightarrow> Envelope list \<Rightarrow> group" where
  "exportGroup grp [] = grp"
| "exportGroup grp (item # items) =
     (case ExtractResourceID (env_Value item) of
        Inl e \<Rightarrow> exportGroup grp items
      | Inr i \<Rightarrow> if i = [] then exportGroup grp items else exportGroup (map_put i (env_Value item) grp) items)"

fun exportKinds :: "'s Store \<Rightarrow> ResourceKind list \<Rightarrow> ('s, (ResourceKind \<times> group) list) op" where
  "exportKinds store [] s = (s, Inr [])"
| "exportKinds store (kind # kinds) s =
     (case ServiceList store kind s of
        (s, Inl e) \<Rightarrow> (s, Inl e)
      | (s, Inr items) \<Rightarrow>
          (let grp = exportGroup [] items in
           case exportKinds store kinds s of
             (s, Inl e) \<Rightarrow> (s, Inl e)
           | (s, Inr rest) \<Rightarrow> (s, Inr (if length grp > 0 then (kind, grp) # rest else rest))))"

definition bundleFormat :: string where
  "bundleFormat = ''lumen.apisix.bundle/v1''"

definition ExportBundleWithOptions ::
    "'s Store \<Rightarrow> ('s \<Rightarrow> string) \<Rightarrow> ExportOptions \<Rightarrow> ('s, FileBundle) op" where
  "ExportBundleWithOptions store stamp options s =
     (let includeKinds = normalizeResourceKindSelection (eo_IncludeKinds options) in
      case exportKinds store includeKinds s of
        (s, Inl e) \<Rightarrow> (s, Inl e)
      | (s, Inr resources) \<Rightarrow>
          (s, Inr \<lparr>fb_Resources = resources,
                   fb_Meta = (if eo_IncludeMeta options
                              then \<lparr>bm_Format = bundleFormat, bm_ExportedAt = stamp s,
                                    bm_EtcdPrefix = eo_EtcdPrefix options, bm_ManagedKinds = includeKinds\<rparr>
                              else emptyMeta)\<rparr>))"

definition ExportBundle :: "'s Store \<Rightarrow> ('s \<Rightarrow> string) \<Rightarrow> ('s, FileBundle) op" where
  "ExportBundle store stamp =
     ExportBundleWithOptions store stamp \<lparr>eo_EtcdPrefix = [], eo_IncludeKinds = [], eo_IncludeMeta = True\<rparr>"

section \<open>Application\<close>

fun applyPuts ::
    "'s Store \<Rightarrow> ('s \<Rightarrow> int) \<Rightarrow> ResourceKind \<Rightarrow> group \<Rightarrow> string list \<Rightarrow> ApplyResult \<Rightarrow> ('s, ApplyResult) op" where
  "applyPuts store now kind grp [] counts s = (s, Inr counts)"
| "applyPuts store now kind grp (i # ids) counts s =
     (case ServicePut store now kind i (map_get None grp i) s of
        (s, Inl e) \<Rightarrow> (s, Inl e)
      | (s, Inr _) \<Rightarrow> applyPuts store now kind grp ids (map_put kind (map_get 0 counts kind + 1) counts) s)"

fun applyPrunes :: "'s Store \<Rightarrow> ResourceKind \<Rightarrow> group \<Rightarrow> Envelope list \<Rightarrow> ('s, unit) op" where
  "applyPrunes store kind grp [] s = (s, Inr ())"
| "applyPrunes store kind grp (item # items) s =
     (case ExtractResourceID (env_Value item) of
        Inl e \<Rightarrow> applyPrunes store kind grp items s
      | Inr existingID \<Rightarrow>
          if existingID = [] \<or> map_of grp existingID \<noteq> None then applyPrunes store kind grp items s
          else case ServiceDelete store kind existingID s of
            (s, Inl e) \<Rightarrow> (s, Inl e)
          | (s, Inr _) \<Rightarrow> applyPrunes store kind grp items s)"

definition pruneKind :: "'s Store \<Rightarrow> ResourceKind \<Rightarrow> group \<Rightarrow> ('s, unit) op" where
  "pruneKind store kind grp s =
     (case ServiceList store kind s of
        (s, Inl e) \<Rightarrow> (s, Inl e)
      | (s, Inr items) \<Rightarrow> applyPrunes store kind grp items s)"

fun applyKinds ::
    "'s Store \<Rightarrow> ('s \<Rightarrow> int) \<Rightarrow> FileBundle \<Rightarrow> ResourceKind list \<Rightarrow> ResourceKind list \<Rightarrow> ApplyResult \<Rightarrow> ('s, ApplyResult) op" where
  "applyKinds store now bundle pruneKinds [] counts s = (s, Inr counts)"
| "applyKinds store now bundle pruneKinds (kind # kinds) counts s =
     (let found = map_of (fb_Resources bundle) kind;
          shouldPrune = (kind \<in> set pruneKinds)
      in if found = None \<and> \<not> shouldPrune then applyKinds store now bundle pruneKinds kinds counts s
         else let grp = (case found of None \<Rightarrow> [] | Some g \<Rightarrow> g) in
           case applyPuts store now kind grp (sort (map fst grp)) counts s of
             (s, Inl e) \<Rightarrow> (s, Inl e)
           | (s, Inr counts) \<Rightarrow>
               if \<not> shouldPrune then applyKinds store now bundle pruneKinds kinds counts s
               else case pruneKind store kind grp s of
                 (s, Inl e) \<Rightarrow> (s, Inl e)
               | (s, Inr _) \<Rightarrow> applyKinds store now bundle pruneKinds kinds counts s)"

definition ApplyBundleWithOptions ::
    "'s Store \<Rightarrow> ('s \<Rightarrow> int) \<Rightarrow> FileBundle \<Rightarrow> ApplyOptions \<Rightarrow> ('s, ApplyResult) op" where
  "ApplyBundleWithOptions store now bundle options =
     applyKinds store now bundle (resolvePruneKinds bundle options) applyOrder []"

definition ApplyBundle :: "'s Store \<Rightarrow> ('s \<Rightarrow> int) \<Rightarrow> FileBundle \<Rightarrow> ('s, ApplyResult) op" where
  "ApplyBundle store now bundle = ApplyBundleWithOptions store now bundle \<lparr>ao_PruneKinds = [], ao_Prune = False\<rparr>"

section \<open>Files\<close>

text \<open>Reading a file and its modification time, in nanoseconds; an error carries its message.\<close>

record 's FileSystem =
  os_ReadFile :: "'s \<Rightarrow> 's \<times> (string + string)"
  os_ModTime :: "'s \<Rightarrow> 's \<times> (string + int)"

definition LoadBundleFile ::
    "'s FileSystem \<Rightarrow> (string \<Rightarrow> (string \<times> any) list option) \<Rightarrow> ('s, FileBundle) op" where
  "LoadBundleFile fs yamlUnmarshal s =
     (case os_ReadFile fs s of
        (s, Inl err) \<Rightarrow> (s, Inl (StoreFailed err))
      | (s, Inr data) \<Rightarrow> (s, ParseBundle yamlUnmarshal data))"

text \<open>The loop wakes up for each tick and when its context is cancelled. A run is a list of wake-ups and
  yields the results that were reported, and the error that ended the loop, if it has ended.\<close>

datatype wakeup = Cancelled cp_error | Tick

definition syncApply ::
    "'s Store \<Rightarrow> ('s \<Rightarrow> int) \<Rightarrow> 's FileSystem \<Rightarrow> (string \<Rightarrow> (string \<times> any) list option) \<Rightarrow> ApplyOptions \<Rightarrow> ('s, ApplyResult) op" where
  "syncApply store now fs yamlUnmarshal options s =
     (case LoadBundleFile fs yamlUnmarshal s of
        (s, Inl e) \<Rightarrow> (s, Inl e)
      | (s, Inr bundle) \<Rightarrow> ApplyBundleWithOptions store now bundle options s)"

fun syncLoop ::
    "'s Store \<Rightarrow> ('s \<Rightarrow> int) \<Rightarrow> 's FileSystem \<Rightarrow> (string \<Rightarrow> (string \<times> any) list option) \<Rightarrow> ApplyOptions
     \<Rightarrow> int \<Rightarrow> wakeup list \<Rightarrow> 's \<Rightarrow> 's \<times> ApplyResult list \<times> cp_error option" where
  "syncLoop store now fs yamlUnmarshal options lastMod [] s = (s, [], None)"
| "syncLoop store now fs yamlUnmarshal options lastMod (w # ws) s =
     (case w of
        Cancelled err \<Rightarrow> (s, [], Some err)
      | Tick \<Rightarrow>
          (case os_ModTime fs s of
             (s, Inl err) \<Rightarrow> (s, [], Some (StoreFailed err))
           | (s, Inr t) \<Rightarrow>
               if \<not> lastMod < t then syncLoop store now fs yamlUnmarshal options lastMod ws s
               else case syncApply store now fs yamlUnmarshal options s of
                 (s, Inl e) \<Rightarrow> (s, [], Some e)
               | (s, Inr result) \<Rightarrow>
                   (case syncLoop store now fs yamlUnmarshal options t ws s of
                      (s, results, fin) \<Rightarrow> (s, result # results, fin))))"

definition SyncBundleFile ::
    "'s Store \<Rightarrow> ('s \<Rightarrow> int) \<Rightarrow> 's FileSystem \<Rightarrow> (string \<Rightarrow> (string \<times> any) list option) \<Rightarrow> ApplyOptions
     \<Rightarrow> wakeup list \<Rightarrow> 's \<Rightarrow> 's \<times> ApplyResult list \<times> cp_error option" where
  "SyncBundleFile store now fs yamlUnmarshal options ws s =
     (case syncApply store now fs yamlUnmarshal options s of
        (s, Inl e) \<Rightarrow> (s, [], Some e)
      | (s, Inr result) \<Rightarrow>
          (case os_ModTime fs s of
             (s, Inl err) \<Rightarrow> (s, [result], Some (StoreFailed err))
           | (s, Inr t) \<Rightarrow>
               (case syncLoop store now fs yamlUnmarshal options t ws s of
                  (s, results, fin) \<Rightarrow> (s, result # results, fin))))"

end
