(* ===== verification/Preview.thy ===== *)
theory Preview
  imports Bundle
begin

text \<open>
  The plan of an application: \<^verbatim>\<open>BuildApplyPlan\<close> and its helpers in
  \<^verbatim>\<open>internal/controlplane/preview.go\<close>. The summaries, which the code keeps behind pointers in a map, are an
  association list from kinds to values.
\<close>

section \<open>Plans\<close>

datatype ChangeAction = ChangeCreate | ChangeUpdate | ChangeDelete | ChangeUnchanged

record ChangeItem =
  ci_Summary :: "(string \<times> any) list"
  ci_Kind :: ResourceKind
  ci_ID :: string
  ci_Action :: ChangeAction
  ci_Title :: string
  ci_PruneSource :: string
  ci_Warnings :: "string list"
  ci_Before :: RawMessage
  ci_After :: RawMessage
  ci_Managed :: bool

record PlanSummary =
  ps_Kind :: ResourceKind
  ps_Create :: int
  ps_Update :: int
  ps_Delete :: int
  ps_Unchanged :: int

record ApplyPlan =
  ap_Summary :: "PlanSummary list"
  ap_Changes :: "ChangeItem list"

record PreviewOptions =
  po_PruneKinds :: "ResourceKind list"
  po_Prune :: bool
  po_IncludeUnchanged :: bool

definition previewComparableValue :: "RawMessage \<Rightarrow> cp_error + (string \<times> any) list" where
  "previewComparableValue raw =
     (case decodeJSONObject raw of
        Inl e \<Rightarrow> Inl e
      | Inr value \<Rightarrow> Inr (map_delete ''update_time'' (map_delete ''create_time'' value)))"

definition semanticResourceEqual :: "RawMessage \<Rightarrow> RawMessage \<Rightarrow> bool" where
  "semanticResourceEqual current desired =
     (case previewComparableValue current of
        Inl e \<Rightarrow> False
      | Inr currentValue \<Rightarrow>
          (case previewComparableValue desired of
             Inl e \<Rightarrow> False
           | Inr desiredValue \<Rightarrow> DeepEqual (AMap currentValue) (AMap desiredValue)))"

definition pruneSourceLabel :: "FileBundle \<Rightarrow> PreviewOptions \<Rightarrow> ResourceKind \<Rightarrow> string" where
  "pruneSourceLabel bundle options kind =
     (if kind \<in> set (po_PruneKinds options) then ''explicit_prune_kinds''
      else if kind \<in> set (bm_ManagedKinds (fb_Meta bundle)) then ''managed_kinds''
      else ''bundle_omitted'')"

definition recordSummary ::
    "(ResourceKind \<times> PlanSummary) list \<Rightarrow> ResourceKind \<Rightarrow> ChangeAction \<Rightarrow> (ResourceKind \<times> PlanSummary) list" where
  "recordSummary summary kind action =
     (let item = (case map_of summary kind of
                    None \<Rightarrow> \<lparr>ps_Kind = kind, ps_Create = 0, ps_Update = 0, ps_Delete = 0, ps_Unchanged = 0\<rparr>
                  | Some item \<Rightarrow> item)
      in map_put kind
           (case action of
              ChangeCreate \<Rightarrow> item\<lparr>ps_Create := ps_Create item + 1\<rparr>
            | ChangeUpdate \<Rightarrow> item\<lparr>ps_Update := ps_Update item + 1\<rparr>
            | ChangeDelete \<Rightarrow> item\<lparr>ps_Delete := ps_Delete item + 1\<rparr>
            | ChangeUnchanged \<Rightarrow> item\<lparr>ps_Unchanged := ps_Unchanged item + 1\<rparr>) summary)"

definition flattenSummaries :: "(ResourceKind \<times> PlanSummary) list \<Rightarrow> PlanSummary list" where
  "flattenSummaries summary = List.map_filter (map_of summary) applyOrder"

definition summarizeWarnings :: "ChangeItem \<Rightarrow> string list" where
  "summarizeWarnings change =
     (if ci_Action change = ChangeDelete
      then ''This change deletes an existing resource.'' #
        (if ci_PruneSource change = ''explicit_prune_kinds'' then [''Delete is caused by explicit prune_kinds.'']
         else if ci_PruneSource change = ''managed_kinds'' then [''Delete is caused by managed_kinds ownership.'']
         else if ci_PruneSource change = ''bundle_omitted''
           then [''Delete is caused by the resource being omitted from the bundle.'']
         else [])
      else [])"

definition enrichChangeItem :: "ChangeItem \<Rightarrow> ChangeItem" where
  "enrichChangeItem change =
     (let raw = (if ci_After change = None then ci_Before change else ci_After change) in
      case summarizeChangeResource (ci_Kind change) (ci_ID change) raw of
        (title, summary) \<Rightarrow>
          (let change = change\<lparr>ci_Title := title, ci_Summary := summary\<rparr>
           in change\<lparr>ci_Warnings := summarizeWarnings change\<rparr>))"

definition newChange :: "ResourceKind \<Rightarrow> string \<Rightarrow> ChangeItem" where
  "newChange kind i =
     \<lparr>ci_Summary = [], ci_Kind = kind, ci_ID = i, ci_Action = ChangeUnchanged, ci_Title = [], ci_PruneSource = [],
      ci_Warnings = [], ci_Before = None, ci_After = None, ci_Managed = True\<rparr>"

fun envelopesByID :: "(string \<times> Envelope) list \<Rightarrow> Envelope list \<Rightarrow> (string \<times> Envelope) list" where
  "envelopesByID currentByID [] = currentByID"
| "envelopesByID currentByID (item # items) =
     (case ExtractResourceID (env_Value item) of
        Inl e \<Rightarrow> envelopesByID currentByID items
      | Inr i \<Rightarrow> if i = [] then envelopesByID currentByID items else envelopesByID (map_put i item currentByID) items)"

type_synonym plan_state = "(ResourceKind \<times> PlanSummary) list \<times> ChangeItem list"

definition planResource :: "ResourceKind \<Rightarrow> string \<Rightarrow> RawMessage \<Rightarrow> Envelope option \<Rightarrow> ChangeItem" where
  "planResource kind i after current =
     (let change = (newChange kind i)\<lparr>ci_After := after\<rparr> in
      enrichChangeItem
        (case current of
           None \<Rightarrow> change\<lparr>ci_Action := ChangeCreate\<rparr>
         | Some current \<Rightarrow>
             change\<lparr>ci_Before := env_Value current,
                    ci_Action := (if semanticResourceEqual (env_Value current) after then ChangeUnchanged else ChangeUpdate)\<rparr>))"

fun planDesired ::
    "bool \<Rightarrow> ResourceKind \<Rightarrow> group \<Rightarrow> (string \<times> Envelope) list \<Rightarrow> string list \<Rightarrow> plan_state \<Rightarrow> cp_error + plan_state" where
  "planDesired includeUnchanged kind desired currentByID [] st = Inr st"
| "planDesired includeUnchanged kind desired currentByID (i # ids) (summaries, changes) =
     (case NormalizeResourceBody (map_get None desired i) i of
        Inl e \<Rightarrow> Inl e
      | Inr after \<Rightarrow>
          (let change = planResource kind i after (map_of currentByID i);
               summaries = recordSummary summaries kind (ci_Action change);
               changes = (if ci_Action change = ChangeUnchanged \<and> \<not> includeUnchanged then changes else changes @ [change])
           in planDesired includeUnchanged kind desired currentByID ids (summaries, changes)))"

definition planDelete :: "string \<Rightarrow> ResourceKind \<Rightarrow> string \<Rightarrow> RawMessage \<Rightarrow> ChangeItem" where
  "planDelete pruneSource kind i before =
     enrichChangeItem ((newChange kind i)\<lparr>ci_Action := ChangeDelete, ci_Before := before, ci_PruneSource := pruneSource\<rparr>)"

fun planPrunes ::
    "string \<Rightarrow> ResourceKind \<Rightarrow> group \<Rightarrow> (string \<times> Envelope) list \<Rightarrow> string list \<Rightarrow> plan_state \<Rightarrow> plan_state" where
  "planPrunes pruneSource kind desired currentByID [] st = st"
| "planPrunes pruneSource kind desired currentByID (i # ids) (summaries, changes) =
     (if map_of desired i \<noteq> None then planPrunes pruneSource kind desired currentByID ids (summaries, changes)
      else planPrunes pruneSource kind desired currentByID ids
             (recordSummary summaries kind ChangeDelete,
              changes @ [planDelete pruneSource kind i
                           (case map_of currentByID i of None \<Rightarrow> None | Some env \<Rightarrow> env_Value env)]))"

fun planKinds ::
    "'s Store \<Rightarrow> FileBundle \<Rightarrow> PreviewOptions \<Rightarrow> ResourceKind list \<Rightarrow> ResourceKind list \<Rightarrow> plan_state \<Rightarrow> ('s, plan_state) op" where
  "planKinds store bundle options pruneKinds [] st s = (s, Inr st)"
| "planKinds store bundle options pruneKinds (kind # kinds) st s =
     (let found = map_of (fb_Resources bundle) kind;
          shouldPrune = (kind \<in> set pruneKinds)
      in if found = None \<and> \<not> shouldPrune then planKinds store bundle options pruneKinds kinds st s
         else let desired = (case found of None \<Rightarrow> [] | Some g \<Rightarrow> g) in
           case ServiceList store kind s of
             (s, Inl e) \<Rightarrow> (s, Inl e)
           | (s, Inr items) \<Rightarrow>
               (let currentByID = envelopesByID [] items in
                case planDesired (po_IncludeUnchanged options) kind desired currentByID (sort (map fst desired)) st of
                  Inl e \<Rightarrow> (s, Inl e)
                | Inr st \<Rightarrow>
                    planKinds store bundle options pruneKinds kinds
                      (if shouldPrune
                       then planPrunes (pruneSourceLabel bundle options kind) kind desired currentByID
                              (sort (map fst currentByID)) st
                       else st) s))"

definition BuildApplyPlan :: "'s Store \<Rightarrow> FileBundle \<Rightarrow> PreviewOptions \<Rightarrow> ('s, ApplyPlan) op" where
  "BuildApplyPlan store bundle options s =
     (let pruneKinds = resolvePruneKinds bundle
            \<lparr>ao_PruneKinds = po_PruneKinds options, ao_Prune = po_Prune options\<rparr>
      in case planKinds store bundle options pruneKinds applyOrder ([], []) s of
           (s, Inl e) \<Rightarrow> (s, Inl e)
         | (s, Inr (summaries, changes)) \<Rightarrow>
             (s, Inr \<lparr>ap_Summary = flattenSummaries summaries, ap_Changes = changes\<rparr>))"

end
