(* ===== verification/Resource_Store.thy ===== *)
theory Resource_Store
  imports Preview
begin

text \<open>
  What a store of resources promises to the control plane, as the interface \<open>resource_store\<close>, and the etcd
  store as its implementation on top of the interface \<open>etcd_client\<close>, which states what is relied on of etcd:
  a successful operation has the effect its name says, a failed write may or may not have happened,
  reading changes nothing. Operations are taken one after the other; a concurrent writer is outside the model.

  The contents of a store is the map \<open>view\<close> from kinds and identifiers to documents.
\<close>

section \<open>Resources\<close>

text \<open>A resource as the control plane writes it: an object with its identifier, and without a member that
  the wrapper of an etcd value would be mistaken for.\<close>

definition resource :: "string \<Rightarrow> any \<Rightarrow> bool" where
  "resource i v \<longleftrightarrow>
     (case v of
        AMap m \<Rightarrow> document (AMap m) \<and> map_of m ''id'' = Some (AString i) \<and> jsonField ''value'' m = None
      | _ \<Rightarrow> False)"

type_synonym resources = "ResourceKind \<Rightarrow> string \<Rightarrow> any option"

definition update_resource :: "ResourceKind \<Rightarrow> string \<Rightarrow> any option \<Rightarrow> resources \<Rightarrow> resources" where
  "update_resource kind i v res = res(kind := (res kind)(i := v))"

text \<open>A listing of the resources of one kind: every resource once.\<close>

definition listing :: "(string \<Rightarrow> any option) \<Rightarrow> Envelope list \<Rightarrow> bool" where
  "listing res items \<longleftrightarrow> (\<exists>ids. distinct ids \<and> set ids = dom res \<and> map env_Value items = map res ids)"

definition addressable :: "ResourceKind \<Rightarrow> string \<Rightarrow> bool" where
  "addressable kind i \<longleftrightarrow> kind \<in> set supportedKinds \<and> plainSegment i"

section \<open>The interface of a store\<close>

locale resource_store =
  fixes store :: "'s Store" and view :: "'s \<Rightarrow> resources" and inv :: "'s \<Rightarrow> bool"
  assumes view_resource: "inv s \<Longrightarrow> view s kind i = Some v \<Longrightarrow> addressable kind i \<and> resource i v"
    and get_law: "inv s \<Longrightarrow> addressable kind i \<Longrightarrow> st_Get store kind i s = (s', rg) \<Longrightarrow>
        inv s' \<and> view s' = view s
        \<and> (case rg of Inl e \<Rightarrow> e = ErrNotFound \<and> view s kind i = None \<or> (\<exists>msg. e = StoreFailed msg)
           | Inr env \<Rightarrow> view s kind i \<noteq> None \<and> env_Value env = view s kind i)"
    and put_law: "inv s \<Longrightarrow> addressable kind i \<Longrightarrow> resource i v \<Longrightarrow> st_Put store kind i (Some v) s = (s', rp) \<Longrightarrow>
        inv s'
        \<and> (case rp of Inl e \<Rightarrow> view s' \<in> {view s, update_resource kind i (Some v) (view s)} \<and> (\<exists>msg. e = StoreFailed msg)
           | Inr env \<Rightarrow> view s' = update_resource kind i (Some v) (view s) \<and> env_Value env = Some v)"
    and delete_law: "inv s \<Longrightarrow> addressable kind i \<Longrightarrow> st_Delete store kind i s = (s', rd) \<Longrightarrow>
        inv s'
        \<and> (case rd of Inl e \<Rightarrow> view s' \<in> {view s, update_resource kind i None (view s)} \<and> (\<exists>msg. e = StoreFailed msg)
           | Inr d \<Rightarrow> view s' = update_resource kind i None (view s)
               \<and> del_Deleted d = (if view s kind i = None then 0 else 1))"
    and list_law: "inv s \<Longrightarrow> kind \<in> set supportedKinds \<Longrightarrow> st_List store kind s = (s', rl) \<Longrightarrow>
        inv s' \<and> view s' = view s
        \<and> (case rl of Inl e \<Rightarrow> \<exists>msg. e = StoreFailed msg | Inr items \<Rightarrow> listing (view s kind) items)"

section \<open>The interface of etcd\<close>

text \<open>\<open>kvs s\<close> is the contents of etcd in state \<open>s\<close>.\<close>

locale etcd_client =
  fixes client :: "'s etcdKVClient" and kvs :: "'s \<Rightarrow> string \<Rightarrow> RawMessage option"
  assumes etcd_get: "ec_Get client key s = (s', rg) \<Longrightarrow>
        kvs s' = kvs s
        \<and> (case rg of Inl err \<Rightarrow> True
           | Inr l \<Rightarrow> (case kvs s key of None \<Rightarrow> l = [] | Some v \<Rightarrow> \<exists>kv. l = [kv] \<and> kv_Key kv = key \<and> kv_Value kv = v))"
    and etcd_get_prefix: "ec_GetPrefix client key s = (s', rl) \<Longrightarrow>
        kvs s' = kvs s
        \<and> (case rl of Inl err \<Rightarrow> True
           | Inr l \<Rightarrow> distinct (map kv_Key l) \<and> set (map kv_Key l) = {k. HasPrefix k key \<and> kvs s k \<noteq> None}
               \<and> (\<forall>kv\<in>set l. kvs s (kv_Key kv) = Some (kv_Value kv)))"
    and etcd_put: "ec_Put client key v s = (s', rp) \<Longrightarrow>
        (case rp of Inl err \<Rightarrow> kvs s' = kvs s \<or> kvs s' = (kvs s)(key \<mapsto> v) | Inr _ \<Rightarrow> kvs s' = (kvs s)(key \<mapsto> v))"
    and etcd_delete: "ec_Delete client key s = (s', rd) \<Longrightarrow>
        (case rd of Inl err \<Rightarrow> kvs s' = kvs s \<or> kvs s' = (kvs s)(key := None)
         | Inr n \<Rightarrow> kvs s' = (kvs s)(key := None) \<and> n = (if kvs s key = None then 0 else 1))"

text \<open>The resources that etcd holds below a prefix, and that it holds nothing else below the roots of their kinds.\<close>

definition etcdView :: "string \<Rightarrow> (string \<Rightarrow> RawMessage option) \<Rightarrow> resources" where
  "etcdView prefix kvs kind i =
     (if addressable kind i then (case kvs (resourceKey prefix kind i) of None \<Rightarrow> None | Some raw \<Rightarrow> raw) else None)"

definition etcdInv :: "string \<Rightarrow> (string \<Rightarrow> RawMessage option) \<Rightarrow> bool" where
  "etcdInv prefix kvs \<longleftrightarrow>
     (\<forall>kind\<in>set supportedKinds. \<forall>key raw. kvs key = Some raw \<and> HasPrefix key (kindRoot prefix kind) \<longrightarrow>
        (\<exists>i v. addressable kind i \<and> key = resourceKey prefix kind i \<and> raw = Some v \<and> resource i v))"

section \<open>Facts about keys and values\<close>

lemma supported_plain: "kind \<in> set supportedKinds \<Longrightarrow> plainSegment kind"
  by (auto simp: supportedKinds_def KindRoute_def KindService_def KindUpstream_def KindPluginConfig_def
      KindGlobalRule_def plainSegment_def)

lemma addressable_plain [dest]: "addressable kind i \<Longrightarrow> plainSegment kind \<and> plainSegment i"
  by (auto simp: addressable_def supported_plain)

lemma resource_key_inject:
  "properPrefix p \<Longrightarrow> addressable k i \<Longrightarrow> addressable k' i' \<Longrightarrow>
     resourceKey p k i = resourceKey p k' i' \<longleftrightarrow> k = k' \<and> i = i'"
  using resourceKey_inject by blast

lemma first_slash:
  "CHR ''/'' \<notin> set k \<Longrightarrow> CHR ''/'' \<notin> set k' \<Longrightarrow> k @ CHR ''/'' # i = k' @ CHR ''/'' # i' \<Longrightarrow> k = k'"
  by (metis Cut_append option.inject prod.inject)

lemma key_below_kind:
  assumes p: "properPrefix p" and "kind \<in> set supportedKinds" and "addressable k i"
  shows "HasPrefix (resourceKey p k i) (kindRoot p kind) \<longleftrightarrow> k = kind"
proof -
  have plain: "plainSegment kind" "plainSegment k" "plainSegment i" using assms supported_plain by auto
  have key: "resourceKey p k i = (Clean p @ ''/'') @ k @ CHR ''/'' # i" using resourceKey_plain [OF p plain(2,3)] by simp
  have kroot: "kindRoot p kind = (Clean p @ ''/'') @ kind @ ''/''" using kindRoot_plain [OF p plain(1)] by simp
  have "k @ CHR ''/'' # i = kind @ CHR ''/'' # r \<Longrightarrow> k = kind" for r
    using first_slash [of k kind i r] plain(1,2) unfolding plainSegment_def by blast
  then show ?thesis unfolding key kroot HasPrefix_iff
    by (simp only: append_assoc same_append_eq append.simps) blast
qed

lemma key_not_root:
  assumes p: "properPrefix p" and a: "addressable kind i"
  shows "resourceKey p kind i \<noteq> kindRoot p kind \<and> resourceKey p kind i \<noteq> TrimSuffix (kindRoot p kind) ''/''"
proof -
  have plain: "plainSegment kind" "plainSegment i" using a by auto
  have "kindRoot p kind = (Clean p @ ''/'' @ kind) @ ''/''" using kindRoot_plain [OF p plain(1)] by simp
  moreover have "resourceKey p kind i = ((Clean p @ ''/'' @ kind) @ ''/'') @ i" using resourceKey_plain [OF p plain] by simp
  ultimately show ?thesis using plain(2) unfolding plainSegment_def
    by (simp only: TrimSuffix_append) simp
qed

lemma resource_envelope:
  "resource i v \<Longrightarrow> kv_Value kv = Some v \<Longrightarrow>
     kvToEnvelope kv = Inr (Some \<lparr>env_Key = kv_Key kv, env_Value = Some v, env_CreatedIndex = kv_CreateRevision kv,
                                  env_ModifiedIndex = kv_ModRevision kv\<rparr>)"
  by (cases v) (auto simp: resource_def kvToEnvelope_def decodeMap_def)

lemma resource_id: "resource i v \<Longrightarrow> ExtractResourceID (Some v) = Inr i"
  by (cases v) (auto simp: resource_def ExtractResourceID_def decodeMap_def map_get_def)

section \<open>The etcd store is a resource store\<close>

context etcd_client
begin

lemma etcdGet_law:
  assumes p: "properPrefix p" and inv: "etcdInv p (kvs s)" and a: "addressable kind i"
    and run: "etcdGet \<lparr>es_client = client, es_prefix = p\<rparr> kind i s = (s', r)"
  shows "kvs s' = kvs s
     \<and> (case r of Inl e \<Rightarrow> e = ErrNotFound \<and> etcdView p (kvs s) kind i = None \<or> (\<exists>msg. e = StoreFailed msg)
        | Inr env \<Rightarrow> etcdView p (kvs s) kind i \<noteq> None \<and> env_Value env = etcdView p (kvs s) kind i)"
proof -
  let ?key = "resourceKey p kind i"
  obtain t g where g: "ec_Get client ?key s = (t, g)" by fastforce
  show ?thesis
  proof (cases "kvs s ?key")
    case None
    then show ?thesis using etcd_get [OF g] g run a
      by (auto simp: etcdGet_def etcdView_def split: sum.splits)
  next
    case (Some raw)
    with inv key_below_kind [OF p _ a] a obtain i' v where *: "addressable kind i'" "?key = resourceKey p kind i'" "raw = Some v" "resource i' v"
      unfolding etcdInv_def addressable_def by blast
    then have "resource i v" using resource_key_inject [OF p a] by auto
    then show ?thesis using etcd_get [OF g] g run a Some *(3)
      by (auto simp: etcdGet_def etcdView_def resource_envelope split: sum.splits)
  qed
qed

lemma etcdView_put:
  "properPrefix p \<Longrightarrow> addressable kind i \<Longrightarrow>
     etcdView p (m(resourceKey p kind i := raw)) = update_resource kind i (case raw of None \<Rightarrow> None | Some v \<Rightarrow> v) (etcdView p m)"
  by (auto simp: etcdView_def update_resource_def fun_eq_iff resource_key_inject)

lemma etcdInv_put:
  "properPrefix p \<Longrightarrow> etcdInv p m \<Longrightarrow> addressable kind i \<Longrightarrow> resource i v \<Longrightarrow> etcdInv p (m(resourceKey p kind i \<mapsto> Some v))"
  unfolding etcdInv_def using key_below_kind [of p _ kind i] by auto

lemma etcdInv_delete: "etcdInv p m \<Longrightarrow> etcdInv p (m(key := None))"
  unfolding etcdInv_def by auto

lemma etcdPut_law:
  assumes p: "properPrefix p" and inv: "etcdInv p (kvs s)" and a: "addressable kind i" and v: "resource i v"
    and run: "etcdPut \<lparr>es_client = client, es_prefix = p\<rparr> kind i (Some v) s = (s', r)"
  shows "etcdInv p (kvs s')
     \<and> (case r of
          Inl e \<Rightarrow> etcdView p (kvs s') \<in> {etcdView p (kvs s), update_resource kind i (Some v) (etcdView p (kvs s))}
            \<and> (\<exists>msg. e = StoreFailed msg)
        | Inr env \<Rightarrow> etcdView p (kvs s') = update_resource kind i (Some v) (etcdView p (kvs s)) \<and> env_Value env = Some v)"
proof -
  let ?key = "resourceKey p kind i"
  obtain t g where g: "ec_Put client ?key (Some v) s = (t, g)" by fastforce
  note put = etcd_put [OF g] and view = etcdView_put [OF p a, of "kvs s" "Some (Some v)"]
  show ?thesis
  proof (cases g)
    case (Inl err)
    with g run have "s' = t" "r = Inl (StoreFailed err)" by (auto simp: etcdPut_def)
    then show ?thesis using put view Inl inv etcdInv_put [OF p inv a v] by auto
  next
    case (Inr u)
    with put have kvs: "kvs t = (kvs s)(?key \<mapsto> Some v)" by simp
    have "etcdGet \<lparr>es_client = client, es_prefix = p\<rparr> kind i t = (s', r)" using g run Inr by (simp add: etcdPut_def)
    moreover have inv': "etcdInv p (kvs t)" using etcdInv_put [OF p inv a v] kvs by simp
    ultimately show ?thesis using etcdGet_law [OF p inv' a] view kvs
      by (cases r) (auto simp: update_resource_def)
  qed
qed

lemma etcdDelete_law:
  assumes p: "properPrefix p" and inv: "etcdInv p (kvs s)" and a: "addressable kind i"
    and run: "etcdDelete \<lparr>es_client = client, es_prefix = p\<rparr> kind i s = (s', r)"
  shows "etcdInv p (kvs s')
     \<and> (case r of
          Inl e \<Rightarrow> etcdView p (kvs s') \<in> {etcdView p (kvs s), update_resource kind i None (etcdView p (kvs s))}
            \<and> (\<exists>msg. e = StoreFailed msg)
        | Inr d \<Rightarrow> etcdView p (kvs s') = update_resource kind i None (etcdView p (kvs s))
            \<and> del_Deleted d = (if etcdView p (kvs s) kind i = None then 0 else 1))"
proof -
  let ?key = "resourceKey p kind i"
  obtain t g where g: "ec_Delete client ?key s = (t, g)" by fastforce
  have "kvs s ?key = None \<longleftrightarrow> etcdView p (kvs s) kind i = None"
    using inv a key_below_kind [OF p _ a, of kind] by (fastforce simp: etcdView_def etcdInv_def addressable_def split: option.splits)
  then show ?thesis
    using etcd_delete [OF g] g run inv etcdView_put [OF p a, of "kvs s" None] etcdInv_delete [OF inv, of ?key]
    by (cases g) (auto simp: etcdDelete_def Let_def)
qed

lemma listLoop_resources:
  assumes "\<forall>kv\<in>set l. \<exists>i v. kv_Key kv \<noteq> rootKey \<and> kv_Key kv \<noteq> TrimSuffix rootKey ''/'' \<and> kv_Value kv = Some v \<and> resource i v"
  shows "\<exists>items. listLoop rootKey l = Inr items 
      \<and> map (\<lambda>e. (env_Key e, env_Value e)) items = map (\<lambda>kv. (kv_Key kv, kv_Value kv)) l"
  using assms by (induction l) (auto simp: resource_envelope)

text \<open>The entries below the root of a kind are the resources of that kind.\<close>

lemma prefix_entry:
  assumes "properPrefix p" and "etcdInv p m" and "kind \<in> set supportedKinds" and "HasPrefix key (kindRoot p kind)" "m key = Some raw"
  shows "\<exists>i v. addressable kind i \<and> key = resourceKey p kind i \<and> raw = Some v \<and> resource i v"
  using assms unfolding etcdInv_def by blast

lemma entries_listing:
  assumes p: "properPrefix p" and inv: "etcdInv p m" and k: "kind \<in> set supportedKinds"
    and keys: "distinct (map env_Key items)" "set (map env_Key items) = {key. HasPrefix key (kindRoot p kind) \<and> m key \<noteq> None}"
    and vals: "\<forall>env\<in>set items. m (env_Key env) = Some (env_Value env)"
  shows "listing (etcdView p m kind) items"
proof -
  have "\<exists>i. addressable kind i \<and> env_Key env = resourceKey p kind i" if e: "env \<in> set items" for env
  proof -
    have "HasPrefix (env_Key env) (kindRoot p kind)" "m (env_Key env) = Some (env_Value env)" using keys(2) vals e by auto
    from prefix_entry [OF p inv k this] show ?thesis by blast
  qed
  then obtain idOf where idOf: "\<And>env. env \<in> set items \<Longrightarrow> addressable kind (idOf env) \<and> env_Key env = resourceKey p kind (idOf env)"
    by metis
  have "map env_Key items = map (resourceKey p kind) (map idOf items)" using idOf by simp
  with keys(1) have "distinct (map idOf items)" by (metis distinct_map)
  moreover have "set (map idOf items) = dom (etcdView p m kind)"
  proof (intro equalityI subsetI)
    fix i assume "i \<in> set (map idOf items)"
    then obtain env where env: "env \<in> set items" "i = idOf env" by auto
    then have "HasPrefix (env_Key env) (kindRoot p kind)" "m (env_Key env) = Some (env_Value env)" using keys(2) vals by auto
    from prefix_entry [OF p inv k this] show "i \<in> dom (etcdView p m kind)" using idOf [OF env(1)] env(2) vals env(1)
      by (auto simp: etcdView_def)
  next
    fix i assume "i \<in> dom (etcdView p m kind)"
    then have i: "addressable kind i" "m (resourceKey p kind i) \<noteq> None"
      by (auto simp: etcdView_def split: if_splits option.splits)
    moreover have "HasPrefix (resourceKey p kind i) (kindRoot p kind)" using key_below_kind [OF p k i(1)] by blast
    ultimately have "resourceKey p kind i \<in> set (map env_Key items)" using keys(2) by blast
    then obtain env where "env \<in> set items" "env_Key env = resourceKey p kind i" by auto
    with idOf [of env] resource_key_inject [OF p i(1)] show "i \<in> set (map idOf items)" by auto
  qed
  moreover have "map env_Value items = map (etcdView p m kind) (map idOf items)"
    using idOf vals by (auto simp: etcdView_def)
  ultimately show ?thesis unfolding listing_def by blast
qed

lemma etcdList_law:
  assumes p: "properPrefix p" and inv: "etcdInv p (kvs s)" and k: "kind \<in> set supportedKinds"
    and run: "etcdList \<lparr>es_client = client, es_prefix = p\<rparr> kind s = (s', r)"
  shows "kvs s' = kvs s
     \<and> (case r of Inl e \<Rightarrow> \<exists>msg. e = StoreFailed msg | Inr items \<Rightarrow> listing (etcdView p (kvs s) kind) items)"
proof -
  obtain t g where g: "ec_GetPrefix client (kindRoot p kind) s = (t, g)" by fastforce
  show ?thesis
  proof (cases g)
    case (Inl err)
    then show ?thesis using etcd_get_prefix [OF g] g run by (auto simp: etcdList_def)
  next
    case (Inr l)
    note l = etcd_get_prefix [OF g, unfolded Inr sum.case]
    have "\<forall>kv\<in>set l. \<exists>i v. addressable kind i \<and> kv_Key kv = resourceKey p kind i \<and> kv_Value kv = Some v \<and> resource i v"
      using prefix_entry [OF p inv k] l by fastforce
    then have "\<forall>kv\<in>set l. \<exists>i v. kv_Key kv \<noteq> kindRoot p kind \<and> kv_Key kv \<noteq> TrimSuffix (kindRoot p kind) ''/''
        \<and> kv_Value kv = Some v \<and> resource i v" using key_not_root [OF p] by metis
    from listLoop_resources [OF this] obtain items where items: "listLoop (kindRoot p kind) l = Inr items"
      "map (\<lambda>e. (env_Key e, env_Value e)) items = map (\<lambda>kv. (kv_Key kv, kv_Value kv)) l" by blast
    from items(2) have "map env_Key items = map kv_Key l"
      by (metis (no_types, lifting) fst_conv map_eq_conv map_map o_def)
    moreover have "\<forall>env\<in>set items. kvs s (env_Key env) = Some (env_Value env)"
    proof
      fix env assume "env \<in> set items"
      then have "(env_Key env, env_Value env) \<in> set (map (\<lambda>e. (env_Key e, env_Value e)) items)" by auto
      then show "kvs s (env_Key env) = Some (env_Value env)" unfolding items(2) using l by auto
    qed
    moreover have "distinct (map env_Key (sort_key env_Key items)) \<longleftrightarrow> distinct (map env_Key items)"
      by (simp add: distinct_map)
    moreover have "set (map env_Key (sort_key env_Key items)) = set (map env_Key items)" by simp
    ultimately have "listing (etcdView p (kvs s) kind) (sort_key env_Key items)"
      by (intro entries_listing [OF p inv k]) (simp_all only: l set_sort)
    then show ?thesis using l g run Inr items(1) by (auto simp: etcdList_def Let_def)
  qed
qed

end

locale etcd_store = etcd_client +
  fixes prefix :: string
  assumes proper: "properPrefix (normalizePrefix prefix)"

sublocale etcd_store \<subseteq> resource_store "etcdStore (NewEtcdStoreWithClient client prefix)"
  "\<lambda>s. etcdView (normalizePrefix prefix) (kvs s)" "\<lambda>s. etcdInv (normalizePrefix prefix) (kvs s)"
proof (unfold_locales, goal_cases)
  case (1 s kind i v)
  then have a: "addressable kind i" and val: "kvs s (resourceKey (normalizePrefix prefix) kind i) = Some (Some v)"
    by (auto simp: etcdView_def split: if_splits option.splits)
  moreover have "kind \<in> set supportedKinds" using a by (simp add: addressable_def)
  ultimately obtain i' v' where "addressable kind i'" "resourceKey (normalizePrefix prefix) kind i = resourceKey (normalizePrefix prefix) kind i'"
    "Some v = Some v'" "resource i' v'"
    using prefix_entry [OF proper 1(1) _ _ val] key_below_kind [OF proper _ a] by blast
  then show ?case using a resource_key_inject [OF proper] by auto
next
  case (2 s kind i s' rg)
  then show ?case using etcdGet_law [OF proper] by (auto simp: etcdStore_def NewEtcdStoreWithClient_def)
next
  case (3 s kind i v s' rp)
  then show ?case using etcdPut_law [OF proper] by (auto simp: etcdStore_def NewEtcdStoreWithClient_def)
next
  case (4 s kind i s' rd)
  then show ?case using etcdDelete_law [OF proper] by (auto simp: etcdStore_def NewEtcdStoreWithClient_def)
next
  case (5 s kind s' rl)
  then show ?case using etcdList_law [OF proper] by (auto simp: etcdStore_def NewEtcdStoreWithClient_def)
qed

context etcd_store
begin

lemma is_store:
  "resource_store (etcdStore (NewEtcdStoreWithClient client prefix))
     (\<lambda>s. etcdView (normalizePrefix prefix) (kvs s)) (\<lambda>s. etcdInv (normalizePrefix prefix) (kvs s))"
  by unfold_locales

end

section \<open>An etcd in memory\<close>

text \<open>A key-value store with revisions that never fails, together with a clock. It has the properties that are
  relied on of etcd, and the store of the control plane runs on it.\<close>

record memory =
  me_kvs :: "(string \<times> RawMessage \<times> int \<times> int) list"
  me_revision :: int
  me_clock :: int

definition memEntry :: "memory \<Rightarrow> string \<Rightarrow> KeyValue list" where
  "memEntry s key =
     (case map_of (me_kvs s) key of
        None \<Rightarrow> []
      | Some (v, c, t) \<Rightarrow> [\<lparr>kv_Key = key, kv_Value = v, kv_CreateRevision = c, kv_ModRevision = t\<rparr>])"

definition memClient :: "memory etcdKVClient" where
  "memClient =
     \<lparr>ec_Get = \<lambda>key s. (s, Inr (memEntry s key)),
      ec_GetPrefix = \<lambda>key s. (s, Inr (concat (map (memEntry s) (sort (remdups (filter (\<lambda>k. HasPrefix k key) (map fst (me_kvs s)))))))),
      ec_Put = \<lambda>key v s.
        (let rev = me_revision s + 1;
             created = (case map_of (me_kvs s) key of None \<Rightarrow> rev | Some (_, c, _) \<Rightarrow> c)
         in (s\<lparr>me_kvs := map_put key (v, created, rev) (me_kvs s), me_revision := rev\<rparr>, Inr ())),
      ec_Delete = \<lambda>key s.
        (s\<lparr>me_kvs := map_delete key (me_kvs s), me_revision := me_revision s + 1\<rparr>,
         Inr (if map_of (me_kvs s) key = None then 0 else 1))\<rparr>"

definition memKvs :: "memory \<Rightarrow> string \<Rightarrow> RawMessage option" where
  "memKvs s key = map_option fst (map_of (me_kvs s) key)"

lemma memEntry_keys: "map kv_Key (concat (map (memEntry s) ks)) = filter (\<lambda>k. memKvs s k \<noteq> None) ks"
  by (induction ks) (auto simp: memEntry_def memKvs_def split: option.splits)

lemma memEntry_value: "kv \<in> set (memEntry s key) \<Longrightarrow> memKvs s (kv_Key kv) = Some (kv_Value kv)"
  by (cases "map_of (me_kvs s) key") (auto simp: memEntry_def memKvs_def)

lemma memKvs_in: "memKvs s k \<noteq> None \<longleftrightarrow> k \<in> set (map fst (me_kvs s))"
  by (auto simp: memKvs_def map_of_eq_None_iff)

interpretation mem: etcd_client memClient memKvs
proof (unfold_locales, goal_cases)
  case (1 key s s' rg)
  then show ?case by (auto simp: memClient_def memKvs_def memEntry_def split: option.splits)
next
  case (2 key s s' rl)
  let ?ks = "sort (remdups (filter (\<lambda>k. HasPrefix k key) (map fst (me_kvs s))))"
  have "s' = s" "rl = Inr (concat (map (memEntry s) ?ks))" using 2 by (auto simp: memClient_def)
  moreover have "distinct (filter (\<lambda>k. memKvs s k \<noteq> None) ?ks)" by simp
  moreover have "set (filter (\<lambda>k. memKvs s k \<noteq> None) ?ks) = {k. HasPrefix k key \<and> memKvs s k \<noteq> None}"
    using memKvs_in [of s] by auto
  moreover have "\<forall>kv\<in>set (concat (map (memEntry s) ?ks)). memKvs s (kv_Key kv) = Some (kv_Value kv)"
    using memEntry_value by auto
  ultimately show ?case by (simp only: memEntry_keys sum.case simp_thms)
next
  case (3 key v s s' rp)
  then show ?case by (auto simp: memClient_def memKvs_def fun_eq_iff Let_def)
next
  case (4 key s s' rd)
  then show ?case by (auto simp: memClient_def memKvs_def fun_eq_iff)
qed

lemma etcd_store_memory: "properPrefix (normalizePrefix prefix) \<Longrightarrow> etcd_store memClient memKvs prefix"
  by unfold_locales

definition productionPrefix :: string where
  "productionPrefix = ''/lumen/prod''"

interpretation production: etcd_store memClient memKvs productionPrefix
  by unfold_locales code_simp

text \<open>The invariant of the store, checked entry by entry of a memory.\<close>

definition memStoreOK :: "string \<Rightarrow> memory \<Rightarrow> bool" where
  "memStoreOK prefix s \<longleftrightarrow>
     list_all (\<lambda>(key, v, _). list_all (\<lambda>kind. HasPrefix key (kindRoot prefix kind) \<longrightarrow>
         (let i = drop (length (kindRoot prefix kind)) key
          in addressable kind i \<and> key = resourceKey prefix kind i \<and> (case v of None \<Rightarrow> False | Some w \<Rightarrow> resource i w)))
       supportedKinds) (me_kvs s)"

lemma memKvs_member: "memKvs s key = Some raw \<Longrightarrow> \<exists>c t. (key, raw, c, t) \<in> set (me_kvs s)"
  by (auto simp: memKvs_def dest!: map_of_SomeD)

lemma memStoreOK_inv: "memStoreOK prefix s \<Longrightarrow> etcdInv prefix (memKvs s)"
  unfolding etcdInv_def memStoreOK_def list_all_iff Let_def
  by (fastforce dest!: memKvs_member split: option.splits)

end
