(* ===== verification/Control_Service.thy ===== *)
theory Control_Service
  imports Resource_Store
begin

text \<open>
  The service of the control plane (\<^verbatim>\<open>internal/controlplane/controlplane.go\<close>) on any store that keeps the
  promises of \<open>resource_store\<close>, and on the etcd store in particular: what Put, Post and Patch write, what merging
  a patch means, and that nothing but an error of etcd makes a well-formed request fail.
\<close>

section \<open>Notions used in the statements\<close>

text \<open>A body that the control plane can store: an object, or \<^verbatim>\<open>null\<close> for the empty object.\<close>

definition storable :: "(string \<times> any) list \<Rightarrow> bool" where
  "storable m \<longleftrightarrow> document (AMap m) \<and> jsonField ''value'' m = None"

text \<open>The members of a resource as written at time \<open>t\<close> over the former value \<open>old\<close>.\<close>

definition createTime :: "int \<Rightarrow> any option \<Rightarrow> (string \<Rightarrow> any option) \<Rightarrow> any" where
  "createTime t old m =
     (case m ''create_time'' of
        Some c \<Rightarrow> c
      | None \<Rightarrow>
          (case old of
             Some (AMap mo) \<Rightarrow> (case map_of mo ''create_time'' of Some c \<Rightarrow> c | None \<Rightarrow> AFloat (of_int t))
           | _ \<Rightarrow> AFloat (of_int t)))"

definition stamped :: "int \<Rightarrow> string \<Rightarrow> any option \<Rightarrow> (string \<Rightarrow> any option) \<Rightarrow> string \<Rightarrow> any option" where
  "stamped t i old m =
     m(''id'' \<mapsto> AString i, ''update_time'' \<mapsto> AFloat (of_int t), ''create_time'' \<mapsto> createTime t old m)"

text \<open>The new contents of the store after a resource is written with value \<open>v\<close>, and the possible results of
  a write: the write is done and its value returned, or etcd failed, before the write or after it.\<close>

definition wrote :: "int \<Rightarrow> ResourceKind \<Rightarrow> string \<Rightarrow> (string \<Rightarrow> any option) \<Rightarrow> resources \<Rightarrow> any \<Rightarrow> resources \<Rightarrow> bool" where
  "wrote t kind i m res v res' \<longleftrightarrow>
     resource i v \<and> (\<exists>m'. v = AMap m' \<and> map_of m' = stamped t i (res kind i) m)
     \<and> res' = update_resource kind i (Some v) res"

definition write_result ::
    "int \<Rightarrow> ResourceKind \<Rightarrow> string \<Rightarrow> (string \<Rightarrow> any option) \<Rightarrow> resources \<Rightarrow> cp_error + Envelope \<Rightarrow> resources \<Rightarrow> bool" where
  "write_result t kind i m res r res' \<longleftrightarrow>
     (case r of
        Inr env \<Rightarrow> \<exists>v. env_Value env = Some v \<and> wrote t kind i m res v res'
      | Inl e \<Rightarrow> (\<exists>msg. e = StoreFailed msg) \<and> (res' = res \<or> (\<exists>v. wrote t kind i m res v res')))"

text \<open>JSON merge patch as RFC 7396 defines it: a \<^verbatim>\<open>null\<close> in the patch removes a member at every depth, an
  object in the patch is merged into an empty object when the target has none.\<close>

function rfcMerge :: "(string \<times> any) list \<Rightarrow> (string \<times> any) list \<Rightarrow> (string \<times> any) list" where
  "rfcMerge target [] = target"
| "rfcMerge target ((k, v) # patch) =
     rfcMerge
       (case v of
          ANil \<Rightarrow> map_delete k target
        | AMap pm \<Rightarrow> map_put k (AMap (rfcMerge (case map_of target k of Some (AMap tm) \<Rightarrow> tm | _ \<Rightarrow> []) pm)) target
        | _ \<Rightarrow> map_put k v target) patch"
  by pat_completeness auto

termination rfcMerge
  by (relation "measure (\<lambda>(target, patch). size_list (size_prod (\<lambda>_. 0) size) patch)") auto

text \<open>No member of the object is \<^verbatim>\<open>null\<close>, nor of an object in it; and: this holds of the objects in the patch
  that meet no object in the base.\<close>

function noNulls :: "(string \<times> any) list \<Rightarrow> bool" where
  "noNulls [] \<longleftrightarrow> True"
| "noNulls ((k, v) # m) \<longleftrightarrow> v \<noteq> ANil \<and> (case v of AMap vm \<Rightarrow> noNulls vm | _ \<Rightarrow> True) \<and> noNulls m"
  by pat_completeness auto

termination noNulls
  by (relation "measure (size_list (size_prod (\<lambda>_. 0) size))") auto

function nullsMet :: "(string \<times> any) list \<Rightarrow> (string \<times> any) list \<Rightarrow> bool" where
  "nullsMet base [] \<longleftrightarrow> True"
| "nullsMet base ((k, v) # patch) \<longleftrightarrow>
     (case v of
        AMap pm \<Rightarrow> (case map_of base k of Some (AMap bm) \<Rightarrow> nullsMet bm pm | _ \<Rightarrow> noNulls pm)
      | _ \<Rightarrow> True) \<and> nullsMet base patch"
  by pat_completeness auto

termination nullsMet
  by (relation "measure (\<lambda>(base, patch). size_list (size_prod (\<lambda>_. 0) size) patch)") auto

section \<open>Documents\<close>

lemma jsonField_None: "jsonField name m = None \<longleftrightarrow> (\<forall>k\<in>fst ` set m. \<not> EqualFold k name)"
proof -
  have "jsonField name m = None \<longleftrightarrow> filter (\<lambda>(k, v). EqualFold k name) m = []"
    by (simp add: jsonField_def split: list.split)
  then show ?thesis by (force simp: filter_empty_conv)
qed

lemma jsonField_put [simp]: "jsonField name m = None \<Longrightarrow> \<not> EqualFold k name \<Longrightarrow> jsonField name (map_put k v m) = None"
  by (auto simp: jsonField_None)

lemma jsonField_jsonify [simp]: "jsonField name (map (map_prod id jsonify) m) = None \<longleftrightarrow> jsonField name m = None"
  by (force simp: jsonField_None)

lemma map_of_jsonify: "map_of (map (map_prod id jsonify) m) k = map_option jsonify (map_of m k)"
  by (induction m) auto

lemma document_jsonify_put:
  "document (jsonify (AMap m)) \<Longrightarrow> document (jsonify v) \<Longrightarrow> document (jsonify (AMap (map_put k v m)))"
  by (auto simp: comp_def dest!: set_map_put)

lemma document_lookup: "document (AMap m) \<Longrightarrow> map_of m k = Some v \<Longrightarrow> document v"
  by (auto dest!: map_of_SomeD)

text \<open>Writing the identifier and the times into a storable body yields a resource.\<close>

lemma stamped_resource:
  assumes m: "storable m" and c: "document (jsonify c)"
    and body: "n = map_put ''update_time'' (AInt t) (map_put ''id'' (AString i) m)"
    and n': "n' = (if map_of n ''create_time'' = None then map_put ''create_time'' c n else n)"
  shows "\<exists>m'. jsonify (AMap n') = AMap m' \<and> resource i (AMap m')
      \<and> map_of m' = (map_of m)(''id'' \<mapsto> AString i, ''update_time'' \<mapsto> AFloat (of_int t),
           ''create_time'' \<mapsto> (case map_of m ''create_time'' of Some x \<Rightarrow> x | None \<Rightarrow> jsonify c))"
proof -
  have fold: "\<not> EqualFold ''id'' ''value''" "\<not> EqualFold ''update_time'' ''value''" "\<not> EqualFold ''create_time'' ''value''"
    by code_simp+
  have "document (jsonify (AMap m))" using m jsonify_document [of "AMap m"] by (simp only: storable_def)
  then have doc: "document (jsonify (AMap n'))"
    unfolding n' body using c by (auto intro!: document_jsonify_put simp del: jsonify.simps document_AMap)
      (simp_all add: jsonify.simps)
  have "jsonField ''value'' n' = None"
    using m fold unfolding n' body by (auto simp: storable_def)
  moreover have "map_of n' ''id'' = Some (AString i)" unfolding n' body by simp
  ultimately have "resource i (jsonify (AMap n'))"
    using doc by (simp add: resource_def map_of_jsonify)
  moreover have val: "map_option jsonify (map_of m k) = map_of m k" for k
    using m document_lookup [of m k] by (cases "map_of m k") (auto simp: storable_def simp del: document_AMap)
  have "map_of (map (map_prod id jsonify) n') = (map_of m)(''id'' \<mapsto> AString i, ''update_time'' \<mapsto> AFloat (of_int t),
           ''create_time'' \<mapsto> (case map_of m ''create_time'' of Some x \<Rightarrow> x | None \<Rightarrow> jsonify c))"
    using val [of "''create_time''"] unfolding n' body
    by (cases "map_of m ''create_time''") (simp_all add: fun_eq_iff map_of_jsonify val)
  ultimately show ?thesis by simp
qed

section \<open>Merging\<close>

text \<open>The value of one member after merging, and the merge of objects member by member.\<close>

definition mergeValue :: "any option \<Rightarrow> any \<Rightarrow> any option" where
  "mergeValue b p =
     (case p of
        ANil \<Rightarrow> None
      | AMap pm \<Rightarrow> Some (case b of Some (AMap bm) \<Rightarrow> AMap (mergeObject bm pm) | _ \<Rightarrow> p)
      | _ \<Rightarrow> Some p)"

definition setMember :: "string \<Rightarrow> any option \<Rightarrow> (string \<times> any) list \<Rightarrow> (string \<times> any) list" where
  "setMember k v m = (case v of None \<Rightarrow> map_delete k m | Some w \<Rightarrow> map_put k w m)"

lemma mergeObject_step:
  "mergeObject base ((k, v) # patch) = mergeObject (setMember k (mergeValue (map_of base k) v) base) patch"
  by (auto simp: mergeValue_def setMember_def split: any.splits option.splits)

declare mergeObject.simps(2) [simp del]

lemma map_of_setMember [simp]: "map_of (setMember k v m) k' = (if k = k' then v else map_of m k')"
  by (auto simp: setMember_def split: option.splits)

lemma keys_delete: "fst ` set (map_delete k m) \<subseteq> fst ` set m"
  by (auto simp: map_delete_def AList.delete_eq)

lemma keys_setMember: "fst ` set (setMember k v m) \<subseteq> insert k (fst ` set m)"
  using keys_delete [of k m] by (auto simp: setMember_def split: option.splits)

lemma mergeObject_lookup:
  "distinct (map fst patch) \<Longrightarrow>
     map_of (mergeObject base patch) k
       = (case map_of patch k of None \<Rightarrow> map_of base k | Some v \<Rightarrow> mergeValue (map_of base k) v)"
proof (induction patch arbitrary: base)
  case (Cons p patch)
  obtain key v where "p = (key, v)" by fastforce
  moreover have "map_of patch k = None" if "k \<notin> fst ` set patch" using that by (simp add: map_of_eq_None_iff)
  ultimately show ?case using Cons by (cases "key = k") (auto simp: mergeObject_step split: option.split)
qed simp

lemma mergeObject_keys: "fst ` set (mergeObject base patch) \<subseteq> fst ` set base \<union> fst ` set patch"
proof (induction patch arbitrary: base)
  case (Cons p patch)
  obtain key v where "p = (key, v)" by fastforce
  moreover have "fst ` set (mergeObject (setMember key w base) patch) \<subseteq> insert key (fst ` set base) \<union> fst ` set patch" for w
    using Cons.IH [of "setMember key w base"] keys_setMember [of key w base] by blast
  ultimately show ?case by (auto simp: mergeObject_step)
qed simp

lemma document_setMember:
  assumes m: "document (AMap m)" and v: "\<And>w. v = Some w \<Longrightarrow> document w"
  shows "document (AMap (setMember k v m))"
proof (cases v)
  case None
  have "distinct (map fst (map_delete k m))" using m by (simp add: map_delete_def distinct_delete)
  moreover have "set (map_delete k m) \<subseteq> set m" by (auto simp: map_delete_def AList.delete_eq)
  ultimately show ?thesis using None m by (auto simp: setMember_def)
next
  case (Some w)
  then show ?thesis using m v by (auto simp: setMember_def dest!: set_map_put)
qed

lemma document_merge: "document (AMap base) \<Longrightarrow> document (AMap patch) \<Longrightarrow> document (AMap (mergeObject base patch))"
proof (induction "size_list (size_prod (\<lambda>_. 0) size) patch" arbitrary: base patch rule: less_induct)
  case less
  show ?case
  proof (cases patch)
    case Nil
    then show ?thesis using less.prems by simp
  next
    case (Cons kv patch')
    obtain k v where kv: "kv = (k, v)" by fastforce
    have docs: "document v" "document (AMap patch')" using less.prems(2) Cons kv by auto
    have "document w" if "mergeValue (map_of base k) v = Some w" for w
    proof (cases "\<exists>bm pm. map_of base k = Some (AMap bm) \<and> v = AMap pm")
      case True
      then obtain bm pm where *: "map_of base k = Some (AMap bm)" "v = AMap pm" by blast
      then have "document (AMap (mergeObject bm pm))"
        using less.hyps [of pm bm] document_lookup [OF less.prems(1) *(1)] docs(1) Cons kv by simp
      moreover have "w = AMap (mergeObject bm pm)" using that * by (simp add: mergeValue_def)
      ultimately show ?thesis by (simp only:)
    next
      case False
      then have "w = v" using that by (auto simp: mergeValue_def split: any.splits option.splits)
      then show ?thesis using docs by simp
    qed
    from less.hyps [OF _ document_setMember [OF less.prems(1) this] docs(2)] show ?thesis
      using Cons kv by (simp add: mergeObject_step del: document_AMap)
  qed
qed

lemma storable_merge: "storable base \<Longrightarrow> storable patch \<Longrightarrow> storable (mergeObject base patch)"
  unfolding storable_def
proof (intro conjI, elim conjE)
  assume "document (AMap base)" "document (AMap patch)"
  then show "document (AMap (mergeObject base patch))" by (rule document_merge)
next
  assume "document (AMap base) \<and> jsonField ''value'' base = None" "document (AMap patch) \<and> jsonField ''value'' patch = None"
  then show "jsonField ''value'' (mergeObject base patch) = None"
    using mergeObject_keys [of base patch] unfolding jsonField_None by fast
qed

text \<open>Merging an object without nulls into the empty object gives that object.\<close>

lemma map_put_new: "map_of m k = None \<Longrightarrow> map_put k v m = m @ [(k, v)]"
  unfolding map_put_def by (induction m) (auto split: if_splits)

lemma rfcMerge_new:
  "noNulls patch \<Longrightarrow> document (AMap (target @ patch)) \<Longrightarrow> rfcMerge target patch = target @ patch"
proof (induction target patch rule: rfcMerge.induct)
  case (2 target k v patch)
  have new: "map_of target k = None" and doc: "document v" using "2.prems"(2) by (auto simp: map_of_eq_None_iff)
  have v: "(case v of ANil \<Rightarrow> map_delete k target
        | AMap pm \<Rightarrow> map_put k (AMap (rfcMerge (case map_of target k of Some (AMap tm) \<Rightarrow> tm | _ \<Rightarrow> []) pm)) target
        | _ \<Rightarrow> map_put k v target) = target @ [(k, v)]"
    using "2.prems"(1) "2.IH"(1) new doc by (cases v) (simp_all add: map_put_new)
  show ?case using "2.IH"(2) "2.prems" v by simp
qed simp

lemma nullsMet_cong: "(\<And>k. k \<in> fst ` set patch \<Longrightarrow> map_of b k = map_of b' k) \<Longrightarrow> nullsMet b patch = nullsMet b' patch"
  by (induction patch) (auto split: any.splits)

lemma mergeValue_rfc:
  assumes "document (AMap pm)" and "case b of Some (AMap bm) \<Rightarrow> mergeObject bm pm = rfcMerge bm pm | _ \<Rightarrow> noNulls pm"
  shows "mergeValue b (AMap pm) = Some (AMap (rfcMerge (case b of Some (AMap tm) \<Rightarrow> tm | _ \<Rightarrow> []) pm))"
  using assms rfcMerge_new [of pm "[]"] by (auto simp: mergeValue_def split: option.splits any.splits)

lemma mergeObject_rfc: "document (AMap patch) \<Longrightarrow> nullsMet base patch \<Longrightarrow> mergeObject base patch = rfcMerge base patch"
proof (induction "size_list (size_prod (\<lambda>_. 0) size) patch" arbitrary: base patch rule: less_induct)
  case less
  show ?case
  proof (cases patch)
    case (Cons kv patch')
    obtain k v where kv: "kv = (k, v)" by fastforce
    have docs: "document v" "document (AMap patch')" "k \<notin> fst ` set patch'" using less.prems(1) Cons kv by auto
    let ?b = "setMember k (mergeValue (map_of base k) v) base"
    have "nullsMet ?b patch' \<longleftrightarrow> nullsMet base patch'" by (rule nullsMet_cong) (use docs(3) in force)
    with less.prems(2) Cons kv have "nullsMet ?b patch'" by simp
    with less.hyps docs(2) Cons kv have rest: "mergeObject ?b patch' = rfcMerge ?b patch'" by simp
    have "?b = (case v of ANil \<Rightarrow> map_delete k base
        | AMap pm \<Rightarrow> map_put k (AMap (rfcMerge (case map_of base k of Some (AMap tm) \<Rightarrow> tm | _ \<Rightarrow> []) pm)) base
        | _ \<Rightarrow> map_put k v base)"
    proof (cases v)
      case (AMap pm)
      have "mergeObject bm pm = rfcMerge bm pm" if "map_of base k = Some (AMap bm)" for bm
        using less.hyps [of pm bm] less.prems(2) docs(1) that AMap Cons kv by simp
      then have "case map_of base k of Some (AMap bm) \<Rightarrow> mergeObject bm pm = rfcMerge bm pm | _ \<Rightarrow> noNulls pm"
        using less.prems(2) AMap Cons kv by (auto split: option.splits any.splits)
      with mergeValue_rfc docs(1) AMap show ?thesis by (simp add: setMember_def)
    qed (simp_all add: mergeValue_def setMember_def)
    then show ?thesis using rest Cons kv by (simp add: mergeObject_step)
  qed simp
qed

text \<open>Merging twice. A member that is there, or is to be removed, can be set before or after the merging of other members.\<close>

lemma update_swap_list: "k \<noteq> k' \<Longrightarrow> k \<in> fst ` set m \<Longrightarrow> AList.update k v (AList.update k' v' m) = AList.update k' v' (AList.update k v m)"
  by (induction m) auto

lemma delete_update_list: "k \<noteq> k' \<Longrightarrow> AList.delete k (AList.update k' v' m) = AList.update k' v' (AList.delete k m)"
  by (induction m) (auto simp: AList.delete_eq)

lemma update_delete_list: "k \<noteq> k' \<Longrightarrow> k \<in> fst ` set m \<Longrightarrow> AList.update k v (AList.delete k' m) = AList.delete k' (AList.update k v m)"
  by (induction m) (auto simp: AList.delete_eq)

lemma setMember_swap:
  assumes "k \<noteq> k'" and "w = None \<or> map_of m k \<noteq> None"
  shows "setMember k w (setMember k' w' m) = setMember k' w' (setMember k w m)"
proof (cases w)
  case None
  then show ?thesis using assms(1)
    by (cases w') (simp_all add: setMember_def map_put_def map_delete_def delete_update_list AList.delete_twist)
next
  case (Some v)
  then have "k \<in> fst ` set m" using assms(2) by (auto simp: map_of_eq_None_iff)
  note swaps = update_swap_list [OF assms(1) this, of v] update_delete_list [OF assms(1) this, of v]
  show ?thesis using Some by (cases w') (simp_all add: setMember_def map_put_def map_delete_def swaps)
qed

lemma setMember_merge:
  assumes "k \<notin> fst ` set patch" and "w = None \<or> map_of base k \<noteq> None"
  shows "setMember k w (mergeObject base patch) = mergeObject (setMember k w base) patch"
  using assms
proof (induction patch arbitrary: base)
  case (Cons p patch)
  obtain k' v where p: "p = (k', v)" by fastforce
  then have k: "k \<noteq> k'" using Cons.prems(1) by auto
  let ?w = "mergeValue (map_of base k') v"
  have "setMember k w (mergeObject (setMember k' ?w base) patch) = mergeObject (setMember k w (setMember k' ?w base)) patch"
    by (rule Cons.IH) (use Cons.prems k in auto)
  also have "setMember k w (setMember k' ?w base) = setMember k' ?w (setMember k w base)"
    by (rule setMember_swap [OF k Cons.prems(2)])
  finally show ?case using k by (simp add: p mergeObject_step)
qed simp

lemma setMember_again: "setMember k (Some w) (setMember k (Some w') m) = setMember k (Some w) m" "setMember k None (setMember k None m) = setMember k None m"
  by (simp_all add: setMember_def map_put_def map_delete_def delete_idem)

lemma map_put_last: "k \<notin> fst ` set acc \<Longrightarrow> map_put k w (acc @ (k, v) # rest) = acc @ (k, w) # rest"
  unfolding map_put_def by (induction acc) auto

lemma map_delete_last: "k \<notin> fst ` set acc \<Longrightarrow> k \<notin> fst ` set rest \<Longrightarrow> map_delete k (acc @ (k, v) # rest) = acc @ rest"
  by (simp add: map_delete_def AList.delete_eq filter_id_conv case_prod_beta image_iff)

lemma merge_self: "document (AMap pm) \<Longrightarrow> fst ` set acc \<inter> fst ` set pm = {} \<Longrightarrow> mergeObject (acc @ pm) pm = rfcMerge acc pm"
proof (induction "size_list (size_prod (\<lambda>_. 0) size) pm" arbitrary: acc pm rule: less_induct)
  case less
  show ?case
  proof (cases pm)
    case (Cons kv rest)
    obtain k v where kv: "kv = (k, v)" by fastforce
    have docs: "document v" "document (AMap rest)" "k \<notin> fst ` set rest" using less.prems(1) Cons kv by auto
    have k: "k \<notin> fst ` set acc" "map_of acc k = None" using less.prems(2) Cons kv by (auto simp: map_of_eq_None_iff)
    have look: "map_of (acc @ (k, v) # rest) k = Some v" using k(2) by (simp add: map_add_def)
    define acc' where "acc' = (case v of ANil \<Rightarrow> acc | AMap pm' \<Rightarrow> acc @ [(k, AMap (rfcMerge [] pm'))] | _ \<Rightarrow> acc @ [(k, v)])"
    have "fst ` set acc' \<inter> fst ` set rest = {}" using less.prems(2) docs(3) Cons kv by (auto simp: acc'_def split: any.splits)
    then have rest: "mergeObject (acc' @ rest) rest = rfcMerge acc' rest" using less.hyps docs(2) Cons kv by simp
    have "setMember k (mergeValue (Some v) v) (acc @ (k, v) # rest) = acc' @ rest"
    proof (cases v)
      case (AMap pm')
      then have "mergeObject ([] @ pm') pm' = rfcMerge [] pm'" using less.hyps [of pm' "[]"] docs(1) Cons kv by simp
      with AMap show ?thesis using k by (simp add: setMember_def mergeValue_def acc'_def map_put_last)
    qed (use k docs(3) in \<open>simp_all add: setMember_def mergeValue_def acc'_def map_put_last map_delete_last\<close>)
    moreover have "rfcMerge acc pm = rfcMerge acc' rest"
    proof -
      have "map_delete k acc = acc" using k(1) by (force simp: map_delete_def AList.delete_eq filter_id_conv)
      then show ?thesis using k Cons kv by (cases v) (simp_all add: acc'_def map_put_new)
    qed
    ultimately show ?thesis using rest Cons kv look by (simp add: mergeObject_step)
  qed simp
qed

lemma merge_twice: "document (AMap patch) \<Longrightarrow> mergeObject (mergeObject base patch) patch = rfcMerge base patch"
proof (induction "size_list (size_prod (\<lambda>_. 0) size) patch" arbitrary: base patch rule: less_induct)
  case less
  show ?case
  proof (cases patch)
    case (Cons kv rest)
    obtain k v where kv: "kv = (k, v)" by fastforce
    have docs: "document v" "document (AMap rest)" "k \<notin> fst ` set rest" using less.prems Cons kv by auto
    define b where "b = setMember k (mergeValue (map_of base k) v) base"
    define w where "w = mergeValue (map_of b k) v"
    have there: "w = None \<or> map_of b k \<noteq> None" by (auto simp: w_def b_def mergeValue_def split: any.splits option.splits)
    have same: "map_of (mergeObject b rest) k = map_of b k"
      using docs(2,3) mergeObject_lookup [of rest b k] by (simp add: map_of_eq_None_iff [THEN iffD2])
    have "mergeObject (mergeObject base patch) patch = mergeObject (setMember k w (mergeObject b rest)) rest"
      using Cons kv same by (simp add: mergeObject_step b_def [symmetric] w_def)
    also have "\<dots> = mergeObject (mergeObject (setMember k w b) rest) rest"
      using setMember_merge [OF docs(3) there] by simp
    also have "\<dots> = rfcMerge (setMember k w b) rest" using less.hyps docs(2) Cons kv by simp
    also have "setMember k w b = (case v of ANil \<Rightarrow> map_delete k base
        | AMap pm \<Rightarrow> map_put k (AMap (rfcMerge (case map_of base k of Some (AMap tm) \<Rightarrow> tm | _ \<Rightarrow> []) pm)) base
        | _ \<Rightarrow> map_put k v base)"
    proof (cases v)
      case (AMap pm)
      have self: "mergeObject pm pm = rfcMerge [] pm" using merge_self [of pm "[]"] docs(1) AMap by simp
      have deep: "mergeObject (mergeObject bm pm) pm = rfcMerge bm pm" for bm using less.hyps [of pm bm] docs(1) AMap Cons kv by simp
      have "w = Some (AMap (rfcMerge (case map_of base k of Some (AMap tm) \<Rightarrow> tm | _ \<Rightarrow> []) pm))"
        using AMap self deep by (auto simp: w_def b_def mergeValue_def split: option.split any.split)
      then show ?thesis using AMap by (simp add: b_def mergeValue_def setMember_again) (simp add: setMember_def)
    qed (simp_all add: w_def b_def mergeValue_def setMember_again, simp_all add: setMember_def)
    finally show ?thesis using Cons kv by simp
  qed simp
qed

section \<open>Operations of the service\<close>

lemma storable_decode: "storable m \<Longrightarrow> decodeJSONObject (Some (AMap m)) = Inr m"
  by (simp add: decodeJSONObject_def decodeMap_def)

lemma validateKind_None [simp]: "kind \<in> set supportedKinds \<Longrightarrow> validateKind kind = None"
  by (simp add: validateKind_def)

context resource_store
begin

text \<open>The body that is written: read back nothing but the creation time.\<close>

lemma normalizeForWrite_outcome:
  assumes inv: "inv s" and a: "addressable kind i" and m: "decodeJSONObject body = Inr m" "storable m"
    and run: "normalizeForWrite store now kind i body s = (s', r)"
  shows "inv s' \<and> view s' = view s
    \<and> (case r of Inl e \<Rightarrow> \<exists>msg. e = StoreFailed msg
       | Inr raw \<Rightarrow> \<exists>m'. raw = Some (AMap m') \<and> resource i (AMap m')
           \<and> map_of m' = stamped (now s) i (view s kind i) (map_of m))"
proof -
  let ?n = "map_put ''update_time'' (AInt (now s)) (map_put ''id'' (AString i) m)"
  have none: "map_of ?n ''create_time'' = map_of m ''create_time''" by simp
  have wrote: "\<exists>m'. jsonify (AMap n') = AMap m' \<and> resource i (AMap m')
      \<and> map_of m' = stamped (now s) i (view s kind i) (map_of m)"
    if "document (jsonify c)" "n' = (if map_of ?n ''create_time'' = None then map_put ''create_time'' c ?n else ?n)"
      and "map_of m ''create_time'' = None \<Longrightarrow> jsonify c = createTime (now s) (view s kind i) (map_of m)" for c n'
    using stamped_resource [OF m(2) that(1) refl that(2)] that(3)
    by (auto simp: stamped_def createTime_def split: option.split)
  show ?thesis
  proof (cases "map_of m ''create_time''")
    case (Some c)
    with m(1) run have "s' = s" "r = Inr (Some (jsonify (AMap ?n)))"
      by (auto simp: normalizeForWrite_def withCreateTime_def Let_def)
    moreover obtain m' where "jsonify (AMap ?n) = AMap m'" "resource i (AMap m')"
      "map_of m' = stamped (now s) i (view s kind i) (map_of m)"
      using wrote [of ANil ?n] Some none by auto
    ultimately show ?thesis using inv by simp
  next
    case None
    obtain t g where g: "st_Get store kind i s = (t, g)" by fastforce
    note get = get_law [OF inv a g]
    consider (failed) msg where "g = Inl (StoreFailed msg)" | (missing) "g = Inl ErrNotFound" "view s kind i = None"
      | (found) env mo where "g = Inr env" "env_Value env = Some (AMap mo)" "view s kind i = Some (AMap mo)" "resource i (AMap mo)"
    proof (cases g)
      case (Inl e) then show ?thesis using get that(1,2) by auto
    next
      case (Inr env)
      then obtain v where "view s kind i = Some v" "env_Value env = Some v" using get by auto
      moreover have "resource i v" using view_resource [OF inv calculation(1)] by simp
      ultimately show ?thesis using that(3) Inr by (cases v) (auto simp: resource_def)
    qed
    then show ?thesis
    proof cases
      case failed
      then show ?thesis using run m(1) g get None by (auto simp: normalizeForWrite_def withCreateTime_def Let_def)
    next
      case missing
      let ?n' = "map_put ''create_time'' (AInt (now s)) ?n"
      have "s' = t" "r = Inr (Some (jsonify (AMap ?n')))"
        using run m(1) g None missing by (auto simp: normalizeForWrite_def withCreateTime_def Let_def)
      moreover have "\<exists>m'. jsonify (AMap ?n') = AMap m' \<and> resource i (AMap m')
          \<and> map_of m' = stamped (now s) i (view s kind i) (map_of m)"
        by (rule wrote [of "AInt (now s)"]) (use None missing in \<open>auto simp: createTime_def\<close>)
      ultimately show ?thesis using get by auto
    next
      case found
      define c where "c = (case map_of mo ''create_time'' of None \<Rightarrow> AInt (now s) | Some c \<Rightarrow> c)"
      let ?n' = "map_put ''create_time'' c ?n"
      have doc: "map_of mo ''create_time'' = Some c' \<Longrightarrow> document c'" for c'
        using found(4) document_lookup [of mo "''create_time''" c'] by (simp add: resource_def del: document_AMap)
      have "s' = t" "r = Inr (Some (jsonify (AMap ?n')))"
        using run m(1) g None found
        by (auto simp: normalizeForWrite_def withCreateTime_def Let_def c_def decodeJSONObject_def decodeMap_def split: option.splits)
      moreover have "\<exists>m'. jsonify (AMap ?n') = AMap m' \<and> resource i (AMap m')
          \<and> map_of m' = stamped (now s) i (view s kind i) (map_of m)"
        by (rule wrote [of c]) (use None found doc in \<open>auto simp: createTime_def c_def split: option.split\<close>)
      ultimately show ?thesis using get by auto
    qed
  qed
qed

text \<open>Normalizing and storing, the common end of Put, Post and Patch.\<close>

lemma write_outcome:
  assumes inv: "inv s" and a: "addressable kind i" and m: "decodeJSONObject body = Inr m" "storable m"
    and run: "(case normalizeForWrite store now kind i body s of
        (s, Inl e) \<Rightarrow> (s, Inl e) | (s, Inr normalized) \<Rightarrow> st_Put store kind i normalized s) = (s', r)"
  shows "inv s' \<and> write_result (now s) kind i (map_of m) (view s) r (view s')"
proof -
  obtain t g where g: "normalizeForWrite store now kind i body s = (t, g)" by fastforce
  note norm = normalizeForWrite_outcome [OF inv a m g]
  show ?thesis
  proof (cases g)
    case (Inl e)
    then show ?thesis using g run norm by (auto simp: write_result_def)
  next
    case (Inr raw)
    with norm obtain m' where m': "raw = Some (AMap m')" "resource i (AMap m')"
      "map_of m' = stamped (now s) i (view s kind i) (map_of m)" by auto
    have inv': "inv t" "view t = view s" using norm by auto
    have "st_Put store kind i (Some (AMap m')) t = (s', r)" using g run Inr m' by simp
    from put_law [OF inv'(1) a m'(2) this] show ?thesis using m' inv'
      by (cases r) (auto simp: write_result_def wrote_def)
  qed
qed

lemma Put_outcome:
  assumes "inv s" "addressable kind i" "decodeJSONObject body = Inr m" "storable m"
    and "ServicePut store now kind i body s = (s', r)"
  shows "inv s' \<and> write_result (now s) kind i (map_of m) (view s) r (view s')"
  using assms by (intro write_outcome [of s kind i body m]) (auto simp: ServicePut_def addressable_def plainSegment_def split: if_splits)

lemma Post_outcome:
  assumes "inv s" "decodeJSONObject body = Inr m" "storable m" "ExtractResourceID body = Inr i0"
    and "i = (if i0 = [] then generateResourceID nano s else i0)" "addressable kind i"
    and "ServicePost store now nano kind body s = (s', r)"
  shows "inv s' \<and> write_result (now s) kind i (map_of m) (view s) r (view s')"
  using assms by (intro write_outcome [of s kind i body m]) (auto simp: ServicePost_def addressable_def Let_def)

lemma Patch_outcome:
  assumes inv: "inv s" and a: "addressable kind i" and p: "decodeMap patch = Some p" "storable p"
    and run: "ServicePatch store now kind i patch s = (s', r)"
  shows "inv s' \<and>
    (case view s kind i of
       None \<Rightarrow> view s' = view s \<and> (r = Inl ErrNotFound \<or> (\<exists>msg. r = Inl (StoreFailed msg)))
     | Some v \<Rightarrow> \<exists>base. v = AMap base
         \<and> write_result (now (fst (st_Get store kind i s))) kind i (map_of (mergeObject base p)) (view s) r (view s'))"
proof -
  obtain t g where g: "st_Get store kind i s = (t, g)" by fastforce
  note get = get_law [OF inv a g]
  have kind: "validateKind kind = None" "i \<noteq> []" using a by (auto simp: addressable_def plainSegment_def)
  show ?thesis
  proof (cases g)
    case (Inl e)
    with get g run kind have "s' = t" "r = Inl e" "view s' = view s" "inv s'" by (auto simp: ServicePatch_def)
    moreover have "\<exists>base. v = AMap base" if "view s kind i = Some v" for v
      using view_resource [OF inv that] by (cases v) (auto simp: resource_def)
    ultimately show ?thesis using get Inl by (cases "view s kind i") (auto simp: write_result_def)
  next
    case (Inr env)
    then obtain v where v: "view s kind i = Some v" "env_Value env = Some v" using get by auto
    then obtain base where base: "v = AMap base" "resource i (AMap base)"
      using view_resource [OF inv v(1)] by (cases v) (auto simp: resource_def)
    have st: "storable (mergeObject base p)" using base p by (intro storable_merge) (auto simp: resource_def storable_def)
    then have "jsonify (AMap (mergeObject base p)) = AMap (mergeObject base p)"
      by (intro jsonify_document) (simp only: storable_def)
    then have "mergeJSON (env_Value env) patch = Inr (Some (AMap (mergeObject base p)))"
      using v base p by (simp add: mergeJSON_def decodeMap_def)
    then have "(case normalizeForWrite store now kind i (Some (AMap (mergeObject base p))) t of
        (s, Inl e) \<Rightarrow> (s, Inl e) | (s, Inr normalized) \<Rightarrow> st_Put store kind i normalized s) = (s', r)"
      using run g Inr kind by (simp add: ServicePatch_def)
    from write_outcome [OF _ a storable_decode [OF st] st this] get v base g show ?thesis by auto
  qed
qed

end

section \<open>Results\<close>

lemma etcdInv_empty: "etcdInv p (\<lambda>_. None)"
  by (simp add: etcdInv_def)

definition emptyMemory :: memory where
  "emptyMemory = \<lparr>me_kvs = [], me_revision = 0, me_clock = 1700000000\<rparr>"

lemma memKvs_empty [simp]: "memKvs emptyMemory = (\<lambda>_. None)"
  by (auto simp: emptyMemory_def memKvs_def)

lemma etcd_store_production: "etcd_store memClient memKvs productionPrefix"
  by (rule production.etcd_store_axioms)

text \<open>
  C22. What Put writes. On etcd, with a prefix that is not the root, for a supported kind, an identifier that is a
  plain path segment and an object without a member \<^verbatim>\<open>value\<close>: the stored resource has the members of the
  body, the identifier of the request, the current time as \<^verbatim>\<open>update_time\<close>, and as \<^verbatim>\<open>create_time\<close> the one
  of the body, else the stored one, else the current time; it is what Put returns, no other resource changes, and the
  store stays well-formed. The only error is one of the store, of etcd or of the decoding of a stored value; then the resource has
  been written in full or not at all.
\<close>

theorem put_writes:
  assumes "etcd_store client kvs prefix" and "etcdInv (normalizePrefix prefix) (kvs s)" and "addressable kind i"
    and "decodeJSONObject body = Inr m" and "storable m"
    and "ServicePut (etcdStore (NewEtcdStoreWithClient client prefix)) now kind i body s = (s', r)"
  shows "etcdInv (normalizePrefix prefix) (kvs s')
    \<and> write_result (now s) kind i (map_of m) (etcdView (normalizePrefix prefix) (kvs s)) r
        (etcdView (normalizePrefix prefix) (kvs s'))"
  using resource_store.Put_outcome [OF etcd_store.is_store [OF assms(1)] assms(2-)] .

definition sampleBody :: "(string \<times> any) list" where
  "sampleBody = [(''uri'', AString ''/orders/*''), (''upstream_id'', AString ''orders'')]"

definition sampleRoute :: string where
  "sampleRoute = ''42''"

lemma sample_facts: "addressable KindRoute sampleRoute" "decodeJSONObject (Some (AMap sampleBody)) = Inr sampleBody" "storable sampleBody"
  by code_simp+

definition memoryStore :: "memory Store" where
  "memoryStore = etcdStore (NewEtcdStoreWithClient memClient productionPrefix)"

definition afterPut :: "memory \<times> (cp_error + Envelope)" where
  "afterPut = ServicePut memoryStore me_clock KindRoute sampleRoute (Some (AMap sampleBody)) emptyMemory"

theorem put_writes_witness:
  "(case snd afterPut of Inl _ \<Rightarrow> False | Inr _ \<Rightarrow> True)
   \<and> write_result 1700000000 KindRoute sampleRoute (map_of sampleBody) (etcdView (normalizePrefix productionPrefix) (\<lambda>_. None))
       (snd afterPut) (etcdView (normalizePrefix productionPrefix) (memKvs (fst afterPut)))"
proof
  show "case snd afterPut of Inl _ \<Rightarrow> False | Inr _ \<Rightarrow> True" by code_simp
  have "me_clock emptyMemory = 1700000000" by (simp add: emptyMemory_def)
  then show "write_result 1700000000 KindRoute sampleRoute (map_of sampleBody) (etcdView (normalizePrefix productionPrefix) (\<lambda>_. None))
       (snd afterPut) (etcdView (normalizePrefix productionPrefix) (memKvs (fst afterPut)))"
    using put_writes [OF etcd_store_production _ sample_facts surjective_pairing, where s = emptyMemory and now = me_clock]
    by (simp add: etcdInv_empty afterPut_def memoryStore_def)
qed

text \<open>
  What Patch writes. A resource that is not stored is not found; otherwise the stored resource is replaced by its
  merge with the patch, stamped as for Put. Again the store stays well-formed, nothing else changes, and the only other
  error is one of etcd.
\<close>

theorem patch_writes:
  assumes "etcd_store client kvs prefix" and "etcdInv (normalizePrefix prefix) (kvs s)" and "addressable kind i"
    and "decodeMap patch = Some p" and "storable p"
    and "ServicePatch (etcdStore (NewEtcdStoreWithClient client prefix)) now kind i patch s = (s', r)"
  shows "etcdInv (normalizePrefix prefix) (kvs s')
    \<and> (case etcdView (normalizePrefix prefix) (kvs s) kind i of
         None \<Rightarrow> etcdView (normalizePrefix prefix) (kvs s') = etcdView (normalizePrefix prefix) (kvs s)
           \<and> (r = Inl ErrNotFound \<or> (\<exists>msg. r = Inl (StoreFailed msg)))
       | Some v \<Rightarrow> \<exists>base. v = AMap base
           \<and> write_result (now (fst (st_Get (etcdStore (NewEtcdStoreWithClient client prefix)) kind i s))) kind i (map_of (mergeObject base p)) (etcdView (normalizePrefix prefix) (kvs s)) r
               (etcdView (normalizePrefix prefix) (kvs s')))"
  using resource_store.Patch_outcome [OF etcd_store.is_store [OF assms(1)] assms(2-)] .

definition samplePatch :: "(string \<times> any) list" where
  "samplePatch = [(''upstream_id'', ANil), (''service_id'', AString ''orders'')]"

lemma patch_facts: "addressable KindRoute sampleRoute" "decodeMap (Some (AMap samplePatch)) = Some samplePatch" "storable samplePatch"
  by code_simp+

lemma afterPut_inv: "etcdInv (normalizePrefix productionPrefix) (memKvs (fst afterPut))"
  using resource_store.Put_outcome [OF etcd_store.is_store [OF etcd_store_production] _ sample_facts surjective_pairing,
      where s = emptyMemory and now = me_clock]
  by (simp add: etcdInv_empty afterPut_def memoryStore_def)

definition afterPatch :: "memory \<times> (cp_error + Envelope)" where
  "afterPatch = ServicePatch memoryStore me_clock KindRoute sampleRoute (Some (AMap samplePatch)) (fst afterPut)"

theorem patch_writes_witness:
  "etcdInv (normalizePrefix productionPrefix) (memKvs (fst afterPatch))
   \<and> (case snd afterPatch of
        Inr env \<Rightarrow> map_option (\<lambda>v. map_of (case v of AMap m \<Rightarrow> m | _ \<Rightarrow> []) ''upstream_id'') (env_Value env) = Some None
      | Inl _ \<Rightarrow> False)"
proof
  show "etcdInv (normalizePrefix productionPrefix) (memKvs (fst afterPatch))"
    using patch_writes [OF etcd_store_production afterPut_inv patch_facts surjective_pairing, where now = me_clock]
    by (simp add: afterPatch_def memoryStore_def)
  show "case snd afterPatch of
        Inr env \<Rightarrow> map_option (\<lambda>v. map_of (case v of AMap m \<Rightarrow> m | _ \<Rightarrow> []) ''upstream_id'') (env_Value env) = Some None
      | Inl _ \<Rightarrow> False" by code_simp
qed

text \<open>
  C23. Merging and the JSON merge patch of RFC 7396. Merging a patch twice always gives the result of the RFC. Merging it once
  does so when the nulls of the patch meet objects of the resource, that is when every object in the patch without a
  counterpart in the resource is free of nulls. In general once is not enough: the patch that removes a label of a resource without
  labels stores a null. The patch is a JSON document, with distinct member names at every depth.
\<close>

theorem merge_is_rfc7396:
  "(\<forall>base patch. document (AMap patch) \<longrightarrow> mergeObject (mergeObject base patch) patch = rfcMerge base patch)
   \<and> (\<forall>base patch. document (AMap patch) \<and> nullsMet base patch \<longrightarrow> mergeObject base patch = rfcMerge base patch)
   \<and> (let patch = [(''labels'', AMap [(''env'', ANil)])] in mergeObject [] patch = patch \<and> rfcMerge [] patch = [(''labels'', AMap [])])"
proof (intro conjI)
  show "let patch = [(''labels'', AMap [(''env'', ANil)])] in mergeObject [] patch = patch \<and> rfcMerge [] patch = [(''labels'', AMap [])]"
    by code_simp
qed (use merge_twice mergeObject_rfc in blast)+

theorem merge_is_rfc7396_witness:
  "mergeObject sampleBody samplePatch = rfcMerge sampleBody samplePatch"
proof -
  have "document (AMap samplePatch) \<and> nullsMet sampleBody samplePatch" by code_simp
  then show ?thesis using merge_is_rfc7396 by blast
qed

end
