(* ===== verification/Provider.thy ===== *)
theory Provider
  imports Bootstrap Translate Control_Service
begin

text \<open>
  The sources of the gateway's configuration (\<^verbatim>\<open>internal/provider/provider.go\<close>): a file, or the resources
  below a prefix of etcd, which are decoded into a snapshot, translated, and loaded again whenever the watch reports
  a change.

  The client of etcd is a parameter, as in the theories of the control plane. A watch is the list of what its
  \<^verbatim>\<open>select\<close> receives, in order, each change together with the state of etcd at the time of the reload.
\<close>

section \<open>Contexts and clients\<close>

text \<open>Of a context only its deadline is read.\<close>

record Ctx =
  ctx_Deadline :: "int option"

text \<open>The part of the client that the provider uses; \<open>pr_GetPrefix\<close> is \<^verbatim>\<open>Get\<close> with the option \<^verbatim>\<open>WithPrefix\<close>.\<close>

record 's providerClient =
  pr_GetPrefix :: "Ctx \<Rightarrow> string \<Rightarrow> 's \<Rightarrow> 's \<times> (string + KeyValue list)"

record fileSource =
  fs_path :: string
  fs_listen :: string

record 's etcdApisixSource =
  src_client :: "'s providerClient"
  src_prefix :: string
  src_listen :: string
  src_loadTimeout :: int
  src_retryDelay :: int

datatype provider_error =
    SourceUnknown string
  | ClientRefused string
  | FileFailed load_error
  | GetFailed string
  | DecodeFailed string string
  | TranslateFailed translate_error

datatype 's Source = FileSource fileSource | EtcdSource "'s etcdApisixSource"

text \<open>\<open>newClient\<close> is \<^verbatim>\<open>clientv3.New\<close>.\<close>

definition newEtcdApisixSource :: "(EtcdOptions \<Rightarrow> string + 's providerClient) \<Rightarrow> BootOptions \<Rightarrow> provider_error + 's etcdApisixSource" where
  "newEtcdApisixSource newClient boot =
     (case newClient (bo_Etcd boot) of
        Inl err \<Rightarrow> Inl (ClientRefused err)
      | Inr client \<Rightarrow>
          Inr \<lparr>src_client = client, src_prefix = normalizePrefix (eo_Prefix (bo_Etcd boot)),
               src_listen = go_Listen (bo_Gateway boot), src_loadTimeout = eo_DialTimeout (bo_Etcd boot), src_retryDelay = 0\<rparr>)"

definition NewSource :: "(EtcdOptions \<Rightarrow> string + 's providerClient) \<Rightarrow> BootOptions \<Rightarrow> provider_error + 's Source" where
  "NewSource newClient boot =
     (if go_Source (bo_Gateway boot) = ''file''
      then Inr (FileSource \<lparr>fs_path = fo_Path (bo_File boot), fs_listen = go_Listen (bo_Gateway boot)\<rparr>)
      else if go_Source (bo_Gateway boot) = ''etcd_apisix''
      then map_sum id EtcdSource (newEtcdApisixSource newClient boot)
      else Inl (SourceUnknown (go_Source (bo_Gateway boot))))"

section \<open>The listen address\<close>

text \<open>Without a server \<^verbatim>\<open>main\<close> the first server of one iteration over the map is changed.\<close>

definition applyListenOverride :: "Options \<Rightarrow> string \<Rightarrow> Options" where
  "applyListenOverride opts listen =
     (if listen = [] then opts
      else if Servers opts = [] then opts
      else case map_of (Servers opts) ''main'' of
        Some server \<Rightarrow> opts\<lparr>Servers := map_put ''main'' (server\<lparr>server_Listen := listen\<rparr>) (Servers opts)\<rparr>
      | None \<Rightarrow>
          (case hd (Servers opts) of (i, server) \<Rightarrow>
             opts\<lparr>Servers := map_put i (server\<lparr>server_Listen := listen\<rparr>) (Servers opts)\<rparr>))"

definition fileLoad :: "(string \<Rightarrow> 'data option) \<Rightarrow> ('data \<Rightarrow> Options option) \<Rightarrow> fileSource \<Rightarrow> provider_error + Options" where
  "fileLoad readFile unmarshal src =
     (case Load readFile unmarshal (fs_path src) of
        Inl e \<Rightarrow> Inl (FileFailed e)
      | Inr opts \<Rightarrow> Inr (applyListenOverride opts (fs_listen src)))"

section \<open>Loading from etcd\<close>

definition applyKV :: "string \<Rightarrow> ApisixSnapshot \<Rightarrow> string \<Rightarrow> RawMessage \<Rightarrow> provider_error + ApisixSnapshot" where
  "applyKV prefix snapshot key value =
     (case parseResourceKey prefix key of
        None \<Rightarrow> Inr snapshot
      | Some (kind, i) \<Rightarrow>
          if kind = ''routes'' then
            (case UnmarshalEtcdValue decodeRoute value of
               None \<Rightarrow> Inl (DecodeFailed ''route'' i)
             | Some r \<Rightarrow>
                 Inr (snapshot\<lparr>ss_Routes := map_put i (if ar_ID r = [] then r\<lparr>ar_ID := i\<rparr> else r) (ss_Routes snapshot)\<rparr>))
          else if kind = ''services'' then
            (case UnmarshalEtcdValue decodeService value of
               None \<Rightarrow> Inl (DecodeFailed ''service'' i)
             | Some r \<Rightarrow>
                 Inr (snapshot\<lparr>ss_Services := map_put i (if as_ID r = [] then r\<lparr>as_ID := i\<rparr> else r) (ss_Services snapshot)\<rparr>))
          else if kind = ''upstreams'' then
            (case UnmarshalEtcdValue decodeUpstream value of
               None \<Rightarrow> Inl (DecodeFailed ''upstream'' i)
             | Some r \<Rightarrow>
                 Inr (snapshot\<lparr>ss_Upstreams := map_put i (if au_ID r = [] then r\<lparr>au_ID := i\<rparr> else r) (ss_Upstreams snapshot)\<rparr>))
          else if kind = ''plugin_configs'' then
            (case UnmarshalEtcdValue decodePluginConfig value of
               None \<Rightarrow> Inl (DecodeFailed ''plugin config'' i)
             | Some r \<Rightarrow>
                 Inr (snapshot\<lparr>ss_PluginConfig := map_put i (if pc_ID r = [] then r\<lparr>pc_ID := i\<rparr> else r) (ss_PluginConfig snapshot)\<rparr>))
          else if kind = ''global_rules'' then
            (case UnmarshalEtcdValue decodeGlobalRule value of
               None \<Rightarrow> Inl (DecodeFailed ''global rule'' i)
             | Some r \<Rightarrow>
                 Inr (snapshot\<lparr>ss_GlobalRules := map_put i (if gr_ID r = [] then r\<lparr>gr_ID := i\<rparr> else r) (ss_GlobalRules snapshot)\<rparr>))
          else Inr snapshot)"

fun applyKVs :: "string \<Rightarrow> ApisixSnapshot \<Rightarrow> KeyValue list \<Rightarrow> provider_error + ApisixSnapshot" where
  "applyKVs prefix snapshot [] = Inr snapshot"
| "applyKVs prefix snapshot (kv # kvs) =
     (case applyKV prefix snapshot (kv_Key kv) (kv_Value kv) of
        Inl e \<Rightarrow> Inl e
      | Inr snapshot \<Rightarrow> applyKVs prefix snapshot kvs)"

definition loadSnapshot :: "'s etcdApisixSource \<Rightarrow> Ctx \<Rightarrow> 's \<Rightarrow> 's \<times> (provider_error + ApisixSnapshot)" where
  "loadSnapshot src ctx s =
     (case pr_GetPrefix (src_client src) ctx (resourceRoot (src_prefix src)) s of
        (s, Inl err) \<Rightarrow> (s, Inl (GetFailed err))
      | (s, Inr kvs) \<Rightarrow> (s, applyKVs (src_prefix src) NewSnapshot kvs))"

definition loadOptions :: "'s etcdApisixSource \<Rightarrow> Ctx \<Rightarrow> 's \<Rightarrow> 's \<times> (provider_error + Options)" where
  "loadOptions src ctx s =
     (case loadSnapshot src ctx s of
        (s, Inl e) \<Rightarrow> (s, Inl e)
      | (s, Inr snapshot) \<Rightarrow>
          (s, case ApisixSnapshotToConfig snapshot (src_listen src) of
                Inl e \<Rightarrow> Inl (TranslateFailed e)
              | Inr options \<Rightarrow> Inr options))"

text \<open>A nil context is \<^term>\<open>None\<close>; \<open>now\<close> is the time at which the timeout starts.\<close>

definition loadContext :: "'s etcdApisixSource \<Rightarrow> int \<Rightarrow> Ctx option \<Rightarrow> Ctx" where
  "loadContext src now ctx0 =
     (let ctx = (case ctx0 of None \<Rightarrow> \<lparr>ctx_Deadline = None\<rparr> | Some ctx \<Rightarrow> ctx)
      in if ctx_Deadline ctx \<noteq> None \<or> src_loadTimeout src \<le> 0 then ctx
         else ctx\<lparr>ctx_Deadline := Some (now + src_loadTimeout src)\<rparr>)"

definition etcdLoad :: "'s etcdApisixSource \<Rightarrow> int \<Rightarrow> Ctx option \<Rightarrow> 's \<Rightarrow> 's \<times> (provider_error + Options)" where
  "etcdLoad src now ctx s =
     (case loadOptions src (loadContext src now ctx) s of
        (s, Inl e) \<Rightarrow> (s, Inl e)
      | (s, Inr options) \<Rightarrow> (s, Inr (applyListenOverride options (src_listen src))))"

section \<open>Watching etcd\<close>

datatype SourceUpdate = UpdateErr watch_error | UpdateOptions Options
and watch_error = ResponseErr string | LoadErr provider_error | CtxErr

text \<open>
  What the loop receives: the end of the context; the end of the channel or an error response, both followed by a
  sleep, with the time until the context ends, if it does; a response with \<open>n\<close> events, and the time and the
  state of etcd when the reload reads it.
\<close>

datatype 's signal =
    Cancelled
  | ChannelClosed "(int \<times> bool) option"
  | ErrorResponse string "(int \<times> bool) option"
  | Response nat int 's

text \<open>What the loop does: it opens a watch, sleeps, or calls \<^verbatim>\<open>onUpdate\<close>.\<close>

datatype watch_action = OpenWatch string | Sleep int | OnUpdate SourceUpdate

definition watchRetryDelay :: "'s etcdApisixSource \<Rightarrow> int" where
  "watchRetryDelay src = (if src_retryDelay src > 0 then src_retryDelay src else 1000000000)"

text \<open>\<open>cancelAfter\<close> is the time until the context ends, if it does, and which case the \<^verbatim>\<open>select\<close> takes when the timer fires
  at that very time: the end of the context or the timer.\<close>

definition sleepContext :: "int \<Rightarrow> (int \<times> bool) option \<Rightarrow> watch_error option" where
  "sleepContext delay cancelAfter =
     (case cancelAfter of
        None \<Rightarrow> None
      | Some (t, contextWins) \<Rightarrow>
          if delay \<le> 0 then (if t \<le> 0 then Some CtxErr else None)
          else if t < delay \<or> t = delay \<and> contextWins then Some CtxErr else None)"

text \<open>
  The loop on the signals received so far, with the actions it takes; the error is \<^term>\<open>None\<close> while it is still
  waiting for the next signal. \<open>callback\<close> says whether \<^verbatim>\<open>onUpdate\<close> is not nil.
\<close>

fun watchLoop :: "bool \<Rightarrow> 's etcdApisixSource \<Rightarrow> Ctx \<Rightarrow> 's signal list \<Rightarrow> watch_action list \<times> watch_error option" where
  "watchLoop callback src ctx [] = ([], None)"
| "watchLoop callback src ctx (Cancelled # signals) = ([], Some CtxErr)"
| "watchLoop callback src ctx (ChannelClosed cancelAfter # signals) =
     (case sleepContext (watchRetryDelay src) cancelAfter of
        Some e \<Rightarrow> ([Sleep (watchRetryDelay src)], Some e)
      | None \<Rightarrow>
          (case watchLoop callback src ctx signals of (acts, e) \<Rightarrow>
             (Sleep (watchRetryDelay src) # OpenWatch (resourceRoot (src_prefix src)) # acts, e)))"
| "watchLoop callback src ctx (ErrorResponse msg cancelAfter # signals) =
     (let told = (if callback then [OnUpdate (UpdateErr (ResponseErr msg))] else []) in
      case sleepContext (watchRetryDelay src) cancelAfter of
        Some e \<Rightarrow> (told @ [Sleep (watchRetryDelay src)], Some e)
      | None \<Rightarrow>
          (case watchLoop callback src ctx signals of (acts, e) \<Rightarrow>
             (told @ [Sleep (watchRetryDelay src), OpenWatch (resourceRoot (src_prefix src))] @ acts, e)))"
| "watchLoop callback src ctx (Response n now s # signals) =
     (if n = 0 then watchLoop callback src ctx signals
      else
        let loaded = snd (etcdLoad src now (Some ctx) s) in
        if \<not> callback then (case loaded of Inl e \<Rightarrow> ([], Some (LoadErr e)) | Inr _ \<Rightarrow> watchLoop callback src ctx signals)
        else
          (case watchLoop callback src ctx signals of (acts, e) \<Rightarrow>
             (OnUpdate (case loaded of Inl e \<Rightarrow> UpdateErr (LoadErr e) | Inr options \<Rightarrow> UpdateOptions options) # acts, e)))"

definition Watch :: "bool \<Rightarrow> 's etcdApisixSource \<Rightarrow> Ctx \<Rightarrow> 's signal list \<Rightarrow> watch_action list \<times> watch_error option" where
  "Watch callback src ctx signals =
     (case watchLoop callback src ctx signals of (acts, e) \<Rightarrow> (OpenWatch (resourceRoot (src_prefix src)) # acts, e))"

section \<open>Notions used in the statements\<close>

text \<open>The client of the control plane, as the provider sees it: every context allows the exchange.\<close>

definition readClient :: "'s etcdKVClient \<Rightarrow> 's providerClient" where
  "readClient client = \<lparr>pr_GetPrefix = \<lambda>ctx. ec_GetPrefix client\<rparr>"

definition sourceOf :: "'s etcdKVClient \<Rightarrow> string \<Rightarrow> string \<Rightarrow> 's etcdApisixSource" where
  "sourceOf client prefix listen =
     \<lparr>src_client = readClient client, src_prefix = normalizePrefix prefix, src_listen = listen, src_loadTimeout = 0, src_retryDelay = 0\<rparr>"

text \<open>What the gateway makes of a stored document: it is decoded, and an empty identifier is filled in.\<close>

definition readAs :: "((string \<times> any) list \<Rightarrow> 'a option) \<Rightarrow> ('a \<Rightarrow> string) \<Rightarrow> ((string \<Rightarrow> string) \<Rightarrow> 'a \<Rightarrow> 'a) \<Rightarrow> string \<Rightarrow> any \<Rightarrow> 'a option" where
  "readAs dec getID updateID i v =
     (case v of
        AMap m \<Rightarrow> map_option (\<lambda>r. if getID r = [] then updateID (\<lambda>_. i) r else r) (dec m)
      | _ \<Rightarrow> None)"

definition readRoute :: "string \<Rightarrow> any \<Rightarrow> ApisixRoute option" where
  "readRoute = readAs decodeRoute ar_ID ar_ID_update"

definition readService :: "string \<Rightarrow> any \<Rightarrow> ApisixService option" where
  "readService = readAs decodeService as_ID as_ID_update"

definition readUpstream :: "string \<Rightarrow> any \<Rightarrow> ApisixUpstream option" where
  "readUpstream = readAs decodeUpstream au_ID au_ID_update"

definition readPluginConfig :: "string \<Rightarrow> any \<Rightarrow> PluginConfig option" where
  "readPluginConfig = readAs decodePluginConfig pc_ID pc_ID_update"

definition readGlobalRule :: "string \<Rightarrow> any \<Rightarrow> GlobalRule option" where
  "readGlobalRule = readAs decodeGlobalRule gr_ID gr_ID_update"

definition readable :: "ResourceKind \<Rightarrow> string \<Rightarrow> any \<Rightarrow> bool" where
  "readable kind i v \<longleftrightarrow>
     (if kind = KindRoute then readRoute i v \<noteq> None
      else if kind = KindService then readService i v \<noteq> None
      else if kind = KindUpstream then readUpstream i v \<noteq> None
      else if kind = KindPluginConfig then readPluginConfig i v \<noteq> None
      else readGlobalRule i v \<noteq> None)"

definition readGroup :: "(string \<Rightarrow> any \<Rightarrow> 'a option) \<Rightarrow> (string \<Rightarrow> any option) \<Rightarrow> (string \<times> 'a) list \<Rightarrow> bool" where
  "readGroup rd res m \<longleftrightarrow> distinct (map fst m) \<and> (\<forall>i. map_of m i = Option.bind (res i) (rd i))"

text \<open>The snapshot is what the resources read as, kind by kind.\<close>

definition snapshotOf :: "resources \<Rightarrow> ApisixSnapshot \<Rightarrow> bool" where
  "snapshotOf res sn \<longleftrightarrow>
     readGroup readRoute (res KindRoute) (ss_Routes sn) \<and> readGroup readService (res KindService) (ss_Services sn)
   \<and> readGroup readUpstream (res KindUpstream) (ss_Upstreams sn)
   \<and> readGroup readPluginConfig (res KindPluginConfig) (ss_PluginConfig sn)
   \<and> readGroup readGlobalRule (res KindGlobalRule) (ss_GlobalRules sn)"

section \<open>Facts about loading\<close>

lemmas kind_names = KindRoute_def KindService_def KindUpstream_def KindPluginConfig_def KindGlobalRule_def

lemma readGroup_put:
  "readGroup rd res m \<Longrightarrow> rd i v = Some r \<Longrightarrow> readGroup rd (res(i \<mapsto> v)) (map_put i r m)"
  by (auto simp: readGroup_def)

lemma readAs_etcd:
  assumes "resource i v"
  shows "readAs dec getID updateID i v =
     map_option (\<lambda>r. if getID r = [] then updateID (\<lambda>_. i) r else r) (UnmarshalEtcdValue dec (Some v))"
proof -
  obtain m where v: "v = AMap m" and "jsonField ''value'' m = None" using assms by (auto simp: resource_def split: any.splits)
  moreover from v have "decodeMap (Some v) = Some m" by (simp add: decodeMap_def)
  ultimately show ?thesis by (simp add: readAs_def UnmarshalEtcdValue_plain)
qed

lemma applyKV_resource:
  assumes key: "parseResourceKey p key = Some (kind, i)" and kind: "kind \<in> set supportedKinds" and v: "resource i v"
    and sn: "snapshotOf res sn"
  shows "case applyKV p sn key (Some v) of
      Inl e \<Rightarrow> (\<exists>label. e = DecodeFailed label i) \<and> \<not> readable kind i v
    | Inr sn' \<Rightarrow> snapshotOf (update_resource kind i (Some v) res) sn' \<and> readable kind i v"
proof -
  note read = readAs_etcd [OF v]
  consider "kind = KindRoute" | "kind = KindService" | "kind = KindUpstream" | "kind = KindPluginConfig" | "kind = KindGlobalRule"
    using kind by (auto simp: supportedKinds_def)
  then show ?thesis
  proof cases
    case 1
    then show ?thesis using key sn read [of decodeRoute ar_ID ar_ID_update] readGroup_put [of readRoute]
      by (auto simp: applyKV_def readable_def snapshotOf_def update_resource_def readRoute_def kind_names split: option.splits)
  next
    case 2
    then show ?thesis using key sn read [of decodeService as_ID as_ID_update] readGroup_put [of readService]
      by (auto simp: applyKV_def readable_def snapshotOf_def update_resource_def readService_def kind_names split: option.splits)
  next
    case 3
    then show ?thesis using key sn read [of decodeUpstream au_ID au_ID_update] readGroup_put [of readUpstream]
      by (auto simp: applyKV_def readable_def snapshotOf_def update_resource_def readUpstream_def kind_names split: option.splits)
  next
    case 4
    then show ?thesis using key sn read [of decodePluginConfig pc_ID pc_ID_update] readGroup_put [of readPluginConfig]
      by (auto simp: applyKV_def readable_def snapshotOf_def update_resource_def readPluginConfig_def kind_names split: option.splits)
  next
    case 5
    then show ?thesis using key sn read [of decodeGlobalRule gr_ID gr_ID_update] readGroup_put [of readGlobalRule]
      by (auto simp: applyKV_def readable_def snapshotOf_def update_resource_def readGlobalRule_def kind_names split: option.splits)
  qed
qed

text \<open>A key that is not that of a resource is skipped; every other key of the store is one of a resource.\<close>

lemma Cut_Some: "Cut s c = Some (a, b) \<Longrightarrow> s = a @ c # b \<and> c \<notin> set a"
  by (induction s arbitrary: a) (auto split: if_splits option.splits)

lemma parse_below:
  assumes p: "properPrefix p" and "parseResourceKey p key = Some (kind, i)"
  shows "key = Clean p @ ''/'' @ kind @ ''/'' @ i \<and> CHR ''/'' \<notin> set kind"
proof -
  obtain r where "key = (Clean p @ ''/'') @ r" and "Cut (TrimPrefix key (Clean p @ ''/'')) CHR ''/'' = Some (kind, i)"
    using assms(2) by (auto simp: parseResourceKey_def pathJoin_root [OF p] Let_def HasPrefix_iff split: if_splits option.splits)
  then show ?thesis using Cut_Some by (metis TrimPrefix_append append.assoc append_Cons append_Nil)
qed

lemma applyKV_other:
  assumes "\<And>kind i. parseResourceKey p key = Some (kind, i) \<Longrightarrow> kind \<notin> set supportedKinds"
  shows "applyKV p sn key raw = Inr sn"
  using assms by (auto simp: applyKV_def supportedKinds_def kind_names split: option.splits)

lemma stored_key:
  assumes p: "properPrefix p" and inv: "etcdInv p m" and "m key = Some raw" and parse: "parseResourceKey p key = Some (kind, i)"
    and kind: "kind \<in> set supportedKinds"
  shows "\<exists>v. raw = Some v \<and> resource i v \<and> addressable kind i \<and> key = resourceKey p kind i \<and> etcdView p m kind i = Some v"
proof -
  note key = parse_below [OF p parse]
  have "HasPrefix key (kindRoot p kind)" using key supported_plain [OF kind] by (simp add: kindRoot_plain p HasPrefix_iff)
  then obtain i' v where i': "addressable kind i'" "key = resourceKey p kind i'" "raw = Some v" "resource i' v"
    using inv kind assms(3) unfolding etcdInv_def by blast
  then have "key = Clean p @ ''/'' @ kind @ ''/'' @ i'" by (auto simp: resourceKey_plain p)
  with key have "i' = i" by simp
  with i' assms(3) show ?thesis by (auto simp: etcdView_def)
qed

text \<open>The resources under the keys of a list.\<close>

definition onlyKeys :: "string \<Rightarrow> string set \<Rightarrow> resources \<Rightarrow> resources" where
  "onlyKeys p ks res kind i = (if resourceKey p kind i \<in> ks then res kind i else None)"

lemma onlyKeys_insert:
  assumes "properPrefix p" and "\<And>k j v. res k j = Some v \<Longrightarrow> addressable k j" and "addressable kind i"
  shows "onlyKeys p (insert (resourceKey p kind i) ks) res = update_resource kind i (res kind i) (onlyKeys p ks res)"
proof (intro ext)
  fix k j
  have "res k j = None \<or> (resourceKey p k j = resourceKey p kind i \<longleftrightarrow> k = kind \<and> j = i)"
    using assms resource_key_inject by (metis not_Some_eq)
  then show "onlyKeys p (insert (resourceKey p kind i) ks) res k j = update_resource kind i (res kind i) (onlyKeys p ks res) k j"
    by (auto simp: onlyKeys_def update_resource_def)
qed

lemma onlyKeys_other:
  assumes "\<And>k j v. res k j = Some v \<Longrightarrow> resourceKey p k j \<noteq> key"
  shows "onlyKeys p (insert key ks) res = onlyKeys p ks res"
proof (intro ext)
  fix k j
  show "onlyKeys p (insert key ks) res k j = onlyKeys p ks res k j"
    using assms [of k j] by (cases "res k j") (auto simp: onlyKeys_def)
qed

lemma etcdView_addressable: "etcdView p m kind i = Some v \<Longrightarrow> addressable kind i"
  by (auto simp: etcdView_def split: if_splits)

lemma applyKVs_outcome:
  assumes p: "properPrefix p" and inv: "etcdInv p m"
    and kvs: "\<forall>kv\<in>set kvs. m (kv_Key kv) = Some (kv_Value kv)"
    and sn: "snapshotOf (onlyKeys p ks (etcdView p m)) sn"
  shows "case applyKVs p sn kvs of
      Inl e \<Rightarrow> \<exists>label kind i v. e = DecodeFailed label i \<and> etcdView p m kind i = Some v \<and> \<not> readable kind i v
    | Inr sn' \<Rightarrow> snapshotOf (onlyKeys p (ks \<union> kv_Key ` set kvs) (etcdView p m)) sn'
        \<and> (\<forall>kind i v. etcdView p m kind i = Some v \<and> resourceKey p kind i \<in> kv_Key ` set kvs \<longrightarrow> readable kind i v)"
  using kvs sn
proof (induction kvs arbitrary: ks sn)
  case (Cons kv kvs)
  let ?key = "kv_Key kv"
  show ?case
  proof (cases "\<exists>kind i. parseResourceKey p ?key = Some (kind, i) \<and> kind \<in> set supportedKinds")
    case True
    then obtain kind i where parse: "parseResourceKey p ?key = Some (kind, i)" and kind: "kind \<in> set supportedKinds" by blast
    obtain v where v: "kv_Value kv = Some v" "resource i v" "addressable kind i" "?key = resourceKey p kind i"
        "etcdView p m kind i = Some v"
      using stored_key [OF p inv _ parse kind, of "kv_Value kv"] Cons.prems(1) by auto
    have ins: "onlyKeys p (insert ?key ks) (etcdView p m) = update_resource kind i (Some v) (onlyKeys p ks (etcdView p m))"
      using onlyKeys_insert [OF p _ v(3), of "etcdView p m" ks] etcdView_addressable v(4,5) by simp
    have same: "readable kind' i' v'" if "etcdView p m kind' i' = Some v'" "resourceKey p kind' i' = ?key" "readable kind i v" for kind' i' v'
      using that resource_key_inject [OF p etcdView_addressable [OF that(1)] v(3)] v(4,5) by auto
    note step = applyKV_resource [OF parse kind v(2) Cons.prems(2)]
    show ?thesis
    proof (cases "applyKV p sn ?key (Some v)")
      case (Inl e)
      with step v(1,5) show ?thesis by auto
    next
      case (Inr sn')
      with step ins have "snapshotOf (onlyKeys p (insert ?key ks) (etcdView p m)) sn'" and r: "readable kind i v" by simp_all
      from Cons.IH [OF _ this(1)] Cons.prems(1) Inr v(1) same [OF _ _ r] show ?thesis
        by (auto split: sum.splits)
    qed
  next
    case False
    then have skip: "applyKV p sn ?key (kv_Value kv) = Inr sn" by (intro applyKV_other) auto
    have no: "resourceKey p k j \<noteq> ?key" if "etcdView p m k j = Some v" for k j v
    proof -
      have "k \<in> set supportedKinds" "plainSegment k" "plainSegment j"
        using etcdView_addressable [OF that] supported_plain by (auto simp: addressable_def)
      moreover from this have "parseResourceKey p (resourceKey p k j) = Some (k, j)"
        using parse_plain [OF p, of k j] resourceKey_plain [OF p, of k j] by (simp add: plainSegment_def)
      ultimately show ?thesis using False by auto
    qed
    with Cons.prems have "snapshotOf (onlyKeys p (insert ?key ks) (etcdView p m)) sn" by (simp add: onlyKeys_other)
    from Cons.IH [OF _ this] Cons.prems(1) skip no show ?thesis by (auto split: sum.splits)
  qed
qed simp

lemma resourceRoot_proper: "properPrefix p \<Longrightarrow> resourceRoot p = Clean p @ ''/''"
  by (simp add: resourceRoot_def pathJoin_root)

lemma loadSnapshot_outcome:
  assumes store: "etcd_store client kvs prefix" and inv: "etcdInv (normalizePrefix prefix) (kvs s)"
    and load: "loadSnapshot (sourceOf client prefix listen) ctx s = (s', r)"
  shows "kvs s' = kvs s
    \<and> (case r of
         Inl e \<Rightarrow> (\<exists>msg. e = GetFailed msg)
           \<or> (\<exists>label kind i v. e = DecodeFailed label i \<and> etcdView (normalizePrefix prefix) (kvs s) kind i = Some v
                \<and> \<not> readable kind i v)
       | Inr sn \<Rightarrow> snapshotOf (etcdView (normalizePrefix prefix) (kvs s)) sn
           \<and> (\<forall>kind i v. etcdView (normalizePrefix prefix) (kvs s) kind i = Some v \<longrightarrow> readable kind i v))"
proof -
  let ?p = "normalizePrefix prefix" and ?view = "etcdView (normalizePrefix prefix) (kvs s)"
  have p: "properPrefix ?p" and client: "etcd_client client kvs"
    using store by (auto simp: etcd_store_def etcd_store_axioms_def)
  obtain s1 rl where get: "ec_GetPrefix client (resourceRoot ?p) s = (s1, rl)" by force
  note law = etcd_client.etcd_get_prefix [OF client get]
  show ?thesis
  proof (cases rl)
    case (Inl err)
    with load get law show ?thesis by (auto simp: loadSnapshot_def sourceOf_def readClient_def)
  next
    case (Inr l)
    then have s': "s' = s1" and r: "r = applyKVs ?p NewSnapshot l"
      using load get by (auto simp: loadSnapshot_def sourceOf_def readClient_def)
    have keys: "kv_Key ` set l = {k. HasPrefix k (resourceRoot ?p) \<and> kvs s k \<noteq> None}"
      and vals: "\<forall>kv\<in>set l. kvs s (kv_Key kv) = Some (kv_Value kv)" using law Inr by auto
    have all: "resourceKey ?p kind i \<in> kv_Key ` set l" if "?view kind i = Some v" for kind i v
      using that etcdView_addressable [OF that] unfolding keys
      by (auto simp: etcdView_def resourceKey_plain p resourceRoot_proper HasPrefix_iff split: if_splits option.splits)
    have empty: "snapshotOf (onlyKeys ?p {} ?view) NewSnapshot"
      by (simp add: snapshotOf_def NewSnapshot_def readGroup_def onlyKeys_def)
    have full: "onlyKeys ?p (kv_Key ` set l) ?view = ?view"
      using all by (auto simp: onlyKeys_def fun_eq_iff) (metis not_None_eq)+
    show ?thesis using applyKVs_outcome [OF p inv vals empty] all law Inr unfolding s' r full Un_empty_left
      by (auto split: sum.splits)
  qed
qed

section \<open>Facts about the listen address\<close>

lemma applyListenOverride_servers:
  assumes "Servers opts \<noteq> []" and "listen \<noteq> []"
  shows "\<exists>k server. map_of (Servers opts) k = Some server
    \<and> (''main'' \<in> fst ` set (Servers opts) \<longrightarrow> k = ''main'')
    \<and> applyListenOverride opts listen = opts\<lparr>Servers := map_put k (server\<lparr>server_Listen := listen\<rparr>) (Servers opts)\<rparr>"
proof (cases "map_of (Servers opts) ''main''")
  case None
  then have "''main'' \<notin> fst ` set (Servers opts)" by (simp add: map_of_eq_None_iff)
  with None assms show ?thesis by (cases "Servers opts") (auto simp: applyListenOverride_def)
next
  case (Some server)
  with assms show ?thesis by (auto simp: applyListenOverride_def)
qed

lemma applyListenOverride_well_formed:
  assumes "well_formed opts"
  shows "well_formed (applyListenOverride opts listen)"
proof (cases "listen = []")
  case False
  moreover have "Servers opts \<noteq> []" using assms by (simp add: well_formed_def)
  ultimately obtain k server where k: "map_of (Servers opts) k = Some server"
    and eq: "applyListenOverride opts listen = opts\<lparr>Servers := map_put k (server\<lparr>server_Listen := listen\<rparr>) (Servers opts)\<rparr>"
    using applyListenOverride_servers by blast
  have "refs_ok (Plugins opts) (server_Plugins server)" using assms map_of_SomeD [OF k] by (auto simp: well_formed_def)
  moreover have "map_put k x (Servers opts) \<noteq> []" for x by (cases "Servers opts") (auto simp: map_put_def)
  ultimately show ?thesis using assms False unfolding eq well_formed_def by (auto dest!: set_map_put)
qed (use assms in \<open>simp add: applyListenOverride_def\<close>)

lemma assembled_servers: "Servers (assembled s listen gps) = [(''main'', \<lparr>server_ID = ''main'', server_Listen = listen, server_Plugins = []\<rparr>)]"
  using frame_assembled [of s listen gps] by (simp add: frame_def)

text \<open>A configuration loaded from etcd is well formed and its only server listens where the bootstrap options say.\<close>

lemma etcdLoad_config:
  assumes "etcdLoad src now ctx s = (s', Inr options)"
  obtains sn where "loadSnapshot src (loadContext src now ctx) s = (s', Inr sn)"
    and "ApisixSnapshotToConfig sn (src_listen src) = Inr options"
    and "Servers options = [(''main'', \<lparr>server_ID = ''main'', server_Listen = src_listen src, server_Plugins = []\<rparr>)]"
    and "well_formed options"
proof -
  obtain sn out where sn: "loadSnapshot src (loadContext src now ctx) s = (s', Inr sn)"
    and out: "ApisixSnapshotToConfig sn (src_listen src) = Inr out" and o: "options = applyListenOverride out (src_listen src)"
    using assms by (auto simp: etcdLoad_def loadOptions_def split: prod.splits sum.splits)
  obtain gps where a: "out = assembled sn (src_listen src) gps" and v: "Validate out = None"
    using out by (auto simp: ApisixSnapshotToConfig_def Let_def split: if_splits sum.splits option.splits)
  have servers: "Servers out = [(''main'', \<lparr>server_ID = ''main'', server_Listen = src_listen src, server_Plugins = []\<rparr>)]"
    unfolding a by (rule assembled_servers)
  then have "options = out" unfolding o by (simp add: applyListenOverride_def map_put_def)
  with sn out servers v show ?thesis using that by (simp add: Validate_well_formed)
qed

section \<open>Facts about watching\<close>

text \<open>
  When the watch has to end, in terms of the context and the clock: the context ends while the loop waits for a signal, or
  before the pause after a broken watch is over. The pause is the configured delay, or a second. Without \<^verbatim>\<open>onUpdate\<close> the
  error of a load ends the watch, too.
\<close>

definition pause :: "'s etcdApisixSource \<Rightarrow> int" where
  "pause src = (if src_retryDelay src > 0 then src_retryDelay src else 1000000000)"

definition endsInPause :: "'s etcdApisixSource \<Rightarrow> (int \<times> bool) option \<Rightarrow> bool" where
  "endsInPause src cancelAfter \<longleftrightarrow>
     (\<exists>t contextWins. cancelAfter = Some (t, contextWins) \<and> (t < pause src \<or> t = pause src \<and> contextWins))"

definition stops :: "'s etcdApisixSource \<Rightarrow> 's signal \<Rightarrow> bool" where
  "stops src signal =
     (case signal of
        Cancelled \<Rightarrow> True
      | ChannelClosed cancelAfter \<Rightarrow> endsInPause src cancelAfter
      | ErrorResponse msg cancelAfter \<Rightarrow> endsInPause src cancelAfter
      | Response n now s \<Rightarrow> False)"

definition endOf :: "bool \<Rightarrow> 's etcdApisixSource \<Rightarrow> Ctx \<Rightarrow> 's signal \<Rightarrow> watch_error option" where
  "endOf callback src ctx signal =
     (if stops src signal then Some CtxErr
      else case signal of
        Response n now s \<Rightarrow>
          (if callback \<or> n = 0 then None
           else case snd (etcdLoad src now (Some ctx) s) of Inl e \<Rightarrow> Some (LoadErr e) | Inr options \<Rightarrow> None)
      | _ \<Rightarrow> None)"

text \<open>The updates a signal leads to, the signals up to the one that ends the watch, and the updates among the actions.\<close>

definition reports :: "'s etcdApisixSource \<Rightarrow> Ctx \<Rightarrow> 's signal \<Rightarrow> SourceUpdate list" where
  "reports src ctx signal =
     (case signal of
        ErrorResponse msg cancelAfter \<Rightarrow> [UpdateErr (ResponseErr msg)]
      | Response n now s \<Rightarrow>
          (if n = 0 then []
           else [case snd (etcdLoad src now (Some ctx) s) of Inl e \<Rightarrow> UpdateErr (LoadErr e) | Inr options \<Rightarrow> UpdateOptions options])
      | _ \<Rightarrow> [])"

definition handled :: "'s etcdApisixSource \<Rightarrow> 's signal list \<Rightarrow> 's signal list" where
  "handled src signals =
     takeWhile (\<lambda>x. \<not> stops src x) signals @ take 1 (dropWhile (\<lambda>x. \<not> stops src x) signals)"

definition updatesOf :: "watch_action list \<Rightarrow> SourceUpdate list" where
  "updatesOf acts = concat (map (\<lambda>a. case a of OnUpdate u \<Rightarrow> [u] | _ \<Rightarrow> []) acts)"

lemma updatesOf_simps [simp]:
  "updatesOf [] = []" "updatesOf (OnUpdate u # acts) = u # updatesOf acts"
  "updatesOf (OpenWatch k # acts) = updatesOf acts" "updatesOf (Sleep d # acts) = updatesOf acts"
  "updatesOf (acts @ acts') = updatesOf acts @ updatesOf acts'"
  by (simp_all add: updatesOf_def)

lemma handled_simps [simp]:
  "handled src [] = []" "handled src (x # xs) = x # (if stops src x then [] else handled src xs)"
  by (auto simp: handled_def)

lemma sleepContext_pause: "sleepContext (watchRetryDelay src) c = (if endsInPause src c then Some CtxErr else None)"
  by (auto simp: sleepContext_def endsInPause_def pause_def watchRetryDelay_def split: option.split)

lemma watchLoop_meaning:
  "updatesOf (fst (watchLoop True src ctx signals)) = concat (map (reports src ctx) (handled src signals))
   \<and> snd (watchLoop True src ctx signals) = (if \<exists>x\<in>set signals. stops src x then Some CtxErr else None)"
proof (induction signals)
  case (Cons x xs)
  then show ?case
    by (cases x) (auto simp: stops_def reports_def Let_def case_prod_beta sleepContext_pause)
qed simp

text \<open>The error with which a run ends: that of the first signal that ends it.\<close>

definition firstEnd :: "bool \<Rightarrow> 's etcdApisixSource \<Rightarrow> Ctx \<Rightarrow> 's signal list \<Rightarrow> watch_error option" where
  "firstEnd callback src ctx signals =
     (case find (\<lambda>x. endOf callback src ctx x \<noteq> None) signals of None \<Rightarrow> None | Some x \<Rightarrow> endOf callback src ctx x)"

lemma watchLoop_end: "snd (watchLoop callback src ctx signals) = firstEnd callback src ctx signals"
proof (induction signals)
  case (Cons x xs)
  then show ?case
    by (cases x) (auto simp: firstEnd_def endOf_def stops_def Let_def case_prod_beta sleepContext_pause split: sum.split option.split)
qed (simp add: firstEnd_def)

lemma watchLoop_silent: "updatesOf (fst (watchLoop False src ctx signals)) = []"
proof (induction signals)
  case (Cons x xs)
  then show ?case by (cases x) (auto simp: Let_def case_prod_beta split: sum.split option.split)
qed simp

lemma watchRetryDelay_pos: "0 < watchRetryDelay src"
  by (simp add: watchRetryDelay_def)

text \<open>The loop opens a watch only after a sleep of positive length.\<close>

fun paced :: "watch_action list \<Rightarrow> bool" where
  "paced (Sleep d # OpenWatch k # acts) = (d > 0 \<and> paced acts)"
| "paced (OpenWatch k # acts) = False"
| "paced (a # acts) = paced acts"
| "paced [] = True"

lemma paced_watchLoop: "paced (fst (watchLoop callback src ctx signals))"
proof (induction signals)
  case (Cons x xs)
  then show ?case
    by (cases x) (auto simp: Let_def case_prod_beta watchRetryDelay_pos split: option.splits sum.splits)
qed simp

section \<open>Properties\<close>

text \<open>
  C26. The gateway reads what the control plane stores. On an etcd whose contents below the prefix are well-formed, which
  is what the control plane keeps, a load changes nothing; it fails only when etcd does, or on a stored document that does
  not decode; otherwise the snapshot holds exactly the stored resources of the five kinds, each decoded under its own
  identifier.
\<close>

theorem provider_reads_store:
  assumes "etcd_store client kvs prefix" and "etcdInv (normalizePrefix prefix) (kvs s)"
    and "loadSnapshot (sourceOf client prefix listen) ctx s = (s', r)"
  shows "kvs s' = kvs s
    \<and> (case r of
         Inl e \<Rightarrow> (\<exists>msg. e = GetFailed msg)
           \<or> (\<exists>label kind i v. e = DecodeFailed label i \<and> etcdView (normalizePrefix prefix) (kvs s) kind i = Some v
                \<and> \<not> readable kind i v)
       | Inr sn \<Rightarrow> snapshotOf (etcdView (normalizePrefix prefix) (kvs s)) sn
           \<and> (\<forall>kind i v. etcdView (normalizePrefix prefix) (kvs s) kind i = Some v \<longrightarrow> readable kind i v))"
  by (rule loadSnapshot_outcome [OF assms])

theorem provider_reads_store_witness:
  "\<exists>sn. loadSnapshot (sourceOf memClient productionPrefix '':80'') \<lparr>ctx_Deadline = None\<rparr> (fst afterPut) = (fst afterPut, Inr sn)
     \<and> snapshotOf (etcdView (normalizePrefix productionPrefix) (memKvs (fst afterPut))) sn
     \<and> map fst (ss_Routes sn) = [''42'']"
proof -
  let ?r = "loadSnapshot (sourceOf memClient productionPrefix '':80'') \<lparr>ctx_Deadline = None\<rparr> (fst afterPut)"
  have "(\<lambda>r. (case snd r of Inl _ \<Rightarrow> False | Inr sn \<Rightarrow> map fst (ss_Routes sn) = [''42'']) \<and> fst r = fst afterPut) ?r" by code_simp
  then obtain sn where "?r = (fst afterPut, Inr sn)" "map fst (ss_Routes sn) = [''42'']"
    by (cases ?r) (auto split: sum.splits)
  with provider_reads_store [OF etcd_store_production afterPut_inv this(1)] show ?thesis by auto
qed

text \<open>
  C27. The end of a watch. A watch with a callback ends exactly when its context does: at the signal of its end, or when the
  context ends before the pause after a closed channel or an error response is over, at the very end of the pause if the
  context is chosen. Neither a closed channel nor an error response nor a failed load ends it. Without a callback the first
  failed load ends it as well, with the error of the load, and nothing is reported. With one it is called, up to the end,
  once per error response and once per response with events, in order, with what a load gives at that moment, and for
  nothing else. After the first watch another one is opened only after a sleep.
\<close>

theorem watch_ends_with_context:
  "snd (Watch callback src ctx signals) = firstEnd callback src ctx signals
   \<and> firstEnd True src ctx signals = (if \<exists>x\<in>set signals. stops src x then Some CtxErr else None)
   \<and> updatesOf (fst (Watch True src ctx signals)) = concat (map (reports src ctx) (handled src signals))
   \<and> updatesOf (fst (Watch False src ctx signals)) = []
   \<and> paced (tl (fst (Watch callback src ctx signals)))"
  using watchLoop_meaning [of src ctx signals] watchLoop_end [of callback src ctx signals] watchLoop_end [of True src ctx signals]
    watchLoop_silent [of src ctx signals] paced_watchLoop [of callback src ctx signals]
  by (simp add: Watch_def case_prod_beta)

lemma published:
  assumes store: "etcd_store client kvs prefix" and inv: "etcdInv (normalizePrefix prefix) (kvs s)" and addr: "addressable kind i"
    and body: "decodeJSONObject body = Inr m" "storable m"
    and put: "ServicePut (etcdStore (NewEtcdStoreWithClient client prefix)) now kind i body s = (s1, Inr env)"
    and load: "etcdLoad (sourceOf client prefix listen) later ctx s1 = (s2, Inr options)"
  obtains doc sn where "env_Value env = Some (AMap doc)"
    and "map_of doc = stamped (now s) i (etcdView (normalizePrefix prefix) (kvs s) kind i) (map_of m)"
    and "readable kind i (AMap doc)"
    and "snapshotOf (update_resource kind i (Some (AMap doc)) (etcdView (normalizePrefix prefix) (kvs s))) sn"
    and "ApisixSnapshotToConfig sn listen = Inr options" and "well_formed options"
proof -
  let ?view = "\<lambda>s. etcdView (normalizePrefix prefix) (kvs s)"
  have inv1: "etcdInv (normalizePrefix prefix) (kvs s1)"
    and "write_result (now s) kind i (map_of m) (?view s) (Inr env) (?view s1)"
    using resource_store.Put_outcome [OF etcd_store.is_store [OF store] inv addr body put] by auto
  then obtain doc where doc: "env_Value env = Some (AMap doc)" "map_of doc = stamped (now s) i (?view s kind i) (map_of m)"
    "?view s1 = update_resource kind i (Some (AMap doc)) (?view s)"
    by (auto simp: write_result_def wrote_def)
  obtain sn where sn: "loadSnapshot (sourceOf client prefix listen) (loadContext (sourceOf client prefix listen) later ctx) s1 = (s2, Inr sn)"
    "ApisixSnapshotToConfig sn listen = Inr options" "well_formed options"
    using etcdLoad_config [OF load] by (auto simp: sourceOf_def)
  have "snapshotOf (?view s1) sn" and all: "\<forall>kind i v. ?view s1 kind i = Some v \<longrightarrow> readable kind i v"
    using loadSnapshot_outcome [OF store inv1 sn(1)] by auto
  moreover have "readable kind i (AMap doc)" using all doc(3) by (simp add: update_resource_def)
  ultimately show ?thesis using that doc sn by simp
qed

text \<open>
  From the admin API to the gateway. After a Put of a resource a load, when it succeeds, translates the snapshot of
  the store with the stamped document in it under its identifier, next to all the resources that were there before, and
  the resulting configuration is well formed.
\<close>

theorem published_resource_is_loaded:
  assumes "etcd_store client kvs prefix" and "etcdInv (normalizePrefix prefix) (kvs s)" and "addressable kind i"
    and "decodeJSONObject body = Inr m" "storable m"
    and "ServicePut (etcdStore (NewEtcdStoreWithClient client prefix)) now kind i body s = (s1, Inr env)"
    and "etcdLoad (sourceOf client prefix listen) later ctx s1 = (s2, Inr options)"
  shows "\<exists>doc sn. map_of doc = stamped (now s) i (etcdView (normalizePrefix prefix) (kvs s) kind i) (map_of m)
    \<and> readable kind i (AMap doc)
    \<and> snapshotOf (update_resource kind i (Some (AMap doc)) (etcdView (normalizePrefix prefix) (kvs s))) sn
    \<and> ApisixSnapshotToConfig sn listen = Inr options \<and> well_formed options"
  using published [OF assms] by metis

text \<open>An etcd with a service and its upstream, and a route that names the service.\<close>

definition stockedMemory :: memory where
  "stockedMemory = emptyMemory\<lparr>me_kvs :=
     [(resourceKey productionPrefix KindService ''s1'',
        Some (AMap [(''id'', AString ''s1''), (''upstream_id'', AString ''u1'')]), 1, 1),
      (resourceKey productionPrefix KindUpstream ''u1'',
        Some (AMap [(''id'', AString ''u1''), (''nodes'', AMap [(''10.0.0.1:80'', AFloat 1)])]), 2, 2)]\<rparr>"

definition routeBody :: "(string \<times> any) list" where
  "routeBody = [(''uri'', AString ''/orders/*''), (''service_id'', AString ''s1'')]"

definition routePut :: "memory \<times> (cp_error + Envelope)" where
  "routePut = ServicePut memoryStore me_clock KindRoute sampleRoute (Some (AMap routeBody)) stockedMemory"

definition routeLoaded :: "memory \<times> (provider_error + Options)" where
  "routeLoaded = etcdLoad (sourceOf memClient productionPrefix '':80'') 0 None (fst routePut)"

lemma stocked_inv: "etcdInv (normalizePrefix productionPrefix) (memKvs stockedMemory)"
  by (rule memStoreOK_inv) code_simp

lemma route_facts: "decodeJSONObject (Some (AMap routeBody)) = Inr routeBody" "storable routeBody"
  by code_simp+

lemma route_put: "\<exists>env. routePut = (fst routePut, Inr env) \<and> env_Value env =
    Some (AMap [(''uri'', AString ''/orders/*''), (''service_id'', AString ''s1''), (''id'', AString ''42''),
      (''update_time'', AFloat 1700000000), (''create_time'', AFloat 1700000000)])"
proof -
  have "(\<lambda>r. case snd r of Inl _ \<Rightarrow> False | Inr env \<Rightarrow> env_Value env =
    Some (AMap [(''uri'', AString ''/orders/*''), (''service_id'', AString ''s1''), (''id'', AString ''42''),
      (''update_time'', AFloat 1700000000), (''create_time'', AFloat 1700000000)])) routePut" by code_simp
  then show ?thesis by (auto split: sum.splits) (metis prod.collapse)
qed

lemma route_loaded: "\<exists>options. routeLoaded = (fst routeLoaded, Inr options)"
proof -
  have "(\<lambda>r. case snd r of Inl _ \<Rightarrow> False | Inr _ \<Rightarrow> True) routeLoaded" by code_simp
  then show ?thesis by (auto split: sum.splits) (metis prod.collapse)
qed

theorem published_resource_is_loaded_witness:
  "\<exists>doc sn. map_of doc = stamped 1700000000 sampleRoute None (map_of routeBody)
    \<and> readable KindRoute sampleRoute (AMap doc)
    \<and> snapshotOf (update_resource KindRoute sampleRoute (Some (AMap doc))
        (etcdView (normalizePrefix productionPrefix) (memKvs stockedMemory))) sn
    \<and> (\<exists>options. routeLoaded = (fst routeLoaded, Inr options) \<and> ApisixSnapshotToConfig sn '':80'' = Inr options
         \<and> well_formed options)"
proof -
  obtain env options where env: "routePut = (fst routePut, Inr env)" and options: "routeLoaded = (fst routeLoaded, Inr options)"
    using route_put route_loaded by blast
  have none: "etcdView (normalizePrefix productionPrefix) (memKvs stockedMemory) KindRoute sampleRoute = None" by code_simp
  have clock: "me_clock stockedMemory = 1700000000" by (simp add: stockedMemory_def emptyMemory_def)
  show ?thesis
    using published_resource_is_loaded [OF etcd_store_production stocked_inv sample_facts(1) route_facts
        env [unfolded routePut_def memoryStore_def] options [unfolded routeLoaded_def routePut_def memoryStore_def]] none clock options
    by auto
qed

lemma inline_plugins: "i = [] \<Longrightarrow> apisixMergePlugins i inline pcs = apisixMergePlugins [] inline []"
  by (simp add: apisixMergePlugins_def)

lemma inline_route: "ar_PluginConfigID route = [] \<Longrightarrow> apisixRouteToConfig route pcs = apisixRouteToConfig route []"
  unfolding apisixRouteToConfig_def inline_plugins by simp

lemma published_route:
  assumes "etcd_store client kvs prefix" and "etcdInv (normalizePrefix prefix) (kvs s)" and "addressable KindRoute i"
    and "decodeJSONObject body = Inr m" "storable m"
    and "ServicePut (etcdStore (NewEtcdStoreWithClient client prefix)) now KindRoute i body s = (s1, Inr env)"
    and "etcdLoad (sourceOf client prefix listen) later ctx s1 = (s2, Inr options)"
    and route: "Option.bind (env_Value env) (readRoute i) = Some route"
      "ar_PluginConfigID route = []" "apisixRouteToConfig route [] = Inr rt" "ar_ServiceID route = sid" "sid \<noteq> []"
    and service: "etcdView (normalizePrefix prefix) (kvs s) KindService sid = Some sdoc" "readService sid sdoc = Some svc"
      "as_UpstreamID svc = uid" "uid \<noteq> []" "as_PluginConfigID svc = []" "apisixMergePlugins [] (as_Plugins svc) [] = Inr plugins"
    and upstream: "etcdView (normalizePrefix prefix) (kvs s) KindUpstream uid = Some udoc" "readUpstream uid udoc = Some up"
      "apisixUpstreamToConfig up = Inr u" "upstream_Scheme u \<in> {[], ''http'', ''https''}"
  shows "map_of (Routes options) i = Some (rt\<lparr>route_Service := sid\<rparr>)
    \<and> map_of (Services options) sid \<noteq> None \<and> map_of (Upstreams options) uid \<noteq> None"
proof -
  obtain doc sn where doc: "env_Value env = Some (AMap doc)"
    and snap: "snapshotOf (update_resource KindRoute i (Some (AMap doc)) (etcdView (normalizePrefix prefix) (kvs s))) sn"
    and out: "ApisixSnapshotToConfig sn listen = Inr options"
    using published [OF assms(1-7)] by metis
  have kinds: "KindRoute \<noteq> KindService" "KindRoute \<noteq> KindUpstream" by (simp_all add: kind_names)
  have "distinct (map fst (ss_Routes sn))" and r: "map_of (ss_Routes sn) i = Some route"
    and s: "map_of (ss_Services sn) sid = Some svc" and u: "map_of (ss_Upstreams sn) uid = Some up"
    using snap route(1) doc service(1,2) upstream(1,2) kinds by (auto simp: snapshotOf_def readGroup_def update_resource_def)
  moreover have "apisixRouteToConfig route (ss_PluginConfig sn) = Inr rt"
    "apisixMergePlugins (as_PluginConfigID svc) (as_Plugins svc) (ss_PluginConfig sn) = Inr plugins"
    using route(2,3) service(5,6) inline_plugins inline_route by metis+
  ultimately show ?thesis
    using translate_keeps [OF out _ map_of_SomeD _ route(4,5) map_of_SomeD service(3,4) _ map_of_SomeD upstream(3,4)] by blast
qed

text \<open>
  A published route is configured: when a route is put that names a stored service, whose upstream is stored and
  translates with a supported scheme, and route and service translate and use no plugin configuration, then the
  configuration of every later successful load has that route under its identifier, with that service and its upstream.
\<close>

theorem published_route_is_configured:
  assumes "etcd_store client kvs prefix" and "etcdInv (normalizePrefix prefix) (kvs s)" and "addressable KindRoute i"
    and "decodeJSONObject body = Inr m" "storable m"
    and "ServicePut (etcdStore (NewEtcdStoreWithClient client prefix)) now KindRoute i body s = (s1, Inr env)"
    and "etcdLoad (sourceOf client prefix listen) later ctx s1 = (s2, Inr options)"
    and route: "Option.bind (env_Value env) (readRoute i) = Some route"
      "ar_PluginConfigID route = []" "apisixRouteToConfig route [] = Inr rt" "ar_ServiceID route = sid" "sid \<noteq> []"
    and service: "etcdView (normalizePrefix prefix) (kvs s) KindService sid = Some sdoc" "readService sid sdoc = Some svc"
      "as_UpstreamID svc = uid" "uid \<noteq> []" "as_PluginConfigID svc = []" "apisixMergePlugins [] (as_Plugins svc) [] = Inr plugins"
    and upstream: "etcdView (normalizePrefix prefix) (kvs s) KindUpstream uid = Some udoc" "readUpstream uid udoc = Some up"
      "apisixUpstreamToConfig up = Inr u" "upstream_Scheme u \<in> {[], ''http'', ''https''}"
  shows "map_of (Routes options) i = Some (rt\<lparr>route_Service := sid\<rparr>)
    \<and> map_of (Services options) sid \<noteq> None \<and> map_of (Upstreams options) uid \<noteq> None"
  by (rule published_route [OF assms])

definition loadedRoute :: ApisixRoute where
  "loadedRoute = \<lparr>ar_Upstream = None, ar_ID = ''42'', ar_URI = ''/orders/*'', ar_ServiceID = ''s1'', ar_UpstreamID = [],
     ar_PluginConfigID = [], ar_URIs = [], ar_Methods = [], ar_Hosts = [], ar_Plugins = None, ar_Priority = 0, ar_Status = 0\<rparr>"

definition loadedUpstream :: ApisixUpstream where
  "loadedUpstream = \<lparr>au_ID = ''u1'', au_Type = [], au_Scheme = [], au_PassHost = [], au_UpstreamHost = [], au_Timeout = None,
     au_Nodes = Some (AMap [(''10.0.0.1:80'', AFloat 1)])\<rparr>"

theorem published_route_is_configured_witness:
  "\<exists>options rt. routeLoaded = (fst routeLoaded, Inr options) \<and> map_of (Routes options) ''42'' = Some (rt\<lparr>route_Service := ''s1''\<rparr>)
     \<and> route_Paths (rt :: RouteOptions) = [''/orders/'']"
proof -
  obtain env options where env: "routePut = (fst routePut, Inr env)" and v: "env_Value env =
      Some (AMap [(''uri'', AString ''/orders/*''), (''service_id'', AString ''s1''), (''id'', AString ''42''),
        (''update_time'', AFloat 1700000000), (''create_time'', AFloat 1700000000)])"
    and options: "routeLoaded = (fst routeLoaded, Inr options)"
    using route_put route_loaded by blast
  let ?rt = "projr (apisixRouteToConfig loadedRoute [])" and ?u = "projr (apisixUpstreamToConfig loadedUpstream)"
  have route: "Option.bind (env_Value env) (readRoute sampleRoute) = Some loadedRoute" unfolding v by code_simp
  have rt: "apisixRouteToConfig loadedRoute [] = Inr ?rt" by code_simp
  have path: "route_Paths ?rt = [''/orders/'']" by code_simp
  have service: "etcdView (normalizePrefix productionPrefix) (memKvs stockedMemory) KindService ''s1'' =
      Some (AMap [(''id'', AString ''s1''), (''upstream_id'', AString ''u1'')])"
    "readService ''s1'' (AMap [(''id'', AString ''s1''), (''upstream_id'', AString ''u1'')]) = Some sampleApisixService"
    "apisixMergePlugins [] (as_Plugins sampleApisixService) [] = Inr []" by code_simp+
  have upstream: "etcdView (normalizePrefix productionPrefix) (memKvs stockedMemory) KindUpstream ''u1'' =
      Some (AMap [(''id'', AString ''u1''), (''nodes'', AMap [(''10.0.0.1:80'', AFloat 1)])])"
    "readUpstream ''u1'' (AMap [(''id'', AString ''u1''), (''nodes'', AMap [(''10.0.0.1:80'', AFloat 1)])]) = Some loadedUpstream"
    "apisixUpstreamToConfig loadedUpstream = Inr ?u" "upstream_Scheme ?u \<in> {[], ''http'', ''https''}" by code_simp+
  have "map_of (Routes options) sampleRoute = Some (?rt\<lparr>route_Service := ''s1''\<rparr>)"
    using published_route_is_configured [OF etcd_store_production stocked_inv sample_facts(1) route_facts
        env [unfolded routePut_def memoryStore_def] options [unfolded routeLoaded_def routePut_def memoryStore_def]
        route _ rt _ _ service(1,2) _ _ _ service(3) upstream(1,2) _ upstream(4)] upstream(3)
    by (simp add: loadedRoute_def sampleApisixService_def)
  with options path show ?thesis unfolding sampleRoute_def by blast
qed

end
