(* ===== verification/Logging.thy ===== *)
theory Logging
  imports Config
begin

text \<open>
  The logger (\<^verbatim>\<open>internal/logging/logging.go\<close>): parsing of the level and the format of the options, and the choice of
  the default logger. A logger is its level, its format and whether it writes to the given writer.
\<close>

datatype Level = LevelDebug | LevelInfo | LevelWarn | LevelError

record UnsupportedOptionError =
  ue_Field :: string
  ue_Value :: string

definition ParseLevel :: "string \<Rightarrow> UnsupportedOptionError + Level" where
  "ParseLevel s =
     (let level = ToLower (TrimSpace s) in
      if level = [] \<or> level = ''info'' then Inr LevelInfo
      else if level = ''debug'' then Inr LevelDebug
      else if level = ''warn'' \<or> level = ''warning'' then Inr LevelWarn
      else if level = ''error'' then Inr LevelError
      else Inl \<lparr>ue_Field = ''logging.level'', ue_Value = s\<rparr>)"

definition ParseFormat :: "string \<Rightarrow> UnsupportedOptionError + string" where
  "ParseFormat s =
     (let format = ToLower (TrimSpace s) in
      if format = [] \<or> format = ''text'' then Inr ''text''
      else if format = ''json'' then Inr ''json''
      else Inl \<lparr>ue_Field = ''logging.format'', ue_Value = s\<rparr>)"

record Logger =
  lg_Level :: Level
  lg_JSON :: bool
  lg_Discards :: bool

text \<open>The new default logger, or an error, with which the old one stays. \<open>writer\<close> is false for the nil writer.\<close>

definition ConfigureWithWriter :: "LoggingOptions \<Rightarrow> bool \<Rightarrow> UnsupportedOptionError + Logger" where
  "ConfigureWithWriter options writer =
     (case ParseLevel (logging_Level options) of
       Inl err \<Rightarrow> Inl err
     | Inr level \<Rightarrow>
         (case ParseFormat (logging_Format options) of
           Inl err \<Rightarrow> Inl err
         | Inr format \<Rightarrow> Inr \<lparr>lg_Level = level, lg_JSON = (format = ''json''), lg_Discards = (\<not> writer)\<rparr>))"

definition Configure :: "LoggingOptions \<Rightarrow> UnsupportedOptionError + Logger" where
  "Configure options = ConfigureWithWriter options True"

text \<open>The logger accepts exactly the options that the validation of a configuration accepts, and fails at the same field.\<close>

lemma Configure_validated:
  "case Configure l of
     Inr logger \<Rightarrow> validateLogging l = None
   | Inl err \<Rightarrow> validateLogging l = Some (if ue_Field err = ''logging.level'' then LoggingLevelUnsupported (ue_Value err)
       else LoggingFormatUnsupported (ue_Value err))"
  by (simp add: Configure_def ConfigureWithWriter_def ParseLevel_def ParseFormat_def validateLogging_def Let_def)

end
