(* ===== verification/Lifecycle.thy ===== *)
theory Lifecycle
  imports Gateway Provider Logging
begin

text \<open>
  The life of a gateway (\<^verbatim>\<open>internal/gateway/gateway.go\<close>: \<open>NewWithCompiler\<close>, \<open>Reload\<close>, \<open>ShutdownContext\<close>; the options of
  the compiler in \<^verbatim>\<open>compiler.go\<close>; the callback of the watch in \<^verbatim>\<open>lumen.go\<close>): the first snapshot, its replacement when a
  configuration arrives, and its end.

  A gateway holds a compiled snapshot with the resources of its plugins. Closing a snapshot waits for the requests that
  hold it, which is the subject of \<open>Snapshot\<close>; here it is one step, and \<open>gw_retired\<close> collects the resources of the snapshots
  that were closed, in the order of the calls.

  The compiler is always given: where the code finds none it makes one without options, which is a value of
  \<open>NewRuntimeCompiler\<close>. A gateway of \<open>NewWithCompiler\<close> has a server, so that a shutdown never finds none. The admin handler is an
  argument of the request path and is kept beside the gateway (\<open>Lumen\<close>).
\<close>

section \<open>The compiler\<close>

text \<open>What the compiler is given by the framework: regular expressions, the running of handlers and the proxy.\<close>

record ('raw, 'p) Environment =
  ev_Regexp :: regexp_compiler
  ev_Run :: "'raw run_handlers"
  ev_Serve :: "('raw, 'p) serve_proxy"

definition compileIn ::
    "('raw, 'p) Environment \<Rightarrow> ('raw, 'p) Compiler \<Rightarrow> Options \<Rightarrow> ('raw, 'p) Compiled compiling" where
  "compileIn ev c options = Compile (ev_Regexp ev) (ev_Run ev) (ev_Serve ev) c options"

type_synonym ('raw, 'p) CompilerOption = "('raw, 'p) Compiler \<Rightarrow> ('raw, 'p) Compiler"

definition WithRegistryFactory :: "(string + 'raw handler Registry) option \<Rightarrow> ('raw, 'p) CompilerOption" where
  "WithRegistryFactory factory c = (case factory of None \<Rightarrow> c | Some f \<Rightarrow> c\<lparr>registryFactory := f\<rparr>)"

definition WithBalancerFactory ::
    "(UpstreamOptions \<Rightarrow> Endpoint list \<Rightarrow> string + Balancer) option \<Rightarrow> ('raw, 'p) CompilerOption" where
  "WithBalancerFactory factory c = (case factory of None \<Rightarrow> c | Some f \<Rightarrow> c\<lparr>balancerFactory := f\<rparr>)"

definition WithProxyFactory ::
    "(ServiceOptions \<Rightarrow> 'raw Upstream option \<Rightarrow> string + 'p) option \<Rightarrow> ('raw, 'p) CompilerOption" where
  "WithProxyFactory factory c = (case factory of None \<Rightarrow> c | Some f \<Rightarrow> c\<lparr>proxyFactory := f\<rparr>)"

definition NewRuntimeCompiler ::
    "(string + 'raw handler Registry) \<Rightarrow> (TimeoutOptions \<Rightarrow> 'p) \<Rightarrow> ('raw, 'p) CompilerOption list \<Rightarrow> ('raw, 'p) Compiler" where
  "NewRuntimeCompiler defaultRegistryFactory newHTTP opts =
     fold (\<lambda>opt c. opt c) opts
       \<lparr>registryFactory = defaultRegistryFactory, balancerFactory = defaultBalancerFactory,
        proxyFactory = defaultProxyFactory newHTTP\<rparr>"

definition BuildRegistry :: "('raw, 'p) Compiler \<Rightarrow> string + 'raw handler Registry" where
  "BuildRegistry c = registryFactory c"

section \<open>The gateway\<close>

type_synonym ('raw, 'p) held = "Plugin_Registry.resources \<times> ('raw, 'p) Compiled"

record ('raw, 'p) Gateway =
  gw_compiler :: "('raw, 'p) Compiler"
  gw_options :: Options
  gw_listen :: string
  gw_snapshot :: "('raw, 'p) held option"
  gw_retired :: "Plugin_Registry.resources list"

text \<open>When the listen address is empty the snapshot that was compiled is dropped and its resources stay open.\<close>

datatype gateway_error = CompileFailed compile_error | ListenEmpty Plugin_Registry.resources

definition NewWithCompiler ::
    "('raw, 'p) Environment \<Rightarrow> ('raw, 'p) Compiler \<Rightarrow> Options \<Rightarrow> gateway_error + ('raw, 'p) Gateway" where
  "NewWithCompiler ev compiler options =
     (case compileIn ev compiler options of
       (r, Inl e) \<Rightarrow> Inl (CompileFailed e)
     | (r, Inr snapshot) \<Rightarrow>
         (let listen = (case Servers options of [] \<Rightarrow> [] | (_, serverOptions) # _ \<Rightarrow> server_Listen serverOptions) in
          if listen = [] then Inl (ListenEmpty r)
          else Inr \<lparr>gw_compiler = compiler, gw_options = options, gw_listen = listen, gw_snapshot = Some (r, snapshot), gw_retired = []\<rparr>))"

definition closeHeld :: "('raw, 'p) held \<Rightarrow> Plugin_Registry.resources \<times> string option" where
  "closeHeld old = CloseResources (fst old)"

definition Reload :: "('raw, 'p) Environment \<Rightarrow> Options \<Rightarrow> ('raw, 'p) Gateway \<Rightarrow> ('raw, 'p) Gateway \<times> compile_error option" where
  "Reload ev options g =
     (case compileIn ev (gw_compiler g) options of
       (r, Inl e) \<Rightarrow> (g, Some e)
     | (r, Inr snapshot) \<Rightarrow>
         (g\<lparr>gw_snapshot := Some (r, snapshot),
            gw_retired := (case gw_snapshot g of None \<Rightarrow> gw_retired g | Some old \<Rightarrow> gw_retired g @ [fst (closeHeld old)])\<rparr>, None))"

text \<open>\<open>serverErr\<close> is the error of the server's own shutdown.\<close>

definition ShutdownContext :: "string option \<Rightarrow> ('raw, 'p) Gateway \<Rightarrow> ('raw, 'p) Gateway \<times> string option" where
  "ShutdownContext serverErr g =
     (case gw_snapshot g of
       None \<Rightarrow> (g, serverErr)
     | Some old \<Rightarrow>
         (g\<lparr>gw_snapshot := None, gw_retired := gw_retired g @ [fst (closeHeld old)]\<rparr>,
          if serverErr = None then snd (closeHeld old) else serverErr))"

text \<open>The callback of the watch, with the default logger.\<close>

definition onUpdate ::
    "('raw, 'p) Environment \<Rightarrow> SourceUpdate \<Rightarrow> ('raw, 'p) Gateway \<times> Logger \<Rightarrow> ('raw, 'p) Gateway \<times> Logger" where
  "onUpdate ev update st =
     (case update of
       UpdateErr err \<Rightarrow> st
     | UpdateOptions options \<Rightarrow>
         (case Reload ev options (fst st) of
           (g, Some err) \<Rightarrow> (g, snd st)
         | (g, None) \<Rightarrow>
             (case Configure (Logging options) of
               Inl err \<Rightarrow> (g, snd st)
             | Inr logger \<Rightarrow> (g, logger))))"

definition follow ::
    "('raw, 'p) Environment \<Rightarrow> SourceUpdate list \<Rightarrow> ('raw, 'p) Gateway \<times> Logger \<Rightarrow> ('raw, 'p) Gateway \<times> Logger" where
  "follow ev updates st = fold (onUpdate ev) updates st"

section \<open>Facts\<close>

text \<open>The snapshots that a list of updates brings.\<close>

definition accepted :: "('raw, 'p) Environment \<Rightarrow> ('raw, 'p) Compiler \<Rightarrow> SourceUpdate \<Rightarrow> ('raw, 'p) held list" where
  "accepted ev c update =
     (case update of
       UpdateErr err \<Rightarrow> []
     | UpdateOptions options \<Rightarrow> (case compileIn ev c options of (r, Inl e) \<Rightarrow> [] | (r, Inr snapshot) \<Rightarrow> [(r, snapshot)]))"

definition snapshots :: "('raw, 'p) Environment \<Rightarrow> ('raw, 'p) Compiler \<Rightarrow> SourceUpdate list \<Rightarrow> ('raw, 'p) held list" where
  "snapshots ev c updates = concat (map (accepted ev c) updates)"

lemma snapshots_simps [simp]:
  "snapshots ev c [] = []" "snapshots ev c (u # us) = accepted ev c u @ snapshots ev c us"
  "snapshots ev c (us @ vs) = snapshots ev c us @ snapshots ev c vs"
  by (simp_all add: snapshots_def)

lemma onUpdate_gateway:
  "fst (onUpdate ev u st) =
     (case accepted ev (gw_compiler (fst st)) u of
        [] \<Rightarrow> fst st
      | new # _ \<Rightarrow> (fst st)\<lparr>gw_snapshot := Some new,
          gw_retired := (case gw_snapshot (fst st) of None \<Rightarrow> gw_retired (fst st) | Some old \<Rightarrow> gw_retired (fst st) @ [fst (closeHeld old)])\<rparr>)"
  by (auto simp: onUpdate_def accepted_def Reload_def split: SourceUpdate.splits prod.splits sum.splits)

lemma accepted_short: "accepted ev c u = [] \<or> (\<exists>new. accepted ev c u = [new])"
  by (auto simp: accepted_def split: SourceUpdate.splits prod.splits sum.splits)

lemma follow_compiler: "gw_compiler (fst (follow ev us st)) = gw_compiler (fst st)"
proof (induction us arbitrary: st)
  case (Cons u us)
  have "gw_compiler (fst (onUpdate ev u st)) = gw_compiler (fst st)"
    by (simp add: onUpdate_gateway split: list.split)
  with Cons [of "onUpdate ev u st"] show ?case by (simp add: follow_def)
qed (simp add: follow_def)

lemma follow_snapshots:
  assumes "gw_snapshot (fst st) = Some old"
  shows "gw_snapshot (fst (follow ev us st)) = Some (last (old # snapshots ev (gw_compiler (fst st)) us))
    \<and> gw_retired (fst (follow ev us st)) =
        gw_retired (fst st) @ map (\<lambda>h. fst (closeHeld h)) (butlast (old # snapshots ev (gw_compiler (fst st)) us))"
  using assms
proof (induction us arbitrary: st old)
  case (Cons u us)
  have step: "follow ev (u # us) st = follow ev us (onUpdate ev u st)" by (simp add: follow_def)
  from accepted_short [of ev "gw_compiler (fst st)" u] show ?case
  proof (elim disjE exE)
    assume none: "accepted ev (gw_compiler (fst st)) u = []"
    then have "fst (onUpdate ev u st) = fst st" by (simp add: onUpdate_gateway)
    with Cons.IH [of "onUpdate ev u st" old] Cons.prems none show ?thesis by (simp add: step)
  next
    fix new assume new: "accepted ev (gw_compiler (fst st)) u = [new]"
    then have "fst (onUpdate ev u st) = (fst st)\<lparr>gw_snapshot := Some new, gw_retired := gw_retired (fst st) @ [fst (closeHeld old)]\<rparr>"
      using Cons.prems by (simp add: onUpdate_gateway)
    with Cons.IH [of "onUpdate ev u st" new] new show ?thesis by (simp add: step)
  qed
qed (simp add: follow_def)

lemma NewWithCompiler_snapshot:
  assumes "NewWithCompiler ev c options = Inr g"
  obtains r sn where "compileIn ev c options = (r, Inr sn)" "gw_snapshot g = Some (r, sn)" "gw_compiler g = c" "gw_retired g = []"
  using assms by (auto simp: NewWithCompiler_def Let_def split: prod.splits sum.splits if_splits)

lemma Shutdown_gateway:
  assumes "gw_snapshot g = Some old"
  shows "gw_snapshot (fst (ShutdownContext serverErr g)) = None"
    "gw_retired (fst (ShutdownContext serverErr g)) = gw_retired g @ [fst (closeHeld old)]"
  using assms by (simp_all add: ShutdownContext_def)

lemma map_butlast_last: "xs \<noteq> [] \<Longrightarrow> map f (butlast xs) @ [f (last xs)] = map f xs"
  by (induction xs) auto

lemma closed_held: "res_closed (fst (closeHeld h)) = res_closed (fst h) @ rev (res_closers (fst h))" "res_closers (fst (closeHeld h)) = []"
  by (simp_all add: closeHeld_def CloseResources_spec)

section \<open>Properties\<close>

text \<open>
  C5. Reloads. Whatever updates arrive, with errors, with configurations that do not compile and with good ones, the gateway
  serves the last good one, starting with its first configuration. Each snapshot that was replaced was closed once, in the
  order of the replacements, and its plugins in the reverse order of their creation; the one that is served was not closed. A
  shutdown closes it too, so that every snapshot is closed exactly once.
\<close>

theorem reload_keeps_last_good:
  assumes "NewWithCompiler ev c options = Inr g"
  shows "\<exists>first. compileIn ev c options = (fst first, Inr (snd first))
    \<and> (let held = first # snapshots ev c updates;
           closed = (\<lambda>h. res_closed (fst h) @ rev (res_closers (fst h)));
           g' = fst (follow ev updates (g, logger))
       in gw_snapshot g' = Some (last held)
        \<and> map res_closed (gw_retired g') = map closed (butlast held)
        \<and> gw_snapshot (fst (ShutdownContext serverErr g')) = None
        \<and> map res_closed (gw_retired (fst (ShutdownContext serverErr g'))) = map closed held)"
proof -
  obtain r sn where g: "compileIn ev c options = (r, Inr sn)" "gw_snapshot g = Some (r, sn)" "gw_compiler g = c" "gw_retired g = []"
    by (rule NewWithCompiler_snapshot [OF assms])
  let ?held = "(r, sn) # snapshots ev c updates" and ?g = "fst (follow ev updates (g, logger))"
  have f: "gw_snapshot ?g = Some (last ?held)" "gw_retired ?g = map (\<lambda>h. fst (closeHeld h)) (butlast ?held)"
    using follow_snapshots [of "(g, logger)" "(r, sn)" ev updates] g by simp_all
  have all: "map (\<lambda>h. fst (closeHeld h)) (butlast ?held) @ [fst (closeHeld (last ?held))] = map (\<lambda>h. fst (closeHeld h)) ?held"
    by (rule map_butlast_last) simp
  note stop = Shutdown_gateway [OF f(1)]
  have "map res_closed (gw_retired (fst (ShutdownContext serverErr ?g))) = map (\<lambda>h. res_closed (fst h) @ rev (res_closers (fst h))) ?held"
    unfolding stop(2) f(2) all by (simp add: closed_held o_def)
  moreover have "map res_closed (gw_retired ?g) = map (\<lambda>h. res_closed (fst h) @ rev (res_closers (fst h))) (butlast ?held)"
    unfolding f(2) by (simp add: closed_held o_def)
  ultimately show ?thesis using g(1) f(1) stop(1) unfolding Let_def by (intro exI [of _ "(r, sn)"]) simp
qed

section \<open>Following etcd\<close>

lemma handled_append: "list_all (\<lambda>x. \<not> stops src x) pre \<Longrightarrow> handled src (pre @ xs) = pre @ handled src xs"
  by (induction pre) auto

text \<open>Signals that bring no configuration.\<close>

definition uneventful :: "'s signal \<Rightarrow> bool" where
  "uneventful signal = (case signal of Response n now s \<Rightarrow> n = 0 | _ \<Rightarrow> True)"

lemma uneventful_reports:
  assumes "list_all uneventful signals"
  shows "snapshots ev c (concat (map (reports src ctx) (handled src signals))) = []"
  using assms
proof (induction signals)
  case (Cons x xs)
  then have "snapshots ev c (reports src ctx x) = []"
    by (auto simp: uneventful_def reports_def accepted_def split: signal.splits)
  with Cons show ?case by simp
qed simp

lemma gateway_follows_etcd:
  assumes "gw_snapshot g = Some old" and "list_all (\<lambda>x. \<not> stops src x) pre" and "0 < n" and "list_all uneventful post"
    and "etcdLoad src now (Some ctx) s = (s', Inr options)" and "compileIn ev (gw_compiler g) options = (r, Inr sn)"
  shows "gw_snapshot (fst (follow ev (updatesOf (fst (Watch True src ctx (pre @ Response n now s # post)))) (g, logger))) = Some (r, sn)"
proof -
  let ?signals = "pre @ Response n now s # post"
  have "updatesOf (fst (Watch True src ctx ?signals)) = concat (map (reports src ctx) (handled src ?signals))"
    using watchLoop_meaning [of src ctx ?signals] by (simp add: Watch_def case_prod_beta)
  moreover have "handled src ?signals = pre @ Response n now s # handled src post"
    using assms(2) by (simp add: handled_append stops_def)
  moreover have "reports src ctx (Response n now s) = [UpdateOptions options]" using assms(3,5) by (simp add: reports_def)
  moreover have "accepted ev (gw_compiler g) (UpdateOptions options) = [(r, sn)]" using assms(6) by (simp add: accepted_def)
  ultimately have "snapshots ev (gw_compiler g) (updatesOf (fst (Watch True src ctx ?signals))) =
      snapshots ev (gw_compiler g) (concat (map (reports src ctx) pre)) @ [(r, sn)]"
    using uneventful_reports [OF assms(4), of ev "gw_compiler g" src ctx] by simp
  with follow_snapshots [of "(g, logger)" old ev] assms(1) show ?thesis by simp
qed

text \<open>A gateway that was started with the sample configuration.\<close>

definition sampleEnvironment :: "(unit, unit) Environment" where
  "sampleEnvironment = \<lparr>ev_Regexp = noRegex, ev_Run = runAll, ev_Serve = echoProxy\<rparr>"

definition sampleLogger :: Logger where
  "sampleLogger = \<lparr>lg_Level = LevelInfo, lg_JSON = False, lg_Discards = False\<rparr>"

lemma sample_gateway: "\<exists>g. NewWithCompiler sampleEnvironment plainCompiler sampleOptions = Inr g"
proof -
  obtain r sn where "compileIn sampleEnvironment plainCompiler sampleOptions = (r, Inr sn)"
    using sample_compiles by (auto simp: compileIn_def sampleEnvironment_def)
  moreover have "(case Servers sampleOptions of [] \<Rightarrow> [] | (_, serverOptions) # _ \<Rightarrow> server_Listen serverOptions) \<noteq> []" by code_simp
  ultimately show ?thesis by (simp add: NewWithCompiler_def Let_def)
qed

theorem reload_keeps_last_good_witness:
  "\<exists>g. NewWithCompiler sampleEnvironment plainCompiler sampleOptions = Inr g
     \<and> length (gw_retired (fst (follow sampleEnvironment [UpdateErr CtxErr, UpdateOptions sampleOptions] (g, sampleLogger)))) = 1"
proof -
  obtain g where g: "NewWithCompiler sampleEnvironment plainCompiler sampleOptions = Inr g" using sample_gateway by blast
  let ?us = "[UpdateErr CtxErr, UpdateOptions sampleOptions]"
  obtain r sn where "compileIn sampleEnvironment plainCompiler sampleOptions = (r, Inr sn)"
    by (rule NewWithCompiler_snapshot [OF g])
  then have one: "snapshots sampleEnvironment plainCompiler ?us = [(r, sn)]" by (simp add: accepted_def)
  from reload_keeps_last_good [OF g, where updates = ?us and logger = sampleLogger and serverErr = None]
  have "\<exists>first. map res_closed (gw_retired (fst (follow sampleEnvironment ?us (g, sampleLogger)))) =
      map (\<lambda>h. res_closed (fst h) @ rev (res_closers (fst h))) (butlast (first # snapshots sampleEnvironment plainCompiler ?us))"
    unfolding Let_def by (elim exE conjE) (rule exI, assumption)
  then have "length (map res_closed (gw_retired (fst (follow sampleEnvironment ?us (g, sampleLogger))))) = 1"
    unfolding one by (elim exE) (simp only: length_map length_butlast, simp)
  with g show ?thesis by (intro exI [of _ g]) simp
qed

end
