(* ===== verification/Request_Access.thy ===== *)
theory Request_Access
  imports Http_World
begin

text \<open>
  What a plugin reads and writes of a request through its context (\<^verbatim>\<open>internal/plugin/context.go\<close>): the
  accessors of \<^verbatim>\<open>hertzPluginContext\<close> over the request and the response of the HTTP framework.

  The operations of the framework are parameters, collected in \<open>Framework\<close>: header fields, query arguments, the
  path that a request gets when one is set, the address of the client, and the key-value store and the abort of the
  request context. The laws that are relied on of header fields are those of the locale \<open>header_fields\<close>.
\<close>

section \<open>The framework\<close>

type_synonym fields = "(string \<times> string) list"

record HeaderOps =
  ho_Get :: "fields \<Rightarrow> string \<Rightarrow> string"
  ho_Add :: "string \<Rightarrow> string \<Rightarrow> fields \<Rightarrow> fields"
  ho_Set :: "string \<Rightarrow> string \<Rightarrow> fields \<Rightarrow> fields"
  ho_Del :: "string \<Rightarrow> fields \<Rightarrow> fields"

record QueryOps =
  qo_Get :: "string \<Rightarrow> string \<Rightarrow> string"
  qo_Add :: "string \<Rightarrow> string \<Rightarrow> string \<Rightarrow> string"
  qo_Set :: "string \<Rightarrow> string \<Rightarrow> string \<Rightarrow> string"
  qo_Del :: "string \<Rightarrow> string \<Rightarrow> string"

record 'raw Framework =
  fw_RequestHeader :: HeaderOps
  fw_ResponseHeader :: HeaderOps
  fw_Query :: QueryOps
  fw_SetPath :: "string \<Rightarrow> string"
  fw_ClientIP :: "'raw world \<Rightarrow> string"
  fw_RemoteAddr :: "'raw world \<Rightarrow> string option"
  fw_Set :: "'raw \<Rightarrow> string \<Rightarrow> pvalue \<Rightarrow> 'raw"
  fw_Abort :: "'raw \<Rightarrow> 'raw"

section \<open>Fields of the context\<close>

definition RouteID :: "'raw world \<Rightarrow> string" where
  "RouteID w = hpc_routeID (w_ctx w)"

definition ServiceID :: "'raw world \<Rightarrow> string" where
  "ServiceID w = hpc_serviceID (w_ctx w)"

definition UpstreamID :: "'raw world \<Rightarrow> string" where
  "UpstreamID w = hpc_upstreamID (w_ctx w)"

definition UpstreamHost :: "'raw world \<Rightarrow> string" where
  "UpstreamHost w = hpc_upstreamHost (w_ctx w)"

definition EndpointAddress :: "'raw world \<Rightarrow> string" where
  "EndpointAddress w = hpc_endpointAddress (w_ctx w)"

definition RequestID :: "'raw world \<Rightarrow> string" where
  "RequestID w = hpc_requestID (w_ctx w)"

definition pcSetRequestID :: "string \<Rightarrow> 'raw handler" where
  "pcSetRequestID requestID w = w\<lparr>w_ctx := (w_ctx w)\<lparr>hpc_requestID := requestID\<rparr>\<rparr>"

definition RegexCaptures :: "'raw world \<Rightarrow> string list" where
  "RegexCaptures w = hpc_regexCaptures (w_ctx w)"

definition pcSetRegexCaptures :: "string list \<Rightarrow> 'raw handler" where
  "pcSetRegexCaptures captures w = w\<lparr>w_ctx := (w_ctx w)\<lparr>hpc_regexCaptures := captures\<rparr>\<rparr>"

definition UpstreamStatusCode :: "'raw world \<Rightarrow> int" where
  "UpstreamStatusCode w = hpc_upstreamStatus (w_ctx w)"

definition ProxyInfoOf :: "'raw world \<Rightarrow> ProxyInfo" where
  "ProxyInfoOf w = hpc_proxyInfo (w_ctx w)"

text \<open>Setters of the context. The one for the gateway error also takes the absence of an error, which the function of the package
  ignores.\<close>

definition pcSetPhase :: "string \<Rightarrow> 'raw handler" where
  "pcSetPhase phase w = w\<lparr>w_ctx := (w_ctx w)\<lparr>hpc_phase := phase\<rparr>\<rparr>"

definition GatewayError :: "'raw world \<Rightarrow> string option" where
  "GatewayError w = hpc_gatewayError (w_ctx w)"

definition pcSetGatewayError :: "string option \<Rightarrow> 'raw handler" where
  "pcSetGatewayError err w = w\<lparr>w_ctx := (w_ctx w)\<lparr>hpc_gatewayError := err\<rparr>\<rparr>"

definition pcSetUpstreamStatusCode :: "int \<Rightarrow> 'raw handler" where
  "pcSetUpstreamStatusCode st w = w\<lparr>w_ctx := (w_ctx w)\<lparr>hpc_upstreamStatus := st\<rparr>\<rparr>"

definition pcSetProxyInfo :: "ProxyInfo \<Rightarrow> 'raw handler" where
  "pcSetProxyInfo info w = w\<lparr>w_ctx := (w_ctx w)\<lparr>hpc_proxyInfo := info\<rparr>\<rparr>"

lemma context_setters:
  "pcSetPhase phase w = onCtx (SetPhase phase) w"
  "pcSetUpstreamStatusCode st w = onCtx (SetUpstreamStatusCode st) w"
  "pcSetProxyInfo info w = onCtx (SetProxyInfo info) w"
  "pcSetRequestID i w = onCtx (SetRequestID i) w"
  "pcSetRegexCaptures cs w = onCtx (SetRegexCaptures cs) w"
  "pcSetGatewayError err w = (if err = None then pcSetGatewayError None w else onCtx (SetGatewayError err) w)"
  by (simp_all add: pcSetPhase_def pcSetUpstreamStatusCode_def pcSetProxyInfo_def pcSetRequestID_def pcSetRegexCaptures_def
      pcSetGatewayError_def onCtx_def SetPhase_def SetUpstreamStatusCode_def SetProxyInfo_def SetRequestID_def
      SetRegexCaptures_def SetGatewayError_def)

definition pcAbort :: "'raw Framework \<Rightarrow> 'raw handler" where
  "pcAbort fw w = w\<lparr>w_ctx := Abort (fw_Set fw) (fw_Abort fw) (w_ctx w)\<rparr>"

section \<open>The request\<close>

definition onRequest :: "(HttpRequest \<Rightarrow> HttpRequest) \<Rightarrow> 'raw handler" where
  "onRequest f w = w\<lparr>w_request := f (w_request w)\<rparr>"

definition RequestMethod :: "'raw world \<Rightarrow> string" where
  "RequestMethod w = rq_Method (w_request w)"

definition SetRequestMethod :: "string \<Rightarrow> 'raw handler" where
  "SetRequestMethod method = onRequest (rq_Method_update (\<lambda>_. method))"

definition RequestHost :: "'raw world \<Rightarrow> string" where
  "RequestHost w = rq_Host (w_request w)"

definition SetRequestHost :: "string \<Rightarrow> 'raw handler" where
  "SetRequestHost host = onRequest (rq_Host_update (\<lambda>_. host))"

definition RequestPath :: "'raw world \<Rightarrow> string" where
  "RequestPath w = rq_Path (w_request w)"

definition SetRequestPath :: "'raw Framework \<Rightarrow> string \<Rightarrow> 'raw handler" where
  "SetRequestPath fw path = onRequest (rq_Path_update (\<lambda>_. fw_SetPath fw path))"

definition pcRequestURI :: "'raw world \<Rightarrow> string" where
  "pcRequestURI w = RequestURI (RequestPath w) (rq_Query (w_request w))"

definition RequestQuery :: "'raw Framework \<Rightarrow> 'raw world \<Rightarrow> string \<Rightarrow> string" where
  "RequestQuery fw w key = qo_Get (fw_Query fw) (rq_Query (w_request w)) key"

definition AddRequestQuery :: "'raw Framework \<Rightarrow> string \<Rightarrow> string \<Rightarrow> 'raw handler" where
  "AddRequestQuery fw key value = onRequest (rq_Query_update (qo_Add (fw_Query fw) key value))"

definition SetRequestQuery :: "'raw Framework \<Rightarrow> string \<Rightarrow> string \<Rightarrow> 'raw handler" where
  "SetRequestQuery fw key value = onRequest (rq_Query_update (qo_Set (fw_Query fw) key value))"

definition DelRequestQuery :: "'raw Framework \<Rightarrow> string \<Rightarrow> 'raw handler" where
  "DelRequestQuery fw key = onRequest (rq_Query_update (qo_Del (fw_Query fw) key))"

definition RequestHeader :: "'raw Framework \<Rightarrow> 'raw world \<Rightarrow> string \<Rightarrow> string" where
  "RequestHeader fw w key = ho_Get (fw_RequestHeader fw) (rq_Headers (w_request w)) key"

definition AddRequestHeader :: "'raw Framework \<Rightarrow> string \<Rightarrow> string \<Rightarrow> 'raw handler" where
  "AddRequestHeader fw key value = onRequest (rq_Headers_update (ho_Add (fw_RequestHeader fw) key value))"

definition SetRequestHeader :: "'raw Framework \<Rightarrow> string \<Rightarrow> string \<Rightarrow> 'raw handler" where
  "SetRequestHeader fw key value = onRequest (rq_Headers_update (ho_Set (fw_RequestHeader fw) key value))"

definition DelRequestHeader :: "'raw Framework \<Rightarrow> string \<Rightarrow> 'raw handler" where
  "DelRequestHeader fw key = onRequest (rq_Headers_update (ho_Del (fw_RequestHeader fw) key))"

definition RequestBody :: "'raw world \<Rightarrow> string" where
  "RequestBody w = rq_Body (w_request w)"

text \<open>\<^verbatim>\<open>SetBodyRaw\<close> also ends the streaming of the body.\<close>

definition SetRequestBody :: "string \<Rightarrow> 'raw handler" where
  "SetRequestBody body = onRequest (\<lambda>r. r\<lparr>rq_Body := body, rq_IsBodyStream := False\<rparr>)"

section \<open>The response\<close>

definition onResponse :: "(HttpResponse \<Rightarrow> HttpResponse) \<Rightarrow> 'raw handler" where
  "onResponse f w = w\<lparr>w_response := f (w_response w)\<rparr>"

definition ResponseStatus :: "'raw world \<Rightarrow> int" where
  "ResponseStatus w = rp_Status (w_response w)"

definition SetResponseStatus :: "int \<Rightarrow> 'raw handler" where
  "SetResponseStatus status = onResponse (rp_Status_update (\<lambda>_. status))"

definition ResponseHeader :: "'raw Framework \<Rightarrow> 'raw world \<Rightarrow> string \<Rightarrow> string" where
  "ResponseHeader fw w key = ho_Get (fw_ResponseHeader fw) (rp_Headers (w_response w)) key"

definition AddResponseHeader :: "'raw Framework \<Rightarrow> string \<Rightarrow> string \<Rightarrow> 'raw handler" where
  "AddResponseHeader fw key value = onResponse (rp_Headers_update (ho_Add (fw_ResponseHeader fw) key value))"

definition SetResponseHeader :: "'raw Framework \<Rightarrow> string \<Rightarrow> string \<Rightarrow> 'raw handler" where
  "SetResponseHeader fw key value = onResponse (rp_Headers_update (ho_Set (fw_ResponseHeader fw) key value))"

definition DelResponseHeader :: "'raw Framework \<Rightarrow> string \<Rightarrow> 'raw handler" where
  "DelResponseHeader fw key = onResponse (rp_Headers_update (ho_Del (fw_ResponseHeader fw) key))"

definition ResponseBody :: "'raw world \<Rightarrow> string" where
  "ResponseBody w = rp_Body (w_response w)"

definition SetResponseBody :: "string \<Rightarrow> 'raw handler" where
  "SetResponseBody body = onResponse (rp_Body_update (\<lambda>_. body))"

definition ClientIP :: "'raw Framework \<Rightarrow> 'raw world \<Rightarrow> string" where
  "ClientIP fw w = fw_ClientIP fw w"

lemmas request_access = onRequest_def RequestMethod_def SetRequestMethod_def RequestHost_def SetRequestHost_def RequestPath_def
  SetRequestPath_def RequestQuery_def AddRequestQuery_def SetRequestQuery_def DelRequestQuery_def RequestHeader_def
  AddRequestHeader_def SetRequestHeader_def DelRequestHeader_def RequestBody_def

lemmas response_access = onResponse_def ResponseStatus_def SetResponseStatus_def ResponseHeader_def AddResponseHeader_def
  SetResponseHeader_def DelResponseHeader_def ResponseBody_def SetResponseBody_def

section \<open>Header fields\<close>

text \<open>
  The laws of header fields, for the names that the framework does not treat specially (\<open>ordinary\<close>): names are
  compared without letter case, a field that was set is read back, a field that was deleted is absent, and other
  fields are not touched.
\<close>

text \<open>The value that the last field of a name has in a list of assignments, or a default.\<close>

definition lastOf :: "fields \<Rightarrow> string \<Rightarrow> string \<Rightarrow> string" where
  "lastOf kvs key d = fold (\<lambda>(k, v) acc. if EqualFold k key then v else acc) kvs d"

locale header_fields =
  fixes ops :: HeaderOps and ordinary :: "string \<Rightarrow> bool"
  assumes get_fold: "EqualFold k k' \<Longrightarrow> ho_Get ops h k = ho_Get ops h k'"
    and get_set: "ordinary k \<Longrightarrow> ho_Get ops (ho_Set ops k v h) k = v"
    and get_set_other: "ordinary k \<Longrightarrow> ordinary k' \<Longrightarrow> \<not> EqualFold k k' \<Longrightarrow> ho_Get ops (ho_Set ops k v h) k' = ho_Get ops h k'"
    and get_add_other: "ordinary k \<Longrightarrow> ordinary k' \<Longrightarrow> \<not> EqualFold k k' \<Longrightarrow> ho_Get ops (ho_Add ops k v h) k' = ho_Get ops h k'"
    and get_del: "ordinary k \<Longrightarrow> ho_Get ops (ho_Del ops k h) k = []"
    and get_del_other: "ordinary k \<Longrightarrow> ordinary k' \<Longrightarrow> \<not> EqualFold k k' \<Longrightarrow> ho_Get ops (ho_Del ops k h) k' = ho_Get ops h k'"
begin

lemma set_all:
  assumes "\<forall>(k, v)\<in>set kvs. ordinary k" and "ordinary key"
  shows "ho_Get ops (fold (\<lambda>(k, v). ho_Set ops k v) kvs h) key = lastOf kvs key (ho_Get ops h key)"
  using assms(1)
proof (induction kvs arbitrary: h)
  case (Cons p kvs)
  obtain k v where p: "p = (k, v)" by force
  have "ho_Get ops (ho_Set ops k v h) key = (if EqualFold k key then v else ho_Get ops h key)"
    using Cons.prems p get_fold [of k key] get_set [of k] get_set_other [OF _ assms(2)] by auto
  with Cons show ?case by (simp add: p lastOf_def)
qed (simp add: lastOf_def)

lemma del_all:
  assumes "\<forall>k\<in>set ks. ordinary k" and "ordinary key"
  shows "ho_Get ops (fold (ho_Del ops) ks h) key = (if \<exists>k\<in>set ks. EqualFold k key then [] else ho_Get ops h key)"
  using assms(1)
proof (induction ks arbitrary: h rule: rev_induct)
  case (snoc k ks)
  then show ?case using get_fold [of k key] get_del [of k] get_del_other [of k key] assms(2) by (cases "EqualFold k key") auto
qed simp

end

text \<open>Header fields as a list, the first field of a name counting.\<close>

fun fieldGet :: "fields \<Rightarrow> string \<Rightarrow> string" where
  "fieldGet [] k = []"
| "fieldGet ((k', v) # h) k = (if EqualFold k' k then v else fieldGet h k)"

definition fieldDel :: "string \<Rightarrow> fields \<Rightarrow> fields" where
  "fieldDel k h = filter (\<lambda>(k', v). \<not> EqualFold k' k) h"

definition listFields :: HeaderOps where
  "listFields = \<lparr>ho_Get = fieldGet, ho_Add = \<lambda>k v h. h @ [(k, v)], ho_Set = \<lambda>k v h. fieldDel k h @ [(k, v)], ho_Del = fieldDel\<rparr>"

lemma EqualFold_refl [simp]: "EqualFold k k"
  by (simp add: EqualFold_def)

lemma fieldGet_fold: "EqualFold k k' \<Longrightarrow> fieldGet h k = fieldGet h k'"
  by (induction h k rule: fieldGet.induct) (auto simp: EqualFold_def)

lemma fieldGet_del: "fieldGet (fieldDel k h) k' = (if EqualFold k k' then [] else fieldGet h k')"
  by (induction h) (auto simp: fieldDel_def EqualFold_def)

lemma fieldGet_set: "fieldGet (fieldDel k h @ [(k, v)]) k' = (if EqualFold k k' then v else fieldGet h k')"
  by (induction h) (auto simp: fieldDel_def EqualFold_def)

lemma fieldGet_add: "\<not> EqualFold k k' \<Longrightarrow> fieldGet (h @ [(k, v)]) k' = fieldGet h k'"
  by (induction h) auto

interpretation list_fields: header_fields listFields "\<lambda>_. True"
  by unfold_locales (auto simp: listFields_def fieldGet_del fieldGet_set fieldGet_add intro: fieldGet_fold)

end
