(* ===== verification/Templates.thy ===== *)
theory Templates
  imports Request_Access
begin

text \<open>
  Templates with variables (\<^verbatim>\<open>internal/plugin/builtin/vars.go\<close>), which the built-in plugins use for header
  values, paths, bodies, limit keys and log lines.

  The format of the local time and of a duration in seconds depend on the machine and on floating-point printing; they
  are parameters. The address of the connection is part of the framework.
\<close>

section \<open>Characters and numbers\<close>

definition isVariableChar :: "char \<Rightarrow> bool" where
  "isVariableChar ch \<longleftrightarrow>
     ch = CHR ''_'' \<or> (CHR ''a'' \<le> ch \<and> ch \<le> CHR ''z'') \<or> (CHR ''A'' \<le> ch \<and> ch \<le> CHR ''Z'') \<or> (CHR ''0'' \<le> ch \<and> ch \<le> CHR ''9'')"

definition isDigit :: "char \<Rightarrow> bool" where
  "isDigit ch \<longleftrightarrow> CHR ''0'' \<le> ch \<and> ch \<le> CHR ''9''"

text \<open>A byte from 128 up is not a digit whether it is read alone or as part of a rune.\<close>

definition isNumeric :: "string \<Rightarrow> bool" where
  "isNumeric value \<longleftrightarrow> list_all isDigit value \<and> value \<noteq> []"

definition atoi :: "string \<Rightarrow> int" where
  "atoi value = fold (\<lambda>ch res. wrap64 (res * 10 + (of_char ch - 48))) value 0"

text \<open>\<^verbatim>\<open>net.SplitHostPort\<close>; \<^term>\<open>None\<close> is an error.\<close>

definition splitHostPort :: "string \<Rightarrow> (string \<times> string) option" where
  "splitHostPort hostport =
     (case LastIndexByte hostport CHR '':'' of
        None \<Rightarrow> None
      | Some i \<Rightarrow>
          if hostport \<noteq> [] \<and> hostport ! 0 = CHR ''['' then
            (case Cut hostport CHR '']'' of
               None \<Rightarrow> None
             | Some (before, after) \<Rightarrow>
                 if Suc (length before) = i
                    \<and> CHR ''['' \<notin> set (tl before) \<and> CHR ''['' \<notin> set after \<and> CHR '']'' \<notin> set after
                 then Some (tl before, drop (Suc i) hostport) else None)
          else
            let host = take i hostport in
            if CHR '':'' \<in> set host \<or> CHR ''['' \<in> set hostport \<or> CHR '']'' \<in> set hostport
            then None else Some (host, drop (Suc i) hostport))"

section \<open>Variables\<close>

record 'raw TemplateEnv =
  te_fw :: "'raw Framework"
  te_timeLocal :: "int \<Rightarrow> string"
  te_seconds :: "int \<Rightarrow> string"

definition positive :: "int \<Rightarrow> string" where
  "positive n = (if n > 0 then Itoa n else [])"

definition namedVariable :: "'raw TemplateEnv \<Rightarrow> 'raw world \<Rightarrow> string \<Rightarrow> string option" where
  "namedVariable env w variable =
     (let fw = te_fw env in
      if variable = ''host'' then Some (RequestHost w)
      else if variable = ''uri'' then Some (RequestPath w)
      else if variable = ''request_uri'' then Some (pcRequestURI w)
      else if variable = ''remote_addr'' then
        Some (let ip = ClientIP fw w in
              if ip \<noteq> [] then ip
              else case fw_RemoteAddr fw w of
                None \<Rightarrow> []
              | Some addr \<Rightarrow> (case splitHostPort addr of Some (host, _) \<Rightarrow> host | None \<Rightarrow> addr))
      else if variable = ''request_id'' then Some (RequestID w)
      else if variable = ''route_id'' then Some (RouteID w)
      else if variable = ''service_id'' then Some (ServiceID w)
      else if variable = ''upstream_id'' then Some (UpstreamID w)
      else if variable = ''upstream_host'' then Some (UpstreamHost w)
      else if variable = ''endpoint_addr'' \<or> variable = ''upstream_addr'' then Some (EndpointAddress w)
      else if variable = ''request_method'' then Some (RequestMethod w)
      else if variable = ''status'' then Some (positive (ResponseStatus w))
      else if variable = ''body_bytes_sent'' then Some (Itoa (int (length (ResponseBody w))))
      else if variable = ''request_length'' then Some (Itoa (int (length (RequestBody w))))
      else if variable = ''request_time'' \<or> variable = ''upstream_response_time'' then
        Some (let t = pi_TotalTime (ProxyInfoOf w) in if t > 0 then te_seconds env t else [])
      else if variable = ''upstream_status'' then Some (positive (UpstreamStatusCode w))
      else if variable = ''time_local'' then Some (te_timeLocal env (w_clock w))
      else if variable = ''server_port'' then
        Some (case splitHostPort (RequestHost w) of Some (_, port) \<Rightarrow> port | None \<Rightarrow> [])
      else None)"

definition resolveRequestVariable :: "'raw TemplateEnv \<Rightarrow> 'raw world \<Rightarrow> string \<Rightarrow> string" where
  "resolveRequestVariable env w variable =
     (if variable = [] then []
      else if isNumeric variable then
        (let index = atoi variable; captures = RegexCaptures w in
         if index \<ge> 1 \<and> index \<le> int (length captures) then captures ! nat (index - 1) else [])
      else case namedVariable env w variable of
        Some value \<Rightarrow> value
      | None \<Rightarrow>
          if HasPrefix variable ''arg_'' then RequestQuery (te_fw env) w (TrimPrefix variable ''arg_'')
          else if HasPrefix variable ''http_''
          then RequestHeader (te_fw env) w (ReplaceAll (TrimPrefix variable ''http_'') ''_'' ''-'')
          else [])"

section \<open>Rendering\<close>

text \<open>The loop over the template, from its current position on.\<close>

function renderLoop :: "(string \<Rightarrow> string) \<Rightarrow> string \<Rightarrow> string" where
  "renderLoop resolve [] = []"
| "renderLoop resolve (c # rest) =
     (if c \<noteq> CHR ''$'' then c # renderLoop resolve rest
      else case rest of
        [] \<Rightarrow> [c]
      | nxt # after \<Rightarrow>
          if isDigit nxt then
            resolve (nxt # takeWhile isDigit after) @ renderLoop resolve (dropWhile isDigit after)
          else if isVariableChar nxt then
            resolve (nxt # takeWhile isVariableChar after) @ renderLoop resolve (dropWhile isVariableChar after)
          else c # renderLoop resolve rest)"
  by pat_completeness auto

termination renderLoop
proof (relation "measure (\<lambda>(resolve, value). length value)", goal_cases)
  case (3 resolve c rest nxt after)
  then show ?case using length_dropWhile_le [of isDigit after] by simp
next
  case (4 resolve c rest nxt after)
  then show ?case using length_dropWhile_le [of isVariableChar after] by simp
qed auto

definition renderRequestTemplate :: "'raw TemplateEnv \<Rightarrow> 'raw world \<Rightarrow> string \<Rightarrow> string" where
  "renderRequestTemplate env w value =
     (if value = [] \<or> \<not> Contains value ''$'' then value
      else renderLoop (resolveRequestVariable env w) value)"

section \<open>Templates as pieces\<close>

text \<open>The reference: a template is a list of characters and variables, and rendering replaces the variables.\<close>

datatype piece = Literal char | Variable string

fun unparsePiece :: "piece \<Rightarrow> string" where
  "unparsePiece (Literal c) = [c]"
| "unparsePiece (Variable name) = CHR ''$'' # name"

fun renderPiece :: "(string \<Rightarrow> string) \<Rightarrow> piece \<Rightarrow> string" where
  "renderPiece resolve (Literal c) = [c]"
| "renderPiece resolve (Variable name) = resolve name"

text \<open>The variable that starts a text after a dollar sign, and what follows: the longest run of digits if it starts with a
  digit, otherwise the longest run of letters, digits and underscores.\<close>

definition variableAt :: "string \<Rightarrow> (string \<times> string) option" where
  "variableAt rest =
     (case rest of
        [] \<Rightarrow> None
      | c # _ \<Rightarrow>
          if isDigit c then Some (takeWhile isDigit rest, dropWhile isDigit rest)
          else if isVariableChar c then Some (takeWhile isVariableChar rest, dropWhile isVariableChar rest)
          else None)"

lemma variableAt_Some:
  "variableAt rest = Some (name, after) \<Longrightarrow> name @ after = rest \<and> length after < length rest \<and> name \<noteq> []"
proof -
  have "length (dropWhile P (c # cs)) < length (c # cs)" if "P c" for P and c :: char and cs
    using that length_dropWhile_le [of P cs] by (simp add: less_Suc_eq_le)
  then show "variableAt rest = Some (name, after) \<Longrightarrow> name @ after = rest \<and> length after < length rest \<and> name \<noteq> []"
    by (auto simp: variableAt_def split: list.splits if_splits)
qed

function pieces :: "string \<Rightarrow> piece list" where
  "pieces [] = []"
| "pieces (c # rest) =
     (if c = CHR ''$'' then
        (case variableAt rest of
           Some (name, after) \<Rightarrow> Variable name # pieces after
         | None \<Rightarrow> Literal c # pieces rest)
      else Literal c # pieces rest)"
  by pat_completeness auto

termination pieces
  by (relation "measure length") (auto dest: variableAt_Some)

lemma pieces_unparse: "concat (map unparsePiece (pieces tmpl)) = tmpl"
proof (induction tmpl rule: pieces.induct)
  case (2 c rest)
  then show ?case by (auto split: option.splits dest: variableAt_Some)
qed simp

lemma digit_variable [simp]: "isDigit c \<Longrightarrow> isVariableChar c"
  by (simp add: isDigit_def isVariableChar_def)

lemma dollar_not_variable [simp]: "\<not> isDigit CHR ''$''" "\<not> isVariableChar CHR ''$''"
  by code_simp+

lemma renderLoop_pieces: "renderLoop resolve tmpl = concat (map (renderPiece resolve) (pieces tmpl))"
proof (induction resolve tmpl rule: renderLoop.induct)
  case (2 resolve c rest)
  then show ?case by (cases rest) (auto simp: variableAt_def)
qed simp

lemma pieces_literal: "CHR ''$'' \<notin> set tmpl \<Longrightarrow> pieces tmpl = map Literal tmpl"
  by (induction tmpl) auto

lemma render_pieces: "renderRequestTemplate env w tmpl = concat (map (renderPiece (resolveRequestVariable env w)) (pieces tmpl))"
proof (cases "CHR ''$'' \<in> set tmpl")
  case False
  moreover have "concat (map (renderPiece resolve) (map Literal tmpl)) = tmpl" for resolve by (induction tmpl) auto
  ultimately show ?thesis by (simp add: renderRequestTemplate_def Contains_char pieces_literal)
qed (auto simp: renderRequestTemplate_def Contains_char renderLoop_pieces)

lemma render_literal [simp]: "CHR ''$'' \<notin> set tmpl \<Longrightarrow> renderRequestTemplate env w tmpl = tmpl"
  by (simp add: renderRequestTemplate_def Contains_char)

section \<open>Numbered variables\<close>

definition decimalValue :: "string \<Rightarrow> int" where
  "decimalValue s = fold (\<lambda>c n. n * 10 + (of_char c - 48)) s 0"

lemma wrap64_step: "wrap64 (wrap64 a * 10 + b) = wrap64 (a * 10 + b)"
proof -
  have "((a + 2 ^ 63) mod 2 ^ 64 * 10 + c) mod 2 ^ 64 = ((a + 2 ^ 63) * 10 + c) mod (2 ^ 64 :: int)" for c
    by (metis mod_add_left_eq mod_mult_left_eq)
  from this [of "b + 2 ^ 63 - 10 * 2 ^ 63"] show ?thesis by (simp add: wrap64_def algebra_simps)
qed

lemma atoi_from: "fold (\<lambda>ch res. wrap64 (res * 10 + (of_char ch - 48))) s (wrap64 n) = wrap64 (fold (\<lambda>c n. n * 10 + (of_char c - 48)) s n)"
  by (induction s arbitrary: n) (simp_all add: wrap64_step)

lemma atoi_wrap: "atoi s = wrap64 (decimalValue s)"
  using atoi_from [of s 0] by (simp add: atoi_def decimalValue_def)

fun variableOK :: "piece \<Rightarrow> bool" where
  "variableOK (Literal c) = True"
| "variableOK (Variable name) = (name \<noteq> [] \<and> (list_all isDigit name \<or> list_all isVariableChar name \<and> \<not> isDigit (hd name)))"

lemma list_all_takeWhile [simp]: "list_all P (takeWhile P s)"
  by (induction s) auto

lemma pieces_variables: "list_all variableOK (pieces tmpl)"
proof (induction tmpl rule: pieces.induct)
  case (2 c rest)
  have "variableOK (Variable name)" if "variableAt rest = Some (name, after)" for name after
    using that by (auto simp: variableAt_def split: list.splits if_splits)
  with 2 show ?case by (auto split: option.splits)
qed simp

section \<open>Properties\<close>

text \<open>
  Rendering is substitution. A template has exactly one reading as characters and variables that spells it, in which
  a variable is a dollar sign with the longest following run of digits, or of letters, digits and underscores; rendering
  replaces each variable by its value and keeps every other byte, so that text that a value brings in is not read again.
\<close>

theorem render_is_substitution:
  "renderRequestTemplate env w tmpl = concat (map (renderPiece (resolveRequestVariable env w)) (pieces tmpl))
   \<and> concat (map unparsePiece (pieces tmpl)) = tmpl
   \<and> list_all variableOK (pieces tmpl)"
  by (simp add: render_pieces pieces_unparse pieces_variables)

text \<open>
  A numbered variable is the capture of its number modulo the width of an integer: a number past the range of
  integers can name a capture.
\<close>

lemma numbered_variable:
  assumes "isNumeric name"
  shows "resolveRequestVariable env w name =
     (let n = wrap64 (decimalValue name); captures = RegexCaptures w
      in if 1 \<le> n \<and> n \<le> int (length captures) then captures ! nat (n - 1) else [])"
  using assms by (simp add: resolveRequestVariable_def atoi_wrap isNumeric_def)

lemma numbered_variable_wraps: "isNumeric ''18446744073709551617'' \<and> atoi ''18446744073709551617'' = 1"
  by code_simp

end
