(* ===== verification/Builtin.thy ===== *)
theory Builtin
  imports Templates Plugin_Registry "HOL-Library.Word"
begin

text \<open>
  The built-in plugins that change requests and responses (\<^verbatim>\<open>internal/plugin/builtin/builtin.go\<close> and
  \<^verbatim>\<open>request_id.go\<close>): their configurations, the factories with their errors, and the handlers.

  A handler gets the rest of the chain, \<^verbatim>\<open>pc.Next\<close>, as an argument. The regular expressions, the decoding of
  parameters and the source of random bytes are parameters.
\<close>

unbundle bit_operations_syntax

type_synonym 'raw contextHandler = "'raw handler \<Rightarrow> 'raw handler"

section \<open>Request transformer\<close>

record requestTransformerConfig =
  rt_Method :: string
  rt_Host :: string
  rt_AddHeaders :: fields
  rt_AddQuery :: fields
  rt_SetHeaders :: fields
  rt_SetQuery :: fields
  rt_RemoveHeaders :: "string list"
  rt_RemoveQuery :: "string list"

text \<open>A loop over a map of templates, with an operation per non-empty key; a loop over a list of names.\<close>

definition eachTemplate :: "'raw TemplateEnv \<Rightarrow> (string \<Rightarrow> string \<Rightarrow> 'raw handler) \<Rightarrow> fields \<Rightarrow> 'raw handler" where
  "eachTemplate env f kvs = fold (\<lambda>(key, tmpl) w. if key \<noteq> [] then f key (renderRequestTemplate env w tmpl) w else w) kvs"

definition eachName :: "(string \<Rightarrow> 'raw handler) \<Rightarrow> string list \<Rightarrow> 'raw handler" where
  "eachName f names = fold (\<lambda>name w. if name \<noteq> [] then f name w else w) names"

definition transformRequest :: "'raw TemplateEnv \<Rightarrow> requestTransformerConfig \<Rightarrow> 'raw handler" where
  "transformRequest env cfg w =
     (let fw = te_fw env;
          w = (if rt_Method cfg \<noteq> [] then SetRequestMethod (ToUpper (TrimSpace (renderRequestTemplate env w (rt_Method cfg)))) w else w);
          w = (if rt_Host cfg \<noteq> [] then SetRequestHost (renderRequestTemplate env w (rt_Host cfg)) w else w);
          w = eachTemplate env (AddRequestHeader fw) (rt_AddHeaders cfg) w;
          w = eachTemplate env (AddRequestQuery fw) (rt_AddQuery cfg) w;
          w = eachName (DelRequestHeader fw) (rt_RemoveHeaders cfg) w;
          w = eachName (DelRequestQuery fw) (rt_RemoveQuery cfg) w;
          w = eachTemplate env (SetRequestHeader fw) (rt_SetHeaders cfg) w
      in eachTemplate env (SetRequestQuery fw) (rt_SetQuery cfg) w)"

definition requestTransformer :: "'raw TemplateEnv \<Rightarrow> requestTransformerConfig \<Rightarrow> 'raw contextHandler" where
  "requestTransformer env cfg nxt w = nxt (transformRequest env cfg w)"

section \<open>Paths\<close>

record Regexp =
  re_FindStringSubmatch :: "string \<Rightarrow> string list"
  re_ReplaceAllString :: "string \<Rightarrow> string \<Rightarrow> string"

record rewritePathRegexRule =
  rr_Pattern :: string
  rr_Replacement :: string

definition ruleEmpty :: string where
  "ruleEmpty = ''rewrite_path_regex requires at least one rule''"

definition patternEmpty :: string where
  "patternEmpty = ''rewrite_path_regex pattern cannot be empty''"

fun compileRules :: "(string \<Rightarrow> string + Regexp) \<Rightarrow> rewritePathRegexRule list \<Rightarrow> string + (Regexp \<times> string) list" where
  "compileRules compile [] = Inr []"
| "compileRules compile (rule # rules) =
     (if TrimSpace (rr_Pattern rule) = [] then Inl patternEmpty
      else case compile (rr_Pattern rule) of
        Inl e \<Rightarrow> Inl e
      | Inr re \<Rightarrow>
          (case compileRules compile rules of
             Inl e \<Rightarrow> Inl e
           | Inr compiled \<Rightarrow> Inr ((re, rr_Replacement rule) # compiled)))"

fun rewritePath :: "'raw TemplateEnv \<Rightarrow> string \<Rightarrow> (Regexp \<times> string) list \<Rightarrow> 'raw handler" where
  "rewritePath env path [] w = w"
| "rewritePath env path ((re, replacement) # rules) w =
     (case re_FindStringSubmatch re path of
        [] \<Rightarrow> rewritePath env path rules w
      | whole # captures \<Rightarrow>
          (let w = pcSetRegexCaptures captures w;
               rewritten = renderRequestTemplate env w (re_ReplaceAllString re path replacement);
               rewritten = (if rewritten \<noteq> [] \<and> \<not> HasPrefix rewritten ''/'' then ''/'' @ rewritten else rewritten)
           in SetRequestPath (te_fw env) rewritten w))"

definition rewritePathRegex :: "'raw TemplateEnv \<Rightarrow> (string \<Rightarrow> string + Regexp) \<Rightarrow> rewritePathRegexRule list \<Rightarrow> string + 'raw contextHandler" where
  "rewritePathRegex env compile rules =
     (if length rules = 0 then Inl ruleEmpty
      else case compileRules compile rules of
        Inl e \<Rightarrow> Inl e
      | Inr compiled \<Rightarrow> Inr (\<lambda>nxt w. nxt (rewritePath env (RequestPath w) compiled w)))"

definition replacePath :: "'raw TemplateEnv \<Rightarrow> string \<Rightarrow> string + 'raw contextHandler" where
  "replacePath env cfgPath =
     (if cfgPath = [] then Inl ''replace_path requires path''
      else Inr (\<lambda>nxt w.
        let path = renderRequestTemplate env w cfgPath;
            path = (if \<not> HasPrefix path ''/'' then ''/'' @ path else path)
        in nxt (SetRequestPath (te_fw env) path w)))"

record stripPrefixConfig =
  sp_Prefix :: string
  sp_Prefixes :: "string list"

fun stripFirst :: "'raw Framework \<Rightarrow> string list \<Rightarrow> 'raw handler" where
  "stripFirst fw [] w = w"
| "stripFirst fw (prefix # prefixes) w =
     (if HasPrefix (RequestPath w) prefix then
        (let after = TrimPrefix (RequestPath w) prefix
         in SetRequestPath fw (if length after = 0 then ''/'' else after) w)
      else stripFirst fw prefixes w)"

definition stripPrefix :: "'raw TemplateEnv \<Rightarrow> stripPrefixConfig \<Rightarrow> string + 'raw contextHandler" where
  "stripPrefix env cfg =
     (let prefixes = (if sp_Prefix cfg \<noteq> [] then sp_Prefixes cfg @ [sp_Prefix cfg] else sp_Prefixes cfg) in
      if length prefixes = 0 then Inl ''strip_prefix requires prefix or prefixes''
      else Inr (\<lambda>nxt w. nxt (stripFirst (te_fw env) prefixes w)))"

definition addPrefix :: "'raw TemplateEnv \<Rightarrow> string \<Rightarrow> string + 'raw contextHandler" where
  "addPrefix env cfgPrefix =
     (if cfgPrefix = [] then Inl ''add_prefix requires prefix''
      else
        let prefix = (if \<not> HasPrefix cfgPrefix ''/'' then ''/'' @ cfgPrefix else cfgPrefix) in
        Inr (\<lambda>nxt w.
          let path = RequestPath w in
          nxt (if path = ''/'' then SetRequestPath (te_fw env) (renderRequestTemplate env w prefix) w
               else SetRequestPath (te_fw env) (renderRequestTemplate env w prefix @ path) w)))"

section \<open>Response transformer\<close>

record responseTransformerConfig =
  pt_AddHeaders :: fields
  pt_SetHeaders :: fields
  pt_Body :: string
  pt_ContentType :: string
  pt_RemoveHeaders :: "string list"
  pt_Status :: int
  pt_BodyBase64 :: bool

definition transformResponse :: "'raw TemplateEnv \<Rightarrow> responseTransformerConfig \<Rightarrow> string \<Rightarrow> 'raw handler" where
  "transformResponse env cfg body w =
     (let fw = te_fw env;
          w = eachName (DelResponseHeader fw) (pt_RemoveHeaders cfg) w;
          w = eachTemplate env (AddResponseHeader fw) (pt_AddHeaders cfg) w;
          w = eachTemplate env (SetResponseHeader fw) (pt_SetHeaders cfg) w;
          w = (if pt_Status cfg > 0 then SetResponseStatus (pt_Status cfg) w else w)
      in if body \<noteq> [] then
           (let w = (if pt_ContentType cfg \<noteq> [] then SetResponseHeader fw ''Content-Type'' (pt_ContentType cfg) w else w)
            in SetResponseBody (renderRequestTemplate env w body) w)
         else w)"

definition responseTransformer :: "'raw TemplateEnv \<Rightarrow> responseTransformerConfig \<Rightarrow> string + 'raw contextHandler" where
  "responseTransformer env cfg =
     (if pt_BodyBase64 cfg \<and> pt_Body cfg \<noteq> [] then
        (case base64Decode (pt_Body cfg) of
           None \<Rightarrow> Inl ''illegal base64 data''
         | Some decoded \<Rightarrow> Inr (\<lambda>nxt w. transformResponse env cfg decoded (nxt w)))
      else Inr (\<lambda>nxt w. transformResponse env cfg (pt_Body cfg) (nxt w)))"

section \<open>Request identifiers\<close>

record requestIDConfig =
  ri_HeaderName :: string
  ri_IncludeInResponse :: "bool option"
  ri_Algorithm :: string
  ri_CharSet :: string
  ri_Length :: int

text \<open>\<^verbatim>\<open>hex.EncodeToString\<close>.\<close>

definition hexDigit :: "nat \<Rightarrow> char" where
  "hexDigit n = ''0123456789abcdef'' ! n"

definition hexByte :: "8 word \<Rightarrow> string" where
  "hexByte b = [hexDigit (unat b div 16), hexDigit (unat b mod 16)]"

definition EncodeToString :: "8 word list \<Rightarrow> string" where
  "EncodeToString bs = concat (map hexByte bs)"

definition sliceOf :: "'a list \<Rightarrow> nat \<Rightarrow> nat \<Rightarrow> 'a list" where
  "sliceOf xs i j = take (j - i) (drop i xs)"

definition generateUUID :: "8 word list \<Rightarrow> string" where
  "generateUUID buffer0 =
     (let buffer = buffer0[6 := ((buffer0 ! 6) AND 0x0f) OR 0x40];
          buffer = buffer[8 := ((buffer ! 8) AND 0x3f) OR 0x80]
      in Join [EncodeToString (sliceOf buffer 0 4), EncodeToString (sliceOf buffer 4 6), EncodeToString (sliceOf buffer 6 8),
               EncodeToString (sliceOf buffer 8 10), EncodeToString (sliceOf buffer 10 16)] ''-'')"

text \<open>\<open>bytes\<close> are the random bytes, as many as the identifier has characters.\<close>

definition generateRandomString :: "int \<Rightarrow> string \<Rightarrow> 8 word list \<Rightarrow> string" where
  "generateRandomString len charset bytes =
     (if len \<le> 0 \<or> charset = [] then []
      else map (\<lambda>b. charset ! (unat b mod length charset)) bytes)"

definition nanoidCharset :: string where
  "nanoidCharset = ''0123456789abcdefghijklmnopqrstuvwxyzABCDEFGHIJKLMNOPQRSTUVWXYZ_-''"

definition rangeCharset :: string where
  "rangeCharset = ''abcdefghijklmnopqrstuvwxyzABCDEFGHIGKLMNOPQRSTUVWXYZ0123456789''"

text \<open>A generator takes the source of random bytes: \<open>random n\<close> are \<open>n\<close> bytes.\<close>

type_synonym generator = "(nat \<Rightarrow> 8 word list) \<Rightarrow> string"

definition buildRequestIDGenerator :: "string \<Rightarrow> requestIDConfig \<Rightarrow> string + generator" where
  "buildRequestIDGenerator algorithm cfg =
     (if algorithm = ''uuid'' then Inr (\<lambda>random. generateUUID (random 16))
      else if algorithm = ''nanoid'' then Inr (\<lambda>random. generateRandomString 21 nanoidCharset (random 21))
      else if algorithm = ''range_id'' then
        (let charset = (if ri_CharSet cfg = [] then rangeCharset else ri_CharSet cfg);
             len = (if ri_Length cfg = 0 then 16 else ri_Length cfg)
         in if length charset < 6 then Inl ''request_id range_id.char_set length must be at least 6''
            else if len < 6 then Inl ''request_id range_id.length must be at least 6''
            else Inr (\<lambda>random. generateRandomString len charset (random (nat len))))
      else Inl (''request_id algorithm '' @ algorithm @ '' is not supported''))"

definition requestIDHeader :: "requestIDConfig \<Rightarrow> string" where
  "requestIDHeader cfg = (let name = TrimSpace (ri_HeaderName cfg) in if name = [] then ''X-Request-Id'' else name)"

definition requestID :: "'raw TemplateEnv \<Rightarrow> (nat \<Rightarrow> 8 word list) \<Rightarrow> requestIDConfig \<Rightarrow> string + 'raw contextHandler" where
  "requestID env random cfg =
     (let fw = te_fw env;
          headerName = requestIDHeader cfg;
          includeInResponse = (case ri_IncludeInResponse cfg of None \<Rightarrow> True | Some b \<Rightarrow> b);
          algorithm = (let a = TrimSpace (ri_Algorithm cfg) in if a = [] then ''uuid'' else a)
      in case buildRequestIDGenerator algorithm cfg of
           Inl e \<Rightarrow> Inl e
         | Inr generate \<Rightarrow>
             Inr (\<lambda>nxt w.
               let given = TrimSpace (RequestHeader fw w headerName);
                   rid = (if given = [] then generate random else given);
                   w = (if given = [] then SetRequestHeader fw headerName rid w else w);
                   w = pcSetRequestID rid w;
                   w = nxt w
               in if includeInResponse then SetResponseHeader fw headerName rid w else w))"

section \<open>Facts about identifiers\<close>

lemma div_16: "n div 16 = drop_bit 4 (n :: nat)"
  by (simp add: drop_bit_eq_div)

lemma version_byte: "unat (((b :: 8 word) AND 0x0f) OR 0x40) div 16 = 4"
proof -
  have "unat ((b AND 0x0f) OR 0x40) = take_bit 4 (unat b) OR 64"
    by (simp add: unsigned_or_eq unsigned_and_eq take_bit_eq_mask mask_eq_exp_minus_1)
  then show ?thesis by (simp add: div_16 drop_bit_take_bit)
qed

lemma variant_byte: "unat (((b :: 8 word) AND 0x3f) OR 0x80) div 16 \<in> {8, 9, 10, 11}"
proof -
  have "unat ((b AND 0x3f) OR 0x80) = take_bit 6 (unat b) OR 128"
    by (simp add: unsigned_or_eq unsigned_and_eq take_bit_eq_mask mask_eq_exp_minus_1)
  then have "unat ((b AND 0x3f) OR 0x80) div 16 = take_bit 2 (drop_bit 4 (unat b)) OR 8" by (simp add: div_16 drop_bit_take_bit)
  moreover have "take_bit 2 (drop_bit 4 (unat b)) \<in> {0, 1, 2, 3 :: nat}" by (auto simp: take_bit_eq_mod)
  ultimately show ?thesis by auto
qed

lemma byte_range: "unat (b :: 8 word) < 256"
  using unsigned_less [of b] by simp

lemma length_hex [simp]: "length (hexByte b) = 2"
  by (simp add: hexByte_def)

lemma hexDigit_in: "n < 16 \<Longrightarrow> hexDigit n \<in> set ''0123456789abcdef''"
  unfolding hexDigit_def by (rule nth_mem) simp

lemma hexByte_in: "set (hexByte b) \<subseteq> set ''0123456789abcdef''"
proof -
  have "unat b div 16 < 16" "unat b mod 16 < 16" using byte_range [of b] by auto
  then show ?thesis unfolding hexByte_def using hexDigit_in by auto
qed

lemma length_Encode [simp]: "length (EncodeToString bs) = 2 * length bs"
  by (induction bs) (simp_all add: EncodeToString_def)

lemma Encode_in: "set (EncodeToString bs) \<subseteq> set ''0123456789abcdef''"
  using hexByte_in by (auto simp: EncodeToString_def simp del: set_simps)

lemma Encode_hd: "bs \<noteq> [] \<Longrightarrow> hd (EncodeToString bs) = hexDigit (unat (hd bs) div 16)"
  by (cases bs) (simp_all add: EncodeToString_def hexByte_def)

lemma hd_slice: "i < j \<Longrightarrow> i < length xs \<Longrightarrow> hd (sliceOf xs i j) = xs ! i \<and> sliceOf xs i j \<noteq> []"
  by (auto simp: sliceOf_def hd_drop_conv_nth)

lemma length_slice [simp]: "length (sliceOf xs i j) = min (j - i) (length xs - i)"
  by (simp add: sliceOf_def min.commute)

text \<open>
  C31. The shape of a generated UUID, whatever the sixteen random bytes are: five groups of 8, 4, 4, 4 and 12 hexadecimal
  digits separated by dashes, with the version digit 4 and a variant digit from 8 to b.
\<close>

theorem uuid_format:
  assumes "length bytes = 16"
  shows "\<exists>a b c d e. generateUUID bytes = a @ ''-'' @ b @ ''-'' @ c @ ''-'' @ d @ ''-'' @ e
    \<and> map length [a, b, c, d, e] = [8, 4, 4, 4, 12]
    \<and> set (a @ b @ c @ d @ e) \<subseteq> set ''0123456789abcdef''
    \<and> hd c = CHR ''4'' \<and> hd d \<in> set ''89ab''"
proof -
  let ?b1 = "bytes[6 := ((bytes ! 6) AND 0x0f) OR 0x40]"
  let ?b = "?b1[8 := ((?b1 ! 8) AND 0x3f) OR 0x80]"
  let ?g = "\<lambda>i j. EncodeToString (sliceOf ?b i j)"
  have u: "generateUUID bytes = ?g 0 4 @ ''-'' @ ?g 4 6 @ ''-'' @ ?g 6 8 @ ''-'' @ ?g 8 10 @ ''-'' @ ?g 10 16"
    by (simp add: generateUUID_def Let_def)
  have len: "map length [?g 0 4, ?g 4 6, ?g 6 8, ?g 8 10, ?g 10 16] = [8, 4, 4, 4, 12]" using assms by simp
  have hex: "set (?g 0 4 @ ?g 4 6 @ ?g 6 8 @ ?g 8 10 @ ?g 10 16) \<subseteq> set ''0123456789abcdef''"
    unfolding set_append using Encode_in by (metis Un_least)
  have "hd (?g 6 8) = hexDigit (unat (((bytes ! 6) AND 0x0f) OR 0x40) div 16)"
    using hd_slice [of 6 8 ?b] assms by (simp add: Encode_hd)
  then have c: "hd (?g 6 8) = CHR ''4''" unfolding version_byte by (simp add: hexDigit_def)
  have "hd (?g 8 10) = hexDigit (unat (((bytes ! 8) AND 0x3f) OR 0x80) div 16)"
    using hd_slice [of 8 10 ?b] assms by (simp add: Encode_hd)
  then have d: "hd (?g 8 10) \<in> set ''89ab''" using variant_byte [of "bytes ! 8"] by (auto simp: hexDigit_def)
  show ?thesis by (intro exI conjI, rule u, rule len, rule hex, rule c, rule d)
qed

definition sampleBytes :: "8 word list" where
  "sampleBytes = map word_of_nat [0..<16]"

theorem uuid_format_witness:
  "generateUUID sampleBytes = ''00010203-0405-4607-8809-0a0b0c0d0e0f''
   \<and> (\<exists>a b c d e. generateUUID sampleBytes = a @ ''-'' @ b @ ''-'' @ c @ ''-'' @ d @ ''-'' @ e \<and> hd c = CHR ''4'')"
proof
  show "generateUUID sampleBytes = ''00010203-0405-4607-8809-0a0b0c0d0e0f''" by code_simp
  have "length sampleBytes = 16" by (simp add: sampleBytes_def)
  from uuid_format [OF this] show "\<exists>a b c d e. generateUUID sampleBytes = a @ ''-'' @ b @ ''-'' @ c @ ''-'' @ d @ ''-'' @ e \<and> hd c = CHR ''4''"
    by (elim exE conjE) (intro exI conjI)
qed

lemma random_string:
  assumes "0 < len" and "length bytes = nat len" and "charset \<noteq> []"
  shows "length (generateRandomString len charset bytes) = nat len \<and> set (generateRandomString len charset bytes) \<subseteq> set charset"
  using assms by (auto simp: generateRandomString_def)

lemma generator_nonempty:
  assumes "buildRequestIDGenerator algorithm cfg = Inr generate" and "\<And>n. length (random n) = n"
  shows "generate random \<noteq> []"
proof -
  have bytes: "random n = [] \<longleftrightarrow> n = 0" for n using assms(2) [of n] by auto
  have charset: "nanoidCharset \<noteq> []" "rangeCharset \<noteq> []" by code_simp+
  consider "generate = (\<lambda>random. generateUUID (random 16))"
    | n cs where "generate = (\<lambda>random. generateRandomString (int n) cs (random n))" "n > 0" "cs \<noteq> []"
  proof -
    define n where "n = (if ri_Length cfg = 0 then 16 else ri_Length cfg)"
    define cs where "cs = (if ri_CharSet cfg = [] then rangeCharset else ri_CharSet cfg)"
    have "generate = (\<lambda>random. generateUUID (random 16)) \<or> generate = (\<lambda>random. generateRandomString 21 nanoidCharset (random 21))
        \<or> (6 \<le> n \<and> generate = (\<lambda>random. generateRandomString n cs (random (nat n))))"
      using assms(1) unfolding buildRequestIDGenerator_def Let_def n_def cs_def
      by (metis (no_types, lifting) Inl_Inr_False Inr_inject linorder_not_less)
    moreover have "cs \<noteq> []" using charset by (simp add: cs_def)
    ultimately show thesis using that(1) that(2) [of 21 nanoidCharset] that(2) [of "nat n" cs] charset(1) by (elim disjE conjE) simp_all
  qed
  then show ?thesis by cases (auto simp: generateUUID_def generateRandomString_def Let_def bytes)
qed

text \<open>
  C32. Every request gets an identifier. Whatever the rest of the chain does, it starts with a request whose identifier is
  not empty: the trimmed value of the header field if the client sent one, and then the request is as it came, and
  otherwise a generated one, which is then in the header field; and the response carries the identifier when it should.
\<close>

theorem request_id_assigned:
  assumes fields: "header_fields (fw_RequestHeader (te_fw env)) ordinary" "ordinary (requestIDHeader cfg)"
    and random: "\<And>n. length (random n) = n" and plugin: "requestID env random cfg = Inr handler"
  shows "\<exists>w1. (\<forall>nxt. handler nxt w =
        (if ri_IncludeInResponse cfg = Some False then nxt w1
         else SetResponseHeader (te_fw env) (requestIDHeader cfg) (RequestID w1) (nxt w1)))
    \<and> RequestID w1 \<noteq> []
    \<and> (let given = TrimSpace (RequestHeader (te_fw env) w (requestIDHeader cfg)) in
       if given \<noteq> [] then RequestID w1 = given \<and> w_request w1 = w_request w
       else RequestHeader (te_fw env) w1 (requestIDHeader cfg) = RequestID w1)"
proof -
  let ?fw = "te_fw env" and ?name = "requestIDHeader cfg"
  let ?given = "TrimSpace (RequestHeader ?fw w ?name)"
  obtain algorithm generate where gen: "buildRequestIDGenerator algorithm cfg = Inr generate"
    and handler: "handler = (\<lambda>nxt w. let given = TrimSpace (RequestHeader ?fw w ?name);
                   rid = (if given = [] then generate random else given);
                   w = (if given = [] then SetRequestHeader ?fw ?name rid w else w);
                   w = pcSetRequestID rid w;
                   w = nxt w
               in if (case ri_IncludeInResponse cfg of None \<Rightarrow> True | Some b \<Rightarrow> b) then SetResponseHeader ?fw ?name rid w else w)"
    using plugin by (auto simp: requestID_def Let_def split: sum.splits)
  have "generate random \<noteq> []" by (rule generator_nonempty [OF gen random])
  define rid where "rid = (if ?given = [] then generate random else ?given)"
  define w1 where "w1 = pcSetRequestID rid (if ?given = [] then SetRequestHeader ?fw ?name rid w else w)"
  have "RequestID w1 = rid" by (simp add: w1_def pcSetRequestID_def RequestID_def)
  moreover have "rid \<noteq> []" using \<open>generate random \<noteq> []\<close> by (simp add: rid_def)
  moreover have "w_request w1 = w_request w" if "?given \<noteq> []" using that by (simp add: w1_def pcSetRequestID_def)
  moreover have "RequestHeader ?fw w1 ?name = rid" if "?given = []"
    using that header_fields.get_set [OF fields] by (simp add: w1_def pcSetRequestID_def request_access)
  moreover have "handler nxt w = (if ri_IncludeInResponse cfg = Some False then nxt w1 else SetResponseHeader ?fw ?name rid (nxt w1))" for nxt
    by (auto simp: handler Let_def w1_def rid_def split: option.splits)
  ultimately show ?thesis by (intro exI [of _ w1]) (auto simp: Let_def rid_def)
qed

section \<open>Facts about the request transformer\<close>

lemma eachTemplate_headers:
  assumes "\<forall>(k, t)\<in>set kvs. k \<noteq> [] \<and> CHR ''$'' \<notin> set t"
    and "\<And>k v w. rq_Headers (w_request (f k v w)) = g k v (rq_Headers (w_request w))"
  shows "rq_Headers (w_request (eachTemplate env f kvs w)) = fold (\<lambda>(k, v). g k v) kvs (rq_Headers (w_request w))"
  using assms(1)
proof (induction kvs arbitrary: w)
  case (Cons p kvs)
  then show ?case using assms(2) by (cases p) (simp add: eachTemplate_def)
qed (simp add: eachTemplate_def)

lemma eachTemplate_keeps:
  assumes "\<And>k v w. rq_Headers (w_request (f k v w)) = rq_Headers (w_request w)"
  shows "rq_Headers (w_request (eachTemplate env f kvs w)) = rq_Headers (w_request w)"
proof (induction kvs arbitrary: w)
  case (Cons p kvs)
  then show ?case using assms by (cases p) (auto simp: eachTemplate_def)
qed (simp add: eachTemplate_def)

lemma eachName_headers:
  assumes "\<forall>k\<in>set names. k \<noteq> []" and "\<And>k w. rq_Headers (w_request (f k w)) = g k (rq_Headers (w_request w))"
  shows "rq_Headers (w_request (eachName f names w)) = fold g names (rq_Headers (w_request w))"
  using assms(1) by (induction names arbitrary: w) (simp_all add: eachName_def assms(2))

lemma eachName_keeps:
  assumes "\<And>k w. rq_Headers (w_request (f k w)) = rq_Headers (w_request w)"
  shows "rq_Headers (w_request (eachName f names w)) = rq_Headers (w_request w)"
  by (induction names arbitrary: w) (simp_all add: eachName_def assms)

text \<open>Templates without variables under non-empty ordinary names.\<close>

definition literalFields :: "(string \<Rightarrow> bool) \<Rightarrow> fields \<Rightarrow> bool" where
  "literalFields ordinary kvs \<longleftrightarrow> (\<forall>(k, t)\<in>set kvs. k \<noteq> [] \<and> ordinary k \<and> CHR ''$'' \<notin> set t)"

lemma transform_headers:
  fixes env :: "'raw TemplateEnv"
  assumes "literalFields ordinary (rt_AddHeaders cfg)" "literalFields ordinary (rt_SetHeaders cfg)"
    and "\<forall>k\<in>set (rt_RemoveHeaders cfg). k \<noteq> []"
  shows "rq_Headers (w_request (transformRequest env cfg w)) =
    (let ops = fw_RequestHeader (te_fw env) in
     fold (\<lambda>(k, v). ho_Set ops k v) (rt_SetHeaders cfg)
       (fold (ho_Del ops) (rt_RemoveHeaders cfg) (fold (\<lambda>(k, v). ho_Add ops k v) (rt_AddHeaders cfg) (rq_Headers (w_request w)))))"
proof -
  have lit: "\<forall>(k, t)\<in>set (rt_AddHeaders cfg). k \<noteq> [] \<and> CHR ''$'' \<notin> set t" "\<forall>(k, t)\<in>set (rt_SetHeaders cfg). k \<noteq> [] \<and> CHR ''$'' \<notin> set t"
    using assms(1,2) by (auto simp: literalFields_def)
  have ops: "rq_Headers (w_request (AddRequestHeader (te_fw env) k v w)) = ho_Add (fw_RequestHeader (te_fw env)) k v (rq_Headers (w_request w))"
    "rq_Headers (w_request (SetRequestHeader (te_fw env) k v w)) = ho_Set (fw_RequestHeader (te_fw env)) k v (rq_Headers (w_request w))"
    "rq_Headers (w_request (DelRequestHeader (te_fw env) k w)) = ho_Del (fw_RequestHeader (te_fw env)) k (rq_Headers (w_request w))"
    "rq_Headers (w_request (AddRequestQuery (te_fw env) k v w)) = rq_Headers (w_request w)"
    "rq_Headers (w_request (SetRequestQuery (te_fw env) k v w)) = rq_Headers (w_request w)"
    "rq_Headers (w_request (DelRequestQuery (te_fw env) k w)) = rq_Headers (w_request w)"
    "rq_Headers (w_request (SetRequestMethod v w)) = rq_Headers (w_request w)"
    "rq_Headers (w_request (SetRequestHost v w)) = rq_Headers (w_request w)" for k v and w :: "'raw world"
    by (simp_all add: request_access)
  show ?thesis
    by (simp add: transformRequest_def Let_def ops(7,8)
        eachTemplate_headers [where f = "AddRequestHeader (te_fw env)" and g = "ho_Add (fw_RequestHeader (te_fw env))", OF lit(1) ops(1)]
        eachTemplate_headers [where f = "SetRequestHeader (te_fw env)" and g = "ho_Set (fw_RequestHeader (te_fw env))", OF lit(2) ops(2)]
        eachName_headers [where f = "DelRequestHeader (te_fw env)" and g = "ho_Del (fw_RequestHeader (te_fw env))", OF assms(3) ops(3)]
        eachTemplate_keeps [where f = "AddRequestQuery (te_fw env)", OF ops(4)] eachTemplate_keeps [where f = "SetRequestQuery (te_fw env)", OF ops(5)]
        eachName_keeps [where f = "DelRequestQuery (te_fw env)", OF ops(6)])
qed

context header_fields
begin

lemma add_all_other:
  assumes "\<forall>(k, v)\<in>set kvs. ordinary k \<and> \<not> EqualFold k key" and "ordinary key"
  shows "ho_Get ops (fold (\<lambda>(k, v). ho_Add ops k v) kvs h) key = ho_Get ops h key"
  using assms(1)
proof (induction kvs arbitrary: h)
  case (Cons p kvs)
  then show ?case using get_add_other [OF _ assms(2)] by (cases p) auto
qed simp

end

text \<open>
  What the request transformer does to a header field, with templates that have no variables: the request that the
  rest of the chain gets has, for every name, the value that the configuration sets last under it; without one, no field if
  the configuration removes it; and otherwise, when nothing is added to it either, the client's field. So setting wins over
  removing, and removing over adding.
\<close>

theorem transformer_header:
  assumes "header_fields (fw_RequestHeader (te_fw env)) ordinary"
    and "literalFields ordinary (rt_AddHeaders cfg)" and "literalFields ordinary (rt_SetHeaders cfg)"
    and "\<forall>k\<in>set (rt_RemoveHeaders cfg). k \<noteq> [] \<and> ordinary k" and "ordinary key"
    and "(\<exists>k\<in>set (rt_RemoveHeaders cfg). EqualFold k key) \<or> (\<forall>(k, v)\<in>set (rt_AddHeaders cfg). \<not> EqualFold k key)"
  shows "\<exists>w1. (\<forall>nxt. requestTransformer env cfg nxt w = nxt w1)
    \<and> RequestHeader (te_fw env) w1 key =
        lastOf (rt_SetHeaders cfg) key
          (if \<exists>k\<in>set (rt_RemoveHeaders cfg). EqualFold k key then [] else RequestHeader (te_fw env) w key)"
proof -
  let ?ops = "fw_RequestHeader (te_fw env)"
  have lit: "\<forall>(k, v)\<in>set (rt_SetHeaders cfg). ordinary k" "\<forall>k\<in>set (rt_RemoveHeaders cfg). ordinary k" "\<forall>k\<in>set (rt_RemoveHeaders cfg). k \<noteq> []"
    using assms(3,4) by (auto simp: literalFields_def)
  have add: "ho_Get ?ops (fold (\<lambda>(k, v). ho_Add ?ops k v) (rt_AddHeaders cfg) h) key = ho_Get ?ops h key"
    if "\<not> (\<exists>k\<in>set (rt_RemoveHeaders cfg). EqualFold k key)" for h
    by (rule header_fields.add_all_other [OF assms(1) _ assms(5)]) (use that assms(2,6) in \<open>auto simp: literalFields_def\<close>)
  show ?thesis
    unfolding requestTransformer_def RequestHeader_def
    by (intro exI [of _ "transformRequest env cfg w"] conjI)
      (simp_all add: transform_headers [OF assms(2,3) lit(3)] header_fields.set_all [OF assms(1) lit(1) assms(5)]
        header_fields.del_all [OF assms(1) lit(2) assms(5)] add Let_def)
qed

text \<open>A framework with header fields as lists and without query arguments, and a request on it.\<close>

definition listQueryOps :: QueryOps where
  "listQueryOps = \<lparr>qo_Get = \<lambda>q k. [], qo_Add = \<lambda>k v q. q, qo_Set = \<lambda>k v q. q, qo_Del = \<lambda>k q. q\<rparr>"

definition listFramework :: "unit Framework" where
  "listFramework =
     \<lparr>fw_RequestHeader = listFields, fw_ResponseHeader = listFields, fw_Query = listQueryOps, fw_SetPath = \<lambda>p. p,
      fw_ClientIP = \<lambda>_. ''10.0.0.9'', fw_RemoteAddr = \<lambda>_. None, fw_Set = \<lambda>raw k v. raw, fw_Abort = \<lambda>raw. raw\<rparr>"

definition listEnv :: "unit TemplateEnv" where
  "listEnv = \<lparr>te_fw = listFramework, te_timeLocal = \<lambda>_. [], te_seconds = \<lambda>_. []\<rparr>"

definition sampleWorld :: "unit world" where
  "sampleWorld =
     \<lparr>w_ctx = FromRequestContext (),
      w_request = \<lparr>rq_Method = ''GET'', rq_Host = ''a.example'', rq_Path = ''/orders/7'', rq_Query = [],
        rq_Headers = [(''X-Trace'', ''1''), (''Cookie'', ''c'')], rq_IsBodyStream = False, rq_ContentLength = 0, rq_Body = []\<rparr>,
      w_response = \<lparr>rp_Status = 200, rp_Headers = [], rp_Body = []\<rparr>,
      w_balancers = [], w_recorder = NewMemoryRecorder, w_clock = 0, w_panicked = False\<rparr>"

lemma listEnv_fw: "te_fw listEnv = listFramework"
  by (simp add: listEnv_def)

lemma listEnv_fields: "header_fields (fw_RequestHeader (te_fw listEnv)) (\<lambda>_. True)"
  by (simp add: listEnv_def listFramework_def list_fields.header_fields_axioms)

definition sampleRandom :: "nat \<Rightarrow> 8 word list" where
  "sampleRandom n = map word_of_nat [0..<n]"

definition plainRequestID :: requestIDConfig where
  "plainRequestID = \<lparr>ri_HeaderName = [], ri_IncludeInResponse = None, ri_Algorithm = [], ri_CharSet = [], ri_Length = 0\<rparr>"

theorem request_id_assigned_witness:
  "\<exists>handler w1. requestID listEnv sampleRandom plainRequestID = Inr handler
     \<and> handler (\<lambda>w. w) sampleWorld = SetResponseHeader listFramework ''X-Request-Id'' (RequestID w1) w1
     \<and> RequestHeader listFramework w1 ''X-Request-Id'' = RequestID w1 \<and> RequestID w1 \<noteq> []"
proof -
  have name: "requestIDHeader plainRequestID = ''X-Request-Id''"
    and given: "TrimSpace (RequestHeader (te_fw listEnv) sampleWorld ''X-Request-Id'') = []"
    and inc: "ri_IncludeInResponse plainRequestID = None" by code_simp+
  have "\<not> isl (requestID listEnv sampleRandom plainRequestID)"
    by (simp add: requestID_def plainRequestID_def buildRequestIDGenerator_def TrimSpace_def TrimFunc_def TrimRightFunc_def Let_def)
  then obtain handler where handler: "requestID listEnv sampleRandom plainRequestID = Inr handler"
    by (cases "requestID listEnv sampleRandom plainRequestID") auto
  have random: "length (sampleRandom n) = n" for n by (simp add: sampleRandom_def)
  obtain w1 where w1: "\<And>nxt. handler nxt sampleWorld = SetResponseHeader listFramework ''X-Request-Id'' (RequestID w1) (nxt w1)"
    "RequestID w1 \<noteq> []" "RequestHeader listFramework w1 ''X-Request-Id'' = RequestID w1"
    using request_id_assigned [OF listEnv_fields _ random handler, of sampleWorld] given unfolding name inc listEnv_fw
    by (auto simp: Let_def)
  with handler show ?thesis by blast
qed

definition sampleTransformer :: requestTransformerConfig where
  "sampleTransformer = \<lparr>rt_Method = [], rt_Host = [], rt_AddHeaders = [(''X-Extra'', ''e'')], rt_AddQuery = [],
     rt_SetHeaders = [(''x-trace'', ''2'')], rt_SetQuery = [], rt_RemoveHeaders = [''cookie'', ''X-Trace''], rt_RemoveQuery = []\<rparr>"

theorem transformer_header_witness:
  "\<exists>w1. requestTransformer listEnv sampleTransformer (\<lambda>w. w) sampleWorld = w1
     \<and> RequestHeader listFramework w1 ''X-Trace'' = ''2'' \<and> RequestHeader listFramework w1 ''Cookie'' = []"
proof -
  have "literalFields (\<lambda>_. True) (rt_AddHeaders sampleTransformer)" "literalFields (\<lambda>_. True) (rt_SetHeaders sampleTransformer)"
    "\<forall>k\<in>set (rt_RemoveHeaders sampleTransformer). k \<noteq> [] \<and> True"
    "(\<exists>k\<in>set (rt_RemoveHeaders sampleTransformer). EqualFold k ''X-Trace'') = True"
    "(\<exists>k\<in>set (rt_RemoveHeaders sampleTransformer). EqualFold k ''Cookie'') = True"
    "lastOf (rt_SetHeaders sampleTransformer) ''X-Trace'' [] = ''2''" "lastOf (rt_SetHeaders sampleTransformer) ''Cookie'' [] = []"
    by code_simp+
  with transformer_header [OF listEnv_fields this(1-3), of "''X-Trace''" sampleWorld]
    transformer_header [OF listEnv_fields this(1-3), of "''Cookie''" sampleWorld]
  show ?thesis unfolding listEnv_fw by auto
qed

end
