(* ===== verification/Access_Log.thy ===== *)
theory Access_Log
  imports Builtin "HOL-Library.Sublist"
begin

text \<open>
  The access log (\<^verbatim>\<open>internal/plugin/builtin/access_log.go\<close>): a line per request, written to a file through a
  buffer that a goroutine flushes periodically and that is flushed when the plugin is closed.

  The file accepts writes up to a point: \<open>accept file chunk\<close> bytes of a chunk are written, and fewer than the chunk has
  is an error. The buffer is the writer of the standard library. Every operation holds the mutex, so that a run of the
  requests, of the flusher and of the closer is a sequence of operations.
\<close>

section \<open>The buffered writer\<close>

record accessLogWriter =
  lw_file :: string
  lw_buf :: string
  lw_size :: nat
  lw_err :: bool
  lw_closed :: bool

type_synonym acceptance = "string \<Rightarrow> string \<Rightarrow> nat"

definition fileWrite :: "acceptance \<Rightarrow> string \<Rightarrow> string \<Rightarrow> nat" where
  "fileWrite accept file chunk = min (accept file chunk) (length chunk)"

definition bufFlush :: "acceptance \<Rightarrow> accessLogWriter \<Rightarrow> accessLogWriter" where
  "bufFlush accept w =
     (if lw_err w \<or> lw_buf w = [] then w
      else
        let n = fileWrite accept (lw_file w) (lw_buf w) in
        w\<lparr>lw_file := lw_file w @ take n (lw_buf w), lw_buf := drop n (lw_buf w), lw_err := n < length (lw_buf w)\<rparr>)"

function bufWriteString :: "acceptance \<Rightarrow> accessLogWriter \<Rightarrow> string \<Rightarrow> accessLogWriter" where
  "bufWriteString accept w s =
     (if lw_size w - length (lw_buf w) < length s \<and> \<not> lw_err w then
        if lw_buf w = [] then
          (let n = fileWrite accept (lw_file w) s
           in bufWriteString accept (w\<lparr>lw_file := lw_file w @ take n s, lw_err := n < length s\<rparr>) (drop n s))
        else
          (let n = lw_size w - length (lw_buf w)
           in bufWriteString accept (bufFlush accept (w\<lparr>lw_buf := lw_buf w @ take n s\<rparr>)) (drop n s))
      else if lw_err w then w
      else w\<lparr>lw_buf := lw_buf w @ s\<rparr>)"
  by pat_completeness auto

lemma bufFlush_done: "\<not> lw_err (bufFlush accept w) \<Longrightarrow> lw_buf (bufFlush accept w) = []"
  by (auto simp: bufFlush_def Let_def split: if_splits)

termination bufWriteString
proof (relation "measures [\<lambda>(accept, w, s). if lw_err w then 0 else 1, \<lambda>(accept, w, s). length s,
    \<lambda>(accept, w, s). length (lw_buf w)]", goal_cases)
  case 1
  show ?case by simp
next
  case (2 accept w s n)
  then show ?case by (auto simp: fileWrite_def)
next
  case (3 accept w s n)
  let ?w = "bufFlush accept (w\<lparr>lw_buf := lw_buf w @ take n s\<rparr>)"
  show ?case
  proof (cases "lw_err ?w")
    case True
    with 3 show ?thesis by simp
  next
    case False
    then have "lw_buf ?w = []" by (rule bufFlush_done)
    with 3 False show ?thesis by (cases "n = 0") auto
  qed
qed

definition bufWriteByte :: "acceptance \<Rightarrow> accessLogWriter \<Rightarrow> char \<Rightarrow> accessLogWriter" where
  "bufWriteByte accept w c =
     (if lw_err w then w
      else
        let w = (if lw_size w \<le> length (lw_buf w) then bufFlush accept w else w) in
        if lw_err w then w else w\<lparr>lw_buf := lw_buf w @ [c]\<rparr>)"

section \<open>The log\<close>

text \<open>The file system: \<open>fs_Dir\<close> is \<^verbatim>\<open>filepath.Dir\<close>, \<open>fs_MkdirAll\<close> gives the error, if any, and \<open>fs_OpenFile\<close>, which
  opens for appending and creates a missing file, an error or what the file holds.\<close>

record LogFileSystem =
  fs_Dir :: "string \<Rightarrow> string"
  fs_MkdirAll :: "string \<Rightarrow> string option"
  fs_OpenFile :: "string \<Rightarrow> string + string"

definition newAccessLogWriter :: "LogFileSystem \<Rightarrow> string \<Rightarrow> nat \<Rightarrow> string + accessLogWriter" where
  "newAccessLogWriter fs path bufferSize =
     (case fs_MkdirAll fs (fs_Dir fs path) of
       Some err \<Rightarrow> Inl err
     | None \<Rightarrow>
         (case fs_OpenFile fs path of
           Inl err \<Rightarrow> Inl err
         | Inr old \<Rightarrow> Inr \<lparr>lw_file = old, lw_buf = [], lw_size = bufferSize, lw_err = False, lw_closed = False\<rparr>))"

datatype log_error = ErrClosed | WriteFailed | CloseFailed

definition failure :: "accessLogWriter \<Rightarrow> log_error option" where
  "failure w = (if lw_err w then Some WriteFailed else None)"

definition writeLine :: "acceptance \<Rightarrow> string \<Rightarrow> accessLogWriter \<Rightarrow> accessLogWriter \<times> log_error option" where
  "writeLine accept line w =
     (if lw_closed w then (w, Some ErrClosed)
      else
        let w = bufWriteString accept w line in
        if lw_err w then (w, Some WriteFailed)
        else let w = bufWriteByte accept w (CHR 0x0A) in (w, failure w))"

definition flushLog :: "acceptance \<Rightarrow> accessLogWriter \<Rightarrow> accessLogWriter \<times> log_error option" where
  "flushLog accept w =
     (if lw_closed w then (w, Some ErrClosed)
      else let w = bufFlush accept w in (w, failure w))"

definition closeLog :: "acceptance \<Rightarrow> bool \<Rightarrow> accessLogWriter \<Rightarrow> accessLogWriter \<times> log_error option" where
  "closeLog accept closeFails w =
     (if lw_closed w then (w, None)
      else
        let w = bufFlush accept (w\<lparr>lw_closed := True\<rparr>) in
        (w, case failure w of Some err \<Rightarrow> Some err | None \<Rightarrow> if closeFails then Some CloseFailed else None))"

record accessLogConfig =
  al_Path :: string
  al_Format :: string
  al_FlushInterval :: string
  al_BufferSize :: int

definition defaultAccessLogFormat :: string where
  "defaultAccessLogFormat = ''$remote_addr - [$time_local] '' @ [CHR 0x22] @ ''$request_method $request_uri'' @ [CHR 0x22]
     @ '' $status $body_bytes_sent $request_time''"

text \<open>The settings of an instance: path, format, size of the buffer and period of the flusher. \<open>parseDuration\<close> is
  \<^verbatim>\<open>time.ParseDuration\<close>.\<close>

definition accessLogSettings :: "(string \<Rightarrow> int option) \<Rightarrow> accessLogConfig \<Rightarrow> string + string \<times> string \<times> nat \<times> int" where
  "accessLogSettings parseDuration cfg =
     (let path = TrimSpace (al_Path cfg) in
      if path = [] then Inl ''access_log requires path''
      else
        let format = (if al_Format cfg = [] then defaultAccessLogFormat else al_Format cfg);
            bufferSize = (if al_BufferSize cfg \<le> 0 then 16384 else nat (al_BufferSize cfg))
        in if al_FlushInterval cfg = [] then Inr (path, format, bufferSize, 1000000000)
           else case parseDuration (al_FlushInterval cfg) of
             None \<Rightarrow> Inl ''invalid duration''
           | Some parsed \<Rightarrow> Inr (path, format, bufferSize, if parsed > 0 then parsed else 1000000000))"

text \<open>The handler, with the writer of its instance.\<close>

definition accessLog :: "'raw TemplateEnv \<Rightarrow> acceptance \<Rightarrow> string \<Rightarrow> 'raw handler \<Rightarrow> accessLogWriter \<times> 'raw world \<Rightarrow> accessLogWriter \<times> 'raw world" where
  "accessLog env accept format nxt st =
     (case st of (lw, w) \<Rightarrow>
       let w = nxt w;
           line = renderRequestTemplate env w format
       in (fst (writeLine accept line lw), w))"

section \<open>Runs\<close>

datatype log_op = LogLine string | LogTick | LogClose bool

fun logStep :: "acceptance \<Rightarrow> log_op \<Rightarrow> accessLogWriter \<Rightarrow> accessLogWriter" where
  "logStep accept (LogLine line) w = fst (writeLine accept line w)"
| "logStep accept LogTick w = fst (flushLog accept w)"
| "logStep accept (LogClose closeFails) w = fst (closeLog accept closeFails w)"

definition logRun :: "acceptance \<Rightarrow> log_op list \<Rightarrow> accessLogWriter \<Rightarrow> accessLogWriter" where
  "logRun accept ops w = fold (logStep accept) ops w"

text \<open>The text of the lines that are logged before the log is closed.\<close>

fun loggedText :: "log_op list \<Rightarrow> string" where
  "loggedText [] = []"
| "loggedText (LogLine line # ops) = line @ [CHR 0x0A] @ loggedText ops"
| "loggedText (LogTick # ops) = loggedText ops"
| "loggedText (LogClose closeFails # ops) = []"

text \<open>The instance of a configuration: its writer, its format and the period of its flusher.\<close>

definition accessLogInstance :: "(string \<Rightarrow> int option) \<Rightarrow> LogFileSystem \<Rightarrow> accessLogConfig \<Rightarrow> string + accessLogWriter \<times> string \<times> int" where
  "accessLogInstance parseDuration fs cfg =
     (case accessLogSettings parseDuration cfg of
       Inl err \<Rightarrow> Inl err
     | Inr (path, format, bufferSize, flushInterval) \<Rightarrow>
         (case newAccessLogWriter fs path bufferSize of
           Inl err \<Rightarrow> Inl err
         | Inr w \<Rightarrow> Inr (w, format, flushInterval)))"

section \<open>Facts\<close>

definition contents :: "accessLogWriter \<Rightarrow> string" where
  "contents w = lw_file w @ lw_buf w"

lemma bufFlush_facts [simp]:
  "contents (bufFlush accept w) = contents w" "lw_closed (bufFlush accept w) = lw_closed w" "lw_size (bufFlush accept w) = lw_size w"
  by (simp_all add: bufFlush_def contents_def Let_def)

lemma bufFlush_err: "lw_err w \<Longrightarrow> bufFlush accept w = w"
  by (simp add: bufFlush_def)

declare bufWriteString.simps [simp del]

lemma bufWriteString_contents:
  "\<exists>t. prefix t s \<and> contents (bufWriteString accept w s) = contents w @ t \<and> (\<not> lw_err (bufWriteString accept w s) \<longrightarrow> t = s)
     \<and> lw_closed (bufWriteString accept w s) = lw_closed w"
proof (induction accept w s rule: bufWriteString.induct)
  case (1 accept w s)
  show ?case
  proof (cases "lw_size w - length (lw_buf w) < length s \<and> \<not> lw_err w")
    case loop: True
    show ?thesis
    proof (cases "lw_buf w = []")
      case True
      let ?n = "fileWrite accept (lw_file w) s"
      let ?w = "w\<lparr>lw_file := lw_file w @ take ?n s, lw_err := ?n < length s\<rparr>"
      have step: "bufWriteString accept w s = bufWriteString accept ?w (drop ?n s)"
        using loop True by (subst bufWriteString.simps) (simp add: Let_def)
      obtain t where t: "prefix t (drop ?n s)" "contents (bufWriteString accept w s) = contents ?w @ t"
        "\<not> lw_err (bufWriteString accept w s) \<longrightarrow> t = drop ?n s" "lw_closed (bufWriteString accept w s) = lw_closed w"
        using "1.IH"(1) [OF loop True refl] unfolding step by auto
      have "contents ?w = contents w @ take ?n s" using True by (simp add: contents_def)
      moreover have "prefix (take ?n s @ t) s" using t(1) by (metis append_take_drop_id same_prefix_prefix)
      ultimately show ?thesis using t by (intro exI [of _ "take ?n s @ t"]) auto
    next
      case False
      let ?n = "lw_size w - length (lw_buf w)"
      let ?w = "bufFlush accept (w\<lparr>lw_buf := lw_buf w @ take ?n s\<rparr>)"
      have step: "bufWriteString accept w s = bufWriteString accept ?w (drop ?n s)"
        using loop False by (subst bufWriteString.simps) (simp add: Let_def)
      obtain t where t: "prefix t (drop ?n s)" "contents (bufWriteString accept w s) = contents ?w @ t"
        "\<not> lw_err (bufWriteString accept w s) \<longrightarrow> t = drop ?n s" "lw_closed (bufWriteString accept w s) = lw_closed w"
        using "1.IH"(2) [OF loop False refl] unfolding step by auto
      have "contents ?w = contents w @ take ?n s" by (simp add: contents_def [of w] contents_def [of "w\<lparr>lw_buf := lw_buf w @ take ?n s\<rparr>"])
      moreover have "prefix (take ?n s @ t) s" using t(1) by (metis append_take_drop_id same_prefix_prefix)
      ultimately show ?thesis using t by (intro exI [of _ "take ?n s @ t"]) auto
    qed
  next
    case False
    then have "bufWriteString accept w s = (if lw_err w then w else w\<lparr>lw_buf := lw_buf w @ s\<rparr>)"
      by (subst bufWriteString.simps) simp
    then show ?thesis by (cases "lw_err w") (auto simp: contents_def)
  qed
qed

lemma writeLine_contents:
  assumes "\<not> lw_closed w"
  shows "\<exists>t. prefix t (line @ [CHR 0x0A]) \<and> contents (fst (writeLine accept line w)) = contents w @ t
    \<and> (\<not> lw_err (fst (writeLine accept line w)) \<longrightarrow> t = line @ [CHR 0x0A])
    \<and> lw_closed (fst (writeLine accept line w)) = lw_closed w"
proof -
  let ?w1 = "bufWriteString accept w line"
  obtain t where t: "prefix t line" "contents ?w1 = contents w @ t" "\<not> lw_err ?w1 \<longrightarrow> t = line" "lw_closed ?w1 = lw_closed w"
    using bufWriteString_contents by blast
  show ?thesis
  proof (cases "lw_err ?w1")
    case True
    then show ?thesis using t assms by (intro exI [of _ t]) (auto simp: writeLine_def Let_def)
  next
    case False
    let ?w2 = "if lw_size ?w1 \<le> length (lw_buf ?w1) then bufFlush accept ?w1 else ?w1"
    have w2: "contents ?w2 = contents w @ line" "lw_closed ?w2 = lw_closed w" using t False by simp_all
    have res: "fst (writeLine accept line w) = (if lw_err ?w2 then ?w2 else ?w2\<lparr>lw_buf := lw_buf ?w2 @ [CHR 0x0A]\<rparr>)"
      using assms False by (simp add: writeLine_def bufWriteByte_def Let_def)
    show ?thesis
    proof (cases "lw_err ?w2")
      case True
      with res w2 show ?thesis by (intro exI [of _ line]) auto
    next
      case ok: False
      have "contents (?w2\<lparr>lw_buf := lw_buf ?w2 @ [CHR 0x0A]\<rparr>) = contents w @ line @ [CHR 0x0A]"
        using w2(1) unfolding contents_def by simp
      with res w2 ok show ?thesis by (intro exI [of _ "line @ [CHR 0x0A]"]) simp
    qed
  qed
qed


lemma step_closed:
  assumes "lw_closed w"
  shows "logStep accept x w = w"
  using assms by (cases x) (simp_all add: writeLine_def flushLog_def closeLog_def)

lemma run_closed:
  assumes "lw_closed w"
  shows "logRun accept ops w = w"
  using assms by (induction ops) (simp_all add: logRun_def step_closed)

lemma run_Cons: "logRun accept (x # ops) w = logRun accept ops (logStep accept x w)"
  by (simp add: logRun_def)

text \<open>After an error the writer takes nothing more.\<close>

lemma step_err:
  assumes "lw_err w"
  shows "lw_err (logStep accept x w) \<and> contents (logStep accept x w) = contents w"
proof -
  have "bufWriteString accept w line = w" for line by (subst bufWriteString.simps) (simp add: assms)
  with assms show ?thesis
    by (cases x) (simp_all add: writeLine_def flushLog_def closeLog_def bufFlush_def contents_def Let_def)
qed

lemma run_err:
  assumes "lw_err w"
  shows "lw_err (logRun accept ops w) \<and> contents (logRun accept ops w) = contents w"
  using assms
proof (induction ops arbitrary: w)
  case (Cons x ops)
  from step_err [OF Cons.prems, of accept x] Cons.IH [of "logStep accept x w"] show ?case by (simp add: run_Cons)
qed (simp add: logRun_def)

lemma run_contents:
  assumes "\<not> lw_closed w"
  shows "\<exists>t. prefix t (loggedText ops) \<and> contents (logRun accept ops w) = contents w @ t
    \<and> (\<not> lw_err (logRun accept ops w) \<longrightarrow> t = loggedText ops)"
  using assms
proof (induction ops arbitrary: w)
  case Nil
  then show ?case by (simp add: logRun_def)
next
  case (Cons x ops)
  show ?case
  proof (cases x)
    case (LogLine line)
    let ?w = "fst (writeLine accept line w)"
    obtain t where t: "prefix t (line @ [CHR 0x0A])" "contents ?w = contents w @ t" "\<not> lw_err ?w \<longrightarrow> t = line @ [CHR 0x0A]"
      "\<not> lw_closed ?w" using writeLine_contents [OF Cons.prems] Cons.prems by metis
    have run: "logRun accept (x # ops) w = logRun accept ops ?w" by (simp add: run_Cons LogLine)
    show ?thesis
    proof (cases "lw_err ?w")
      case True
      have "prefix t (loggedText (x # ops))" using t(1) LogLine by (metis append_assoc loggedText.simps(2) prefix_prefix)
      with run_err [OF True] t(2) show ?thesis by (intro exI [of _ t]) (simp add: run)
    next
      case False
      from Cons.IH [OF t(4)] obtain u where u: "prefix u (loggedText ops)" "contents (logRun accept ops ?w) = contents ?w @ u"
        "\<not> lw_err (logRun accept ops ?w) \<longrightarrow> u = loggedText ops" by blast
      with t False LogLine show ?thesis by (intro exI [of _ "line @ [CHR 0x0A] @ u"]) (simp add: run [unfolded LogLine])
    qed
  next
    case LogTick
    have "\<not> lw_closed (logStep accept LogTick w)" "contents (logStep accept LogTick w) = contents w"
      using Cons.prems by (simp_all add: flushLog_def Let_def)
    with Cons.IH [of "logStep accept LogTick w"] LogTick show ?thesis by (simp add: run_Cons)
  next
    case (LogClose closeFails)
    have "lw_closed (logStep accept x w)" "contents (logStep accept x w) = contents w"
      using Cons.prems LogClose by (simp_all add: closeLog_def Let_def) (simp add: contents_def)
    with LogClose show ?thesis by (simp add: run_Cons run_closed)
  qed
qed

text \<open>What is in the file stays there.\<close>

lemma bufFlush_file: "prefix (lw_file w) (lw_file (bufFlush accept w))"
  by (simp add: bufFlush_def Let_def)

lemma bufWriteString_file: "prefix (lw_file w) (lw_file (bufWriteString accept w s))"
proof (induction accept w s rule: bufWriteString.induct)
  case (1 accept w s)
  let ?room = "lw_size w - length (lw_buf w)"
  have "prefix (lw_file w) (lw_file (bufFlush accept (w\<lparr>lw_buf := lw_buf w @ take ?room s\<rparr>)))"
    using bufFlush_file [of "w\<lparr>lw_buf := lw_buf w @ take ?room s\<rparr>"] by simp
  with 1 show ?case by (subst bufWriteString.simps) (auto simp: Let_def elim: prefix_order.trans append_prefixD)
qed

lemma step_file: "prefix (lw_file w) (lw_file (logStep accept x w))"
proof (cases x)
  case (LogLine line)
  let ?w = "bufWriteString accept w line"
  have "prefix (lw_file ?w) (lw_file (bufWriteByte accept ?w c))" for c
    using bufFlush_file [of ?w accept] by (simp add: bufWriteByte_def Let_def)
  with bufWriteString_file [of w accept line] LogLine show ?thesis
    by (auto simp: writeLine_def Let_def elim: prefix_order.trans)
next
  case LogTick
  then show ?thesis by (simp add: flushLog_def bufFlush_file Let_def)
next
  case (LogClose closeFails)
  with bufFlush_file [of "w\<lparr>lw_closed := True\<rparr>" accept] show ?thesis by (simp add: closeLog_def Let_def)
qed

lemma run_file: "prefix (lw_file w) (lw_file (logRun accept ops w))"
proof (induction ops arbitrary: w)
  case (Cons x ops)
  from step_file [of w accept x] Cons [of "logStep accept x w"] show ?case by (simp add: run_Cons)
qed (simp add: logRun_def)

text \<open>With a file that takes everything there is no error, and closing leaves nothing in the buffer.\<close>

definition takesAll :: "acceptance \<Rightarrow> bool" where
  "takesAll accept \<longleftrightarrow> (\<forall>file chunk. length chunk \<le> accept file chunk)"

lemma takesAll_write [simp]: "takesAll accept \<Longrightarrow> fileWrite accept file chunk = length chunk"
  by (simp add: takesAll_def fileWrite_def min_absorb2)

lemma takesAll_flush [simp]: "takesAll accept \<Longrightarrow> lw_err (bufFlush accept w) = lw_err w"
  by (simp add: bufFlush_def Let_def)

lemma takesAll_string [simp]:
  assumes "takesAll accept"
  shows "lw_err (bufWriteString accept w s) = lw_err w"
  using assms
proof (induction accept w s rule: bufWriteString.induct)
  case (1 accept w s)
  then show ?case by (subst bufWriteString.simps) (simp add: Let_def)
qed

lemma takesAll_run:
  assumes "takesAll accept"
  shows "lw_err (logRun accept ops w) = lw_err w"
proof (induction ops arbitrary: w)
  case (Cons x ops)
  have "lw_err (logStep accept x w) = lw_err w"
    using assms by (cases x) (simp_all add: writeLine_def flushLog_def closeLog_def bufWriteByte_def Let_def)
  with Cons show ?case by (simp add: run_Cons)
qed (simp add: logRun_def)

lemma run_flushed:
  assumes "LogClose c \<in> set ops" "\<not> lw_closed w" "\<not> lw_err (logRun accept ops w)"
  shows "lw_buf (logRun accept ops w) = []"
  using assms
proof (induction ops arbitrary: w)
  case (Cons x ops)
  have err: "\<not> lw_err (logStep accept x w)" using Cons.prems(3) run_err by (auto simp: run_Cons)
  show ?case
  proof (cases x)
    case (LogClose c')
    then have "logStep accept x w = bufFlush accept (w\<lparr>lw_closed := True\<rparr>)" using Cons.prems(2) by (simp add: closeLog_def Let_def)
    moreover from this err have "lw_buf (logStep accept x w) = []" using bufFlush_done by metis
    ultimately show ?thesis by (simp add: run_Cons run_closed)
  next
    case (LogLine line)
    then have "\<not> lw_closed (logStep accept x w)" using writeLine_contents [OF Cons.prems(2), of line accept] Cons.prems(2) by auto
    with Cons LogLine show ?thesis by (simp add: run_Cons)
  next
    case LogTick
    then have "\<not> lw_closed (logStep accept x w)" using Cons.prems(2) by (simp add: flushLog_def Let_def)
    with Cons LogTick show ?thesis by (simp add: run_Cons)
  qed
qed simp

lemma instance_writer:
  assumes "accessLogInstance parseDuration fs cfg = Inr (w, format, interval)"
  shows "fs_OpenFile fs (TrimSpace (al_Path cfg)) = Inr (lw_file w)" "lw_buf w = []" "\<not> lw_err w" "\<not> lw_closed w"
  using assms by (auto simp: accessLogInstance_def accessLogSettings_def newAccessLogWriter_def Let_def
      split: sum.splits option.splits if_splits prod.splits)

section \<open>The property\<close>

text \<open>C34. Whatever the interleaving of the requests, of the flusher and of the closer, and wherever the file
  refuses a write, what the log adds to the file is a prefix of the lines of the requests that completed before the close,
  in their order and each with a newline: no byte is lost from the middle, repeated or reordered. If the file refuses
  nothing, all of it is in the file once the log is closed, whatever the size of the buffer.\<close>

theorem access_log_content:
  assumes "accessLogInstance parseDuration fs cfg = Inr (w, format, interval)"
    and "fs_OpenFile fs (TrimSpace (al_Path cfg)) = Inr old"
  shows "(\<exists>t. lw_file (logRun accept ops w) = old @ t \<and> prefix t (loggedText ops))
    \<and> (takesAll accept \<longrightarrow> LogClose c \<in> set ops \<longrightarrow> lw_file (logRun accept ops w) = old @ loggedText ops)"
proof -
  note w = instance_writer [OF assms(1)]
  then have old: "lw_file w = old" using assms(2) by simp
  let ?w = "logRun accept ops w"
  obtain t where t: "prefix t (loggedText ops)" "contents ?w = contents w @ t" "\<not> lw_err ?w \<longrightarrow> t = loggedText ops"
    using run_contents [OF w(4)] by blast
  have c: "lw_file ?w @ lw_buf ?w = old @ t" using t(2) w(2) old by (simp add: contents_def)
  obtain u where u: "lw_file ?w = old @ u" using run_file [of w accept ops] old by (auto elim: prefixE)
  with c have "prefix u t" by (auto intro: prefixI)
  from this t(1) have "prefix u (loggedText ops)" by (rule prefix_order.trans)
  moreover have "u = loggedText ops" if "takesAll accept" "LogClose c \<in> set ops"
  proof -
    have "\<not> lw_err ?w" using takesAll_run [OF that(1)] w(3) by simp
    with run_flushed [OF that(2) w(4)] t(3) c u show ?thesis by simp
  qed
  ultimately show ?thesis using u by auto
qed

definition sampleFiles :: LogFileSystem where
  "sampleFiles = \<lparr>fs_Dir = (\<lambda>path. ''.''), fs_MkdirAll = (\<lambda>dir. None), fs_OpenFile = (\<lambda>path. Inr ''x'')\<rparr>"

definition sampleLog :: accessLogConfig where
  "sampleLog = \<lparr>al_Path = ''a.log'', al_Format = [], al_FlushInterval = [], al_BufferSize = 4\<rparr>"

theorem access_log_content_witness:
  "case accessLogInstance (\<lambda>d. None) sampleFiles sampleLog of
     Inr (w, format, interval) \<Rightarrow>
       lw_file (logRun (\<lambda>file chunk. length chunk) [LogLine ''abcdef'', LogTick, LogLine ''g'', LogClose False, LogLine ''h''] w)
         = ''xabcdef'' @ [CHR 0x0A] @ ''g'' @ [CHR 0x0A]
   | _ \<Rightarrow> False"
proof -
  have inst: "accessLogInstance (\<lambda>d. None) sampleFiles sampleLog
      = Inr (\<lparr>lw_file = ''x'', lw_buf = [], lw_size = 4, lw_err = False, lw_closed = False\<rparr>, defaultAccessLogFormat, 1000000000)"
    by code_simp
  have fil: "fs_OpenFile sampleFiles (TrimSpace (al_Path sampleLog)) = Inr ''x''" by (simp add: sampleFiles_def)
  have "takesAll (\<lambda>file chunk. length chunk)" by (simp add: takesAll_def)
  with access_log_content [OF inst fil, of "\<lambda>file chunk. length chunk"
      "[LogLine ''abcdef'', LogTick, LogLine ''g'', LogClose False, LogLine ''h'']" False]
  show ?thesis by (simp add: inst)
qed

end
