(* ===== verification/Limit_Count.thy ===== *)
theory Limit_Count
  imports Builtin "HOL-Library.Signed_Division"
begin

text \<open>
  The plugin that limits the number of requests per time window (\<^verbatim>\<open>internal/plugin/builtin/limit_count.go\<close>).
  Its counters are the state that an instance keeps; the part of the handler that runs under the mutex is \<open>admit\<close>. The
  clock of the world counts nanoseconds.
\<close>

section \<open>Configuration\<close>

record limitCountConfig =
  lc_ShowLimitQuotaHeader :: "bool option"
  lc_KeyType :: string
  lc_Key :: string
  lc_RejectedMsg :: string
  lc_Policy :: string
  lc_Group :: string
  lc_Count :: int
  lc_TimeWindow :: int
  lc_RejectedCode :: int

text \<open>What the factory makes of a configuration.\<close>

record limiter =
  lm_cfg :: limitCountConfig
  lm_keyType :: string
  lm_key :: string
  lm_rejectedCode :: int
  lm_showHeaders :: bool

datatype limit_error = CountNotPositive | WindowNotPositive | PolicyUnsupported string | KeyTypeUnsupported string

definition newLimitCount :: "limitCountConfig \<Rightarrow> limit_error + limiter" where
  "newLimitCount cfg =
     (if lc_Count cfg \<le> 0 then Inl CountNotPositive
      else if lc_TimeWindow cfg \<le> 0 then Inl WindowNotPositive
      else
        let policy = (if lc_Policy cfg = [] then ''local'' else lc_Policy cfg) in
        if policy \<noteq> ''local'' then Inl (PolicyUnsupported policy)
        else
          let keyType = (if lc_KeyType cfg = [] then ''var'' else lc_KeyType cfg) in
          if keyType \<noteq> ''var'' \<and> keyType \<noteq> ''var_combination'' \<and> keyType \<noteq> ''constant'' then Inl (KeyTypeUnsupported keyType)
          else
            Inr \<lparr>lm_cfg = cfg, lm_keyType = keyType,
                 lm_key = (if lc_Key cfg = [] then ''remote_addr'' else lc_Key cfg),
                 lm_rejectedCode = (if lc_RejectedCode cfg = 0 then 503 else lc_RejectedCode cfg),
                 lm_showHeaders = (case lc_ShowLimitQuotaHeader cfg of None \<Rightarrow> True | Some b \<Rightarrow> b)\<rparr>)"

definition deriveLimitCountKey :: "'raw TemplateEnv \<Rightarrow> 'raw world \<Rightarrow> string \<Rightarrow> string \<Rightarrow> string" where
  "deriveLimitCountKey env w keyType key =
     (if keyType = ''constant'' then key
      else if keyType = ''var'' then resolveRequestVariable env w key
      else if keyType = ''var_combination'' then renderRequestTemplate env w key
      else [])"

section \<open>Counters\<close>

record limitCountBucket =
  lb_window :: int
  lb_count :: int

type_synonym counters = "(string \<times> limitCountBucket) list"

text \<open>The critical section: the counters after it, whether the request is allowed, and what remains of the quota.\<close>

definition admit :: "int \<Rightarrow> counters \<Rightarrow> string \<Rightarrow> int \<Rightarrow> counters \<times> bool \<times> int" where
  "admit quota counters counterKey window =
     (let bucket = map_get \<lparr>lb_window = 0, lb_count = 0\<rparr> counters counterKey;
          bucket = (if lb_window bucket \<noteq> window then \<lparr>lb_window = window, lb_count = 0\<rparr> else bucket);
          allowed = lb_count bucket < quota;
          bucket = (if allowed then bucket\<lparr>lb_count := lb_count bucket + 1\<rparr> else bucket);
          quotaLeft = quota - lb_count bucket;
          quotaLeft = (if quotaLeft < 0 then 0 else quotaLeft)
      in (map_put counterKey bucket counters, allowed, quotaLeft))"

definition setLimitCountHeaders :: "'raw Framework \<Rightarrow> int \<Rightarrow> int \<Rightarrow> int \<Rightarrow> int \<Rightarrow> string \<Rightarrow> 'raw handler" where
  "setLimitCountHeaders fw limit quotaLeft reset window key w =
     (let w = SetResponseHeader fw ''X-RateLimit-Limit'' (Itoa limit) w;
          w = SetResponseHeader fw ''X-RateLimit-Remaining'' (Itoa quotaLeft) w;
          w = SetResponseHeader fw ''X-RateLimit-Reset'' (Itoa reset) w;
          w = SetResponseHeader fw ''X-RateLimit-Window'' (Itoa window) w
      in SetResponseHeader fw ''X-RateLimit-Key'' key w)"

definition unixSeconds :: "'raw world \<Rightarrow> int" where
  "unixSeconds w = w_clock w div 1000000000"

text \<open>The handler, with the counters of its instance.\<close>

definition limitCount :: "'raw TemplateEnv \<Rightarrow> limiter \<Rightarrow> 'raw handler \<Rightarrow> counters \<times> 'raw world \<Rightarrow> counters \<times> 'raw world" where
  "limitCount env lm nxt st =
     (case st of (counters, w) \<Rightarrow>
       let fw = te_fw env;
           cfg = lm_cfg lm;
           scope = (if lc_Group cfg = [] then RouteID w else lc_Group cfg);
           derivedKey = deriveLimitCountKey env w (lm_keyType lm) (lm_key lm);
           counterKey = scope @ ''|'' @ derivedKey;
           window = unixSeconds w sdiv lc_TimeWindow cfg;
           reset = lc_TimeWindow cfg - unixSeconds w smod lc_TimeWindow cfg
       in case admit (lc_Count cfg) counters counterKey window of
            (counters, allowed, quotaLeft) \<Rightarrow>
              if \<not> allowed then
                (let w = (if lm_showHeaders lm then setLimitCountHeaders fw (lc_Count cfg) 0 reset (lc_TimeWindow cfg) derivedKey w else w);
                     w = SetResponseStatus (lm_rejectedCode lm) w;
                     w = (if lc_RejectedMsg cfg \<noteq> [] then SetResponseBody (lc_RejectedMsg cfg) w else w)
                 in (counters, pcAbort fw w))
              else
                (let w = nxt w
                 in (counters, if lm_showHeaders lm
                               then setLimitCountHeaders fw (lc_Count cfg) quotaLeft reset (lc_TimeWindow cfg) derivedKey w else w)))"

section \<open>Sequences of requests\<close>

text \<open>The requests that reach the critical section, in this order, each with its key and its window, and the answers.\<close>

fun admitAll :: "int \<Rightarrow> counters \<Rightarrow> (string \<times> int) list \<Rightarrow> bool list" where
  "admitAll quota counters [] = []"
| "admitAll quota counters ((key, window) # requests) =
     (case admit quota counters key window of (counters, allowed, quotaLeft) \<Rightarrow> allowed # admitAll quota counters requests)"

text \<open>The windows of a key never go back.\<close>

definition inOrder :: "(string \<times> int) list \<Rightarrow> bool" where
  "inOrder requests \<longleftrightarrow> (\<forall>key. sorted (map snd (filter (\<lambda>r. fst r = key) requests)))"

section \<open>Facts\<close>

text \<open>What the counters know after some requests: the last window of every key, and the requests of that window, up to
  the limit.\<close>

definition countersFor :: "int \<Rightarrow> (string \<times> int) list \<Rightarrow> counters \<Rightarrow> bool" where
  "countersFor quota past counters \<longleftrightarrow>
     (\<forall>key. let mine = map snd (filter (\<lambda>r. fst r = key) past) in
        if mine = [] then map_of counters key = None
        else map_of counters key = Some \<lparr>lb_window = last mine, lb_count = min quota (int (count_list mine (last mine)))\<rparr>)"

lemma count_list_above: "\<forall>x\<in>set xs. x < (y :: int) \<Longrightarrow> count_list xs y = 0"
  by (induction xs) auto

lemma sorted_last:
  fixes y :: int
  assumes "sorted (xs @ [y])" and "xs \<noteq> []" and "last xs \<noteq> y"
  shows "count_list xs y = 0"
proof (rule count_list_above, rule ballI)
  fix x assume "x \<in> set xs"
  moreover have "xs = butlast xs @ [last xs]" using assms(2) by simp
  ultimately have "x \<le> last xs" using assms(1) by (metis Un_iff empty_iff empty_set insert_iff list.simps(15) order_refl set_append sorted_append)
  moreover have "last xs < y" using assms by (auto simp: sorted_append less_le)
  ultimately show "x < y" by simp
qed

lemma admit_step:
  assumes past: "countersFor quota past counters" and quota: "0 < quota"
    and order: "sorted (map snd (filter (\<lambda>r. fst r = key) past) @ [window])"
    and step: "admit quota counters key window = (counters', allowed, quotaLeft)"
  shows "countersFor quota (past @ [(key, window)]) counters' \<and> (allowed \<longleftrightarrow> int (count_list past (key, window)) < quota)"
proof -
  let ?mine = "\<lambda>k. map snd (filter (\<lambda>r. fst r = k) past)"
  define n where "n = count_list (?mine key) window"
  have n: "n = count_list past (key, window)" unfolding n_def by (induction past) auto
  define b where "b = map_get \<lparr>lb_window = 0, lb_count = 0\<rparr> counters key"
  define b' where "b' = (if lb_window b \<noteq> window then \<lparr>lb_window = window, lb_count = 0\<rparr> else b)"
  have b': "b' = \<lparr>lb_window = window, lb_count = min quota (int n)\<rparr>"
  proof (cases "?mine key = []")
    case True
    then have "b = \<lparr>lb_window = 0, lb_count = 0\<rparr>" "n = 0" using past by (auto simp: countersFor_def Let_def b_def n_def map_get_def)
    with quota show ?thesis by (auto simp: b'_def)
  next
    case False
    then have b: "b = \<lparr>lb_window = last (?mine key), lb_count = min quota (int (count_list (?mine key) (last (?mine key))))\<rparr>"
      using past by (simp add: countersFor_def Let_def b_def map_get_def)
    show ?thesis
    proof (cases "last (?mine key) = window")
      case True
      with b show ?thesis by (simp add: b'_def n_def)
    next
      case other: False
      then have "n = 0" unfolding n_def using sorted_last [OF order False] by simp
      with b other quota show ?thesis by (simp add: b'_def)
    qed
  qed
  have least: "min quota (int n) = (if int n < quota then int n else quota)" "min quota (int n + 1) = (if int n < quota then int n + 1 else quota)" by auto
  have allowed: "allowed \<longleftrightarrow> int n < quota" and c': "counters' = map_put key \<lparr>lb_window = window, lb_count = min quota (int n + 1)\<rparr> counters"
    using step quota unfolding admit_def Let_def b_def [symmetric] b'_def [symmetric] unfolding b' by (auto simp: least split: if_splits)
  have "countersFor quota (past @ [(key, window)]) counters'"
    unfolding countersFor_def Let_def
  proof
    fix k
    show "if map snd (filter (\<lambda>r. fst r = k) (past @ [(key, window)])) = [] then map_of counters' k = None
      else map_of counters' k = Some \<lparr>lb_window = last (map snd (filter (\<lambda>r. fst r = k) (past @ [(key, window)]))),
        lb_count = min quota (int (count_list (map snd (filter (\<lambda>r. fst r = k) (past @ [(key, window)]))) (last (map snd (filter (\<lambda>r. fst r = k) (past @ [(key, window)]))))))\<rparr>"
    proof (cases "k = key")
      case True
      then show ?thesis by (simp add: c' n_def add.commute)
    next
      case False
      then show ?thesis using past by (simp add: c' countersFor_def Let_def)
    qed
  qed
  with allowed n show ?thesis by simp
qed

lemma admitAll_from:
  assumes "countersFor quota past counters" and "0 < quota" and "inOrder (past @ requests)"
  shows "admitAll quota counters requests =
    map (\<lambda>i. int (count_list (past @ take i requests) (requests ! i)) < quota) [0..<length requests]"
  using assms
proof (induction requests arbitrary: past counters)
  case (Cons r requests)
  obtain key window where r: "r = (key, window)" by force
  obtain counters' allowed quotaLeft where step: "admit quota counters key window = (counters', allowed, quotaLeft)"
    using prod_cases3 by blast
  have "sorted (map snd (filter (\<lambda>r. fst r = key) past) @ [window])"
  proof -
    have "sorted (map snd (filter (\<lambda>r. fst r = key) past) @ [window] @ map snd (filter (\<lambda>r. fst r = key) requests))"
      using Cons.prems(3) by (auto simp: inOrder_def r dest!: spec [of _ key])
    then show ?thesis by (auto simp: sorted_append)
  qed
  note after_step = admit_step [OF Cons.prems(1,2) this step]
  have "admitAll quota counters' requests =
      map (\<lambda>i. int (count_list ((past @ [r]) @ take i requests) (requests ! i)) < quota) [0..<length requests]"
    using Cons.IH [of "past @ [r]"] after_step Cons.prems(2,3) by (simp add: r)
  then show ?case using step after_step
    by (simp add: r map_upt_Suc del: upt_Suc)
qed simp

section \<open>Properties\<close>

text \<open>
  C33. The limit is exact. When the requests of each key enter the critical section in the order of their windows, a request
  is allowed exactly when fewer requests of its key and window than the limit came before it; so in every window the first
  requests of a key pass, as many as the limit says, and all later ones are rejected.
\<close>

theorem limit_is_exact:
  assumes "0 < quota" and "inOrder requests"
  shows "admitAll quota [] requests = map (\<lambda>i. int (count_list (take i requests) (requests ! i)) < quota) [0..<length requests]"
  using admitAll_from [of quota "[]" "[]" requests] assms by (simp add: countersFor_def)

theorem limit_is_exact_witness:
  "admitAll 2 [] [(''a'', 5), (''b'', 5), (''a'', 5), (''a'', 5), (''a'', 6)] = [True, True, True, False, True]"
proof -
  let ?rs = "[(''a'', 5), (''b'', 5), (''a'', 5), (''a'', 5), (''a'', 6)] :: (string \<times> int) list"
  have "inOrder ?rs" by (auto simp: inOrder_def)
  then show ?thesis using limit_is_exact [of 2 ?rs] by (simp add: upt_rec)
qed

text \<open>
  Out of order the limit does not hold. The window of a request is computed before the mutex is taken, so around the end
  of a window a request of the old window can come between two of the new one. It resets the bucket, and the next one resets
  it again: with a limit of one, two requests of window 6 are allowed.
\<close>

theorem limit_exceeded_out_of_order:
  "admitAll 1 [] [(''a'', 6), (''a'', 5), (''a'', 6)] = [True, True, True]
   \<and> \<not> inOrder [(''a'', 6), (''a'', 5), (''a'', 6)]"
  by (auto simp: admit_def map_get_def map_put_def inOrder_def)

text \<open>A rejected request does not reach the rest of the chain.\<close>

lemma rejected_is_final:
  assumes "admit (lc_Count (lm_cfg lm)) counters
      ((if lc_Group (lm_cfg lm) = [] then RouteID w else lc_Group (lm_cfg lm)) @ ''|'' @ deriveLimitCountKey env w (lm_keyType lm) (lm_key lm))
      (unixSeconds w sdiv lc_TimeWindow (lm_cfg lm)) = (counters', False, left)"
  shows "limitCount env lm nxt (counters, w) = limitCount env lm nxt' (counters, w)
    \<and> fst (limitCount env lm nxt (counters, w)) = counters'
    \<and> ResponseStatus (snd (limitCount env lm nxt (counters, w))) = lm_rejectedCode lm
    \<and> IsAborted (w_ctx (snd (limitCount env lm nxt (counters, w))))"
  using assms
  by (simp add: limitCount_def Let_def pcAbort_def Abort_def IsAborted_def response_access)

text \<open>The seconds until the window ends are positive and at most its length.\<close>

lemma reset_bounds:
  assumes "newLimitCount cfg = Inr lm" and "0 \<le> now"
  shows "0 < lc_TimeWindow cfg - now smod lc_TimeWindow cfg \<and> lc_TimeWindow cfg - now smod lc_TimeWindow cfg \<le> lc_TimeWindow cfg"
proof -
  have "0 < lc_TimeWindow cfg" using assms(1) by (auto simp: newLimitCount_def Let_def split: if_splits)
  moreover from this have "now smod lc_TimeWindow cfg = now mod lc_TimeWindow cfg" using assms(2)
    by (simp add: signed_modulo_int_def signed_divide_int_def minus_div_mult_eq_mod sgn_if)
  ultimately show ?thesis by simp
qed

end
