(* ===== verification/Builtin_Register.thy ===== *)
theory Builtin_Register
  imports Access_Log Limit_Count
begin

text \<open>
  Registration of the built-in plugins (\<^verbatim>\<open>internal/plugin/builtin/builtin.go\<close>, \<open>Register\<close>): the nine plugins with the
  metadata that each file gives them, in the order of the list. The factory of each of them, which decodes its
  configuration and returns its handler, is a parameter.
\<close>

definition builtin :: "string \<Rightarrow> int \<Rightarrow> Metadata" where
  "builtin name prio = \<lparr>md_Name = name, md_Scopes = AllScopes, md_Priority = prio\<rparr>"

definition builtins :: "Metadata list" where
  "builtins =
     [builtin ''request_id'' 1200,
      builtin ''limit_count'' 1100,
      builtin ''rewrite_path_regex'' 0,
      builtin ''request_transformer'' 100,
      builtin ''response_transformer'' 0,
      builtin ''replace_path'' 0,
      builtin ''strip_prefix'' 0,
      builtin ''add_prefix'' 0,
      builtin ''access_log'' (- 100)]"

fun registerEach :: "(string \<Rightarrow> 'h Factory) \<Rightarrow> Metadata list \<Rightarrow> 'h Registry \<Rightarrow> register_error + 'h Registry" where
  "registerEach factories [] r = Inr r"
| "registerEach factories (metadata # rest) r =
     (case Register r metadata (Some (factories (md_Name metadata))) of
       Inl err \<Rightarrow> Inl err
     | Inr r' \<Rightarrow> registerEach factories rest r')"

definition BuiltinRegister :: "(string \<Rightarrow> 'h Factory) \<Rightarrow> 'h Registry \<Rightarrow> register_error + 'h Registry" where
  "BuiltinRegister factories r = registerEach factories builtins r"

section \<open>Facts\<close>

text \<open>A list of well-formed plugins with names of their own: registration succeeds exactly if no name is taken, fails at
  the first that is, and adds the plugins and nothing else.\<close>

lemma Register_free:
  assumes "md_Name md \<noteq> []" "md_Scopes md \<noteq> []"
  shows "Register r md (Some f) =
    (if lookupDefinition r (md_Name md) = None
     then Inr (r\<lparr>reg_definitions := map_put (md_Name md) \<lparr>def_factory = f, def_metadata = md\<rparr> (reg_definitions r)\<rparr>)
     else Inl (AlreadyExists (md_Name md)))"
  using assms by (simp add: Register_def lookupDefinition_def)

lemma lookup_put [simp]:
  "lookupDefinition (r\<lparr>reg_definitions := map_put k d (reg_definitions r)\<rparr>) name = (if name = k then Some d else lookupDefinition r name)"
  by (simp add: lookupDefinition_def)

definition factoryOf :: "(string \<Rightarrow> 'h Factory) \<Rightarrow> Metadata \<Rightarrow> 'h Definition" where
  "factoryOf factories md = \<lparr>def_factory = factories (md_Name md), def_metadata = md\<rparr>"

lemma registerEach_fails:
  assumes "\<forall>md\<in>set mds. md_Name md \<noteq> [] \<and> md_Scopes md \<noteq> []" "distinct (map md_Name mds)"
    and "find (\<lambda>md. lookupDefinition r (md_Name md) \<noteq> None) mds = Some md"
  shows "registerEach factories mds r = Inl (AlreadyExists (md_Name md))"
  using assms
proof (induction mds arbitrary: r)
  case (Cons m mds)
  show ?case
  proof (cases "lookupDefinition r (md_Name m) = None")
    case True
    let ?r = "r\<lparr>reg_definitions := map_put (md_Name m) (factoryOf factories m) (reg_definitions r)\<rparr>"
    have ne: "md_Name md \<noteq> md_Name m" if "md \<in> set mds" for md
      using Cons.prems(2) that by (auto simp: image_iff)
    have "find (\<lambda>md. lookupDefinition ?r (md_Name md) \<noteq> None) mds = find (\<lambda>md. lookupDefinition r (md_Name md) \<noteq> None) mds"
      by (intro find_cong) (simp_all add: ne)
    with Cons True show ?thesis by (simp add: Register_free factoryOf_def)
  next
    case False
    with Cons.prems show ?thesis by (auto simp: Register_free)
  qed
qed simp

lemma registerEach_succeeds:
  assumes "\<forall>md\<in>set mds. md_Name md \<noteq> [] \<and> md_Scopes md \<noteq> [] \<and> lookupDefinition r (md_Name md) = None"
    and "distinct (map md_Name mds)"
  shows "\<exists>r'. registerEach factories mds r = Inr r' \<and> reg_resources r' = reg_resources r
    \<and> (\<forall>name. lookupDefinition r' name =
         (case find (\<lambda>md. md_Name md = name) mds of Some md \<Rightarrow> Some (factoryOf factories md) | None \<Rightarrow> lookupDefinition r name))"
  using assms
proof (induction mds arbitrary: r)
  case (Cons m mds)
  let ?r = "r\<lparr>reg_definitions := map_put (md_Name m) (factoryOf factories m) (reg_definitions r)\<rparr>"
  have ne: "md_Name md \<noteq> md_Name m" if "md \<in> set mds" for md
      using Cons.prems(2) that by (auto simp: image_iff)
  from Cons.prems obtain r' where r': "registerEach factories mds ?r = Inr r'" "reg_resources r' = reg_resources ?r"
    "\<forall>name. lookupDefinition r' name = (case find (\<lambda>md. md_Name md = name) mds of Some md \<Rightarrow> Some (factoryOf factories md) | None \<Rightarrow> lookupDefinition ?r name)"
    using Cons.IH [of ?r] by (auto simp: ne)
  have step: "registerEach factories (m # mds) r = Inr r'" using Cons.prems r'(1) by (simp add: Register_free factoryOf_def)
  have "find (\<lambda>md. md_Name md = md_Name m) mds = None" by (simp add: find_None_iff ne)
  with r' step show ?case by (intro exI [of _ r']) (auto split: option.splits)
qed simp

lemma builtins_wellformed:
  "\<forall>md\<in>set builtins. md_Name md \<noteq> [] \<and> md_Scopes md \<noteq> []" "distinct (map md_Name builtins)"
  by code_simp+

lemma builtin_outcome:
  "(case BuiltinRegister factories r of
      Inr r' \<Rightarrow> (\<forall>md\<in>set builtins. lookupDefinition r (md_Name md) = None) \<and> reg_resources r' = reg_resources r
        \<and> (\<forall>name. lookupDefinition r' name =
             (case find (\<lambda>md. md_Name md = name) builtins of
                Some md \<Rightarrow> Some (factoryOf factories md)
              | None \<Rightarrow> lookupDefinition r name))
    | Inl err \<Rightarrow> \<exists>md. find (\<lambda>md. lookupDefinition r (md_Name md) \<noteq> None) builtins = Some md \<and> err = AlreadyExists (md_Name md))"
proof (cases "find (\<lambda>md. lookupDefinition r (md_Name md) \<noteq> None) builtins")
  case None
  then have free: "\<forall>md\<in>set builtins. lookupDefinition r (md_Name md) = None" by (auto simp: find_None_iff)
  with registerEach_succeeds [of builtins r factories] builtins_wellformed show ?thesis
    unfolding BuiltinRegister_def by fastforce
next
  case (Some md)
  with registerEach_fails [OF builtins_wellformed Some] show ?thesis by (simp add: BuiltinRegister_def)
qed

lemma builtin_lookup:
  assumes "BuiltinRegister factories r = Inr r'"
  shows "lookupDefinition r' name =
    (case find (\<lambda>md. md_Name md = name) builtins of Some md \<Rightarrow> Some (factoryOf factories md) | None \<Rightarrow> lookupDefinition r name)"
  using builtin_outcome [of r factories] assms by simp

text \<open>The built-in plugins are registered exactly if none of their nine names is taken; otherwise the first
  taken name is reported. After a success each of them is found under its name, with its priority and for every scope,
  other names mean what they meant, and no resource was opened.\<close>

theorem builtin_registration:
  "(case BuiltinRegister factories r of
      Inr r' \<Rightarrow> (\<forall>md\<in>set builtins. lookupDefinition r (md_Name md) = None) \<and> reg_resources r' = reg_resources r
        \<and> (\<forall>name. lookupDefinition r' name =
             (case find (\<lambda>md. md_Name md = name) builtins of
                Some md \<Rightarrow> Some (factoryOf factories md)
              | None \<Rightarrow> lookupDefinition r name))
    | Inl err \<Rightarrow> \<exists>md. find (\<lambda>md. lookupDefinition r (md_Name md) \<noteq> None) builtins = Some md \<and> err = AlreadyExists (md_Name md))"
  by (rule builtin_outcome)

end
