(* ===== verification/Bundle_Apply.thy ===== *)
theory Bundle_Apply
  imports Control_Service
begin

text \<open>
  What applying, previewing and exporting a bundle means for the contents of a store: the functions of
  \<open>Bundle\<close> and \<open>Preview\<close> over the interface \<open>resource_store\<close>.
\<close>

section \<open>Notions used in the statements\<close>

text \<open>A bundle whose resources can be stored.\<close>

definition storableRaw :: "RawMessage \<Rightarrow> bool" where
  "storableRaw raw \<longleftrightarrow> (case raw of Some (AMap m) \<Rightarrow> storable m | _ \<Rightarrow> False)"

definition groupOK :: "group \<Rightarrow> bool" where
  "groupOK g \<longleftrightarrow> distinct (map fst g) \<and> (\<forall>(i, raw)\<in>set g. plainSegment i \<and> storableRaw raw)"

definition bundleOK :: "FileBundle \<Rightarrow> bool" where
  "bundleOK b \<longleftrightarrow>
     distinct (map fst (fb_Resources b)) \<and> (\<forall>(kind, g)\<in>set (fb_Resources b). kind \<in> set supportedKinds \<and> groupOK g)"

text \<open>The resource that a bundle asks for, and when a stored value is that resource: the same members, up to the
  times, and the identifier under which it is listed.\<close>

definition desired :: "FileBundle \<Rightarrow> ResourceKind \<Rightarrow> string \<Rightarrow> RawMessage option" where
  "desired b kind i = (case map_of (fb_Resources b) kind of None \<Rightarrow> None | Some g \<Rightarrow> map_of g i)"

definition deploys :: "string \<Rightarrow> RawMessage \<Rightarrow> any \<Rightarrow> bool" where
  "deploys i raw v \<longleftrightarrow>
     (\<exists>m m'. raw = Some (AMap m) \<and> v = AMap m' \<and> resource i v
        \<and> (\<forall>k. k \<noteq> ''create_time'' \<and> k \<noteq> ''update_time'' \<longrightarrow>
             map_of m' k = (if k = ''id'' then Some (AString i) else map_of m k)))"

text \<open>What is asked of one resource: the one of the bundle, or none when its kind is pruned.\<close>

definition reached :: "FileBundle \<Rightarrow> ResourceKind list \<Rightarrow> ResourceKind \<Rightarrow> string \<Rightarrow> any option \<Rightarrow> bool" where
  "reached b prune kind i v' \<longleftrightarrow>
     (case desired b kind i of
        Some raw \<Rightarrow> \<exists>v. v' = Some v \<and> deploys i raw v
      | None \<Rightarrow> kind \<in> set prune \<and> v' = None)"

definition concerned :: "FileBundle \<Rightarrow> ResourceKind list \<Rightarrow> ResourceKind \<Rightarrow> string \<Rightarrow> bool" where
  "concerned b prune kind i \<longleftrightarrow> desired b kind i \<noteq> None \<or> kind \<in> set prune"

text \<open>The contents of the store after a complete application, and in the course of one.\<close>

definition applied :: "FileBundle \<Rightarrow> ResourceKind list \<Rightarrow> resources \<Rightarrow> resources \<Rightarrow> bool" where
  "applied b prune res res' \<longleftrightarrow>
     (\<forall>kind i. if concerned b prune kind i then reached b prune kind i (res' kind i) else res' kind i = res kind i)"

definition applying :: "FileBundle \<Rightarrow> ResourceKind list \<Rightarrow> resources \<Rightarrow> resources \<Rightarrow> bool" where
  "applying b prune res res' \<longleftrightarrow> (\<forall>kind i. res' kind i = res kind i \<or> reached b prune kind i (res' kind i))"

section \<open>Facts\<close>

lemma wrote_deploys: "wrote t kind i (map_of m) res v res' \<Longrightarrow> deploys i (Some (AMap m)) v"
  by (auto simp: wrote_def deploys_def stamped_def)

lemma wrote_other: "wrote t kind i m res v res' \<Longrightarrow> k' \<noteq> kind \<or> i' \<noteq> i \<Longrightarrow> res' k' i' = res k' i'"
  by (auto simp: wrote_def update_resource_def)

lemma wrote_same: "wrote t kind i m res v res' \<Longrightarrow> res' kind i = Some v"
  by (auto simp: wrote_def update_resource_def)

lemma storableRaw_object: "storableRaw raw \<longleftrightarrow> (\<exists>m. raw = Some (AMap m) \<and> storable m)"
  by (cases raw) (auto simp: storableRaw_def split: any.split)

lemma groupOK_lookup: "groupOK g \<Longrightarrow> map_of g i = Some raw \<Longrightarrow> plainSegment i \<and> (\<exists>m. raw = Some (AMap m) \<and> storable m)"
  by (auto simp: groupOK_def storableRaw_object dest!: map_of_SomeD)

lemma bundleOK_lookup: "bundleOK b \<Longrightarrow> map_of (fb_Resources b) kind = Some g \<Longrightarrow> kind \<in> set supportedKinds \<and> groupOK g"
  by (auto simp: bundleOK_def dest!: map_of_SomeD)

context resource_store
begin

lemma applyPuts_outcome:
  assumes "inv s" and k: "kind \<in> set supportedKinds" and g: "groupOK g" and "set ids \<subseteq> fst ` set g" and "distinct ids"
    and "applyPuts store now kind g ids counts s = (s', r)"
  shows "inv s' \<and> (\<forall>k' i'. k' \<noteq> kind \<or> i' \<notin> set ids \<longrightarrow> view s' k' i' = view s k' i')
    \<and> (case r of
         Inl e \<Rightarrow> (\<exists>msg. e = StoreFailed msg)
           \<and> (\<forall>i\<in>set ids. view s' kind i = view s kind i \<or> (\<exists>v. view s' kind i = Some v \<and> deploys i (map_get None g i) v))
       | Inr c \<Rightarrow> (\<forall>i\<in>set ids. \<exists>v. view s' kind i = Some v \<and> deploys i (map_get None g i) v)
           \<and> (\<forall>k'. map_get 0 c k' = map_get 0 counts k' + (if k' = kind then int (length ids) else 0)))"
  using assms(1,4-)
proof (induction ids arbitrary: s counts)
  case (Cons i ids)
  obtain raw where raw: "map_of g i = Some raw" using Cons.prems(2) by (cases "map_of g i") (auto simp: map_of_eq_None_iff)
  then obtain m where m: "raw = Some (AMap m)" "storable m" "plainSegment i" using groupOK_lookup [OF g] by blast
  have mg: "map_get None g i = Some (AMap m)" using raw m by (simp add: map_get_def)
  have a: "addressable kind i" using k m by (simp add: addressable_def)
  obtain t p where p: "ServicePut store now kind i (map_get None g i) s = (t, p)" by fastforce
  note put = Put_outcome [OF Cons.prems(1) a _ m(2), unfolded mg [symmetric], OF _ p]
  have put: "inv t" "write_result (now s) kind i (map_of m) (view s) p (view t)"
    using put storable_decode [OF m(2)] mg by auto
  have nin: "i \<notin> set ids" "distinct ids" "set ids \<subseteq> fst ` set g" using Cons.prems by auto
  show ?case
  proof (cases p)
    case (Inl e)
    then have run: "s' = t" "r = Inl e" using Cons.prems(4) p by auto
    from put(2) Inl consider "view t = view s" | v where "wrote (now s) kind i (map_of m) (view s) v (view t)"
      by (auto simp: write_result_def)
    then show ?thesis
    proof cases
      case 1
      then show ?thesis using run put Inl by (auto simp: write_result_def)
    next
      case 2
      have "view t kind j = view s kind j" if "j \<in> set ids" for j using wrote_other [OF 2, of kind j] nin(1) that by auto
      moreover have "view t k' i' = view s k' i'" if "k' \<noteq> kind \<or> i' \<notin> set (i # ids)" for k' i'
        using wrote_other [OF 2, of k' i'] that by auto
      ultimately show ?thesis using run put Inl wrote_same [OF 2] wrote_deploys [OF 2] mg
        by (auto simp: write_result_def)
    qed
  next
    case (Inr env)
    then obtain v where v: "wrote (now s) kind i (map_of m) (view s) v (view t)" using put by (auto simp: write_result_def)
    have "applyPuts store now kind g ids (map_put kind (map_get 0 counts kind + 1) counts) t = (s', r)"
      using Cons.prems(4) p Inr by simp
    note IH = Cons.IH [OF put(1) nin(3,2) this]
    have same: "view s' kind i = Some v" using IH nin(1) wrote_same [OF v] by auto
    have other: "view t k' i' = view s k' i'" if "k' \<noteq> kind \<or> i' \<noteq> i" for k' i' using wrote_other [OF v that] .
    have "\<exists>v. view s' kind i = Some v \<and> deploys i (map_get None g i) v" using same wrote_deploys [OF v] mg by auto
    moreover have "\<forall>k' i'. k' \<noteq> kind \<or> i' \<notin> set (i # ids) \<longrightarrow> view s' k' i' = view s k' i'" using IH other by auto
    moreover have "view s' kind j = view s kind j \<or> (\<exists>v. view s' kind j = Some v \<and> deploys j (map_get None g j) v)"
      if "r = Inl e" "j \<in> set ids" for e j
    proof -
      have "view t kind j = view s kind j" using other [of kind j] nin(1) that(2) by metis
      then show ?thesis using IH that by auto
    qed
    ultimately show ?thesis using IH by (cases r) (simp_all only: sum.case list.set ball_simps map_get_put list.size, auto)
  qed
qed (auto split: sum.splits)

lemma applyPrunes_outcome:
  assumes "inv s" and k: "kind \<in> set supportedKinds"
    and "\<forall>item\<in>set items. ExtractResourceID (env_Value item) = Inr (idOf item) \<and> plainSegment (idOf item)"
    and "applyPrunes store kind g items s = (s', r)"
  shows "inv s' \<and> (\<forall>k' i'. k' \<noteq> kind \<or> i' \<notin> idOf ` set items \<or> map_of g i' \<noteq> None \<longrightarrow> view s' k' i' = view s k' i')
    \<and> (case r of
         Inl e \<Rightarrow> (\<exists>msg. e = StoreFailed msg) \<and> (\<forall>i. view s' kind i = view s kind i \<or> view s' kind i = None)
       | Inr _ \<Rightarrow> \<forall>i\<in>idOf ` set items. map_of g i = None \<longrightarrow> view s' kind i = None)"
  using assms(1,3-)
proof (induction items arbitrary: s)
  case (Cons item items)
  let ?i = "idOf item"
  have i: "ExtractResourceID (env_Value item) = Inr ?i" "plainSegment ?i" "?i \<noteq> []" using Cons.prems(2) by (auto simp: plainSegment_def)
  have rest: "\<forall>item\<in>set items. ExtractResourceID (env_Value item) = Inr (idOf item) \<and> plainSegment (idOf item)"
    using Cons.prems(2) by simp
  show ?case
  proof (cases "map_of g ?i")
    case (Some raw)
    then have "applyPrunes store kind g items s = (s', r)" using Cons.prems(3) i by simp
    from Cons.IH [OF Cons.prems(1) rest this] Some show ?thesis by (cases r) auto
  next
    case None
    obtain t d where d: "ServiceDelete store kind ?i s = (t, d)" by fastforce
    then have "st_Delete store kind ?i s = (t, d)" using i k by (simp add: ServiceDelete_def)
    moreover have "addressable kind ?i" using k i by (simp add: addressable_def)
    ultimately have del: "inv t" "case d of Inl e \<Rightarrow> view t \<in> {view s, update_resource kind ?i None (view s)} \<and> (\<exists>msg. e = StoreFailed msg)
        | Inr _ \<Rightarrow> view t = update_resource kind ?i None (view s)"
      using delete_law [OF Cons.prems(1)] by (fastforce split: sum.splits)+
    show ?thesis
    proof (cases d)
      case (Inl e)
      then have "s' = t" "r = Inl e" using Cons.prems(3) None i d by auto
      then show ?thesis using del Inl None by (auto simp: update_resource_def split: if_splits)
    next
      case (Inr n)
      then have run: "applyPrunes store kind g items t = (s', r)" using Cons.prems(3) None i d by simp
      have t: "view t = update_resource kind ?i None (view s)" using del Inr by simp
      note IH = Cons.IH [OF del(1) rest run]
      have tn: "view t kind ?i = None" using t by (simp add: update_resource_def)
      have other: "view t k' i' = view s k' i'" if "k' \<noteq> kind \<or> i' \<noteq> ?i" for k' i'
        using t that by (auto simp: update_resource_def)
      have "view s' kind ?i = None"
      proof (cases r)
        case (Inl e)
        then have "view s' kind ?i = view t kind ?i \<or> view s' kind ?i = None" using IH by simp
        then show ?thesis using tn by auto
      next
        case (Inr u)
        then show ?thesis using IH None tn by (cases "?i \<in> idOf ` set items") auto
      qed
      moreover have "view s' kind i = view s kind i \<or> view s' kind i = None" if "r = Inl e" for i e
      proof -
        have "view s' kind i = view t kind i \<or> view s' kind i = None" using IH that by simp
        then show ?thesis using other [of kind i] calculation by metis
      qed
      moreover have "view s' k' i' = view s k' i'" if "k' \<noteq> kind \<or> i' \<notin> idOf ` set (item # items) \<or> map_of g i' \<noteq> None" for k' i'
        using IH that other [of k' i'] None by (cases "i' = ?i") auto
      ultimately show ?thesis using IH by (cases r) auto
    qed
  qed
qed (auto split: sum.splits)

text \<open>The items of a listing, by identifier.\<close>

lemma listing_ids:
  assumes inv: "inv s" and l: "listing (view s kind) items"
  obtains idOf where "\<forall>item\<in>set items. ExtractResourceID (env_Value item) = Inr (idOf item) \<and> plainSegment (idOf item)
      \<and> env_Value item = view s kind (idOf item)" and "idOf ` set items = dom (view s kind)"
    and "distinct (map idOf items)"
proof -
  obtain ids where ids: "distinct ids" "set ids = dom (view s kind)" "map env_Value items = map (view s kind) ids"
    using l by (auto simp: listing_def)
  define idOf where "idOf item = (case ExtractResourceID (env_Value item) of Inr i \<Rightarrow> i | Inl _ \<Rightarrow> [])" for item :: Envelope
  have nth: "ExtractResourceID (env_Value (items ! n)) = Inr (ids ! n) \<and> plainSegment (ids ! n)
      \<and> env_Value (items ! n) = view s kind (ids ! n)" if "n < length items" for n
  proof -
    have len: "length ids = length items" using ids(3) by (metis length_map)
    have val: "env_Value (items ! n) = view s kind (ids ! n)" using ids(3) that len by (metis nth_map)
    have "ids ! n \<in> dom (view s kind)" using ids(2) that len nth_mem [of n ids] by simp
    then obtain v where v: "view s kind (ids ! n) = Some v" by auto
    from view_resource [OF inv v] have "plainSegment (ids ! n)" "resource (ids ! n) v" by (auto simp: addressable_def)
    then show ?thesis using val v resource_id by simp
  qed
  have "length items = length ids" using ids(3) by (rule map_eq_imp_length_eq)
  moreover have "idOf (items ! n) = ids ! n" if "n < length items" for n
    using conjunct1 [OF nth [OF that]] by (simp only: idOf_def sum.case)
  ultimately have eq: "map idOf items = ids" by (metis length_map map_nth nth_equalityI nth_map)
  have "\<forall>item\<in>set items. ExtractResourceID (env_Value item) = Inr (idOf item) \<and> plainSegment (idOf item)
      \<and> env_Value item = view s kind (idOf item)"
  proof
    fix item assume "item \<in> set items"
    then obtain n where "n < length items" "item = items ! n" by (metis in_set_conv_nth)
    then show "ExtractResourceID (env_Value item) = Inr (idOf item) \<and> plainSegment (idOf item)
      \<and> env_Value item = view s kind (idOf item)" using nth eq by (metis nth_map)
  qed
  moreover have "idOf ` set items = dom (view s kind)" using eq ids(2) by (metis list.set_map)
  ultimately show ?thesis using that eq ids(1) by blast
qed

lemma List_outcome:
  assumes "inv s" and "kind \<in> set supportedKinds" and "ServiceList store kind s = (s', r)"
  shows "inv s' \<and> view s' = view s
    \<and> (case r of Inl e \<Rightarrow> \<exists>msg. e = StoreFailed msg | Inr items \<Rightarrow> listing (view s kind) items)"
  using assms list_law by (simp add: ServiceList_def)

lemma pruneKind_outcome:
  assumes inv: "inv s" and k: "kind \<in> set supportedKinds" and run: "pruneKind store kind g s = (s', r)"
  shows "inv s' \<and> (\<forall>k' i'. k' \<noteq> kind \<or> map_of g i' \<noteq> None \<longrightarrow> view s' k' i' = view s k' i')
    \<and> (case r of
         Inl e \<Rightarrow> (\<exists>msg. e = StoreFailed msg) \<and> (\<forall>i. view s' kind i = view s kind i \<or> view s' kind i = None)
       | Inr _ \<Rightarrow> \<forall>i. map_of g i = None \<longrightarrow> view s' kind i = None)"
proof -
  obtain t l where l: "ServiceList store kind s = (t, l)" by fastforce
  note lst = List_outcome [OF inv k l]
  show ?thesis
  proof (cases l)
    case (Inl e)
    then show ?thesis using lst run l by (auto simp: pruneKind_def)
  next
    case (Inr items)
    have t: "inv t" "view t = view s" "listing (view t kind) items" using lst Inr by auto
    obtain idOf where ids: "\<forall>item\<in>set items. ExtractResourceID (env_Value item) = Inr (idOf item) \<and> plainSegment (idOf item)
      \<and> env_Value item = view t kind (idOf item)" "idOf ` set items = dom (view t kind)"
      using listing_ids [OF t(1,3)] by metis
    have run': "applyPrunes store kind g items t = (s', r)" using run l Inr by (simp add: pruneKind_def)
    have "\<forall>item\<in>set items. ExtractResourceID (env_Value item) = Inr (idOf item) \<and> plainSegment (idOf item)" using ids(1) by blast
    note prn = applyPrunes_outcome [OF t(1) k this run', unfolded ids(2) t(2)]
    have "view s' kind i = None" if "r = Inr u" "map_of g i = None" for i u
      using prn that by (cases "i \<in> dom (view s kind)") auto
    then show ?thesis using prn by (cases r) auto
  qed
qed

lemma applyGroup_outcome:
  assumes inv: "inv s" and k: "kind \<in> set supportedKinds" and gok: "groupOK g"
    and puts: "applyPuts store now kind g (sort (map fst g)) counts s = (t, rp)"
  shows "inv t" and "k' \<noteq> kind \<or> map_of g i = None \<Longrightarrow> view t k' i = view s k' i"
    and "rp = Inl e \<Longrightarrow> (\<exists>msg. e = StoreFailed msg)
       \<and> (\<forall>i raw. map_of g i = Some raw \<longrightarrow> view t kind i = view s kind i \<or> (\<exists>v. view t kind i = Some v \<and> deploys i raw v))"
    and "rp = Inr c \<Longrightarrow> \<forall>i raw. map_of g i = Some raw \<longrightarrow> (\<exists>v. view t kind i = Some v \<and> deploys i raw v)"
    and "rp = Inr c \<Longrightarrow> \<forall>k'. map_get 0 c k' = map_get 0 counts k' + (if k' = kind then int (length g) else 0)"
proof -
  have dist: "distinct (sort (map fst g))" using gok by (simp add: groupOK_def)
  have gi: "map_of g i = None \<longleftrightarrow> i \<notin> set (sort (map fst g))" for i by (simp add: map_of_eq_None_iff)
  have mg: "map_of g i = Some raw \<Longrightarrow> map_get None g i = raw" for i raw by (simp add: map_get_def)
  have sub: "set (sort (map fst g)) \<subseteq> fst ` set g" by simp
  note p0 = applyPuts_outcome [OF inv k gok sub dist puts]
  have memb: "map_of g i = Some raw \<Longrightarrow> i \<in> set (sort (map fst g))" for i raw using gi [of i] by simp
  show "inv t" using p0 by blast
  show "k' \<noteq> kind \<or> map_of g i = None \<Longrightarrow> view t k' i = view s k' i" using p0 gi by blast
  show "(\<exists>msg. e = StoreFailed msg)
       \<and> (\<forall>i raw. map_of g i = Some raw \<longrightarrow> view t kind i = view s kind i \<or> (\<exists>v. view t kind i = Some v \<and> deploys i raw v))"
    if "rp = Inl e" using p0 memb mg unfolding that sum.case by metis
  show "\<forall>i raw. map_of g i = Some raw \<longrightarrow> (\<exists>v. view t kind i = Some v \<and> deploys i raw v)"
    "\<forall>k'. map_get 0 c k' = map_get 0 counts k' + (if k' = kind then int (length g) else 0)"
    if "rp = Inr c" using p0 memb mg unfolding that sum.case by (metis, simp)
qed

lemma applyKind_outcome:
  assumes ok: "bundleOK b" and inv: "inv s" and k: "kind \<in> set supportedKinds"
    and g: "g = (case map_of (fb_Resources b) kind of None \<Rightarrow> [] | Some g \<Rightarrow> g)"
    and puts: "applyPuts store now kind g (sort (map fst g)) counts s = (t, rp)"
    and run: "(case rp of Inl e \<Rightarrow> (t, Inl e)
       | Inr c \<Rightarrow> if kind \<notin> set prune then (t, Inr c)
           else case pruneKind store kind g t of (u, Inl e) \<Rightarrow> (u, Inl e) | (u, Inr _) \<Rightarrow> (u, Inr c)) = (s', r)"
  shows "inv s' \<and> (\<forall>k' i. k' \<noteq> kind \<longrightarrow> view s' k' i = view s k' i)
    \<and> (case r of
         Inl e \<Rightarrow> (\<exists>msg. e = StoreFailed msg) \<and> (\<forall>i. view s' kind i = view s kind i \<or> reached b prune kind i (view s' kind i))
       | Inr c \<Rightarrow> (\<forall>i. if concerned b prune kind i then reached b prune kind i (view s' kind i) else view s' kind i = view s kind i)
           \<and> (\<forall>k'. map_get 0 c k' = map_get 0 counts k' + (if k' = kind then int (length g) else 0)))"
proof -
  have gok: "groupOK g" unfolding g
    by (cases "map_of (fb_Resources b) kind") (use bundleOK_lookup [OF ok, of kind] in \<open>simp_all add: groupOK_def [of "[]"]\<close>)
  have des: "desired b kind i = map_of g i" for i unfolding g by (simp add: desired_def split: option.splits)
  note p1 = applyGroup_outcome(1) [OF inv k gok puts] and p2 = applyGroup_outcome(2) [OF inv k gok puts]
    and p3 = applyGroup_outcome(3) [OF inv k gok puts] and p4 = applyGroup_outcome(4,5) [OF inv k gok puts]
  show ?thesis
  proof (cases rp)
    case (Inl e)
    then have "s' = t" "r = Inl e" using run by auto
    moreover have "view t kind i = view s kind i \<or> reached b prune kind i (view t kind i)" for i
      using p2 [of kind i] p3 [OF Inl] by (cases "map_of g i") (auto simp: reached_def des)
    ultimately show ?thesis using p1 p2 p3 Inl by auto
  next
    case (Inr c)
    have puts_done: "map_of g i = Some raw \<Longrightarrow> reached b prune kind i (view t kind i)" for i raw
      using p4(1) [OF Inr] by (auto simp: reached_def des)
    show ?thesis
    proof (cases "kind \<in> set prune")
      case False
      then have "s' = t" "r = Inr c" using run Inr by auto
      moreover have "if concerned b prune kind i then reached b prune kind i (view t kind i) else view t kind i = view s kind i" for i
        using puts_done p2 [of kind i] False by (auto simp: concerned_def des)
      ultimately show ?thesis using p1 p2 p4(2) Inr by auto
    next
      case True
      obtain u rq where q: "pruneKind store kind g t = (u, rq)" by fastforce
      note prn = pruneKind_outcome [OF p1 k q]
      have kept: "map_of g i = Some raw \<Longrightarrow> reached b prune kind i (view u kind i)" for i raw
        using prn puts_done by auto
      show ?thesis
      proof (cases rq)
        case (Inl e)
        then have "s' = u" "r = Inl e" using run Inr True q by auto
        moreover have "view u kind i = view s kind i \<or> reached b prune kind i (view u kind i)" for i
        proof (cases "map_of g i")
          case None
          then have "view t kind i = view s kind i" using p2 by blast
          moreover have "view u kind i = view t kind i \<or> view u kind i = None" using prn Inl by simp
          ultimately show ?thesis using None True by (simp add: reached_def des)
        qed (use kept in blast)
        ultimately show ?thesis using prn p2 Inl by auto
      next
        case (Inr v)
        then have "s' = u" "r = Inr c" using run \<open>rp = Inr c\<close> True q by auto
        moreover have "reached b prune kind i (view u kind i)" for i
        proof (cases "map_of g i")
          case None
          then show ?thesis using prn Inr True by (auto simp: reached_def des)
        qed (use kept in blast)
        ultimately show ?thesis using prn p2 p4(2) \<open>rp = Inr c\<close> True by (auto simp: concerned_def)
      qed
    qed
  qed
qed

lemma applyKinds_Cons:
  assumes g: "g = (case map_of (fb_Resources b) kind of None \<Rightarrow> [] | Some g \<Rightarrow> g)"
    and puts: "applyPuts store now kind g (sort (map fst g)) counts s = (t, rp)"
    and step: "(case rp of Inl e \<Rightarrow> (t, Inl e)
       | Inr c \<Rightarrow> if kind \<notin> set prune then (t, Inr c)
           else case pruneKind store kind g t of (u, Inl e) \<Rightarrow> (u, Inl e) | (u, Inr _) \<Rightarrow> (u, Inr c)) = (u, q)"
  shows "applyKinds store now b prune (kind # kinds) counts s = (case q of Inl e \<Rightarrow> (u, Inl e) | Inr c \<Rightarrow> applyKinds store now b prune kinds c u)"
proof (cases "map_of (fb_Resources b) kind = None \<and> kind \<notin> set prune")
  case True
  then have "g = []" by (simp add: g)
  with True show ?thesis using puts step by auto
next
  case False
  obtain v w where pk: "pruneKind store kind g t = (v, w)" by fastforce
  have eq: "applyKinds store now b prune (kind # kinds) counts s =
     (case rp of Inl e \<Rightarrow> (t, Inl e) | Inr c \<Rightarrow> if kind \<notin> set prune then applyKinds store now b prune kinds c t
        else case w of Inl e \<Rightarrow> (v, Inl e) | Inr _ \<Rightarrow> applyKinds store now b prune kinds c v)"
    unfolding applyKinds.simps Let_def g [symmetric] puts using False by (auto simp: pk split: sum.split)
  show ?thesis unfolding eq using step pk by (cases rp; cases "kind \<in> set prune"; cases w) auto
qed

lemma applyKinds_outcome:
  assumes ok: "bundleOK b" and "inv s" and "distinct kinds" and "set kinds \<subseteq> set supportedKinds"
    and "applyKinds store now b prune kinds counts s = (s', r)"
  shows "inv s' \<and> (\<forall>k i. k \<notin> set kinds \<longrightarrow> view s' k i = view s k i)
    \<and> (case r of
         Inl e \<Rightarrow> (\<exists>msg. e = StoreFailed msg) \<and> applying b prune (view s) (view s')
       | Inr c \<Rightarrow>
           (\<forall>k\<in>set kinds. \<forall>i. if concerned b prune k i then reached b prune k i (view s' k i) else view s' k i = view s k i)
           \<and> (\<forall>k. map_get 0 c k = map_get 0 counts k + (if k \<in> set kinds then int (length (map_get [] (fb_Resources b) k)) else 0)))"
  using assms(2-)
proof (induction kinds arbitrary: s counts)
  case (Cons kind kinds)
  define g where "g = (case map_of (fb_Resources b) kind of None \<Rightarrow> [] | Some g \<Rightarrow> g)"
  have g_get: "map_get [] (fb_Resources b) kind = g" by (simp add: g_def map_get_def)
  obtain t rp where puts: "applyPuts store now kind g (sort (map fst g)) counts s = (t, rp)" by fastforce
  let ?step = "case rp of Inl e \<Rightarrow> (t, Inl e)
       | Inr c \<Rightarrow> if kind \<notin> set prune then (t, Inr c)
           else case pruneKind store kind g t of (u, Inl e) \<Rightarrow> (u, Inl e) | (u, Inr _) \<Rightarrow> (u, Inr c)"
  obtain u q where step: "?step = (u, q)" by fastforce
  have k: "kind \<in> set supportedKinds" "set kinds \<subseteq> set supportedKinds" "distinct kinds" "kind \<notin> set kinds" using Cons.prems by auto
  note one = applyKind_outcome [OF ok Cons.prems(1) k(1) g_def puts step]
  have run: "(case q of Inl e \<Rightarrow> (u, Inl e) | Inr c \<Rightarrow> applyKinds store now b prune kinds c u) = (s', r)"
    using Cons.prems(4) unfolding applyKinds_Cons [OF g_def puts step] .
  show ?case
  proof (cases q)
    case (Inl e)
    then have "s' = u" "r = Inl e" using run by auto
    moreover have "view u k' i = view s k' i \<or> reached b prune k' i (view u k' i)" for k' i using one Inl by (cases "k' = kind") auto
    then have "applying b prune (view s) (view u)" by (simp add: applying_def)
    ultimately show ?thesis using one Inl by auto
  next
    case (Inr c)
    then have "applyKinds store now b prune kinds c u = (s', r)" using run by simp
    note IH = Cons.IH [OF conjunct1 [OF one] k(3,2) this]
    have one': "\<And>k' i. k' \<noteq> kind \<Longrightarrow> view u k' i = view s k' i"
      "\<And>i. if concerned b prune kind i then reached b prune kind i (view u kind i) else view u kind i = view s kind i"
      "\<And>k'. map_get 0 c k' = map_get 0 counts k' + (if k' = kind then int (length g) else 0)"
      using one unfolding Inr sum.case by blast+
    have kd: "view s' kind i = view u kind i" for i using IH k(4) by blast
    have keep: "view s' k' i = view s k' i" if "k' \<notin> set (kind # kinds)" for k' i
      using IH one'(1) [of k' i] that by simp
    show ?thesis
    proof (cases r)
      case (Inl e)
      have ap: "view s' k' i = view u k' i \<or> reached b prune k' i (view s' k' i)" for k' i
        using IH unfolding Inl sum.case applying_def by blast
      have "view s' k' i = view s k' i \<or> reached b prune k' i (view s' k' i)" for k' i
        using ap [of k' i] one'(1) [of k' i] one'(2) [of i] kd [of i] by (cases "k' = kind") metis+
      then have "applying b prune (view s) (view s')" by (simp add: applying_def)
      then show ?thesis using IH keep unfolding Inl sum.case by blast
    next
      case (Inr c')
      have "if concerned b prune k' i then reached b prune k' i (view s' k' i) else view s' k' i = view s k' i"
        if "k' \<in> set (kind # kinds)" for k' i
      proof (cases "k' = kind")
        case False
        then show ?thesis using IH one'(1) [of k' i] that unfolding Inr sum.case by simp
      qed (use one'(2) [of i] kd [of i] in simp)
      moreover have "map_get 0 c' k' = map_get 0 counts k' + (if k' \<in> set (kind # kinds) then int (length (map_get [] (fb_Resources b) k')) else 0)" for k'
        using IH one'(3) [of k'] g_get k(4) unfolding Inr sum.case by simp
      ultimately show ?thesis using IH keep unfolding Inr sum.case by blast
    qed
  qed
qed auto

lemma ApplyBundle_outcome:
  assumes ok: "bundleOK b" and inv: "inv s" and run: "ApplyBundleWithOptions store now b options s = (s', r)"
  shows "inv s'
    \<and> (case r of
         Inl e \<Rightarrow> (\<exists>msg. e = StoreFailed msg) \<and> applying b (resolvePruneKinds b options) (view s) (view s')
       | Inr c \<Rightarrow> applied b (resolvePruneKinds b options) (view s) (view s')
           \<and> (\<forall>kind. map_get 0 c kind = int (length (map_get [] (fb_Resources b) kind))))"
proof -
  have order: "distinct applyOrder" "set applyOrder = set supportedKinds" by code_simp+
  note out = applyKinds_outcome [OF ok inv order(1) _ run [unfolded ApplyBundleWithOptions_def]]
  have none: "view t k i = None" if "inv t" "k \<notin> set supportedKinds" for t k i
    using view_resource [OF that(1), of k i] that(2) by (cases "view t k i") (auto simp: addressable_def)
  have un: "map_of (fb_Resources b) k = None" if "k \<notin> set supportedKinds" for k
    using bundleOK_lookup [OF ok, of k] that by (cases "map_of (fb_Resources b) k") auto
  have out: "inv s'" "\<And>e. r = Inl e \<Longrightarrow> (\<exists>msg. e = StoreFailed msg) \<and> applying b (resolvePruneKinds b options) (view s) (view s')"
    "\<And>c k i. r = Inr c \<Longrightarrow> k \<in> set supportedKinds \<Longrightarrow>
        if concerned b (resolvePruneKinds b options) k i then reached b (resolvePruneKinds b options) k i (view s' k i) else view s' k i = view s k i"
    "\<And>c k. r = Inr c \<Longrightarrow> map_get 0 c k = (if k \<in> set supportedKinds then int (length (map_get [] (fb_Resources b) k)) else 0)"
    using out order by (auto simp: map_get_def [of 0 "[]"])
  have "applied b (resolvePruneKinds b options) (view s) (view s')" if "r = Inr c" for c
    unfolding applied_def
  proof (intro allI)
    fix k i
    show "if concerned b (resolvePruneKinds b options) k i then reached b (resolvePruneKinds b options) k i (view s' k i)
      else view s' k i = view s k i"
      using out(3) [OF that, of k i] none [OF inv, of k i] none [OF out(1), of k i] un [of k]
      by (cases "k \<in> set supportedKinds") (auto simp: concerned_def reached_def desired_def)
  qed
  moreover have "map_get 0 c k = int (length (map_get [] (fb_Resources b) k))" if "r = Inr c" for c k
    using out(4) [OF that, of k] un [of k] by (auto simp: map_get_def)
  ultimately show ?thesis using out(1,2) by (cases r) auto
qed

end

section \<open>Results\<close>

text \<open>
  C10. Applying a bundle. For a bundle of storable resources on etcd: when the application succeeds, each resource of
  the bundle is stored, up to the times, every other resource of a pruned kind is gone, everything else is as before, and
  the counts are the sizes of the groups. The application fails only with an error of the store, which is one of
  etcd or of the decoding of a stored value, and then each resource is either as before or as the bundle asks.
\<close>

theorem apply_bundle:
  assumes "etcd_store client kvs prefix" and "bundleOK b" and "etcdInv (normalizePrefix prefix) (kvs s)"
    and "ApplyBundleWithOptions (etcdStore (NewEtcdStoreWithClient client prefix)) now b options s = (s', r)"
  shows "etcdInv (normalizePrefix prefix) (kvs s')
    \<and> (case r of
         Inl e \<Rightarrow> (\<exists>msg. e = StoreFailed msg)
           \<and> applying b (resolvePruneKinds b options) (etcdView (normalizePrefix prefix) (kvs s)) (etcdView (normalizePrefix prefix) (kvs s'))
       | Inr c \<Rightarrow>
           applied b (resolvePruneKinds b options) (etcdView (normalizePrefix prefix) (kvs s)) (etcdView (normalizePrefix prefix) (kvs s'))
           \<and> (\<forall>kind. map_get 0 c kind = int (length (map_get [] (fb_Resources b) kind))))"
  using resource_store.ApplyBundle_outcome [OF etcd_store.is_store [OF assms(1)] assms(2-)] .

definition sampleBundle :: FileBundle where
  "sampleBundle =
     \<lparr>fb_Resources = [(KindRoute, [(''7'', Some (AMap [(''uri'', AString ''/users/*''), (''service_id'', AString ''users'')]))])],
      fb_Meta = emptyMeta\<rparr>"

definition pruneOptions :: ApplyOptions where
  "pruneOptions = \<lparr>ao_PruneKinds = [], ao_Prune = True\<rparr>"

definition afterApply :: "memory \<times> (cp_error + ApplyResult)" where
  "afterApply = ApplyBundleWithOptions memoryStore me_clock sampleBundle pruneOptions (fst afterPut)"

lemma sampleBundle_OK: "bundleOK sampleBundle"
  by code_simp

theorem apply_bundle_witness:
  "snd afterApply = Inr [(KindRoute, 1)] \<and> resolvePruneKinds sampleBundle pruneOptions = [KindRoute]
   \<and> applied sampleBundle [KindRoute] (etcdView (normalizePrefix productionPrefix) (memKvs (fst afterPut)))
       (etcdView (normalizePrefix productionPrefix) (memKvs (fst afterApply)))"
proof -
  have run: "snd afterApply = Inr [(KindRoute, 1)]" "resolvePruneKinds sampleBundle pruneOptions = [KindRoute]" by code_simp+
  have "ApplyBundleWithOptions (etcdStore (NewEtcdStoreWithClient memClient productionPrefix)) me_clock sampleBundle pruneOptions
      (fst afterPut) = (fst afterApply, snd afterApply)" by (simp add: afterApply_def memoryStore_def)
  from apply_bundle [OF etcd_store_production sampleBundle_OK afterPut_inv this] show ?thesis using run by simp
qed

text \<open>
  Pruning without a selection. A bundle without resources and without managed kinds selects every kind, so that
  applying an empty bundle with pruning deletes all resources; so does one with an empty list of managed kinds.
\<close>

theorem empty_bundle_prunes_all:
  "resolvePruneKinds \<lparr>fb_Resources = [], fb_Meta = emptyMeta\<rparr> pruneOptions = sort SupportedKinds
   \<and> parseBundleMeta (AMap [(''managed_kinds'', AList [])]) = Inr (emptyMeta\<lparr>bm_ManagedKinds := SupportedKinds\<rparr>)
   \<and> snd (ServiceList memoryStore KindRoute (fst afterPut)) \<noteq> Inr []
   \<and> snd (ServiceList memoryStore KindRoute
       (fst (ApplyBundleWithOptions memoryStore me_clock \<lparr>fb_Resources = [], fb_Meta = emptyMeta\<rparr> pruneOptions (fst afterPut)))) = Inr []"
  by (intro conjI) code_simp+

end
