(* ===== verification/Validation.thy ===== *)
theory Validation
  imports Provider Bundle_Apply
begin

text \<open>
  Validation before a write (\<^verbatim>\<open>internal/controlplane/validate.go\<close>): the stored resources are read into a
  snapshot, the documents of the request are put on top, and the references of the result are checked.

  The messages of the issues are constructors; a Go map is an association list in the order of one iteration.
\<close>

section \<open>Issues\<close>

datatype issue_message =
    UpstreamWithoutNodes
  | ServiceWithoutUpstream
  | UpstreamOfServiceMissing string
  | RouteWithoutURI
  | RouteWithoutTarget
  | ServiceOfRouteMissing string
  | UpstreamOfRouteMissing string

record ValidationIssue =
  vi_Resource :: string
  vi_ResourceID :: string
  vi_Field :: string
  vi_Message :: issue_message

record ValidationResult =
  vr_Issues :: "ValidationIssue list"
  vr_Valid :: bool

record ValidateOptions =
  vo_PruneKinds :: "ResourceKind list"
  vo_Prune :: bool

section \<open>Snapshots under construction\<close>

definition applyResourceBody :: "ApisixSnapshot \<Rightarrow> ResourceKind \<Rightarrow> string \<Rightarrow> RawMessage \<Rightarrow> cp_error + ApisixSnapshot" where
  "applyResourceBody snapshot kind i body =
     (if kind = KindRoute then
        (case unmarshalStruct decodeRoute body of
           None \<Rightarrow> Inl ErrInvalidBody
         | Some r \<Rightarrow> Inr (snapshot\<lparr>ss_Routes := map_put i (r\<lparr>ar_ID := i\<rparr>) (ss_Routes snapshot)\<rparr>))
      else if kind = KindService then
        (case unmarshalStruct decodeService body of
           None \<Rightarrow> Inl ErrInvalidBody
         | Some r \<Rightarrow> Inr (snapshot\<lparr>ss_Services := map_put i (r\<lparr>as_ID := i\<rparr>) (ss_Services snapshot)\<rparr>))
      else if kind = KindUpstream then
        (case unmarshalStruct decodeUpstream body of
           None \<Rightarrow> Inl ErrInvalidBody
         | Some r \<Rightarrow> Inr (snapshot\<lparr>ss_Upstreams := map_put i (r\<lparr>au_ID := i\<rparr>) (ss_Upstreams snapshot)\<rparr>))
      else if kind = KindPluginConfig then
        (case unmarshalStruct decodePluginConfig body of
           None \<Rightarrow> Inl ErrInvalidBody
         | Some r \<Rightarrow> Inr (snapshot\<lparr>ss_PluginConfig := map_put i (r\<lparr>pc_ID := i\<rparr>) (ss_PluginConfig snapshot)\<rparr>))
      else if kind = KindGlobalRule then
        (case unmarshalStruct decodeGlobalRule body of
           None \<Rightarrow> Inl ErrInvalidBody
         | Some r \<Rightarrow> Inr (snapshot\<lparr>ss_GlobalRules := map_put i (r\<lparr>gr_ID := i\<rparr>) (ss_GlobalRules snapshot)\<rparr>))
      else Inl ErrUnsupportedKind)"

definition removeResource :: "ApisixSnapshot \<Rightarrow> ResourceKind \<Rightarrow> string \<Rightarrow> ApisixSnapshot" where
  "removeResource snapshot kind i =
     (if kind = KindRoute then snapshot\<lparr>ss_Routes := map_delete i (ss_Routes snapshot)\<rparr>
      else if kind = KindService then snapshot\<lparr>ss_Services := map_delete i (ss_Services snapshot)\<rparr>
      else if kind = KindUpstream then snapshot\<lparr>ss_Upstreams := map_delete i (ss_Upstreams snapshot)\<rparr>
      else if kind = KindPluginConfig then snapshot\<lparr>ss_PluginConfig := map_delete i (ss_PluginConfig snapshot)\<rparr>
      else if kind = KindGlobalRule then snapshot\<lparr>ss_GlobalRules := map_delete i (ss_GlobalRules snapshot)\<rparr>
      else snapshot)"

definition sortedMapKeys :: "(string \<times> 'v) list \<Rightarrow> string list" where
  "sortedMapKeys m = sort (map fst m)"

definition snapshotResourceIDs :: "ApisixSnapshot \<Rightarrow> ResourceKind \<Rightarrow> string list" where
  "snapshotResourceIDs snapshot kind =
     (if kind = KindRoute then sortedMapKeys (ss_Routes snapshot)
      else if kind = KindService then sortedMapKeys (ss_Services snapshot)
      else if kind = KindUpstream then sortedMapKeys (ss_Upstreams snapshot)
      else if kind = KindPluginConfig then sortedMapKeys (ss_PluginConfig snapshot)
      else if kind = KindGlobalRule then sortedMapKeys (ss_GlobalRules snapshot)
      else [])"

fun snapshotItems :: "ApisixSnapshot \<Rightarrow> ResourceKind \<Rightarrow> Envelope list \<Rightarrow> cp_error + ApisixSnapshot" where
  "snapshotItems snapshot kind [] = Inr snapshot"
| "snapshotItems snapshot kind (item # items) =
     (case ExtractResourceID (env_Value item) of
        Inl e \<Rightarrow> Inl e
      | Inr i \<Rightarrow>
          if i = [] then snapshotItems snapshot kind items
          else case applyResourceBody snapshot kind i (env_Value item) of
            Inl e \<Rightarrow> Inl e
          | Inr snapshot \<Rightarrow> snapshotItems snapshot kind items)"

fun snapshotKinds :: "'s Store \<Rightarrow> ApisixSnapshot \<Rightarrow> ResourceKind list \<Rightarrow> ('s, ApisixSnapshot) op" where
  "snapshotKinds store snapshot [] s = (s, Inr snapshot)"
| "snapshotKinds store snapshot (kind # kinds) s =
     (case st_List store kind s of
        (s, Inl e) \<Rightarrow> (s, Inl e)
      | (s, Inr items) \<Rightarrow>
          (case snapshotItems snapshot kind items of
             Inl e \<Rightarrow> (s, Inl e)
           | Inr snapshot \<Rightarrow> snapshotKinds store snapshot kinds s))"

definition snapshotFromStore :: "'s Store \<Rightarrow> ('s, ApisixSnapshot) op" where
  "snapshotFromStore store s = snapshotKinds store NewSnapshot SupportedKinds s"

section \<open>Checks\<close>

definition issue :: "ResourceKind \<Rightarrow> string \<Rightarrow> string \<Rightarrow> issue_message \<Rightarrow> ValidationIssue" where
  "issue kind i fld msg = \<lparr>vi_Resource = kind, vi_ResourceID = i, vi_Field = fld, vi_Message = msg\<rparr>"

definition upstreamIssues :: "string \<Rightarrow> ApisixUpstream \<Rightarrow> ValidationIssue list" where
  "upstreamIssues i up = (if au_Nodes up = None then [issue KindUpstream i ''nodes'' UpstreamWithoutNodes] else [])"

definition serviceIssues :: "ApisixSnapshot \<Rightarrow> string \<Rightarrow> ApisixService \<Rightarrow> ValidationIssue list" where
  "serviceIssues snapshot i svc =
     (let upstreamID = as_UpstreamID svc in
      if upstreamID = [] \<and> as_Upstream svc = None then [issue KindService i ''upstream_id'' ServiceWithoutUpstream]
      else if upstreamID \<noteq> [] \<and> map_of (ss_Upstreams snapshot) upstreamID = None
      then [issue KindService i ''upstream_id'' (UpstreamOfServiceMissing upstreamID)]
      else [])"

definition routeIssues :: "ApisixSnapshot \<Rightarrow> string \<Rightarrow> ApisixRoute \<Rightarrow> ValidationIssue list" where
  "routeIssues snapshot i route =
     (if ar_URI route = [] \<and> length (ar_URIs route) = 0 then [issue KindRoute i ''uri'' RouteWithoutURI]
      else
        let serviceID = ar_ServiceID route; upstreamID = ar_UpstreamID route in
        if serviceID = [] \<and> upstreamID = [] \<and> ar_Upstream route = None
        then [issue KindRoute i ''service_id'' RouteWithoutTarget]
        else
          (if serviceID \<noteq> [] \<and> map_of (ss_Services snapshot) serviceID = None
           then [issue KindRoute i ''service_id'' (ServiceOfRouteMissing serviceID)] else [])
          @ (if upstreamID \<noteq> [] \<and> map_of (ss_Upstreams snapshot) upstreamID = None
             then [issue KindRoute i ''upstream_id'' (UpstreamOfRouteMissing upstreamID)] else []))"

definition filterIssues :: "ValidationIssue list \<Rightarrow> ResourceKind \<Rightarrow> string \<Rightarrow> ValidationIssue list" where
  "filterIssues issues kind i =
     (if kind = [] then []
      else filter (\<lambda>x. vi_Resource x = kind \<and> (i = [] \<or> vi_ResourceID x = i)) issues)"

definition allIssues :: "ApisixSnapshot \<Rightarrow> ValidationIssue list" where
  "allIssues snapshot =
     concat (map (\<lambda>(i, up). upstreamIssues i up) (ss_Upstreams snapshot))
     @ concat (map (\<lambda>(i, svc). serviceIssues snapshot i svc) (ss_Services snapshot))
     @ concat (map (\<lambda>(i, route). routeIssues snapshot i route) (ss_Routes snapshot))"

definition validateSnapshot :: "ApisixSnapshot \<Rightarrow> ResourceKind \<Rightarrow> string \<Rightarrow> ValidationResult" where
  "validateSnapshot snapshot targetKind targetID =
     (let issues = allIssues snapshot;
          primary = filterIssues issues targetKind targetID
      in if length primary > 0 then \<lparr>vr_Issues = primary, vr_Valid = False\<rparr>
         else if length issues > 0 then \<lparr>vr_Issues = issues, vr_Valid = False\<rparr>
         else \<lparr>vr_Issues = [], vr_Valid = True\<rparr>)"

section \<open>Requests\<close>

fun validateGroup :: "ApisixSnapshot \<Rightarrow> ResourceKind \<Rightarrow> group \<Rightarrow> cp_error + ApisixSnapshot" where
  "validateGroup snapshot kind [] = Inr snapshot"
| "validateGroup snapshot kind ((i, body) # rest) =
     (case NormalizeResourceBody body i of
        Inl e \<Rightarrow> Inl e
      | Inr normalized \<Rightarrow>
          (case applyResourceBody snapshot kind i normalized of
             Inl e \<Rightarrow> Inl e
           | Inr snapshot \<Rightarrow> validateGroup snapshot kind rest))"

definition validatePrune :: "ApisixSnapshot \<Rightarrow> ResourceKind \<Rightarrow> group \<Rightarrow> ApisixSnapshot" where
  "validatePrune snapshot kind grp =
     fold (\<lambda>i sn. if map_of grp i \<noteq> None then sn else removeResource sn kind i) (snapshotResourceIDs snapshot kind) snapshot"

fun validateKinds :: "FileBundle \<Rightarrow> ResourceKind list \<Rightarrow> ResourceKind list \<Rightarrow> ApisixSnapshot \<Rightarrow> cp_error + ApisixSnapshot" where
  "validateKinds bundle pruneKinds [] snapshot = Inr snapshot"
| "validateKinds bundle pruneKinds (kind # kinds) snapshot =
     (let grp = map_get [] (fb_Resources bundle) kind in
      case validateGroup snapshot kind grp of
        Inl e \<Rightarrow> Inl e
      | Inr snapshot \<Rightarrow>
          validateKinds bundle pruneKinds kinds (if kind \<in> set pruneKinds then validatePrune snapshot kind grp else snapshot))"

text \<open>The first document of the bundle, whose issues are shown first.\<close>

fun fallback :: "FileBundle \<Rightarrow> ResourceKind list \<Rightarrow> ResourceKind \<times> string" where
  "fallback bundle [] = ([], [])"
| "fallback bundle (kind # kinds) =
     (case map_get [] (fb_Resources bundle) kind of
        [] \<Rightarrow> fallback bundle kinds
      | (i, body) # rest \<Rightarrow> (kind, i))"

definition ValidateBundle :: "'s Store \<Rightarrow> FileBundle \<Rightarrow> ValidateOptions \<Rightarrow> ('s, ValidationResult) op" where
  "ValidateBundle store bundle options s =
     (case snapshotFromStore store s of
        (s, Inl e) \<Rightarrow> (s, Inl e)
      | (s, Inr snapshot) \<Rightarrow>
          (let pruneKinds = resolvePruneKinds bundle \<lparr>ao_PruneKinds = vo_PruneKinds options, ao_Prune = vo_Prune options\<rparr> in
           case validateKinds bundle pruneKinds SupportedKinds snapshot of
             Inl e \<Rightarrow> (s, Inl e)
           | Inr snapshot \<Rightarrow> (case fallback bundle SupportedKinds of (kind, i) \<Rightarrow> (s, Inr (validateSnapshot snapshot kind i)))))"

text \<open>The identifier of a document to be validated.\<close>

definition validatedID :: "string \<Rightarrow> RawMessage \<Rightarrow> cp_error + string" where
  "validatedID i body =
     (if i \<noteq> [] then Inr i
      else case ExtractResourceID body of
        Inl e \<Rightarrow> Inl e
      | Inr extractedID \<Rightarrow> Inr (if extractedID \<noteq> [] then extractedID else ''_preview''))"

definition ValidateResource :: "'s Store \<Rightarrow> ResourceKind \<Rightarrow> string \<Rightarrow> RawMessage \<Rightarrow> ('s, ValidationResult) op" where
  "ValidateResource store kind i0 body s =
     (case validateKind kind of
        Some e \<Rightarrow> (s, Inl e)
      | None \<Rightarrow>
          (case validatedID i0 body of
             Inl e \<Rightarrow> (s, Inl e)
           | Inr i \<Rightarrow>
               (case NormalizeResourceBody body i of
                  Inl e \<Rightarrow> (s, Inl e)
                | Inr normalized \<Rightarrow>
                    (case snapshotFromStore store s of
                       (s, Inl e) \<Rightarrow> (s, Inl e)
                     | (s, Inr snapshot) \<Rightarrow>
                         (case applyResourceBody snapshot kind i normalized of
                            Inl e \<Rightarrow> (s, Inl e)
                          | Inr snapshot \<Rightarrow> (s, Inr (validateSnapshot snapshot kind i)))))))"

section \<open>Notions used in the statements\<close>

text \<open>What validation makes of a document: it is decoded and gets the identifier under which it is stored.\<close>

definition bodyAs :: "((string \<times> any) list \<Rightarrow> 'a option) \<Rightarrow> ((string \<Rightarrow> string) \<Rightarrow> 'a \<Rightarrow> 'a) \<Rightarrow> string \<Rightarrow> any \<Rightarrow> 'a option" where
  "bodyAs dec updateID i v = (case v of AMap m \<Rightarrow> map_option (updateID (\<lambda>_. i)) (dec m) | _ \<Rightarrow> None)"

definition bodiesOf :: "resources \<Rightarrow> ApisixSnapshot \<Rightarrow> bool" where
  "bodiesOf res sn \<longleftrightarrow>
     readGroup (bodyAs decodeRoute ar_ID_update) (res KindRoute) (ss_Routes sn)
   \<and> readGroup (bodyAs decodeService as_ID_update) (res KindService) (ss_Services sn)
   \<and> readGroup (bodyAs decodeUpstream au_ID_update) (res KindUpstream) (ss_Upstreams sn)
   \<and> readGroup (bodyAs decodePluginConfig pc_ID_update) (res KindPluginConfig) (ss_PluginConfig sn)
   \<and> readGroup (bodyAs decodeGlobalRule gr_ID_update) (res KindGlobalRule) (ss_GlobalRules sn)"

definition decodable :: "ResourceKind \<Rightarrow> any \<Rightarrow> bool" where
  "decodable kind v \<longleftrightarrow>
     (case v of
        AMap m \<Rightarrow>
          if kind = KindRoute then decodeRoute m \<noteq> None
          else if kind = KindService then decodeService m \<noteq> None
          else if kind = KindUpstream then decodeUpstream m \<noteq> None
          else if kind = KindPluginConfig then decodePluginConfig m \<noteq> None
          else decodeGlobalRule m \<noteq> None
      | _ \<Rightarrow> False)"

definition undecodable :: "resources \<Rightarrow> bool" where
  "undecodable res \<longleftrightarrow> (\<exists>kind i v. res kind i = Some v \<and> \<not> decodable kind v)"

text \<open>A snapshot in which everything that is required is there and every reference resolves.\<close>

definition upstreamOK :: "ApisixUpstream \<Rightarrow> bool" where
  "upstreamOK up \<longleftrightarrow> au_Nodes up \<noteq> None"

definition serviceOK :: "ApisixSnapshot \<Rightarrow> ApisixService \<Rightarrow> bool" where
  "serviceOK sn svc \<longleftrightarrow>
     (as_UpstreamID svc \<noteq> [] \<or> as_Upstream svc \<noteq> None)
   \<and> (as_UpstreamID svc \<noteq> [] \<longrightarrow> as_UpstreamID svc \<in> fst ` set (ss_Upstreams sn))"

definition routeOK :: "ApisixSnapshot \<Rightarrow> ApisixRoute \<Rightarrow> bool" where
  "routeOK sn route \<longleftrightarrow>
     (ar_URI route \<noteq> [] \<or> ar_URIs route \<noteq> [])
   \<and> (ar_ServiceID route \<noteq> [] \<or> ar_UpstreamID route \<noteq> [] \<or> ar_Upstream route \<noteq> None)
   \<and> (ar_ServiceID route \<noteq> [] \<longrightarrow> ar_ServiceID route \<in> fst ` set (ss_Services sn))
   \<and> (ar_UpstreamID route \<noteq> [] \<longrightarrow> ar_UpstreamID route \<in> fst ` set (ss_Upstreams sn))"

text \<open>What is checked: members that are required, and the references to services and upstreams. The references to plugin
  configurations are not looked at.\<close>

definition snapshotOK :: "ApisixSnapshot \<Rightarrow> bool" where
  "snapshotOK sn \<longleftrightarrow>
     (\<forall>(i, up)\<in>set (ss_Upstreams sn). upstreamOK up) \<and> (\<forall>(i, svc)\<in>set (ss_Services sn). serviceOK sn svc)
   \<and> (\<forall>(i, route)\<in>set (ss_Routes sn). routeOK sn route)"

section \<open>Facts\<close>

lemma upstreamIssues_iff: "upstreamIssues i up = [] \<longleftrightarrow> upstreamOK up"
  by (simp add: upstreamIssues_def upstreamOK_def)

lemma serviceIssues_iff: "serviceIssues sn i svc = [] \<longleftrightarrow> serviceOK sn svc"
  by (auto simp: serviceIssues_def serviceOK_def Let_def map_of_eq_None_iff)

lemma routeIssues_iff: "routeIssues sn i route = [] \<longleftrightarrow> routeOK sn route"
  by (auto simp: routeIssues_def routeOK_def Let_def map_of_eq_None_iff)

lemma allIssues_iff: "allIssues sn = [] \<longleftrightarrow> snapshotOK sn"
  by (auto simp: allIssues_def snapshotOK_def upstreamIssues_iff serviceIssues_iff routeIssues_iff)

lemma filterIssues_subset: "set (filterIssues issues kind i) \<subseteq> set issues"
  by (auto simp: filterIssues_def)

lemma validateSnapshot_valid:
  "vr_Valid (validateSnapshot sn kind i) \<longleftrightarrow> snapshotOK sn" "vr_Issues (validateSnapshot sn kind i) = [] \<longleftrightarrow> snapshotOK sn"
proof -
  have "allIssues sn = [] \<Longrightarrow> filterIssues (allIssues sn) kind i = []" by (simp add: filterIssues_def)
  then show "vr_Valid (validateSnapshot sn kind i) \<longleftrightarrow> snapshotOK sn" "vr_Issues (validateSnapshot sn kind i) = [] \<longleftrightarrow> snapshotOK sn"
    using allIssues_iff [of sn] by (auto simp: validateSnapshot_def Let_def)
qed

lemma kinds_distinct:
  "KindRoute \<noteq> KindService" "KindRoute \<noteq> KindUpstream" "KindRoute \<noteq> KindPluginConfig" "KindRoute \<noteq> KindGlobalRule"
  "KindService \<noteq> KindUpstream" "KindService \<noteq> KindPluginConfig" "KindService \<noteq> KindGlobalRule"
  "KindUpstream \<noteq> KindPluginConfig" "KindUpstream \<noteq> KindGlobalRule" "KindPluginConfig \<noteq> KindGlobalRule"
  by (simp_all add: kind_names)

lemmas kinds_apart = kinds_distinct kinds_distinct [symmetric]

lemma unmarshal_body: "unmarshalStruct f (Some (AMap m)) = f m"
  by (simp add: unmarshalStruct_def decodeMap_def)

lemma readGroup_body:
  "readGroup (bodyAs dec upd) g grp \<Longrightarrow> dec m = Some r \<Longrightarrow>
     readGroup (bodyAs dec upd) (g(i \<mapsto> AMap m)) (map_put i (upd (\<lambda>_. i) r) grp)"
  by (rule readGroup_put) (auto simp: bodyAs_def)

lemma applyResourceBody_outcome:
  assumes kind: "kind \<in> set supportedKinds" and sn: "bodiesOf res sn"
  shows "case applyResourceBody sn kind i (Some (AMap m)) of
      Inl e \<Rightarrow> e = ErrInvalidBody \<and> \<not> decodable kind (AMap m)
    | Inr sn' \<Rightarrow> bodiesOf (update_resource kind i (Some (AMap m)) res) sn' \<and> decodable kind (AMap m)"
proof -
  consider "kind = KindRoute" | "kind = KindService" | "kind = KindUpstream" | "kind = KindPluginConfig" | "kind = KindGlobalRule"
    using kind by (auto simp: supportedKinds_def)
  then show ?thesis
    by cases (use sn in \<open>auto simp: applyResourceBody_def unmarshal_body bodiesOf_def update_resource_def decodable_def kinds_apart
        readGroup_body split: option.splits\<close>)
qed

lemma readGroup_delete: "readGroup rd g grp \<Longrightarrow> readGroup rd (g(i := None)) (map_delete i grp)"
  by (auto simp: readGroup_def map_delete_def distinct_delete delete_conv)

lemma removeResource_bodies:
  assumes "kind \<in> set supportedKinds" and "bodiesOf res sn"
  shows "bodiesOf (update_resource kind i None res) (removeResource sn kind i)"
proof -
  consider "kind = KindRoute" | "kind = KindService" | "kind = KindUpstream" | "kind = KindPluginConfig" | "kind = KindGlobalRule"
    using assms(1) by (auto simp: supportedKinds_def)
  then show ?thesis
    by cases (use assms(2) in \<open>auto simp: bodiesOf_def update_resource_def removeResource_def readGroup_delete kinds_apart\<close>)
qed

text \<open>The document that a body becomes under an identifier.\<close>

definition normalDoc :: "string \<Rightarrow> RawMessage \<Rightarrow> any option" where
  "normalDoc i raw = (case NormalizeResourceBody raw i of Inl e \<Rightarrow> None | Inr v \<Rightarrow> v)"

text \<open>The resources with a bundle put on top.\<close>

definition bundleView :: "FileBundle \<Rightarrow> ResourceKind list \<Rightarrow> resources \<Rightarrow> resources" where
  "bundleView b prune res kind i =
     (case desired b kind i of
        Some raw \<Rightarrow> normalDoc i raw
      | None \<Rightarrow> if kind \<in> set prune then None else res kind i)"

lemma NormalizeResourceBody_outcome:
  "case NormalizeResourceBody raw i of Inl e \<Rightarrow> e = ErrInvalidBody | Inr v \<Rightarrow> \<exists>m. v = Some (AMap m)"
  by (auto simp: NormalizeResourceBody_def decodeJSONObject_def split: sum.splits option.splits if_splits)

lemma snapshotItems_outcome:
  assumes kind: "kind \<in> set supportedKinds"
    and "map env_Value items = map g ids" and "\<forall>i\<in>set ids. \<exists>m. g i = Some (AMap m) \<and> resource i (AMap m) \<and> i \<noteq> []"
    and "bodiesOf res sn"
  shows "case snapshotItems sn kind items of
      Inl e \<Rightarrow> e = ErrInvalidBody \<and> (\<exists>i v. g i = Some v \<and> \<not> decodable kind v)
    | Inr sn' \<Rightarrow> bodiesOf (\<lambda>k j. if k = kind \<and> j \<in> set ids then g j else res k j) sn'"
  using assms(2-)
proof (induction ids arbitrary: items res sn)
  case (Cons i ids)
  then obtain item rest where items: "items = item # rest" by (cases items) auto
  obtain m where m: "g i = Some (AMap m)" "resource i (AMap m)" "i \<noteq> []" using Cons.prems(2) by auto
  have item: "env_Value item = Some (AMap m)" using Cons.prems(1) m items by simp
  have id: "ExtractResourceID (Some (AMap m)) = Inr i" using resource_id [OF m(2)] .
  note step = applyResourceBody_outcome [OF kind Cons.prems(3), where i = i and m = m]
  show ?case
  proof (cases "applyResourceBody sn kind i (Some (AMap m))")
    case (Inl e)
    with step m id show ?thesis by (auto simp: items item)
  next
    case (Inr sn')
    let ?res = "update_resource kind i (Some (AMap m)) res"
    have eq: "(\<lambda>k j. if k = kind \<and> j \<in> set ids then g j else ?res k j) = (\<lambda>k j. if k = kind \<and> j \<in> set (i # ids) then g j else res k j)"
      using m(1) by (auto simp: update_resource_def fun_eq_iff)
    have "bodiesOf ?res sn'" using step Inr by simp
    from Cons.IH [OF _ _ this, of rest] Cons.prems(1,2) show ?thesis unfolding eq using Inr m(3) id by (auto simp: items item)
  qed
qed simp

lemma validateGroup_outcome:
  assumes kind: "kind \<in> set supportedKinds" and "distinct (map fst grp)" and "bodiesOf res sn"
  shows "case validateGroup sn kind grp of
      Inl e \<Rightarrow> e = ErrInvalidBody
    | Inr sn' \<Rightarrow> bodiesOf (\<lambda>k j. if k = kind then (case map_of grp j of Some raw \<Rightarrow> normalDoc j raw | None \<Rightarrow> res k j) else res k j) sn'"
  using assms(2-)
proof (induction grp arbitrary: res sn)
  case Nil
  have "(\<lambda>k j. if k = kind then (case map_of [] j of Some raw \<Rightarrow> normalDoc j raw | None \<Rightarrow> res k j) else res k j) = res"
    by (simp add: fun_eq_iff)
  with Nil show ?case by simp
next
  case (Cons p grp)
  obtain i raw where p: "p = (i, raw)" by force
  show ?case
  proof (cases "NormalizeResourceBody raw i")
    case (Inl e)
    with NormalizeResourceBody_outcome [of raw i] show ?thesis by (simp add: p)
  next
    case norm: (Inr v)
    then obtain m where v: "v = Some (AMap m)" using NormalizeResourceBody_outcome [of raw i] by auto
    note step = applyResourceBody_outcome [OF kind Cons.prems(2), where i = i and m = m]
    show ?thesis
    proof (cases "applyResourceBody sn kind i v")
      case (Inl e)
      with step norm v show ?thesis by (simp add: p)
    next
      case (Inr sn')
      let ?res = "update_resource kind i v res"
      have eq: "(\<lambda>k j. if k = kind then (case map_of grp j of Some raw \<Rightarrow> normalDoc j raw | None \<Rightarrow> ?res k j) else ?res k j)
          = (\<lambda>k j. if k = kind then (case map_of (p # grp) j of Some raw \<Rightarrow> normalDoc j raw | None \<Rightarrow> res k j) else res k j)"
      proof -
        have "map_of grp i = None" "normalDoc i raw = v" using Cons.prems(1) norm by (auto simp: p map_of_eq_None_iff normalDoc_def)
        then show ?thesis by (auto simp: fun_eq_iff p update_resource_def split: option.splits)
      qed
      have "bodiesOf ?res sn'" using step Inr v by simp
      from Cons.IH [OF _ this] Cons.prems(1) show ?thesis unfolding eq using norm Inr by (simp add: p)
    qed
  qed
qed

lemma removeAll_bodies:
  assumes "kind \<in> set supportedKinds" and "bodiesOf res sn"
  shows "bodiesOf (\<lambda>k j. if k = kind \<and> j \<in> set ids \<and> \<not> P j then None else res k j)
           (fold (\<lambda>i sn. if P i then sn else removeResource sn kind i) ids sn)"
  using assms(2)
proof (induction ids arbitrary: res sn)
  case Nil
  then show ?case by (simp cong: if_cong)
next
  case (Cons i ids)
  let ?res = "if P i then res else update_resource kind i None res"
  have eq: "(\<lambda>k j. if k = kind \<and> j \<in> set ids \<and> \<not> P j then None else ?res k j)
      = (\<lambda>k j. if k = kind \<and> j \<in> set (i # ids) \<and> \<not> P j then None else res k j)"
    by (auto simp: fun_eq_iff update_resource_def)
  have "bodiesOf ?res (if P i then sn else removeResource sn kind i)"
    using removeResource_bodies [OF assms(1) Cons.prems] Cons.prems by simp
  from Cons.IH [OF this] show ?case unfolding eq by simp
qed

lemma readGroup_absent:
  assumes "readGroup rd g m"
  shows "readGroup rd (\<lambda>j. if P j \<and> j \<notin> fst ` set m then None else g j) m"
  using assms map_of_eq_None_iff [of m] unfolding readGroup_def by (auto simp: image_iff)

lemma validatePrune_outcome:
  assumes kind: "kind \<in> set supportedKinds" and sn: "bodiesOf res sn"
  shows "bodiesOf (\<lambda>k j. if k = kind \<and> map_of grp j = None then None else res k j) (validatePrune sn kind grp)"
proof -
  let ?ids = "snapshotResourceIDs sn kind"
  let ?res = "\<lambda>k j. if k = kind \<and> map_of grp j = None \<and> j \<notin> set ?ids then None else res k j"
  have "bodiesOf ?res sn"
  proof -
    consider "kind = KindRoute" | "kind = KindService" | "kind = KindUpstream" | "kind = KindPluginConfig" | "kind = KindGlobalRule"
      using kind by (auto simp: supportedKinds_def)
    then show ?thesis
      by cases (use sn in \<open>auto simp: bodiesOf_def snapshotResourceIDs_def sortedMapKeys_def kinds_apart intro!: readGroup_absent\<close>)
  qed
  from removeAll_bodies [OF kind this, of ?ids "\<lambda>i. map_of grp i \<noteq> None"]
  have "bodiesOf (\<lambda>k j. if k = kind \<and> j \<in> set ?ids \<and> \<not> map_of grp j \<noteq> None then None else ?res k j) (validatePrune sn kind grp)"
    by (simp add: validatePrune_def)
  moreover have "(\<lambda>k j. if k = kind \<and> j \<in> set ?ids \<and> \<not> map_of grp j \<noteq> None then None else ?res k j)
      = (\<lambda>k j. if k = kind \<and> map_of grp j = None then None else res k j)" by (auto simp: fun_eq_iff)
  ultimately show ?thesis by simp
qed

lemma validateKinds_outcome:
  assumes "set kinds \<subseteq> set supportedKinds" and "distinct kinds"
    and groups: "\<forall>(kind, grp)\<in>set (fb_Resources b). distinct (map fst grp)"
    and "bodiesOf (\<lambda>k j. if k \<in> set kinds then res k j else bundleView b prune res k j) sn"
  shows "case validateKinds b prune kinds sn of
      Inl e \<Rightarrow> e = ErrInvalidBody
    | Inr sn' \<Rightarrow> bodiesOf (bundleView b prune res) sn'"
  using assms(1,2,4)
proof (induction kinds arbitrary: sn)
  case Nil
  then show ?case by simp
next
  case (Cons kind kinds)
  let ?g = "map_get [] (fb_Resources b) kind"
  let ?res = "\<lambda>k j. if k \<in> set (kind # kinds) then res k j else bundleView b prune res k j"
  have kind: "kind \<in> set supportedKinds" using Cons.prems(1) by simp
  have g: "distinct (map fst ?g)" and des: "desired b kind = map_of ?g"
    using groups by (auto simp: map_get_def desired_def fun_eq_iff dest: map_of_SomeD split: option.splits)
  note put = validateGroup_outcome [OF kind g Cons.prems(3)]
  show ?case
  proof (cases "validateGroup sn kind ?g")
    case (Inl e)
    with put show ?thesis by simp
  next
    case (Inr sn1)
    let ?res1 = "\<lambda>k j. if k = kind then (case map_of ?g j of Some raw \<Rightarrow> normalDoc j raw | None \<Rightarrow> ?res k j) else ?res k j"
    let ?sn2 = "if kind \<in> set prune then validatePrune sn1 kind ?g else sn1"
    have b1: "bodiesOf ?res1 sn1" using put Inr by simp
    have eq: "(\<lambda>k j. if k \<in> set kinds then res k j else bundleView b prune res k j)
        = (if kind \<in> set prune then (\<lambda>k j. if k = kind \<and> map_of ?g j = None then None else ?res1 k j) else ?res1)"
      using Cons.prems(2) des by (auto simp: fun_eq_iff bundleView_def split: option.splits)
    have "bodiesOf (\<lambda>k j. if k \<in> set kinds then res k j else bundleView b prune res k j) ?sn2"
      unfolding eq using validatePrune_outcome [OF kind b1, of ?g] b1 by simp
    from Cons.IH [OF _ _ this] Cons.prems(1,2) Inr show ?thesis by (simp add: Let_def)
  qed
qed

lemma bodiesOf_cong: "(\<And>k. k \<in> set supportedKinds \<Longrightarrow> res k = res' k) \<Longrightarrow> bodiesOf res sn \<longleftrightarrow> bodiesOf res' sn"
  by (simp add: bodiesOf_def supportedKinds_def)

context resource_store
begin

lemma listed_documents:
  assumes "inv s" and "listing (view s kind) items"
  obtains ids where "set ids = dom (view s kind)" and "map env_Value items = map (view s kind) ids"
    and "\<forall>i\<in>set ids. \<exists>m. view s kind i = Some (AMap m) \<and> resource i (AMap m) \<and> i \<noteq> []"
proof -
  obtain ids where ids: "set ids = dom (view s kind)" "map env_Value items = map (view s kind) ids"
    using assms(2) by (auto simp: listing_def)
  have "\<exists>m. view s kind i = Some (AMap m) \<and> resource i (AMap m) \<and> i \<noteq> []" if "i \<in> set ids" for i
  proof -
    obtain v where v: "view s kind i = Some v" using ids(1) \<open>i \<in> set ids\<close> by auto
    with view_resource [OF assms(1) v] show ?thesis by (cases v) (auto simp: resource_def addressable_def plainSegment_def)
  qed
  with ids show ?thesis using that by blast
qed

lemma snapshotKinds_outcome:
  assumes "set kinds \<subseteq> set supportedKinds" and "inv s" and "bodiesOf (\<lambda>k j. if k \<in> seen then view s k j else None) sn"
    and "snapshotKinds store sn kinds s = (s', r)"
  shows "inv s' \<and> view s' = view s
    \<and> (case r of
         Inl e \<Rightarrow> (\<exists>msg. e = StoreFailed msg) \<or> e = ErrInvalidBody \<and> undecodable (view s)
       | Inr sn' \<Rightarrow> bodiesOf (\<lambda>k j. if k \<in> seen \<union> set kinds then view s k j else None) sn')"
  using assms
proof (induction kinds arbitrary: s seen sn)
  case (Cons kind kinds)
  obtain s1 rl where l: "st_List store kind s = (s1, rl)" by force
  have kind: "kind \<in> set supportedKinds" using Cons.prems(1) by simp
  note law = list_law [OF Cons.prems(2) kind l]
  show ?case
  proof (cases rl)
    case (Inl e)
    with law l Cons.prems(4) show ?thesis by auto
  next
    case (Inr items)
    with law obtain ids where ids: "set ids = dom (view s kind)" "map env_Value items = map (view s kind) ids"
      "\<forall>i\<in>set ids. \<exists>m. view s kind i = Some (AMap m) \<and> resource i (AMap m) \<and> i \<noteq> []"
      using listed_documents [OF Cons.prems(2), of kind items] by auto
    note got = snapshotItems_outcome [OF kind ids(2,3) Cons.prems(3)]
    have eq: "(\<lambda>k j. if k = kind \<and> j \<in> set ids then view s kind j else if k \<in> seen then view s k j else None)
        = (\<lambda>k j. if k \<in> insert kind seen then view s k j else None)" using ids(1) by (auto simp: fun_eq_iff domIff)
    show ?thesis
    proof (cases "snapshotItems sn kind items")
      case inner: (Inl e)
      then have r: "r = Inl e" "s' = s1" using l Inr Cons.prems(4) by auto
      show ?thesis using got law unfolding inner r by (auto simp: undecodable_def)
    next
      case inner: (Inr sn1)
      have b: "bodiesOf (\<lambda>k j. if k \<in> insert kind seen then view s k j else None) sn1" using got unfolding inner eq by simp
      have same: "inv s1" "view s1 = view s" using law by auto
      have all: "insert kind seen \<union> set kinds = seen \<union> set (kind # kinds)" by simp
      show ?thesis using Cons.IH [of s1 "insert kind seen" sn1, unfolded same(2) all] Cons.prems(1,4) same(1) b l Inr inner by simp
    qed
  qed
qed (auto split: sum.splits)

lemma snapshotFromStore_outcome:
  assumes "inv s" and "snapshotFromStore store s = (s', r)"
  shows "inv s' \<and> view s' = view s
    \<and> (case r of
         Inl e \<Rightarrow> (\<exists>msg. e = StoreFailed msg) \<or> e = ErrInvalidBody \<and> undecodable (view s)
       | Inr sn \<Rightarrow> bodiesOf (view s) sn)"
proof -
  have empty: "bodiesOf (\<lambda>k j. if k \<in> {} then view s k j else None) NewSnapshot"
    by (simp add: bodiesOf_def NewSnapshot_def readGroup_def)
  have "view s k j = None" if "k \<notin> set supportedKinds" for k j
    using that view_resource [OF assms(1), of k j] by (cases "view s k j") (auto simp: addressable_def)
  then have all: "(\<lambda>k j. if k \<in> {} \<union> set supportedKinds then view s k j else None) = view s" by (auto simp: fun_eq_iff)
  show ?thesis
    using snapshotKinds_outcome [OF _ assms(1) empty, of supportedKinds s' r, unfolded all] assms(2)
    by (simp add: snapshotFromStore_def SupportedKinds_def)
qed

lemma ValidateResource_outcome:
  assumes inv: "inv s" and kind: "kind \<in> set supportedKinds" and i: "i \<noteq> []" and doc: "normalDoc i body = Some doc"
    and run: "ValidateResource store kind i body s = (s', r)"
  shows "inv s' \<and> view s' = view s
    \<and> (case r of
         Inl e \<Rightarrow> (\<exists>msg. e = StoreFailed msg)
           \<or> e = ErrInvalidBody \<and> (\<not> decodable kind doc \<or> undecodable (view s))
       | Inr result \<Rightarrow> \<exists>sn. bodiesOf (update_resource kind i (Some doc) (view s)) sn
           \<and> vr_Valid result = snapshotOK sn \<and> (vr_Issues result = [] \<longleftrightarrow> snapshotOK sn))"
proof -
  obtain m where m: "doc = AMap m" and norm: "NormalizeResourceBody body i = Inr (Some (AMap m))"
    using doc NormalizeResourceBody_outcome [of body i] by (auto simp: normalDoc_def split: sum.splits)
  obtain s1 rs where snap: "snapshotFromStore store s = (s1, rs)" by force
  note got = snapshotFromStore_outcome [OF inv snap]
  have run': "(case rs of Inl e \<Rightarrow> (s1, Inl e) | Inr sn \<Rightarrow>
      (case applyResourceBody sn kind i (Some doc) of Inl e \<Rightarrow> (s1, Inl e) | Inr sn \<Rightarrow> (s1, Inr (validateSnapshot sn kind i)))) = (s', r)"
    using run kind i norm snap by (simp add: ValidateResource_def validateKind_def validatedID_def m cong: sum.case_cong)
  show ?thesis
  proof (cases rs)
    case (Inl e)
    with run' got show ?thesis by auto
  next
    case (Inr sn)
    then have "bodiesOf (view s) sn" using got by simp
    from applyResourceBody_outcome [OF kind this, where i = i and m = m] run' got Inr validateSnapshot_valid show ?thesis
      unfolding m by (auto split: sum.splits)
  qed
qed

lemma ValidateBundle_outcome:
  assumes inv: "inv s" and groups: "\<forall>(kind, grp)\<in>set (fb_Resources b). distinct (map fst grp)"
    and run: "ValidateBundle store b options s = (s', r)"
  shows "inv s' \<and> view s' = view s
    \<and> (case r of
         Inl e \<Rightarrow> (\<exists>msg. e = StoreFailed msg) \<or> e = ErrInvalidBody
       | Inr result \<Rightarrow> \<exists>sn. bodiesOf (bundleView b (resolvePruneKinds b \<lparr>ao_PruneKinds = vo_PruneKinds options, ao_Prune = vo_Prune options\<rparr>) (view s)) sn
           \<and> vr_Valid result = snapshotOK sn \<and> (vr_Issues result = [] \<longleftrightarrow> snapshotOK sn))"
proof -
  let ?prune = "resolvePruneKinds b \<lparr>ao_PruneKinds = vo_PruneKinds options, ao_Prune = vo_Prune options\<rparr>"
  obtain s1 rs where snap: "snapshotFromStore store s = (s1, rs)" by force
  note got = snapshotFromStore_outcome [OF inv snap]
  show ?thesis
  proof (cases rs)
    case (Inl e)
    with run snap got show ?thesis by (auto simp: ValidateBundle_def)
  next
    case (Inr sn)
    then have sn: "bodiesOf (\<lambda>k j. if k \<in> set supportedKinds then view s k j else bundleView b ?prune (view s) k j) sn"
      using got bodiesOf_cong [of "view s" "\<lambda>k j. if k \<in> set supportedKinds then view s k j else bundleView b ?prune (view s) k j" sn] by simp
    have "distinct supportedKinds" by (simp add: supportedKinds_def kinds_apart)
    note put = validateKinds_outcome [OF subset_refl this groups sn]
    show ?thesis
    proof (cases "validateKinds b ?prune supportedKinds sn")
      case inner: (Inl e)
      with put have "e = ErrInvalidBody" by simp
      with run snap got Inr inner show ?thesis by (auto simp: ValidateBundle_def SupportedKinds_def Let_def)
    next
      case inner: (Inr sn')
      with put have sn': "bodiesOf (bundleView b ?prune (view s)) sn'" by simp
      obtain kind i where "fallback b SupportedKinds = (kind, i)" by force
      then have "s' = s1" "r = Inr (validateSnapshot sn' kind i)"
        using run snap Inr inner by (auto simp: ValidateBundle_def SupportedKinds_def Let_def)
      with got sn' validateSnapshot_valid show ?thesis by auto
    qed
  qed
qed

end

section \<open>Validation and the gateway\<close>

text \<open>The members of a document that the gateway reads. A document with plain members spells them as they are.\<close>

definition fieldNames :: "string list" where
  "fieldNames = [''id'', ''uri'', ''uris'', ''methods'', ''hosts'', ''service_id'', ''upstream_id'', ''plugin_config_id'', ''upstream'',
     ''plugins'', ''priority'', ''status'', ''type'', ''scheme'', ''pass_host'', ''upstream_host'', ''timeout'', ''nodes'']"

definition plainMembers :: "(string \<times> any) list \<Rightarrow> bool" where
  "plainMembers m \<longleftrightarrow> (\<forall>(k, v)\<in>set m. \<forall>f\<in>set fieldNames. EqualFold k f \<longrightarrow> k = f)"

definition plainBundle :: "FileBundle \<Rightarrow> bool" where
  "plainBundle b \<longleftrightarrow>
     (\<forall>(kind, g)\<in>set (fb_Resources b). \<forall>(i, raw)\<in>set g. case raw of Some (AMap m) \<Rightarrow> plainMembers m | _ \<Rightarrow> True)"

lemma jsonField_plain:
  assumes "distinct (map fst m)" and "plainMembers m" and "f \<in> set fieldNames"
  shows "jsonField f m = map_of m f"
  using assms(1,2)
proof (induction m)
  case (Cons p m)
  obtain k v where p: "p = (k, v)" by force
  have IH: "jsonField f m = map_of m f" using Cons by (auto simp: plainMembers_def)
  have "EqualFold k f \<longleftrightarrow> k = f" using Cons.prems(2) assms(3) by (auto simp: plainMembers_def p EqualFold_def)
  moreover have "map_of m k = None" using Cons.prems(1) by (simp add: p map_of_eq_None_iff)
  ultimately show ?case using IH by (auto simp: p jsonField_Cons split: option.splits)
qed (simp add: jsonField_def)

lemma decode_cong:
  assumes "\<And>f. f \<in> set fieldNames \<Longrightarrow> jsonField f m = jsonField f m'"
  shows "decodeRoute m = decodeRoute m'" "decodeService m = decodeService m'" "decodeUpstream m = decodeUpstream m'"
    "decodePluginConfig m = decodePluginConfig m'" "decodeGlobalRule m = decodeGlobalRule m'"
  using assms by (simp_all add: fieldNames_def decodeRoute_def decodeService_def decodeUpstream_def decodePluginConfig_def decodeGlobalRule_def)

text \<open>The times that a write adds are not read.\<close>

definition timeNames :: "string list" where
  "timeNames = [''create_time'', ''update_time'']"

lemma times_not_read: "f \<in> set fieldNames \<Longrightarrow> t \<in> set timeNames \<Longrightarrow> \<not> EqualFold t f"
proof -
  have "\<forall>t\<in>set timeNames. \<forall>f\<in>set fieldNames. \<not> EqualFold t f" by code_simp
  then show "f \<in> set fieldNames \<Longrightarrow> t \<in> set timeNames \<Longrightarrow> \<not> EqualFold t f" by blast
qed

lemma plainMembers_similar:
  assumes "plainMembers m" and "\<And>k v. map_of m' k = Some v \<Longrightarrow> k \<in> set timeNames \<or> k \<in> fst ` set m" and "distinct (map fst m')"
  shows "plainMembers m'"
  unfolding plainMembers_def
proof (clarify)
  fix k v f assume kv: "(k, v) \<in> set m'" "f \<in> set fieldNames" "EqualFold k f"
  from kv(1) have "map_of m' k = Some v" using assms(3) by simp
  then consider "k \<in> set timeNames" | w where "(k, w) \<in> set m" using assms(2) by force
  then show "k = f" using kv(2,3) times_not_read assms(1) by cases (auto simp: plainMembers_def)
qed

text \<open>A stored document and the normalised one read the same.\<close>

lemma deployed_reads_same:
  assumes raw: "storableRaw raw" "\<And>m. raw = Some (AMap m) \<Longrightarrow> plainMembers m" and v: "deploys i raw (AMap mv)"
    and doc: "normalDoc i raw = Some (AMap md)" and f: "f \<in> set fieldNames"
  shows "jsonField f mv = jsonField f md"
proof -
  obtain m where m: "raw = Some (AMap m)" "resource i (AMap mv)"
    and same: "\<And>k. k \<noteq> ''create_time'' \<and> k \<noteq> ''update_time'' \<Longrightarrow> map_of mv k = (if k = ''id'' then Some (AString i) else map_of m k)"
    using v by (auto simp: deploys_def)
  have "document (AMap m)" using raw(1) m(1) by (simp add: storableRaw_def storable_def)
  then have "document (AMap (map_put ''id'' (AString i) m))" by (auto dest!: set_map_put)
  then have js: "jsonify (AMap (map_put ''id'' (AString i) m)) = AMap (map_put ''id'' (AString i) m)"
    and dp: "distinct (map fst (map_put ''id'' (AString i) m))" using jsonify_document document_AMap by blast+
  have md: "md = map_put ''id'' (AString i) m"
    using doc m(1) by (simp add: normalDoc_def NormalizeResourceBody_def decodeJSONObject_def decodeMap_def js del: jsonify.simps)
  have dd: "distinct (map fst md)" unfolding md by (rule dp)
  have dv: "distinct (map fst mv)" using m(2) by (simp add: resource_def)
  have id: "''id'' \<notin> set timeNames" "''id'' \<in> set fieldNames" by code_simp+
  have pm: "plainMembers m" using raw(2) m(1) by simp
  have pd: "plainMembers md" unfolding md plainMembers_def
  proof (clarify)
    fix k w f assume "(k, w) \<in> set (map_put ''id'' (AString i) m)" "f \<in> set fieldNames" "EqualFold k f"
    moreover have "\<forall>f\<in>set fieldNames. EqualFold ''id'' f \<longrightarrow> ''id'' = f" by code_simp
    ultimately show "k = f" using pm by (auto simp: plainMembers_def dest!: set_map_put)
  qed
  have "plainMembers mv"
  proof (rule plainMembers_similar [OF pd _ dv])
    fix k w assume k: "map_of mv k = Some w"
    show "k \<in> set timeNames \<or> k \<in> fst ` set md"
    proof (cases "k \<in> set timeNames")
      case False
      then have "map_of md k = Some w" using k same [of k] by (auto simp: md timeNames_def split: if_splits)
      then show ?thesis by (force dest: map_of_SomeD)
    qed simp
  qed
  moreover have "map_of mv f = map_of md f"
  proof -
    have "f \<notin> set timeNames" using times_not_read [OF f, of f] by (auto simp: EqualFold_def)
    then show ?thesis using same [of f] by (auto simp: md timeNames_def)
  qed
  ultimately show ?thesis using jsonField_plain [OF dv _ f] jsonField_plain [OF dd pd f] by simp
qed

text \<open>Two stores whose documents read the same have the same snapshots.\<close>

definition readsSame :: "any option \<Rightarrow> any option \<Rightarrow> bool" where
  "readsSame a b \<longleftrightarrow> a = b \<or> (\<exists>m m'. a = Some (AMap m) \<and> b = Some (AMap m') \<and> (\<forall>f\<in>set fieldNames. jsonField f m = jsonField f m'))"

definition fieldwise :: "((string \<times> any) list \<Rightarrow> 'a option) \<Rightarrow> bool" where
  "fieldwise dec \<longleftrightarrow> (\<forall>m m'. (\<forall>f\<in>set fieldNames. jsonField f m = jsonField f m') \<longrightarrow> dec m = dec m')"

lemma decoders_fieldwise:
  "fieldwise decodeRoute" "fieldwise decodeService" "fieldwise decodeUpstream" "fieldwise decodePluginConfig" "fieldwise decodeGlobalRule"
  unfolding fieldwise_def by (intro allI impI decode_cong; blast)+

lemma readGroup_readsSame:
  assumes "fieldwise dec"
    and "\<And>i. readsSame (g i) (g' i)" and "readGroup (bodyAs dec upd) g grp"
  shows "readGroup (bodyAs dec upd) g' grp"
proof -
  have "Option.bind (g i) (bodyAs dec upd i) = Option.bind (g' i) (bodyAs dec upd i)" for i
  proof -
    consider "g i = g' i" | m m' where "g i = Some (AMap m)" "g' i = Some (AMap m')" "\<forall>f\<in>set fieldNames. jsonField f m = jsonField f m'"
      using assms(2) [of i] by (auto simp: readsSame_def)
    then show ?thesis
    proof cases
      case (2 m m')
      then have "dec m = dec m'" using assms(1) by (simp add: fieldwise_def)
      with 2 show ?thesis by (simp add: bodyAs_def)
    qed simp
  qed
  with assms(3) show ?thesis by (simp add: readGroup_def)
qed

lemma bodiesOf_readsSame:
  assumes "\<And>k i. k \<in> set supportedKinds \<Longrightarrow> readsSame (res k i) (res' k i)" and "bodiesOf res sn"
  shows "bodiesOf res' sn"
proof -
  have k: "KindRoute \<in> set supportedKinds" "KindService \<in> set supportedKinds" "KindUpstream \<in> set supportedKinds"
    "KindPluginConfig \<in> set supportedKinds" "KindGlobalRule \<in> set supportedKinds" by (simp_all add: supportedKinds_def)
  show ?thesis
    using assms(2) readGroup_readsSame [OF decoders_fieldwise(1), where g = "res KindRoute" and g' = "res' KindRoute", OF assms(1) [OF k(1)]]
      readGroup_readsSame [OF decoders_fieldwise(2), where g = "res KindService" and g' = "res' KindService", OF assms(1) [OF k(2)]]
      readGroup_readsSame [OF decoders_fieldwise(3), where g = "res KindUpstream" and g' = "res' KindUpstream", OF assms(1) [OF k(3)]]
      readGroup_readsSame [OF decoders_fieldwise(4), where g = "res KindPluginConfig" and g' = "res' KindPluginConfig", OF assms(1) [OF k(4)]]
      readGroup_readsSame [OF decoders_fieldwise(5), where g = "res KindGlobalRule" and g' = "res' KindGlobalRule", OF assms(1) [OF k(5)]]
    unfolding bodiesOf_def by blast
qed

lemma applied_reads_validated:
  assumes b: "bundleOK b" "plainBundle b" and ap: "applied b prune res res'" and kind: "kind \<in> set supportedKinds"
  shows "readsSame (bundleView b prune res kind i) (res' kind i)"
proof (cases "desired b kind i")
  case None
  moreover have "if concerned b prune kind i then reached b prune kind i (res' kind i) else res' kind i = res kind i"
    using ap by (simp add: applied_def)
  ultimately show ?thesis by (auto simp: concerned_def reached_def readsSame_def bundleView_def split: if_splits)
next
  case (Some raw)
  then obtain g where g: "(kind, g) \<in> set (fb_Resources b)" "(i, raw) \<in> set g"
    by (auto simp: desired_def split: option.splits dest!: map_of_SomeD)
  have raw: "storableRaw raw" "\<And>m. raw = Some (AMap m) \<Longrightarrow> plainMembers m"
    using b g by (fastforce simp: bundleOK_def groupOK_def plainBundle_def)+
  have "concerned b prune kind i" using Some by (simp add: concerned_def)
  then have "reached b prune kind i (res' kind i)" using ap by (auto simp: applied_def)
  then obtain mv where v: "res' kind i = Some (AMap mv)" "deploys i raw (AMap mv)"
    using Some by (auto simp: reached_def deploys_def)
  obtain m where m: "raw = Some (AMap m)" using v(2) by (auto simp: deploys_def)
  then obtain md where "normalDoc i raw = Some (AMap md)"
    by (auto simp: normalDoc_def NormalizeResourceBody_def decodeJSONObject_def decodeMap_def)
  with v deployed_reads_same [OF raw v(2)] Some show ?thesis by (auto simp: readsSame_def bundleView_def)
qed

text \<open>The checks do not look at the identifiers inside the resources.\<close>

lemma read_keys:
  assumes "readGroup (bodyAs dec upd) g grp" and "readGroup (readAs dec getID upd) g grp'"
  shows "fst ` set grp' = fst ` set grp"
proof -
  have "map_of grp' i = None \<longleftrightarrow> map_of grp i = None" for i
    using assms by (cases "g i") (auto simp: readGroup_def bodyAs_def readAs_def split: any.splits)
  then show ?thesis by (auto simp: map_of_eq_None_iff)
qed

lemma read_member:
  assumes "readGroup (bodyAs dec upd) g grp" and "readGroup (readAs dec getID upd) g grp'" and "(i, x') \<in> set grp'"
  obtains x where "(i, upd (\<lambda>_. i) x) \<in> set grp" and "x' = x \<or> x' = upd (\<lambda>_. i) x"
proof -
  have "map_of grp' i = Some x'" using assms(2,3) map_of_is_SomeI [of grp' i x'] by (simp only: readGroup_def)
  then obtain v where "g i = Some v" "readAs dec getID upd i v = Some x'"
    using assms(2) by (auto simp: readGroup_def bind_eq_Some_conv)
  then obtain m x where "g i = Some (AMap m)" "dec m = Some x" "x' = x \<or> x' = upd (\<lambda>_. i) x"
    by (cases v) (auto simp: readAs_def split: if_splits)
  moreover from this have "map_of grp i = Some (upd (\<lambda>_. i) x)" using assms(1) by (simp add: readGroup_def bodyAs_def)
  ultimately show ?thesis using that map_of_SomeD by metis
qed

lemma snapshotOK_read:
  assumes b: "bodiesOf res sn" and r: "snapshotOf res sn'" and ok: "snapshotOK sn"
  shows "snapshotOK sn'"
proof -
  have bg: "readGroup (bodyAs decodeRoute ar_ID_update) (res KindRoute) (ss_Routes sn)"
    "readGroup (bodyAs decodeService as_ID_update) (res KindService) (ss_Services sn)"
    "readGroup (bodyAs decodeUpstream au_ID_update) (res KindUpstream) (ss_Upstreams sn)" using b by (auto simp: bodiesOf_def)
  have rg: "readGroup (readAs decodeRoute ar_ID ar_ID_update) (res KindRoute) (ss_Routes sn')"
    "readGroup (readAs decodeService as_ID as_ID_update) (res KindService) (ss_Services sn')"
    "readGroup (readAs decodeUpstream au_ID au_ID_update) (res KindUpstream) (ss_Upstreams sn')"
    using r by (auto simp: snapshotOf_def readRoute_def readService_def readUpstream_def)
  note keys = read_keys [OF bg(2) rg(2)] read_keys [OF bg(3) rg(3)]
  have "upstreamOK up" if member: "(i, up) \<in> set (ss_Upstreams sn')" for i up
  proof -
    obtain x where "(i, x\<lparr>au_ID := i\<rparr>) \<in> set (ss_Upstreams sn)" "up = x \<or> up = x\<lparr>au_ID := i\<rparr>"
      using read_member [OF bg(3) rg(3) member] .
    moreover from this have "upstreamOK (x\<lparr>au_ID := i\<rparr>)" using ok by (auto simp: snapshotOK_def)
    ultimately show ?thesis by (auto simp: upstreamOK_def)
  qed
  moreover have "serviceOK sn' svc" if member: "(i, svc) \<in> set (ss_Services sn')" for i svc
  proof -
    obtain x where "(i, x\<lparr>as_ID := i\<rparr>) \<in> set (ss_Services sn)" "svc = x \<or> svc = x\<lparr>as_ID := i\<rparr>"
      using read_member [OF bg(2) rg(2) member] .
    moreover from this have "serviceOK sn (x\<lparr>as_ID := i\<rparr>)" using ok by (auto simp: snapshotOK_def)
    ultimately show ?thesis unfolding serviceOK_def keys by (elim disjE) simp_all
  qed
  moreover have "routeOK sn' route" if member: "(i, route) \<in> set (ss_Routes sn')" for i route
  proof -
    obtain x where "(i, x\<lparr>ar_ID := i\<rparr>) \<in> set (ss_Routes sn)" "route = x \<or> route = x\<lparr>ar_ID := i\<rparr>"
      using read_member [OF bg(1) rg(1) member] .
    moreover from this have "routeOK sn (x\<lparr>ar_ID := i\<rparr>)" using ok by (auto simp: snapshotOK_def)
    ultimately show ?thesis unfolding routeOK_def keys by (elim disjE) simp_all
  qed
  ultimately show ?thesis by (auto simp: snapshotOK_def)
qed

section \<open>Properties\<close>

text \<open>
  C28. What validating a resource means, for a supported kind, an identifier that is not empty and a body that is a JSON object. Nothing
  is changed. The request fails only with an error of the store, or when the document or a stored one does not
  decode. Otherwise the result is valid exactly when, with the document in place of the stored one, every upstream has a member
  \<^verbatim>\<open>nodes\<close>, be it empty; every service has an inline upstream or names one, every route has a path and an inline upstream or names
  a service or an upstream; and each service and upstream that is named so is stored. A plugin configuration that is named need
  not be stored. A result that is not valid lists at least one issue.
\<close>

theorem validate_resource_meaning:
  assumes "etcd_store client kvs prefix" and "etcdInv (normalizePrefix prefix) (kvs s)" and "kind \<in> set supportedKinds" and "i \<noteq> []"
    and "normalDoc i body = Some doc"
    and "ValidateResource (etcdStore (NewEtcdStoreWithClient client prefix)) kind i body s = (s', r)"
  shows "etcdView (normalizePrefix prefix) (kvs s') = etcdView (normalizePrefix prefix) (kvs s)
    \<and> (case r of
         Inl e \<Rightarrow> (\<exists>msg. e = StoreFailed msg)
           \<or> e = ErrInvalidBody \<and> (\<not> decodable kind doc \<or> undecodable (etcdView (normalizePrefix prefix) (kvs s)))
       | Inr result \<Rightarrow> \<exists>sn. bodiesOf (update_resource kind i (Some doc) (etcdView (normalizePrefix prefix) (kvs s))) sn
           \<and> vr_Valid result = snapshotOK sn \<and> (vr_Issues result = [] \<longleftrightarrow> snapshotOK sn))"
  using resource_store.ValidateResource_outcome [OF etcd_store.is_store [OF assms(1)] assms(2-)] by simp

theorem validate_resource_meaning_witness:
  "\<exists>sn. bodiesOf (update_resource KindRoute sampleRoute (normalDoc sampleRoute (Some (AMap routeBody)))
        (etcdView (normalizePrefix productionPrefix) (memKvs stockedMemory))) sn
     \<and> snapshotOK sn \<and> ss_Routes sn \<noteq> []"
proof -
  let ?r = "ValidateResource memoryStore KindRoute sampleRoute (Some (AMap routeBody)) stockedMemory"
  have "(\<lambda>r. case snd r of Inl _ \<Rightarrow> False | Inr result \<Rightarrow> vr_Valid result) ?r" by code_simp
  then obtain s' result where r: "?r = (s', Inr result)" "vr_Valid result" by (cases ?r) (auto split: sum.splits)
  have "KindRoute \<in> set supportedKinds" "sampleRoute \<noteq> []" by code_simp+
  moreover obtain doc where doc: "normalDoc sampleRoute (Some (AMap routeBody)) = Some doc" "decodable KindRoute doc"
  proof -
    have "(case normalDoc sampleRoute (Some (AMap routeBody)) of None \<Rightarrow> False | Some doc \<Rightarrow> decodable KindRoute doc)" by code_simp
    then show ?thesis using that by (auto split: option.splits)
  qed
  ultimately obtain sn where sn: "bodiesOf (update_resource KindRoute sampleRoute (Some doc)
        (etcdView (normalizePrefix productionPrefix) (memKvs stockedMemory))) sn" "snapshotOK sn"
    using validate_resource_meaning [OF etcd_store_production stocked_inv _ _ _ r(1) [unfolded memoryStore_def]] r(2) by auto
  have "map_of (ss_Routes sn) sampleRoute \<noteq> None"
    using sn(1) doc(2) by (auto simp: bodiesOf_def readGroup_def update_resource_def bodyAs_def decodable_def split: any.splits)
  then show ?thesis using sn doc(1) by auto
qed

text \<open>
  C29. Validate, apply, load. A bundle has storable resources under plain identifiers, and spells the members that are read as they
  are, without other letter cases. When it validates, is then applied with the same choice of kinds to prune, and the gateway
  loads a snapshot afterwards, then in that snapshot each service and upstream that a route or a service names is present, every
  upstream has a member \<^verbatim>\<open>nodes\<close>, every service an upstream, and every route a path and a target. Nothing is said of the plugin
  configurations that are named.
\<close>

theorem validated_bundle_loads_resolved:
  assumes "etcd_store client kvs prefix" and "etcdInv (normalizePrefix prefix) (kvs s)" and "bundleOK b" and "plainBundle b"
    and "ValidateBundle (etcdStore (NewEtcdStoreWithClient client prefix)) b \<lparr>vo_PruneKinds = ks, vo_Prune = prune\<rparr> s = (s1, Inr result)"
    and "vr_Valid result"
    and "ApplyBundleWithOptions (etcdStore (NewEtcdStoreWithClient client prefix)) now b \<lparr>ao_PruneKinds = ks, ao_Prune = prune\<rparr> s1 = (s2, Inr counts)"
    and "loadSnapshot (sourceOf client prefix listen) ctx s2 = (s3, Inr loaded)"
  shows "snapshotOK loaded"
proof -
  let ?view = "\<lambda>s. etcdView (normalizePrefix prefix) (kvs s)" and ?prune = "resolvePruneKinds b \<lparr>ao_PruneKinds = ks, ao_Prune = prune\<rparr>"
  note store = etcd_store.is_store [OF assms(1)]
  have "\<forall>(kind, grp)\<in>set (fb_Resources b). distinct (map fst grp)" using assms(3) by (auto simp: bundleOK_def groupOK_def)
  from resource_store.ValidateBundle_outcome [OF store assms(2) this assms(5)] assms(6)
  obtain sn where inv1: "etcdInv (normalizePrefix prefix) (kvs s1)" and same: "?view s1 = ?view s"
    and sn: "bodiesOf (bundleView b ?prune (?view s)) sn" "snapshotOK sn" by auto
  have inv2: "etcdInv (normalizePrefix prefix) (kvs s2)" and ap: "applied b ?prune (?view s) (?view s2)"
    using resource_store.ApplyBundle_outcome [OF store assms(3) inv1 assms(7)] same by auto
  have "bodiesOf (?view s2) sn"
    by (rule bodiesOf_readsSame [OF applied_reads_validated [OF assms(3,4) ap] sn(1)])
  moreover have "snapshotOf (?view s2) loaded" using loadSnapshot_outcome [OF assms(1) inv2 assms(8)] by simp
  ultimately show ?thesis using snapshotOK_read sn(2) by blast
qed

definition routeBundle :: FileBundle where
  "routeBundle = \<lparr>fb_Resources = [(KindRoute, [(''7'', Some (AMap [(''uri'', AString ''/users/*''), (''service_id'', AString ''s1'')]))])],
     fb_Meta = emptyMeta\<rparr>"

definition bundleValidated :: "memory \<times> (cp_error + ValidationResult)" where
  "bundleValidated = ValidateBundle memoryStore routeBundle \<lparr>vo_PruneKinds = [], vo_Prune = True\<rparr> stockedMemory"

definition bundleApplied :: "memory \<times> (cp_error + ApplyResult)" where
  "bundleApplied = ApplyBundleWithOptions memoryStore me_clock routeBundle \<lparr>ao_PruneKinds = [], ao_Prune = True\<rparr> stockedMemory"

definition deployedMemory :: memory where
  "deployedMemory = stockedMemory\<lparr>me_kvs := me_kvs stockedMemory @
     [(resourceKey productionPrefix KindRoute ''7'', Some (AMap [(''uri'', AString ''/users/*''), (''service_id'', AString ''s1''),
        (''id'', AString ''7''), (''update_time'', AFloat 1700000000), (''create_time'', AFloat 1700000000)]), 1, 1)],
     me_revision := 1\<rparr>"

definition bundleLoaded :: "memory \<times> (provider_error + ApisixSnapshot)" where
  "bundleLoaded = loadSnapshot (sourceOf memClient productionPrefix '':80'') \<lparr>ctx_Deadline = None\<rparr> deployedMemory"

lemma returned: "(\<lambda>r. case snd r of Inl e \<Rightarrow> False | Inr x \<Rightarrow> P x \<and> fst r = s) run \<Longrightarrow> \<exists>x. run = (s, Inr x) \<and> P x"
  by (cases run) (auto split: sum.splits)

lemma bundle_validated: "\<exists>result. bundleValidated = (stockedMemory, Inr result) \<and> vr_Valid result"
  by (rule returned) code_simp

lemma bundle_applied: "\<exists>counts. bundleApplied = (deployedMemory, Inr counts) \<and> True"
  by (rule returned) code_simp

lemma bundle_loaded: "\<exists>loaded. bundleLoaded = (deployedMemory, Inr loaded) \<and> map fst (ss_Routes loaded) = [''7'']"
proof -
  have "(\<lambda>r. case snd r of Inl e \<Rightarrow> False | Inr sn \<Rightarrow> map fst (ss_Routes sn) = [''7''] \<and> fst r = deployedMemory) bundleLoaded" by code_simp
  from returned [OF this] show ?thesis .
qed

theorem validated_bundle_loads_resolved_witness:
  "\<exists>loaded. bundleLoaded = (deployedMemory, Inr loaded) \<and> snapshotOK loaded \<and> map fst (ss_Routes loaded) = [''7'']"
proof -
  obtain result where v: "bundleValidated = (stockedMemory, Inr result)" "vr_Valid result" using bundle_validated by blast
  obtain counts where a: "bundleApplied = (deployedMemory, Inr counts)" using bundle_applied by blast
  obtain loaded where l: "bundleLoaded = (deployedMemory, Inr loaded)" "map fst (ss_Routes loaded) = [''7'']" using bundle_loaded by (elim exE conjE)
  have b: "bundleOK routeBundle" "plainBundle routeBundle" by code_simp+
  have "snapshotOK loaded"
    by (rule validated_bundle_loads_resolved [OF etcd_store_production stocked_inv b v(1) [unfolded bundleValidated_def memoryStore_def] v(2)
        a [unfolded bundleApplied_def memoryStore_def] l(1) [unfolded bundleLoaded_def]])
  with l show ?thesis by (intro exI conjI)
qed

text \<open>
  C30. In a snapshot without dangling references no route by service is lost: when its services name upstreams and their
  plugins translate, and its upstreams translate with a supported scheme, every route that translates and names a service
  is in the configuration, under its key and with that service.
\<close>

theorem resolved_routes_are_configured:
  assumes ok: "snapshotOK sn" and out: "ApisixSnapshotToConfig sn listen = Inr out" and "distinct (map fst (ss_Routes sn))"
    and svcs: "\<forall>(i, svc)\<in>set (ss_Services sn). as_UpstreamID svc \<noteq> []
      \<and> \<not> isl (apisixMergePlugins (as_PluginConfigID svc) (as_Plugins svc) (ss_PluginConfig sn))"
    and ups: "\<forall>(i, up)\<in>set (ss_Upstreams sn). case apisixUpstreamToConfig up of Inl _ \<Rightarrow> False
      | Inr u \<Rightarrow> upstream_Scheme u \<in> {[], ''http'', ''https''}"
    and route: "(k, route) \<in> set (ss_Routes sn)" "apisixRouteToConfig route (ss_PluginConfig sn) = Inr rt" "ar_ServiceID route \<noteq> []"
  shows "map_of (Routes out) k = Some (rt\<lparr>route_Service := ar_ServiceID route\<rparr>)"
proof -
  obtain svc where svc: "(ar_ServiceID route, svc) \<in> set (ss_Services sn)"
  proof -
    have "routeOK sn route" using ok route(1) by (auto simp: snapshotOK_def)
    then have "ar_ServiceID route \<in> fst ` set (ss_Services sn)" using route(3) by (simp add: routeOK_def)
    then show ?thesis using that by force
  qed
  then obtain plugins where plugins: "as_UpstreamID svc \<noteq> []"
    "apisixMergePlugins (as_PluginConfigID svc) (as_Plugins svc) (ss_PluginConfig sn) = Inr plugins"
    using svcs by (cases "apisixMergePlugins (as_PluginConfigID svc) (as_Plugins svc) (ss_PluginConfig sn)") auto
  obtain up where up: "(as_UpstreamID svc, up) \<in> set (ss_Upstreams sn)"
  proof -
    have "serviceOK sn svc" using ok svc by (auto simp: snapshotOK_def)
    then have "as_UpstreamID svc \<in> fst ` set (ss_Upstreams sn)" using plugins(1) by (simp add: serviceOK_def)
    then show ?thesis using that by force
  qed
  then obtain u where "apisixUpstreamToConfig up = Inr u" "upstream_Scheme u \<in> {[], ''http'', ''https''}"
    using ups by (cases "apisixUpstreamToConfig up") (auto simp del: insert_iff)
  with translate_keeps [OF out assms(3) route(1,2) refl route(3) svc refl plugins up] show ?thesis by simp
qed

theorem resolved_routes_are_configured_witness:
  "\<exists>out rt. ApisixSnapshotToConfig sampleSnapshot '':80'' = Inr out
     \<and> map_of (Routes out) ''r1'' = Some (rt\<lparr>route_Service := ''s1''\<rparr>) \<and> route_Paths (rt :: RouteOptions) = [''/api/'']"
proof -
  let ?rt = "projr (apisixRouteToConfig sampleApisixRoute [])"
  have out: "ApisixSnapshotToConfig sampleSnapshot '':80'' = Inr (projr (ApisixSnapshotToConfig sampleSnapshot '':80''))"
  proof -
    have "\<not> isl (ApisixSnapshotToConfig sampleSnapshot '':80'')" by code_simp
    then show ?thesis by (cases "ApisixSnapshotToConfig sampleSnapshot '':80''") simp_all
  qed
  have facts: "snapshotOK sampleSnapshot" "distinct (map fst (ss_Routes sampleSnapshot))"
    "\<forall>(i, svc)\<in>set (ss_Services sampleSnapshot). as_UpstreamID svc \<noteq> []
      \<and> \<not> isl (apisixMergePlugins (as_PluginConfigID svc) (as_Plugins svc) (ss_PluginConfig sampleSnapshot))"
    "\<forall>(i, up)\<in>set (ss_Upstreams sampleSnapshot). case apisixUpstreamToConfig up of Inl _ \<Rightarrow> False
      | Inr u \<Rightarrow> upstream_Scheme u \<in> {[], ''http'', ''https''}"
    "apisixRouteToConfig sampleApisixRoute (ss_PluginConfig sampleSnapshot) = Inr ?rt" "route_Paths ?rt = [''/api/'']"
    "ar_ServiceID sampleApisixRoute \<noteq> []" by code_simp+
  have "(''r1'', sampleApisixRoute) \<in> set (ss_Routes sampleSnapshot)" "ar_ServiceID sampleApisixRoute = ''s1''"
    by (simp_all add: sampleSnapshot_def sampleApisixRoute_def)
  with resolved_routes_are_configured [OF facts(1) out facts(2-4) this(1) facts(5,7)] out facts(6) show ?thesis by metis
qed

text \<open>
  Validation is no promise of translation: an upstream whose nodes are an empty object, and a route whose only path is
  empty, are valid, and the translation drops both.
\<close>

lemma valid_but_dropped:
  "snapshotOK (sampleSnapshot\<lparr>ss_Upstreams := [(''u1'', sampleApisixUpstream\<lparr>au_Nodes := Some (AMap [])\<rparr>)]\<rparr>)
   \<and> \<not> snapshotOK danglingSnapshot
   \<and> isl (apisixUpstreamToConfig (sampleApisixUpstream\<lparr>au_Nodes := Some (AMap [])\<rparr>))
   \<and> routeOK sampleSnapshot (sampleApisixRoute\<lparr>ar_URI := [], ar_URIs := [[]]\<rparr>)
   \<and> isl (apisixRouteToConfig (sampleApisixRoute\<lparr>ar_URI := [], ar_URIs := [[]]\<rparr>) [])"
  by code_simp

text \<open>
  Nor of references: a route that names a plugin configuration which does not exist is valid, and the translation drops it.
\<close>

lemma plugin_config_unchecked:
  "snapshotOK (sampleSnapshot\<lparr>ss_Routes := [(''r1'', sampleApisixRoute\<lparr>ar_PluginConfigID := ''missing''\<rparr>)]\<rparr>)
   \<and> isl (apisixRouteToConfig (sampleApisixRoute\<lparr>ar_PluginConfigID := ''missing''\<rparr>) (ss_PluginConfig sampleSnapshot))"
  by code_simp

end
