(* ===== verification/History.thy ===== *)
theory History
  imports Bundle
begin

text \<open>
  The history of configurations: \<^verbatim>\<open>internal/controlplane/history.go\<close>, \<^verbatim>\<open>historystore.go\<close> and the
  history operations of the service in \<^verbatim>\<open>controlplane.go\<close>. An entry holds an exported bundle; it is stored in etcd
  as a JSON document, \<open>marshalEntry\<close> and \<open>unmarshalEntry\<close> being the encoding of the struct and its decoding; as
  everywhere in \<open>Json\<close>, strings are valid UTF-8 and so are encoded without change. An
  interface of type \<^verbatim>\<open>HistoryStore\<close> is a record of operations, \<^term>\<open>None\<close> the nil interface.
\<close>

section \<open>Entries\<close>

record HistoryEntry =
  he_ID :: string
  he_CreatedAt :: string
  he_Source :: string
  he_Summary :: HistorySummary
  he_Actor :: string
  he_Note :: string
  he_RollbackOf :: string
  he_Bundle :: FileBundle

text \<open>\<^verbatim>\<open>omitempty\<close>.\<close>

definition omitString :: "string \<Rightarrow> string \<Rightarrow> (string \<times> any) list" where
  "omitString key s = (if s = [] then [] else [(key, AString s)])"

definition marshalSummary :: "HistorySummary \<Rightarrow> any" where
  "marshalSummary s =
     AMap ((if hs_Counts s = [] then [] else [(''counts'', AMap (map (map_prod id (\<lambda>n. AFloat (of_int n))) (hs_Counts s)))])
           @ (if hs_ManagedKinds s = [] then [] else [(''managed_kinds'', AList (map AString (hs_ManagedKinds s)))]))"

definition marshalMeta :: "BundleMeta \<Rightarrow> any" where
  "marshalMeta m =
     AMap (omitString ''format'' (bm_Format m) @ omitString ''exported_at'' (bm_ExportedAt m)
           @ omitString ''etcd_prefix'' (bm_EtcdPrefix m)
           @ (if bm_ManagedKinds m = [] then [] else [(''managed_kinds'', AList (map AString (bm_ManagedKinds m)))]))"

text \<open>A nil message is written as \<^verbatim>\<open>null\<close>.\<close>

definition marshalRaw :: "RawMessage \<Rightarrow> any" where
  "marshalRaw raw = (case raw of None \<Rightarrow> ANil | Some v \<Rightarrow> v)"

definition marshalBundle :: "FileBundle \<Rightarrow> any" where
  "marshalBundle b =
     AMap [(''Resources'', AMap (map (map_prod id (\<lambda>g. AMap (map (map_prod id marshalRaw) g))) (fb_Resources b))),
           (''Meta'', marshalMeta (fb_Meta b))]"

definition marshalEntry :: "HistoryEntry \<Rightarrow> any" where
  "marshalEntry e =
     AMap ([(''id'', AString (he_ID e)), (''created_at'', AString (he_CreatedAt e)), (''source'', AString (he_Source e)),
            (''summary'', marshalSummary (he_Summary e))]
           @ omitString ''actor'' (he_Actor e) @ omitString ''note'' (he_Note e) @ omitString ''rollback_of'' (he_RollbackOf e)
           @ [(''bundle'', marshalBundle (he_Bundle e))])"

text \<open>A struct is decoded from an object; \<^verbatim>\<open>null\<close> leaves the zero value.\<close>

definition asObject :: "any option \<Rightarrow> (string \<times> any) list option" where
  "asObject v = (case v of None \<Rightarrow> Some [] | Some ANil \<Rightarrow> Some [] | Some (AMap m) \<Rightarrow> Some m | _ \<Rightarrow> None)"

definition asRaw :: "any option \<Rightarrow> RawMessage option" where
  "asRaw v = Some v"

definition unmarshalSummary :: "any option \<Rightarrow> HistorySummary option" where
  "unmarshalSummary v =
     do {m \<leftarrow> asObject v;
         counts \<leftarrow> asMapOf asInt (jsonField ''counts'' m);
         kinds \<leftarrow> asStrings (jsonField ''managed_kinds'' m);
         Some \<lparr>hs_Counts = counts, hs_ManagedKinds = kinds\<rparr>}"

definition unmarshalMeta :: "any option \<Rightarrow> BundleMeta option" where
  "unmarshalMeta v =
     do {m \<leftarrow> asObject v;
         fmt \<leftarrow> asString (jsonField ''format'' m);
         exported \<leftarrow> asString (jsonField ''exported_at'' m);
         etcdPrefix \<leftarrow> asString (jsonField ''etcd_prefix'' m);
         kinds \<leftarrow> asStrings (jsonField ''managed_kinds'' m);
         Some \<lparr>bm_Format = fmt, bm_ExportedAt = exported, bm_EtcdPrefix = etcdPrefix, bm_ManagedKinds = kinds\<rparr>}"

definition unmarshalBundle :: "any option \<Rightarrow> FileBundle option" where
  "unmarshalBundle v =
     do {m \<leftarrow> asObject v;
         resources \<leftarrow> asMapOf (asMapOf asRaw) (jsonField ''Resources'' m);
         meta \<leftarrow> unmarshalMeta (jsonField ''Meta'' m);
         Some \<lparr>fb_Resources = resources, fb_Meta = meta\<rparr>}"

definition unmarshalEntry :: "RawMessage \<Rightarrow> HistoryEntry option" where
  "unmarshalEntry raw =
     do {v \<leftarrow> raw;
         m \<leftarrow> asObject (Some v);
         i \<leftarrow> asString (jsonField ''id'' m);
         created \<leftarrow> asString (jsonField ''created_at'' m);
         source \<leftarrow> asString (jsonField ''source'' m);
         summary \<leftarrow> unmarshalSummary (jsonField ''summary'' m);
         actor \<leftarrow> asString (jsonField ''actor'' m);
         note' \<leftarrow> asString (jsonField ''note'' m);
         rollbackOf \<leftarrow> asString (jsonField ''rollback_of'' m);
         bundle \<leftarrow> unmarshalBundle (jsonField ''bundle'' m);
         Some \<lparr>he_ID = i, he_CreatedAt = created, he_Source = source, he_Summary = summary, he_Actor = actor,
               he_Note = note', he_RollbackOf = rollbackOf, he_Bundle = bundle\<rparr>}"

section \<open>The history store\<close>

record 's HistoryStore =
  hist_Save :: "HistoryEntry \<Rightarrow> int \<Rightarrow> ('s, HistoryEntry) op"
  hist_List :: "int \<Rightarrow> ('s, HistoryEntry list) op"
  hist_Get :: "string \<Rightarrow> ('s, HistoryEntry) op"

record 's EtcdHistoryStore =
  eh_client :: "'s etcdKVClient"
  eh_root :: string

definition historyNamespace :: "string \<Rightarrow> string" where
  "historyNamespace prefix = ReplaceAll (Trim (normalizePrefix prefix) ''/'') ''/'' ''__''"

definition NewEtcdHistoryStoreWithClient :: "'s etcdKVClient \<Rightarrow> string \<Rightarrow> 's EtcdHistoryStore" where
  "NewEtcdHistoryStoreWithClient client prefix =
     \<lparr>eh_client = client, eh_root = pathJoin [''/lumen/history'', historyNamespace prefix] @ ''/''\<rparr>"

definition historyKey :: "'s EtcdHistoryStore \<Rightarrow> string \<Rightarrow> string" where
  "historyKey st i = pathJoin [eh_root st, i]"

text \<open>\<^verbatim>\<open>path.Base\<close>: the last segment, without trailing slashes.\<close>

definition Base :: "string \<Rightarrow> string" where
  "Base p =
     (if p = [] then ''.''
      else let p' = TrimRight p ''/'' in if p' = [] then ''/'' else last (Split p' CHR ''/''))"

fun historyItems :: "string \<Rightarrow> KeyValue list \<Rightarrow> cp_error + HistoryEntry list" where
  "historyItems rootKey [] = Inr []"
| "historyItems rootKey (kv # kvs) =
     (if kv_Key kv = rootKey \<or> kv_Key kv = TrimSuffix rootKey ''/'' then historyItems rootKey kvs
      else case unmarshalEntry (kv_Value kv) of
        None \<Rightarrow> Inl (StoreFailed ''decode history entry'')
      | Some entry \<Rightarrow>
          (let entry = (if he_ID entry = [] then entry\<lparr>he_ID := Base (kv_Key kv)\<rparr> else entry) in
           case historyItems rootKey kvs of Inl e \<Rightarrow> Inl e | Inr items \<Rightarrow> Inr (entry # items)))"

definition historyList :: "'s EtcdHistoryStore \<Rightarrow> int \<Rightarrow> ('s, HistoryEntry list) op" where
  "historyList st limit s =
     (case ec_GetPrefix (eh_client st) (eh_root st) s of
        (s, Inl err) \<Rightarrow> (s, Inl (StoreFailed err))
      | (s, Inr kvs) \<Rightarrow>
          (case historyItems (eh_root st) kvs of
             Inl e \<Rightarrow> (s, Inl e)
           | Inr items \<Rightarrow>
               (let items = rev (sort_key he_ID items)
                in (s, Inr (if limit > 0 \<and> int (length items) > limit then take (nat limit) items else items)))))"

fun historyTrim :: "'s EtcdHistoryStore \<Rightarrow> HistoryEntry list \<Rightarrow> ('s, unit) op" where
  "historyTrim st [] s = (s, Inr ())"
| "historyTrim st (item # items) s =
     (case ec_Delete (eh_client st) (historyKey st (he_ID item)) s of
        (s, Inl err) \<Rightarrow> (s, Inl (StoreFailed err))
      | (s, Inr _) \<Rightarrow> historyTrim st items s)"

definition historySave :: "('s \<Rightarrow> int) \<Rightarrow> 's EtcdHistoryStore \<Rightarrow> HistoryEntry \<Rightarrow> int \<Rightarrow> ('s, HistoryEntry) op" where
  "historySave nano st entry0 limit s =
     (let entry = (if he_ID entry0 = [] then entry0\<lparr>he_ID := generateResourceID nano s\<rparr> else entry0) in
      case ec_Put (eh_client st) (historyKey st (he_ID entry)) (Some (marshalEntry entry)) s of
        (s, Inl err) \<Rightarrow> (s, Inl (StoreFailed err))
      | (s, Inr _) \<Rightarrow>
          if limit > 0 then
            (case historyList st 0 s of
               (s, Inl e) \<Rightarrow> (s, Inl e)
             | (s, Inr items) \<Rightarrow>
                 (case historyTrim st (drop (nat limit) items) s of
                    (s, Inl e) \<Rightarrow> (s, Inl e)
                  | (s, Inr _) \<Rightarrow> (s, Inr entry)))
          else (s, Inr entry))"

definition historyGet :: "'s EtcdHistoryStore \<Rightarrow> string \<Rightarrow> ('s, HistoryEntry) op" where
  "historyGet st i s =
     (case ec_Get (eh_client st) (historyKey st i) s of
        (s, Inl err) \<Rightarrow> (s, Inl (StoreFailed err))
      | (s, Inr []) \<Rightarrow> (s, Inl ErrNotFound)
      | (s, Inr (kv # _)) \<Rightarrow>
          (case unmarshalEntry (kv_Value kv) of
             None \<Rightarrow> (s, Inl (StoreFailed ''decode history entry''))
           | Some entry \<Rightarrow> (s, Inr (if he_ID entry = [] then entry\<lparr>he_ID := i\<rparr> else entry))))"

definition etcdHistory :: "('s \<Rightarrow> int) \<Rightarrow> 's EtcdHistoryStore \<Rightarrow> 's HistoryStore" where
  "etcdHistory nano st = \<lparr>hist_Save = historySave nano st, hist_List = historyList st, hist_Get = historyGet st\<rparr>"

section \<open>The service\<close>

text \<open>The whole service: its stores, its options and the clocks it reads.\<close>

record 's CpService =
  sv_store :: "'s Store"
  sv_history :: "'s HistoryStore option"
  sv_exportOptions :: ExportOptions
  sv_historyLimit :: int
  sv_now :: "'s \<Rightarrow> int"
  sv_nano :: "'s \<Rightarrow> int"
  sv_stamp :: "'s \<Rightarrow> string"

definition NewService :: "('s \<Rightarrow> int) \<Rightarrow> ('s \<Rightarrow> int) \<Rightarrow> ('s \<Rightarrow> string) \<Rightarrow> 's Store \<Rightarrow> ('s CpService \<Rightarrow> 's CpService) list \<Rightarrow> 's CpService" where
  "NewService now nano stamp store opts =
     fold (\<lambda>opt svc. opt svc) opts
       \<lparr>sv_store = store, sv_history = None,
        sv_exportOptions = \<lparr>eo_EtcdPrefix = [], eo_IncludeKinds = [], eo_IncludeMeta = True\<rparr>, sv_historyLimit = 10,
        sv_now = now, sv_nano = nano, sv_stamp = stamp\<rparr>"

definition WithHistory :: "'s HistoryStore \<Rightarrow> int \<Rightarrow> ExportOptions \<Rightarrow> 's CpService \<Rightarrow> 's CpService" where
  "WithHistory store limit exportOptions svc =
     svc\<lparr>sv_history := Some store, sv_historyLimit := (if limit > 0 then limit else sv_historyLimit svc),
         sv_exportOptions := exportOptions\<lparr>eo_IncludeMeta := True\<rparr>\<rparr>"

definition zeroEntry :: HistoryEntry where
  "zeroEntry =
     \<lparr>he_ID = [], he_CreatedAt = [], he_Source = [], he_Summary = \<lparr>hs_Counts = [], hs_ManagedKinds = []\<rparr>, he_Actor = [],
      he_Note = [], he_RollbackOf = [], he_Bundle = \<lparr>fb_Resources = [], fb_Meta = emptyMeta\<rparr>\<rparr>"

definition saveHistorySnapshot ::
    "'s CpService \<Rightarrow> string \<Rightarrow> string \<Rightarrow> string \<Rightarrow> string \<Rightarrow> ('s, HistoryEntry) op" where
  "saveHistorySnapshot svc source actor note' rollbackOf s =
     (case sv_history svc of
        None \<Rightarrow> (s, Inr zeroEntry)
      | Some history \<Rightarrow>
          (case ExportBundleWithOptions (sv_store svc) (sv_stamp svc) (sv_exportOptions svc) s of
             (s, Inl e) \<Rightarrow> (s, Inl e)
           | (s, Inr bundle) \<Rightarrow>
               hist_Save history
                 \<lparr>he_ID = generateResourceID (sv_nano svc) s, he_CreatedAt = sv_stamp svc s, he_Source = source,
                  he_Summary = summarizeBundle bundle, he_Actor = actor, he_Note = note', he_RollbackOf = rollbackOf,
                  he_Bundle = bundle\<rparr> (sv_historyLimit svc) s))"

definition SaveHistorySnapshot :: "'s CpService \<Rightarrow> string \<Rightarrow> ('s, HistoryEntry) op" where
  "SaveHistorySnapshot svc source = saveHistorySnapshot svc source [] [] []"

definition ListHistory :: "'s CpService \<Rightarrow> int \<Rightarrow> ('s, HistoryEntry list) op" where
  "ListHistory svc limit s =
     (case sv_history svc of
        None \<Rightarrow> (s, Inr [])
      | Some history \<Rightarrow> hist_List history (if limit \<le> 0 then sv_historyLimit svc else limit) s)"

text \<open>The result and the new entry, with the error of saving it, if any.\<close>

definition RollbackHistory ::
    "'s CpService \<Rightarrow> string \<Rightarrow> ('s, ApplyResult \<times> (cp_error + HistoryEntry)) op" where
  "RollbackHistory svc i s =
     (case sv_history svc of
        None \<Rightarrow> (s, Inl ErrNotFound)
      | Some history \<Rightarrow>
          (case hist_Get history i s of
             (s, Inl e) \<Rightarrow> (s, Inl e)
           | (s, Inr target) \<Rightarrow>
               (case ApplyBundleWithOptions (sv_store svc) (sv_now svc) (he_Bundle target)
                       \<lparr>ao_PruneKinds = bm_ManagedKinds (fb_Meta (he_Bundle target)), ao_Prune = True\<rparr> s of
                  (s, Inl e) \<Rightarrow> (s, Inl e)
                | (s, Inr result) \<Rightarrow>
                    (case saveHistorySnapshot svc ''history_rollback'' [] [] i s of
                       (s, saved) \<Rightarrow> (s, Inr (result, saved))))))"

end
