(* ===== verification/Admin_Schema.thy ===== *)
theory Admin_Schema
  imports Controlplane
begin

text \<open>
  The description of the admin API that it serves itself (\<^verbatim>\<open>internal/adminapi/schema.go\<close>).
\<close>

record fieldSchema =
  fs_Name :: string
  fs_Type :: string
  fs_Required :: bool
  fs_Description :: string

record resourceSchema =
  rs_Kind :: string
  rs_Label :: string
  rs_Description :: string
  rs_Methods :: "string list"
  rs_KeyFields :: "fieldSchema list"
  rs_Examples :: "(string \<times> string) list"

record pluginCapability =
  pc_Name :: string
  pc_Label :: string
  pc_Description :: string
  pc_Scopes :: "string list"
  pc_TranslatedTo :: "string list"

record validationIssueField =
  vf_Name :: string
  vf_Type :: string
  vf_Description :: string

record controlCapabilities =
  cc_BundleFormats :: "string list"
  cc_ExportFormats :: "string list"
  cc_HistoryLimit :: int
  cc_PreviewActions :: "string list"
  cc_Supports :: "(string \<times> bool) list"
  cc_ValidationIssueShape :: "validationIssueField list"

record schemaResponse =
  sr_Resources :: "resourceSchema list"
  sr_Plugins :: "pluginCapability list"
  sr_Capabilities :: controlCapabilities

definition fieldOf :: "string \<Rightarrow> string \<Rightarrow> bool \<Rightarrow> string \<Rightarrow> fieldSchema" where
  "fieldOf name typ required description =
     \<lparr>fs_Name = name, fs_Type = typ, fs_Required = required, fs_Description = description\<rparr>"

definition routeSchema :: resourceSchema where
  "routeSchema =
     \<lparr>rs_Kind = KindRoute, rs_Label = ''Route'',
      rs_Description = ''Matches incoming traffic and attaches a service or upstream plus plugins.'',
      rs_Methods = [''GET'', ''POST'', ''PUT'', ''PATCH'', ''DELETE''],
      rs_KeyFields =
        [fieldOf ''id'' ''string'' False ''Unique route identifier.'',
         fieldOf ''uri'' ''string'' False ''Single APISIX URI matcher.'',
         fieldOf ''uris'' ''array[string]'' False ''Multiple URI matchers; one of uri or uris is expected.'',
         fieldOf ''hosts'' ''array[string]'' False ''Optional host matchers.'',
         fieldOf ''methods'' ''array[string]'' False ''Optional HTTP method matchers.'',
         fieldOf ''service_id'' ''string'' False ''References a service resource.'',
         fieldOf ''upstream_id'' ''string'' False ''References an upstream when no service is used.'',
         fieldOf ''plugin_config_id'' ''string'' False ''References a reusable APISIX plugin_config.'',
         fieldOf ''plugins'' ''object'' False ''Inline APISIX plugin configuration.''],
      rs_Examples = [(''uri'', ''/users/*'')]\<rparr>"

definition serviceSchema :: resourceSchema where
  "serviceSchema =
     \<lparr>rs_Kind = KindService, rs_Label = ''Service'',
      rs_Description = ''Reusable upstream and plugin attachment target for routes.'',
      rs_Methods = [''GET'', ''POST'', ''PUT'', ''PATCH'', ''DELETE''],
      rs_KeyFields =
        [fieldOf ''id'' ''string'' False ''Unique service identifier.'',
         fieldOf ''upstream_id'' ''string'' False ''References an upstream resource.'',
         fieldOf ''plugin_config_id'' ''string'' False ''References a reusable APISIX plugin_config.'',
         fieldOf ''plugins'' ''object'' False ''Inline APISIX plugin configuration.''],
      rs_Examples = []\<rparr>"

definition upstreamSchema :: resourceSchema where
  "upstreamSchema =
     \<lparr>rs_Kind = KindUpstream, rs_Label = ''Upstream'',
      rs_Description = ''Backend target pool and proxy behavior configuration.'',
      rs_Methods = [''GET'', ''POST'', ''PUT'', ''PATCH'', ''DELETE''],
      rs_KeyFields =
        [fieldOf ''id'' ''string'' False ''Unique upstream identifier.'',
         fieldOf ''type'' ''string'' False ''Load balancer type; roundrobin is supported today.'',
         fieldOf ''scheme'' ''string'' False ''http or https.'',
         fieldOf ''nodes'' ''object'' True ''Map of host:port to weight.'',
         fieldOf ''pass_host'' ''string'' False ''pass, node, or rewrite.'',
         fieldOf ''upstream_host'' ''string'' False ''Required when pass_host=rewrite.'',
         fieldOf ''timeout'' ''object'' False ''connect, send, and read timeout values.''],
      rs_Examples = []\<rparr>"

definition pluginConfigSchema :: resourceSchema where
  "pluginConfigSchema =
     \<lparr>rs_Kind = KindPluginConfig, rs_Label = ''Plugin Config'',
      rs_Description = ''Reusable APISIX plugin bundle referenced by routes or services.'',
      rs_Methods = [''GET'', ''POST'', ''PUT'', ''PATCH'', ''DELETE''],
      rs_KeyFields =
        [fieldOf ''id'' ''string'' False ''Unique plugin config identifier.'',
         fieldOf ''plugins'' ''object'' True ''Map of APISIX plugin name to plugin config.''],
      rs_Examples = []\<rparr>"

definition globalRuleSchema :: resourceSchema where
  "globalRuleSchema =
     \<lparr>rs_Kind = KindGlobalRule, rs_Label = ''Global Rule'',
      rs_Description = ''Globally applied APISIX plugins merged into every request.'',
      rs_Methods = [''GET'', ''POST'', ''PUT'', ''PATCH'', ''DELETE''],
      rs_KeyFields =
        [fieldOf ''id'' ''string'' False ''Unique global rule identifier.'',
         fieldOf ''plugins'' ''object'' True ''Map of APISIX plugin name to plugin config.''],
      rs_Examples = []\<rparr>"

definition pluginCapabilities :: "pluginCapability list" where
  "pluginCapabilities =
     [\<lparr>pc_Name = ''proxy-rewrite'', pc_Label = ''Proxy Rewrite'',
       pc_Description = ''Rewrites request path, method, host, and headers before proxying.'',
       pc_Scopes = [''route'', ''service'', ''plugin_config'', ''global_rule''], pc_TranslatedTo = [''rewrite_path_regex'', ''request_transformer'', ''replace_path'']\<rparr>,
      \<lparr>pc_Name = ''response-rewrite'', pc_Label = ''Response Rewrite'',
       pc_Description = ''Rewrites response status, headers, and body after upstream handling.'',
       pc_Scopes = [''route'', ''service'', ''plugin_config'', ''global_rule''], pc_TranslatedTo = [''response_transformer'']\<rparr>,
      \<lparr>pc_Name = ''request-id'', pc_Label = ''Request ID'',
       pc_Description = ''Generates or propagates request IDs to request and response headers.'',
       pc_Scopes = [''route'', ''service'', ''plugin_config'', ''global_rule''], pc_TranslatedTo = [''request_id'']\<rparr>,
      \<lparr>pc_Name = ''limit-count'', pc_Label = ''Limit Count'',
       pc_Description = ''Applies in-memory fixed-window request limiting by route and key.'',
       pc_Scopes = [''route'', ''service'', ''plugin_config'', ''global_rule''], pc_TranslatedTo = [''limit_count'']\<rparr>]"

definition capabilities :: controlCapabilities where
  "capabilities =
     \<lparr>cc_BundleFormats = [''json'', ''yaml''], cc_ExportFormats = [''json'', ''yaml''], cc_HistoryLimit = 10,
      cc_PreviewActions = [''create'', ''update'', ''delete'', ''unchanged''],
      cc_Supports = [(''validate'', True), (''preview'', True), (''apply'', True), (''export'', True), (''history'', True), (''rollback'', True), (''selective_prune'', True), (''bundle_yaml_input'', True), (''bundle_json_input'', True)],
      cc_ValidationIssueShape =
        [\<lparr>vf_Name = ''resource'', vf_Type = ''string'', vf_Description = ''APISIX resource kind such as routes or services.''\<rparr>,
         \<lparr>vf_Name = ''resource_id'', vf_Type = ''string'', vf_Description = ''Resource identifier when known.''\<rparr>,
         \<lparr>vf_Name = ''field'', vf_Type = ''string'', vf_Description = ''Best-effort field hint for UI focus and highlighting.''\<rparr>,
         \<lparr>vf_Name = ''message'', vf_Type = ''string'', vf_Description = ''Human-readable validation message.''\<rparr>]\<rparr>"

definition buildSchemaResponse :: schemaResponse where
  "buildSchemaResponse =
     \<lparr>sr_Resources = [routeSchema, serviceSchema, upstreamSchema, pluginConfigSchema, globalRuleSchema],
      sr_Plugins = pluginCapabilities, sr_Capabilities = capabilities\<rparr>"

text \<open>The schema names the kinds of the control plane in their order, with the methods that the handler of a resource knows,
  the names of the actions of a plan, and the formats that the export knows.\<close>

lemma schema_describes_api:
  "map rs_Kind (sr_Resources buildSchemaResponse) = SupportedKinds
   \<and> list_all (\<lambda>r. rs_Methods r = [''GET'', ''POST'', ''PUT'', ''PATCH'', ''DELETE'']) (sr_Resources buildSchemaResponse)
   \<and> cc_ExportFormats (sr_Capabilities buildSchemaResponse) = [''json'', ''yaml'']
   \<and> map vf_Name (cc_ValidationIssueShape (sr_Capabilities buildSchemaResponse)) = [''resource'', ''resource_id'', ''field'', ''message'']"
  by code_simp

end
