(* ===== verification/Admin_Api.thy ===== *)
theory Admin_Api
  imports Validation Preview Resource_Summary History Observability Bootstrap Admin_Schema
begin

text \<open>
  The admin API (\<^verbatim>\<open>internal/adminapi/adminapi.go\<close>): authorization, the paths, the resource and control
  handlers over the service of the control plane, list queries with their filter and pages, and the responses.

  A response carries the value that is written, before it is encoded: it consists of JSON values, so that encoding it
  does not fail. The request is what the handler reads of the framework: method, path, header fields, query arguments in
  their order, and the body, which is \<^term>\<open>None\<close> if it is not JSON. The text of a JSON value and the YAML decoder and
  encoder are parameters. A slice with bounds out of range is a panic.
\<close>

section \<open>Requests and responses\<close>

record AdminRequest =
  aq_Method :: string
  aq_Path :: string
  aq_Header :: "string \<Rightarrow> string"
  aq_Query :: "(string \<times> string) list"
  aq_Body :: RawMessage

record PluginCatalogEntry =
  pce_Name :: string
  pce_Scopes :: "string list"

record operationMetadata =
  om_OperationID :: string
  om_CreatedAt :: string
  om_Source :: string
  om_Summary :: HistorySummary
  om_Actor :: string
  om_Note :: string
  om_RollbackOf :: string

record listQuery =
  lq_Page :: int
  lq_PageSize :: int
  lq_Keyword :: string

record listResourceItem =
  li_Envelope :: Envelope
  li_Summary :: ResourceSummary

datatype payload =
    ErrorMsg string
  | Message string
  | ControlError string string
  | EnvelopeBody Envelope
  | DeleteBody DeleteResult
  | ListBody "listResourceItem list" int listQuery
  | ValidationBody ValidationResult
  | RejectedBody "issue_message option" ValidationResult
  | PlanBody ApplyPlan
  | OperationBody ApplyResult HistoryEntry operationMetadata
  | BundleBody "(string \<times> any) list"
  | YamlBody string
  | HistoryBody "HistoryEntry list" int
  | CatalogBody "PluginCatalogEntry list"
  | StatsBody GatewayStats
  | SchemaBody schemaResponse

record AdminResponse =
  adm_Status :: int
  adm_Header :: "(string \<times> string) list"
  adm_Body :: "payload option"

definition setCORSHeaders :: "AdminResponse \<Rightarrow> AdminResponse" where
  "setCORSHeaders c = c\<lparr>adm_Header :=
     map_put ''Access-Control-Max-Age'' ''86400''
       (map_put ''Access-Control-Allow-Headers'' ''Content-Type, X-API-KEY''
         (map_put ''Access-Control-Allow-Methods'' ''GET, POST, PUT, PATCH, DELETE, OPTIONS''
           (map_put ''Access-Control-Allow-Origin'' ''*'' (adm_Header c))))\<rparr>"

definition writeAPISIXBody :: "int \<Rightarrow> payload \<Rightarrow> AdminResponse \<Rightarrow> AdminResponse" where
  "writeAPISIXBody status body c =
     (let c = setCORSHeaders c
      in c\<lparr>adm_Header := map_put ''Content-Type'' ''application/json'' (adm_Header c), adm_Status := status, adm_Body := Some body\<rparr>)"

definition writeJSON :: "int \<Rightarrow> payload \<Rightarrow> AdminResponse \<Rightarrow> AdminResponse" where
  "writeJSON status body c = writeAPISIXBody status body c"

definition writeError :: "int \<Rightarrow> string \<Rightarrow> AdminResponse \<Rightarrow> AdminResponse" where
  "writeError status message c = writeJSON status (ErrorMsg message) c"

definition writeMessage :: "int \<Rightarrow> string \<Rightarrow> AdminResponse \<Rightarrow> AdminResponse" where
  "writeMessage status message c = writeJSON status (Message message) c"

definition writeControlError :: "int \<Rightarrow> string \<Rightarrow> string \<Rightarrow> AdminResponse \<Rightarrow> AdminResponse" where
  "writeControlError status code message c = writeJSON status (ControlError code message) c"

fun errorText :: "cp_error \<Rightarrow> string" where
  "errorText ErrUnsupportedKind = ''unsupported resource kind''"
| "errorText ErrNotFound = ''resource not found''"
| "errorText ErrInvalidBody = ''invalid resource body''"
| "errorText (StoreFailed msg) = msg"

fun writeMappedError :: "cp_error \<Rightarrow> AdminResponse \<Rightarrow> AdminResponse" where
  "writeMappedError ErrNotFound c = writeMessage 404 ''Key not found'' c"
| "writeMappedError ErrInvalidBody c = writeError 400 (errorText ErrInvalidBody) c"
| "writeMappedError ErrUnsupportedKind c = writeMessage 404 ''Key not found'' c"
| "writeMappedError (StoreFailed msg) c = writeError 502 (errorText (StoreFailed msg)) c"

fun writeControlMappedError :: "cp_error \<Rightarrow> AdminResponse \<Rightarrow> AdminResponse" where
  "writeControlMappedError ErrNotFound c = writeControlError 404 ''not_found'' ''Key not found'' c"
| "writeControlMappedError ErrInvalidBody c = writeControlError 400 ''invalid_request'' (errorText ErrInvalidBody) c"
| "writeControlMappedError ErrUnsupportedKind c = writeControlError 400 ''invalid_request'' (errorText ErrUnsupportedKind) c"
| "writeControlMappedError (StoreFailed msg) c = writeControlError 502 ''controlplane_error'' (errorText (StoreFailed msg)) c"

section \<open>Queries\<close>

text \<open>\<^verbatim>\<open>strconv.Atoi\<close>.\<close>

definition decimalDigits :: "string \<Rightarrow> int option" where
  "decimalDigits s =
     (if s \<noteq> [] \<and> list_all (\<lambda>c. CHR ''0'' \<le> c \<and> c \<le> CHR ''9'') s
      then Some (fold (\<lambda>c n. n * 10 + (of_char c - 48)) s 0) else None)"

definition Atoi :: "string \<Rightarrow> int option" where
  "Atoi s =
     (let number = (case s of
            c # rest \<Rightarrow>
              if c = CHR ''-'' then map_option uminus (decimalDigits rest) else if c = CHR ''+'' then decimalDigits rest else decimalDigits s
          | [] \<Rightarrow> None)
      in case number of
           Some n \<Rightarrow> if - (2 ^ 63) \<le> n \<and> n < 2 ^ 63 then Some n else None
         | None \<Rightarrow> None)"

definition queryValue :: "AdminRequest \<Rightarrow> string \<Rightarrow> string" where
  "queryValue rq key = (case map_of (aq_Query rq) key of Some v \<Rightarrow> v | None \<Rightarrow> [])"

definition headersOrQueryList :: "AdminRequest \<Rightarrow> string \<Rightarrow> string list" where
  "headersOrQueryList rq key = map snd (filter (\<lambda>(k, v). k = key) (aq_Query rq))"

text \<open>A positive number in the query, or the default.\<close>

definition positiveQuery :: "AdminRequest \<Rightarrow> string \<Rightarrow> int \<Rightarrow> int" where
  "positiveQuery rq key dflt =
     (let raw = TrimSpace (queryValue rq key) in
      if raw \<noteq> [] then (case Atoi raw of Some v \<Rightarrow> if v > 0 then v else dflt | None \<Rightarrow> dflt) else dflt)"

definition parseListQuery :: "AdminRequest \<Rightarrow> listQuery" where
  "parseListQuery rq =
     \<lparr>lq_Page = positiveQuery rq ''page'' 1, lq_PageSize = min (positiveQuery rq ''page_size'' 50) 200,
      lq_Keyword = TrimSpace (queryValue rq ''keyword'')\<rparr>"

definition filterEnvelopes :: "(RawMessage \<Rightarrow> string) \<Rightarrow> Envelope list \<Rightarrow> string \<Rightarrow> Envelope list" where
  "filterEnvelopes rawText items keyword =
     (if TrimSpace keyword = [] then items
      else
        let keyword = ToLower keyword in
        filter (\<lambda>item.
          let candidates = [env_Key item, rawText (env_Value item)];
              candidates = (case ExtractResourceID (env_Value item) of
                Inr i \<Rightarrow> if i \<noteq> [] then candidates @ [i] else candidates
              | Inl _ \<Rightarrow> candidates)
          in list_ex (\<lambda>v. Contains (ToLower v) keyword) candidates) items)"

text \<open>\<^term>\<open>None\<close> is the panic of a slice out of range.\<close>

definition paginateEnvelopes :: "'a list \<Rightarrow> int \<Rightarrow> int \<Rightarrow> 'a list option" where
  "paginateEnvelopes items page pageSize =
     (if items = [] then Some []
      else
        let start = wrap64 (wrap64 (page - 1) * pageSize) in
        if start \<ge> int (length items) then Some []
        else
          let stop = min (wrap64 (start + pageSize)) (int (length items)) in
          if 0 \<le> start \<and> start \<le> stop then Some (take (nat (stop - start)) (drop (nat start) items)) else None)"

fun parseKindNames :: "string list \<Rightarrow> cp_error + ResourceKind list" where
  "parseKindNames [] = Inr []"
| "parseKindNames (name # names) =
     (case ParseKind name of
       (kind, False) \<Rightarrow> Inl ErrInvalidBody
     | (kind, True) \<Rightarrow> (case parseKindNames names of Inl e \<Rightarrow> Inl e | Inr kinds \<Rightarrow> Inr (kind # kinds)))"

section \<open>Decoding of bodies\<close>

record bundleRequest =
  br_Bundle :: RawMessage
  br_Content :: string
  br_Prune :: bool
  br_PruneKinds :: "string list"
  br_IncludeUnchanged :: bool

record validateRequest =
  vq_Kind :: string
  vq_ID :: string
  vq_Resource :: RawMessage
  vq_Bundle :: RawMessage
  vq_Content :: string
  vq_Prune :: bool
  vq_PruneKinds :: "string list"

definition unmarshalBundleRequest :: "RawMessage \<Rightarrow> bundleRequest option" where
  "unmarshalBundleRequest body =
     do {v \<leftarrow> body;
         m \<leftarrow> asObject (Some v);
         content \<leftarrow> asString (jsonField ''content'' m);
         prune \<leftarrow> asBool (jsonField ''prune'' m);
         pruneKinds \<leftarrow> asStrings (jsonField ''prune_kinds'' m);
         includeUnchanged \<leftarrow> asBool (jsonField ''include_unchanged'' m);
         Some \<lparr>br_Bundle = jsonField ''bundle'' m, br_Content = content, br_Prune = prune, br_PruneKinds = pruneKinds,
               br_IncludeUnchanged = includeUnchanged\<rparr>}"

definition unmarshalValidateRequest :: "RawMessage \<Rightarrow> validateRequest option" where
  "unmarshalValidateRequest body =
     do {v \<leftarrow> body;
         m \<leftarrow> asObject (Some v);
         kind \<leftarrow> asString (jsonField ''kind'' m);
         i \<leftarrow> asString (jsonField ''id'' m);
         content \<leftarrow> asString (jsonField ''content'' m);
         prune \<leftarrow> asBool (jsonField ''prune'' m);
         pruneKinds \<leftarrow> asStrings (jsonField ''prune_kinds'' m);
         Some \<lparr>vq_Kind = kind, vq_ID = i, vq_Resource = jsonField ''resource'' m, vq_Bundle = jsonField ''bundle'' m,
               vq_Content = content, vq_Prune = prune, vq_PruneKinds = pruneKinds\<rparr>}"

text \<open>What the handlers are given besides the request: the text of JSON values, and YAML.\<close>

record Codec =
  co_RawText :: "RawMessage \<Rightarrow> string"
  co_FromYAML :: "string \<Rightarrow> (string \<times> any) list option"
  co_ToYAML :: "(string \<times> any) list \<Rightarrow> string"

definition decodeBundleSource :: "Codec \<Rightarrow> RawMessage \<Rightarrow> string \<Rightarrow> cp_error + FileBundle" where
  "decodeBundleSource co bundle content =
     (if bundle \<noteq> None then ParseBundle (co_FromYAML co) (co_RawText co bundle)
      else if TrimSpace content \<noteq> [] then ParseBundle (co_FromYAML co) content
      else Inl ErrInvalidBody)"

definition decodeBundleRequest :: "Codec \<Rightarrow> RawMessage \<Rightarrow> cp_error + bundleRequest \<times> FileBundle" where
  "decodeBundleRequest co body =
     (case unmarshalBundleRequest body of
       None \<Rightarrow> Inl ErrInvalidBody
     | Some rq \<Rightarrow>
         (case decodeBundleSource co (br_Bundle rq) (br_Content rq) of
           Inl e \<Rightarrow> Inl e
         | Inr bundle \<Rightarrow> Inr (rq, bundle)))"

definition decodeValidateRequest :: "RawMessage \<Rightarrow> cp_error + validateRequest" where
  "decodeValidateRequest body =
     (case unmarshalValidateRequest body of
       None \<Rightarrow> Inl ErrInvalidBody
     | Some rq \<Rightarrow>
         if vq_Kind rq = [] \<and> vq_Resource rq = None \<and> vq_Bundle rq = None \<and> TrimSpace (vq_Content rq) = [] then Inl ErrInvalidBody
         else if vq_Kind rq \<noteq> [] \<and> vq_Resource rq = None then Inl ErrInvalidBody
         else if vq_Kind rq = [] \<and> vq_Resource rq \<noteq> None then Inl ErrInvalidBody
         else Inr rq)"

definition decodeBundleFromValidateRequest :: "Codec \<Rightarrow> validateRequest \<Rightarrow> cp_error + FileBundle" where
  "decodeBundleFromValidateRequest co rq = decodeBundleSource co (vq_Bundle rq) (vq_Content rq)"

definition operationFromHistory :: "HistoryEntry \<Rightarrow> operationMetadata" where
  "operationFromHistory entry =
     \<lparr>om_OperationID = he_ID entry, om_CreatedAt = he_CreatedAt entry, om_Source = he_Source entry, om_Summary = he_Summary entry,
      om_Actor = he_Actor entry, om_Note = he_Note entry, om_RollbackOf = he_RollbackOf entry\<rparr>"

section \<open>The handler\<close>

record 's AdminHandler =
  ah_service :: "'s CpService"
  ah_adminKey :: string
  ah_pluginCatalog :: "PluginCatalogEntry list"

definition SetPluginCatalog :: "PluginCatalogEntry list \<Rightarrow> 's AdminHandler \<Rightarrow> 's AdminHandler" where
  "SetPluginCatalog catalog h = h\<lparr>ah_pluginCatalog := catalog\<rparr>"

definition NewWithService :: "'s CpService \<Rightarrow> string \<Rightarrow> 's AdminHandler" where
  "NewWithService svc adminKey = \<lparr>ah_service = svc, ah_adminKey = adminKey, ah_pluginCatalog = []\<rparr>"

text \<open>\<^verbatim>\<open>New\<close>: with the etcd source, a service on a store and a history store with a client each; otherwise there is no
  handler. \<open>newClient\<close> connects, and the clocks are those of the service.\<close>

definition NewEtcdStore :: "(EtcdOptions \<Rightarrow> string + 's etcdKVClient) \<Rightarrow> BootOptions \<Rightarrow> string + 's EtcdStore" where
  "NewEtcdStore newClient boot =
     (case newClient (bo_Etcd boot) of
       Inl err \<Rightarrow> Inl err
     | Inr client \<Rightarrow> Inr (NewEtcdStoreWithClient client (eo_Prefix (bo_Etcd boot))))"

definition NewEtcdHistoryStore :: "(EtcdOptions \<Rightarrow> string + 's etcdKVClient) \<Rightarrow> BootOptions \<Rightarrow> string + 's EtcdHistoryStore" where
  "NewEtcdHistoryStore newClient boot =
     (case newClient (bo_Etcd boot) of
       Inl err \<Rightarrow> Inl err
     | Inr client \<Rightarrow> Inr (NewEtcdHistoryStoreWithClient client (eo_Prefix (bo_Etcd boot))))"

definition NewAdmin ::
    "(EtcdOptions \<Rightarrow> string + 's etcdKVClient) \<Rightarrow> ('s \<Rightarrow> int) \<Rightarrow> ('s \<Rightarrow> int) \<Rightarrow> ('s \<Rightarrow> string) \<Rightarrow> BootOptions
      \<Rightarrow> string + 's AdminHandler option" where
  "NewAdmin newClient now nano stamp boot =
     (if go_Source (bo_Gateway boot) \<noteq> ''etcd_apisix'' then Inr None
      else case NewEtcdStore newClient boot of
        Inl err \<Rightarrow> Inl err
      | Inr store \<Rightarrow>
          (case NewEtcdHistoryStore newClient boot of
            Inl err \<Rightarrow> Inl err
          | Inr historyStore \<Rightarrow>
              Inr (Some (NewWithService
                (NewService now nano stamp (etcdStore store)
                  [WithHistory (etcdHistory nano historyStore) 10
                     \<lparr>eo_EtcdPrefix = eo_Prefix (bo_Etcd boot), eo_IncludeKinds = [], eo_IncludeMeta = False\<rparr>])
                (ad_Key (bo_Admin boot))))))"

definition authorized :: "'s AdminHandler \<Rightarrow> AdminRequest \<Rightarrow> bool" where
  "authorized h rq \<longleftrightarrow> ah_adminKey h \<noteq> [] \<and> aq_Header rq ''X-API-KEY'' = ah_adminKey h"

datatype served = NotServed | Panicked | Served AdminResponse

type_synonym 's serve = "'s \<Rightarrow> 's \<times> served"

section \<open>Resources\<close>

definition handleList :: "'s AdminHandler \<Rightarrow> Codec \<Rightarrow> AdminRequest \<Rightarrow> AdminResponse \<Rightarrow> ResourceKind \<Rightarrow> 's serve" where
  "handleList h co rq c kind s =
     (case ServiceList (sv_store (ah_service h)) kind s of
       (s, Inl err) \<Rightarrow> (s, Served (writeMappedError err c))
     | (s, Inr items) \<Rightarrow>
         (let query = parseListQuery rq;
              filtered = filterEnvelopes (co_RawText co) items (lq_Keyword query)
          in case paginateEnvelopes filtered (lq_Page query) (lq_PageSize query) of
               None \<Rightarrow> (s, Panicked)
             | Some paged \<Rightarrow>
                 (s, Served (writeJSON 200
                   (ListBody (map (\<lambda>item.
                        let i = (case ExtractResourceID (env_Value item) of Inl _ \<Rightarrow> [] | Inr i \<Rightarrow> i)
                        in \<lparr>li_Envelope = item, li_Summary = SummarizeResource kind i (env_Value item)\<rparr>) paged)
                      (int (length filtered)) query) c))))"

definition handleGet :: "'s AdminHandler \<Rightarrow> AdminResponse \<Rightarrow> ResourceKind \<Rightarrow> string \<Rightarrow> 's serve" where
  "handleGet h c kind i s =
     (case ServiceGet (sv_store (ah_service h)) kind i s of
       (s, Inl err) \<Rightarrow> (s, Served (writeMappedError err c))
     | (s, Inr item) \<Rightarrow> (s, Served (writeJSON 200 (EnvelopeBody item) c)))"

text \<open>\<^term>\<open>Some c\<close> stops the handler with the response \<open>c\<close>.\<close>

definition validateBeforeWrite ::
    "'s AdminHandler \<Rightarrow> AdminResponse \<Rightarrow> ResourceKind \<Rightarrow> string \<Rightarrow> RawMessage \<Rightarrow> 's \<Rightarrow> 's \<times> AdminResponse option" where
  "validateBeforeWrite h c kind i body s =
     (case ValidateResource (sv_store (ah_service h)) kind i body s of
       (s, Inl err) \<Rightarrow> (s, None)
     | (s, Inr result) \<Rightarrow>
         if vr_Valid result then (s, None)
         else
           (s, Some (writeJSON 422
             (RejectedBody (case vr_Issues result of [] \<Rightarrow> None | firstIssue # _ \<Rightarrow> Some (vi_Message firstIssue)) result) c)))"

definition handlePut :: "'s AdminHandler \<Rightarrow> AdminRequest \<Rightarrow> AdminResponse \<Rightarrow> ResourceKind \<Rightarrow> string \<Rightarrow> 's serve" where
  "handlePut h rq c kind i s =
     (let store = sv_store (ah_service h); body = aq_Body rq in
      if i = [] then (s, Served (writeError 400 ''resource id is required'' c))
      else case validateBeforeWrite h c kind i body s of
        (s, Some c) \<Rightarrow> (s, Served c)
      | (s, None) \<Rightarrow>
          (let write = (\<lambda>status s.
             case ServicePut store (sv_now (ah_service h)) kind i body s of
               (s, Inl err) \<Rightarrow> (s, Served (writeMappedError err c))
             | (s, Inr item) \<Rightarrow> (s, Served (writeJSON status (EnvelopeBody item) c)))
           in case ServiceGet store kind i s of
                (s, Inr _) \<Rightarrow> write 200 s
              | (s, Inl err) \<Rightarrow> if err = ErrNotFound then write 201 s else (s, Served (writeMappedError err c))))"

definition handlePost :: "'s AdminHandler \<Rightarrow> AdminRequest \<Rightarrow> AdminResponse \<Rightarrow> ResourceKind \<Rightarrow> 's serve" where
  "handlePost h rq c kind s =
     (let body = aq_Body rq;
          i = (case ExtractResourceID body of Inl _ \<Rightarrow> [] | Inr i \<Rightarrow> i)
      in case validateBeforeWrite h c kind i body s of
           (s, Some c) \<Rightarrow> (s, Served c)
         | (s, None) \<Rightarrow>
             (case ServicePost (sv_store (ah_service h)) (sv_now (ah_service h)) (sv_nano (ah_service h)) kind body s of
               (s, Inl err) \<Rightarrow> (s, Served (writeMappedError err c))
             | (s, Inr item) \<Rightarrow> (s, Served (writeJSON 201 (EnvelopeBody item) c))))"

definition handlePatch :: "'s AdminHandler \<Rightarrow> AdminRequest \<Rightarrow> AdminResponse \<Rightarrow> ResourceKind \<Rightarrow> string \<Rightarrow> 's serve" where
  "handlePatch h rq c kind i s =
     (case ServicePatch (sv_store (ah_service h)) (sv_now (ah_service h)) kind i (aq_Body rq) s of
       (s, Inl err) \<Rightarrow> (s, Served (writeMappedError err c))
     | (s, Inr item) \<Rightarrow> (s, Served (writeJSON 200 (EnvelopeBody item) c)))"

definition handleDelete :: "'s AdminHandler \<Rightarrow> AdminResponse \<Rightarrow> ResourceKind \<Rightarrow> string \<Rightarrow> 's serve" where
  "handleDelete h c kind i s =
     (case ServiceDelete (sv_store (ah_service h)) kind i s of
       (s, Inl err) \<Rightarrow> (s, Served (writeMappedError err c))
     | (s, Inr result) \<Rightarrow> (s, Served (writeJSON 200 (DeleteBody result) c)))"

section \<open>Control\<close>

definition PreviewBundle :: "'s CpService \<Rightarrow> FileBundle \<Rightarrow> PreviewOptions \<Rightarrow> ('s, ApplyPlan) op" where
  "PreviewBundle svc bundle options = BuildApplyPlan (sv_store svc) bundle options"

definition SvcApplyBundle :: "'s CpService \<Rightarrow> FileBundle \<Rightarrow> ApplyOptions \<Rightarrow> ('s, ApplyResult) op" where
  "SvcApplyBundle svc bundle options = ApplyBundleWithOptions (sv_store svc) (sv_now svc) bundle options"

definition SvcExportBundle :: "'s CpService \<Rightarrow> ExportOptions \<Rightarrow> ('s, FileBundle) op" where
  "SvcExportBundle svc options = ExportBundleWithOptions (sv_store svc) (sv_stamp svc) options"

definition handleValidate :: "'s AdminHandler \<Rightarrow> Codec \<Rightarrow> AdminRequest \<Rightarrow> AdminResponse \<Rightarrow> 's serve" where
  "handleValidate h co rq c s =
     (let store = sv_store (ah_service h);
          reply = (\<lambda>(s, r). case r of
            Inl err \<Rightarrow> (s, Served (writeControlMappedError err c))
          | Inr result \<Rightarrow> (s, Served (writeJSON 200 (ValidationBody result) c)))
      in case decodeValidateRequest (aq_Body rq) of
           Inl err \<Rightarrow> (s, Served (writeControlMappedError err c))
         | Inr request \<Rightarrow>
             if vq_Kind request \<noteq> [] \<or> vq_Resource request \<noteq> None then
               (case ParseKind (vq_Kind request) of
                 (kind, False) \<Rightarrow> (s, Served (writeControlError 400 ''invalid_request'' ''unsupported resource kind'' c))
               | (kind, True) \<Rightarrow> reply (ValidateResource store kind (vq_ID request) (vq_Resource request) s))
             else
               (case parseKindNames (vq_PruneKinds request) of
                 Inl err \<Rightarrow> (s, Served (writeControlMappedError err c))
               | Inr pruneKinds \<Rightarrow>
                   (case decodeBundleFromValidateRequest co request of
                     Inl err \<Rightarrow> (s, Served (writeControlMappedError err c))
                   | Inr bundle \<Rightarrow> reply (ValidateBundle store bundle \<lparr>vo_PruneKinds = pruneKinds, vo_Prune = vq_Prune request\<rparr> s))))"

definition handleSchema :: "AdminResponse \<Rightarrow> AdminResponse" where
  "handleSchema c = writeJSON 200 (SchemaBody buildSchemaResponse) c"

definition handleStats :: "MemoryRecorder \<Rightarrow> AdminResponse \<Rightarrow> AdminResponse" where
  "handleStats recorder c = writeJSON 200 (StatsBody (Stats recorder)) (setCORSHeaders c)"

definition handlePluginCatalog :: "'s AdminHandler \<Rightarrow> AdminResponse \<Rightarrow> AdminResponse" where
  "handlePluginCatalog h c = writeJSON 200 (CatalogBody (ah_pluginCatalog h)) (setCORSHeaders c)"

definition handleImportPreview :: "'s AdminHandler \<Rightarrow> Codec \<Rightarrow> AdminRequest \<Rightarrow> AdminResponse \<Rightarrow> 's serve" where
  "handleImportPreview h co rq c s =
     (case decodeBundleRequest co (aq_Body rq) of
       Inl err \<Rightarrow> (s, Served (writeControlMappedError err c))
     | Inr (request, bundle) \<Rightarrow>
         (case parseKindNames (br_PruneKinds request) of
           Inl err \<Rightarrow> (s, Served (writeControlMappedError err c))
         | Inr pruneKinds \<Rightarrow>
             (case PreviewBundle (ah_service h) bundle
                     \<lparr>po_PruneKinds = pruneKinds, po_Prune = br_Prune request, po_IncludeUnchanged = br_IncludeUnchanged request\<rparr> s of
               (s, Inl err) \<Rightarrow> (s, Served (writeControlMappedError err c))
             | (s, Inr plan) \<Rightarrow> (s, Served (writeJSON 200 (PlanBody plan) c)))))"

definition handleImportApply :: "'s AdminHandler \<Rightarrow> Codec \<Rightarrow> AdminRequest \<Rightarrow> AdminResponse \<Rightarrow> 's serve" where
  "handleImportApply h co rq c s =
     (case decodeBundleRequest co (aq_Body rq) of
       Inl err \<Rightarrow> (s, Served (writeControlMappedError err c))
     | Inr (request, bundle) \<Rightarrow>
         (case parseKindNames (br_PruneKinds request) of
           Inl err \<Rightarrow> (s, Served (writeControlMappedError err c))
         | Inr pruneKinds \<Rightarrow>
             (case SvcApplyBundle (ah_service h) bundle \<lparr>ao_PruneKinds = pruneKinds, ao_Prune = br_Prune request\<rparr> s of
               (s, Inl err) \<Rightarrow> (s, Served (writeControlMappedError err c))
             | (s, Inr result) \<Rightarrow>
                 (case SaveHistorySnapshot (ah_service h) ''control_import_apply'' s of
                   (s, Inl err) \<Rightarrow> (s, Served (writeControlMappedError err c))
                 | (s, Inr history) \<Rightarrow>
                     (s, Served (writeJSON 200 (OperationBody result history (operationFromHistory history)) c))))))"

definition handleExport :: "'s AdminHandler \<Rightarrow> Codec \<Rightarrow> AdminRequest \<Rightarrow> AdminResponse \<Rightarrow> 's serve" where
  "handleExport h co rq c s =
     (case parseKindNames (headersOrQueryList rq ''kind'') of
       Inl err \<Rightarrow> (s, Served (writeControlMappedError err c))
     | Inr kinds \<Rightarrow>
         (let format = ToLower (TrimSpace (queryValue rq ''format''));
              format = (if format = [] then ''json'' else format)
          in case SvcExportBundle (ah_service h) \<lparr>eo_EtcdPrefix = [], eo_IncludeKinds = kinds, eo_IncludeMeta = True\<rparr> s of
               (s, Inl err) \<Rightarrow> (s, Served (writeControlMappedError err c))
             | (s, Inr bundle) \<Rightarrow>
                 if format = ''json'' then
                   (case ToMap bundle of
                     None \<Rightarrow> (s, Served (writeControlMappedError (StoreFailed ''decode resource'') c))
                   | Some body \<Rightarrow> (s, Served (writeJSON 200 (BundleBody body) c)))
                 else if format = ''yaml'' then
                   (case ToYAML (co_ToYAML co) bundle of
                     None \<Rightarrow> (s, Served (writeControlMappedError (StoreFailed ''decode resource'') c))
                   | Some content \<Rightarrow> (s, Served (writeJSON 200 (YamlBody content) c)))
                 else (s, Served (writeControlError 400 ''invalid_request'' ''unsupported export format'' c))))"

definition handleHistoryList :: "'s AdminHandler \<Rightarrow> AdminRequest \<Rightarrow> AdminResponse \<Rightarrow> 's serve" where
  "handleHistoryList h rq c s =
     (case ListHistory (ah_service h) (positiveQuery rq ''limit'' 10) s of
       (s, Inl err) \<Rightarrow> (s, Served (writeControlMappedError err c))
     | (s, Inr items) \<Rightarrow> (s, Served (writeJSON 200 (HistoryBody items (int (length items))) c)))"

definition handleHistoryRollback :: "'s AdminHandler \<Rightarrow> AdminResponse \<Rightarrow> string \<Rightarrow> 's serve" where
  "handleHistoryRollback h c trimmed s =
     (let i = Trim (TrimSuffix (TrimPrefix trimmed ''history/'') ''/rollback'') ''/'' in
      if i = [] then (s, Served (writeControlError 400 ''invalid_request'' ''history id is required'' c))
      else case RollbackHistory (ah_service h) i s of
        (s, Inl err) \<Rightarrow> (s, Served (writeControlMappedError err c))
      | (s, Inr (result, Inl err)) \<Rightarrow> (s, Served (writeControlMappedError err c))
      | (s, Inr (result, Inr history)) \<Rightarrow>
          (s, Served (writeJSON 200 (OperationBody result history (operationFromHistory history)) c)))"

section \<open>Dispatch\<close>

definition routePrefix :: string where
  "routePrefix = ''/apisix/admin/''"

definition controlPrefix :: string where
  "controlPrefix = ''/apisix/admin/control/''"

definition parsePath :: "string \<Rightarrow> (string \<times> string) option" where
  "parsePath pathValue =
     (let trimmed = Trim (TrimPrefix pathValue routePrefix) ''/'' in
      if trimmed = [] then None
      else case Split trimmed CHR ''/'' of
        [res] \<Rightarrow> Some (res, [])
      | [res, i] \<Rightarrow> Some (res, i)
      | _ \<Rightarrow> None)"

definition handleControl ::
    "'s AdminHandler \<Rightarrow> Codec \<Rightarrow> MemoryRecorder \<Rightarrow> AdminRequest \<Rightarrow> AdminResponse \<Rightarrow> string \<Rightarrow> 's serve" where
  "handleControl h co recorder rq c pathValue s =
     (let trimmed = Trim (TrimPrefix pathValue controlPrefix) ''/''; m = aq_Method rq in
      if trimmed = ''schema'' \<and> m = ''GET'' then (s, Served (handleSchema c))
      else if trimmed = ''validate'' \<and> m = ''POST'' then handleValidate h co rq c s
      else if trimmed = ''imports/preview'' \<and> m = ''POST'' then handleImportPreview h co rq c s
      else if trimmed = ''imports/apply'' \<and> m = ''POST'' then handleImportApply h co rq c s
      else if trimmed = ''exports'' \<and> m = ''GET'' then handleExport h co rq c s
      else if trimmed = ''history'' \<and> m = ''GET'' then handleHistoryList h rq c s
      else if HasPrefix trimmed ''history/'' \<and> HasSuffix trimmed ''/rollback'' \<and> m = ''POST'' then handleHistoryRollback h c trimmed s
      else if trimmed = ''plugins'' \<and> m = ''GET'' then (s, Served (handlePluginCatalog h c))
      else if trimmed = ''stats'' \<and> m = ''GET'' then (s, Served (handleStats recorder c))
      else (s, Served (writeControlError 404 ''not_found'' ''unsupported control path'' c)))"

definition handleResource ::
    "'s AdminHandler \<Rightarrow> Codec \<Rightarrow> AdminRequest \<Rightarrow> AdminResponse \<Rightarrow> ResourceKind \<Rightarrow> string \<Rightarrow> 's serve" where
  "handleResource h co rq c kind i s =
     (let m = aq_Method rq in
      if m = ''GET'' then (if i = [] then handleList h co rq c kind s else handleGet h c kind i s)
      else if m = ''POST'' then
        (if i \<noteq> [] then (s, Served (writeError 400 ''resource id must not be in path for POST'' c)) else handlePost h rq c kind s)
      else if m = ''PUT'' then handlePut h rq c kind i s
      else if m = ''PATCH'' then handlePatch h rq c kind i s
      else if m = ''DELETE'' then handleDelete h c kind i s
      else (s, Served (writeError 405 ''unsupported method'' c)))"

definition ServeHTTP ::
    "'s AdminHandler option \<Rightarrow> Codec \<Rightarrow> MemoryRecorder \<Rightarrow> AdminRequest \<Rightarrow> AdminResponse \<Rightarrow> 's serve" where
  "ServeHTTP handler co recorder rq c s =
     (case handler of
       None \<Rightarrow> (s, NotServed)
     | Some h \<Rightarrow>
         let pathValue = aq_Path rq;
             isAdminPath = (HasPrefix pathValue routePrefix \<or> HasPrefix pathValue controlPrefix)
         in if aq_Method rq = ''OPTIONS'' \<and> isAdminPath then (s, Served ((setCORSHeaders c)\<lparr>adm_Status := 204\<rparr>))
            else if HasPrefix pathValue controlPrefix then
              (if \<not> authorized h rq then (s, Served (writeControlError 401 ''unauthorized'' ''missing or invalid X-API-KEY'' c))
               else handleControl h co recorder rq c pathValue s)
            else if \<not> HasPrefix pathValue routePrefix then (s, NotServed)
            else if \<not> authorized h rq then (s, Served (writeError 401 ''missing or invalid X-API-KEY'' c))
            else case parsePath pathValue of
              None \<Rightarrow> (s, Served (writeError 404 ''unsupported admin path'' c))
            | Some (res, i) \<Rightarrow>
                (case ParseKind res of
                  (kind, False) \<Rightarrow> (s, Served (writeError 404 ''unsupported resource'' c))
                | (kind, True) \<Rightarrow> handleResource h co rq c kind i s))"

end
