(* ===== verification/Lumen.thy ===== *)
theory Lumen
  imports Lifecycle Builtin_Register Admin_Api
begin

text \<open>
  The command (\<^verbatim>\<open>lumen.go\<close>): its options, the start of the gateway, and the subcommands of \<^verbatim>\<open>admin\<close>, which import,
  export and synchronise bundles. Flags are arguments; of what is printed the counts are kept, as part of the result. The end of the process by
  a signal is left to \<open>ShutdownContext\<close>.
\<close>

section \<open>Options\<close>

type_synonym 'raw registrar = "'raw handler Registry \<Rightarrow> string + 'raw handler Registry"

record ('raw, 'p) LumenOptions =
  lo_init :: "(BootOptions \<Rightarrow> string option) option"
  lo_balancerTypes :: "(string \<times> (Endpoint list \<Rightarrow> any \<Rightarrow> string + Balancer)) list"
  lo_version :: string
  lo_compilerOpts :: "('raw, 'p) CompilerOption list"
  lo_pluginRegs :: "'raw registrar list"

definition WithPlugins :: "'raw registrar list \<Rightarrow> ('raw, 'p) LumenOptions \<Rightarrow> ('raw, 'p) LumenOptions" where
  "WithPlugins registrars opt = opt\<lparr>lo_pluginRegs := lo_pluginRegs opt @ registrars\<rparr>"

definition WithBalancerType ::
    "string \<Rightarrow> (Endpoint list \<Rightarrow> any \<Rightarrow> string + Balancer) \<Rightarrow> ('raw, 'p) LumenOptions \<Rightarrow> ('raw, 'p) LumenOptions" where
  "WithBalancerType kind factory opt = opt\<lparr>lo_balancerTypes := map_put kind factory (lo_balancerTypes opt)\<rparr>"

definition WithCompilerOptions :: "('raw, 'p) CompilerOption list \<Rightarrow> ('raw, 'p) LumenOptions \<Rightarrow> ('raw, 'p) LumenOptions" where
  "WithCompilerOptions opts opt = opt\<lparr>lo_compilerOpts := lo_compilerOpts opt @ opts\<rparr>"

definition WithVersion :: "string \<Rightarrow> ('raw, 'p) LumenOptions \<Rightarrow> ('raw, 'p) LumenOptions" where
  "WithVersion version opt = opt\<lparr>lo_version := version\<rparr>"

definition WithInit :: "(BootOptions \<Rightarrow> string option) option \<Rightarrow> ('raw, 'p) LumenOptions \<Rightarrow> ('raw, 'p) LumenOptions" where
  "WithInit fn opt = opt\<lparr>lo_init := fn\<rparr>"

text \<open>The registry of the built-in plugins; \<open>errText\<close> is the text of an error of the registration.\<close>

definition builtinRegistry :: "(register_error \<Rightarrow> string) \<Rightarrow> (string \<Rightarrow> 'raw handler Factory) \<Rightarrow> string + 'raw handler Registry" where
  "builtinRegistry errText factories =
     (case BuiltinRegister factories NewRegistry of Inl e \<Rightarrow> Inl (errText e) | Inr r \<Rightarrow> Inr r)"

fun runRegistrars :: "'raw registrar list \<Rightarrow> 'raw registrar" where
  "runRegistrars [] r = Inr r"
| "runRegistrars (reg # regs) r =
     (case reg r of Inl err \<Rightarrow> Inl (''plugin registrar failed: '' @ err) | Inr r' \<Rightarrow> runRegistrars regs r')"

definition customRegistry ::
    "(register_error \<Rightarrow> string) \<Rightarrow> (string \<Rightarrow> 'raw handler Factory) \<Rightarrow> 'raw registrar list \<Rightarrow> string + 'raw handler Registry" where
  "customRegistry errText factories regs =
     (case builtinRegistry errText factories of Inl err \<Rightarrow> Inl err | Inr r \<Rightarrow> runRegistrars regs r)"

definition customBalancer ::
    "(string \<times> (Endpoint list \<Rightarrow> any \<Rightarrow> string + Balancer)) list \<Rightarrow> UpstreamOptions \<Rightarrow> Endpoint list \<Rightarrow> string + Balancer" where
  "customBalancer custom opts endpoints =
     (case map_of custom (balancer_Type (upstream_Balancer opts)) of
       Some factory \<Rightarrow> factory endpoints (balancer_Params (upstream_Balancer opts))
     | None \<Rightarrow> defaultBalancerFactory opts endpoints)"

definition buildCompilerOpts ::
    "(register_error \<Rightarrow> string) \<Rightarrow> (string \<Rightarrow> 'raw handler Factory) \<Rightarrow> ('raw, 'p) LumenOptions \<Rightarrow> ('raw, 'p) CompilerOption list" where
  "buildCompilerOpts errText factories opt =
     (if length (lo_pluginRegs opt) > 0
      then [WithRegistryFactory (Some (customRegistry errText factories (lo_pluginRegs opt)))] else [])
     @ (if length (lo_balancerTypes opt) > 0 then [WithBalancerFactory (Some (customBalancer (lo_balancerTypes opt)))] else [])
     @ lo_compilerOpts opt"

definition initialOptions :: "('raw, 'p) LumenOptions" where
  "initialOptions = \<lparr>lo_init = None, lo_balancerTypes = [], lo_version = ''0.0.0'', lo_compilerOpts = [], lo_pluginRegs = []\<rparr>"

section \<open>Start\<close>

datatype startup_error =
    BootFailed boot_error
  | InitFailed string
  | SourceFailed provider_error
  | AdminFailed string
  | LoadFailed provider_error
  | LoggingFailed UnsupportedOptionError
  | GatewayFailed gateway_error

text \<open>A started gateway: its source, its admin handler and its logger.\<close>

record ('s, 'raw, 'p) Started =
  sd_gateway :: "('raw, 'p) Gateway"
  sd_source :: "'s Source"
  sd_admin :: "'s AdminHandler option"
  sd_logger :: Logger

datatype ('s, 'raw, 'p) run_result = Tested | StartFailed startup_error | Running "('s, 'raw, 'p) Started"

text \<open>What the start uses of the outside: the reading of files and the YAML decoding of the two kinds of file, the clients of
  etcd and the clocks; and the factories of the built-in plugins with the proxy of the HTTP library.\<close>

record ('s, 'raw, 'p) Platform =
  pf_ReadFile :: "string \<Rightarrow> string option"
  pf_BootUnmarshal :: "string \<Rightarrow> BootOptions option"
  pf_Unmarshal :: "string \<Rightarrow> Options option"
  pf_ProviderClient :: "EtcdOptions \<Rightarrow> string + 's providerClient"
  pf_AdminClient :: "EtcdOptions \<Rightarrow> string + 's etcdKVClient"
  pf_Now :: "'s \<Rightarrow> int"
  pf_Nano :: "'s \<Rightarrow> int"
  pf_Stamp :: "'s \<Rightarrow> string"
  pf_ErrText :: "register_error \<Rightarrow> string"
  pf_Factories :: "string \<Rightarrow> 'raw handler Factory"
  pf_NewHTTP :: "TimeoutOptions \<Rightarrow> 'p"

definition sourceLoad :: "('s, 'raw, 'p) Platform \<Rightarrow> 's Source \<Rightarrow> 's \<Rightarrow> 's \<times> (provider_error + Options)" where
  "sourceLoad pf source s =
     (case source of
       FileSource src \<Rightarrow> (s, fileLoad (pf_ReadFile pf) (pf_Unmarshal pf) src)
     | EtcdSource src \<Rightarrow> etcdLoad src (pf_Nano pf s) (Some \<lparr>ctx_Deadline = None\<rparr>) s)"

definition compilerOf :: "('s, 'raw, 'p) Platform \<Rightarrow> ('raw, 'p) LumenOptions \<Rightarrow> ('raw, 'p) Compiler" where
  "compilerOf pf opt =
     NewRuntimeCompiler (builtinRegistry (pf_ErrText pf) (pf_Factories pf)) (pf_NewHTTP pf)
       (buildCompilerOpts (pf_ErrText pf) (pf_Factories pf) opt)"

text \<open>The catalog of the plugins, in the order of one iteration over the registry.\<close>

definition catalogOf :: "'h Registry \<Rightarrow> PluginCatalogEntry list" where
  "catalogOf registry =
     map (\<lambda>def. \<lparr>pce_Name = md_Name (def_metadata def), pce_Scopes = md_Scopes (def_metadata def)\<rparr>) (Definitions registry)"

definition withCatalog :: "('raw, 'p) Compiler \<Rightarrow> 's AdminHandler option \<Rightarrow> 's AdminHandler option" where
  "withCatalog compiler admin =
     (case admin of
       None \<Rightarrow> None
     | Some h \<Rightarrow> (case BuildRegistry compiler of Inl regErr \<Rightarrow> Some h | Inr registry \<Rightarrow> Some (SetPluginCatalog (catalogOf registry) h)))"

text \<open>The start from the point where the source and the admin handler exist.\<close>

definition startLoaded ::
    "('s, 'raw, 'p) Platform \<Rightarrow> ('raw, 'p) Environment \<Rightarrow> ('raw, 'p) LumenOptions \<Rightarrow> 's Source \<Rightarrow> 's AdminHandler option \<Rightarrow> 's
      \<Rightarrow> 's \<times> ('s, 'raw, 'p) run_result" where
  "startLoaded pf ev opt source admin s =
     (case sourceLoad pf source s of
       (s, Inl e) \<Rightarrow> (s, StartFailed (LoadFailed e))
     | (s, Inr loaded) \<Rightarrow>
     (case Configure (Logging loaded) of
       Inl e \<Rightarrow> (s, StartFailed (LoggingFailed e))
     | Inr logger \<Rightarrow>
         let compiler = compilerOf pf opt; admin = withCatalog compiler admin in
         case NewWithCompiler ev compiler loaded of
           Inl e \<Rightarrow> (s, StartFailed (GatewayFailed e))
         | Inr g \<Rightarrow> (s, Running \<lparr>sd_gateway = g, sd_source = source, sd_admin = admin, sd_logger = logger\<rparr>)))"


section \<open>Subcommands\<close>

datatype cli_error = BootError boot_error | StoreError string | NeedsEtcd string | KindUnsupported string | CpError cp_error | WriteError string

definition loadControlPlaneService :: "('s, 'raw, 'p) Platform \<Rightarrow> string \<Rightarrow> cli_error + BootOptions \<times> 's CpService" where
  "loadControlPlaneService pf configPath =
     (case BootLoad (pf_ReadFile pf) (pf_BootUnmarshal pf) configPath of
       Inl e \<Rightarrow> Inl (BootError e)
     | Inr boot \<Rightarrow>
         (case NewEtcdStore (pf_AdminClient pf) boot of
           Inl e \<Rightarrow> Inl (StoreError e)
         | Inr store \<Rightarrow> Inr (boot, NewService (pf_Now pf) (pf_Nano pf) (pf_Stamp pf) (etcdStore store) [])))"

fun cliKinds :: "string list \<Rightarrow> cli_error + ResourceKind list" where
  "cliKinds [] = Inr []"
| "cliKinds (name # names) =
     (case ParseKind name of
       (kind, False) \<Rightarrow> Inl (KindUnsupported name)
     | (kind, True) \<Rightarrow> (case cliKinds names of Inl e \<Rightarrow> Inl e | Inr kinds \<Rightarrow> Inr (kind # kinds)))"

definition printApplyResult :: "ApplyResult \<Rightarrow> string list" where
  "printApplyResult result =
     map (\<lambda>kind. kind @ ''='' @ Itoa (map_get 0 result kind)) (filter (\<lambda>kind. map_get 0 result kind > 0) SupportedKinds)"

text \<open>The service of a subcommand, which wants the etcd source.\<close>

definition commandService :: "('s, 'raw, 'p) Platform \<Rightarrow> string \<Rightarrow> string \<Rightarrow> cli_error + BootOptions \<times> 's CpService" where
  "commandService pf name configPath =
     (case loadControlPlaneService pf configPath of
       Inl e \<Rightarrow> Inl e
     | Inr (boot, svc) \<Rightarrow>
         if go_Source (bo_Gateway boot) \<noteq> ''etcd_apisix'' then Inl (NeedsEtcd (name @ '' requires gateway.source=etcd_apisix''))
         else Inr (boot, svc))"

definition adminImport ::
    "('s, 'raw, 'p) Platform \<Rightarrow> 's FileSystem \<Rightarrow> (string \<Rightarrow> (string \<times> any) list option) \<Rightarrow> string \<Rightarrow> bool \<Rightarrow> string list \<Rightarrow> 's
      \<Rightarrow> 's \<times> (cli_error + string list)" where
  "adminImport pf fs yaml configPath prune kindNames s =
     (case commandService pf ''admin import'' configPath of
       Inl e \<Rightarrow> (s, Inl e)
     | Inr (boot, svc) \<Rightarrow>
     (case LoadBundleFile fs yaml s of
       (s, Inl e) \<Rightarrow> (s, Inl (CpError e))
     | (s, Inr bundle) \<Rightarrow>
     (case cliKinds kindNames of
       Inl e \<Rightarrow> (s, Inl e)
     | Inr pruneKinds \<Rightarrow>
     (case ApplyBundleWithOptions (sv_store svc) (sv_now svc) bundle \<lparr>ao_PruneKinds = pruneKinds, ao_Prune = prune\<rparr> s of
       (s, Inl e) \<Rightarrow> (s, Inl (CpError e))
     | (s, Inr result) \<Rightarrow> (s, Inr (printApplyResult result))))))"

text \<open>\<open>writeFile\<close> is \<^verbatim>\<open>os.WriteFile\<close> for the output path.\<close>

definition WriteBundleFile ::
    "((string \<times> any) list \<Rightarrow> string) \<Rightarrow> (string \<Rightarrow> 's \<Rightarrow> 's \<times> string option) \<Rightarrow> FileBundle \<Rightarrow> 's \<Rightarrow> 's \<times> string option" where
  "WriteBundleFile toYAML writeFile bundle s =
     (case ToYAML toYAML bundle of None \<Rightarrow> (s, Some ''decode resource'') | Some content \<Rightarrow> writeFile content s)"

definition adminExport ::
    "('s, 'raw, 'p) Platform \<Rightarrow> ((string \<times> any) list \<Rightarrow> string) \<Rightarrow> (string \<Rightarrow> 's \<Rightarrow> 's \<times> string option) \<Rightarrow> string \<Rightarrow> string list \<Rightarrow> 's
      \<Rightarrow> 's \<times> cli_error option" where
  "adminExport pf toYAML writeFile configPath kind s =
     (case commandService pf ''admin export'' configPath of
       Inl e \<Rightarrow> (s, Some e)
     | Inr (boot, svc) \<Rightarrow>
     (case cliKinds kind of
       Inl e \<Rightarrow> (s, Some e)
     | Inr kinds \<Rightarrow>
     (case ExportBundleWithOptions (sv_store svc) (sv_stamp svc)
             \<lparr>eo_EtcdPrefix = eo_Prefix (bo_Etcd boot), eo_IncludeKinds = kinds, eo_IncludeMeta = True\<rparr> s of
       (s, Inl e) \<Rightarrow> (s, Some (CpError e))
     | (s, Inr bundle) \<Rightarrow>
     (case WriteBundleFile toYAML writeFile bundle s of
       (s, Some e) \<Rightarrow> (s, Some (WriteError e))
     | (s, None) \<Rightarrow> (s, None)))))"

text \<open>The results of the applications that were done, as they are printed, and the error that ended the command. With
  \<^verbatim>\<open>--watch\<close> the wake-ups drive the loop.\<close>

definition adminSync ::
    "('s, 'raw, 'p) Platform \<Rightarrow> 's FileSystem \<Rightarrow> (string \<Rightarrow> (string \<times> any) list option) \<Rightarrow> string \<Rightarrow> bool \<Rightarrow> string list \<Rightarrow> bool
      \<Rightarrow> wakeup list \<Rightarrow> 's \<Rightarrow> 's \<times> string list list \<times> cli_error option" where
  "adminSync pf fs yaml configPath prune kindNames watch wakeups s =
     (case commandService pf ''admin sync'' configPath of
       Inl e \<Rightarrow> (s, [], Some e)
     | Inr (boot, svc) \<Rightarrow>
     (case cliKinds kindNames of
       Inl e \<Rightarrow> (s, [], Some e)
     | Inr pruneKinds \<Rightarrow>
         let options = \<lparr>ao_PruneKinds = pruneKinds, ao_Prune = prune\<rparr> in
         if \<not> watch then
           (case LoadBundleFile fs yaml s of
             (s, Inl e) \<Rightarrow> (s, [], Some (CpError e))
           | (s, Inr bundle) \<Rightarrow>
               (case ApplyBundleWithOptions (sv_store svc) (sv_now svc) bundle options s of
                 (s, Inl e) \<Rightarrow> (s, [], Some (CpError e))
               | (s, Inr result) \<Rightarrow> (s, [printApplyResult result], None)))
         else
           (case SyncBundleFile (sv_store svc) (sv_now svc) fs yaml options wakeups s of
             (s, results, fin) \<Rightarrow> (s, map printApplyResult results, map_option CpError fin))))"

section \<open>Facts\<close>

lemma plain_compiler:
  "compilerOf pf initialOptions =
     \<lparr>registryFactory = builtinRegistry (pf_ErrText pf) (pf_Factories pf), balancerFactory = defaultBalancerFactory,
      proxyFactory = defaultProxyFactory (pf_NewHTTP pf)\<rparr>"
  by (simp add: compilerOf_def initialOptions_def buildCompilerOpts_def NewRuntimeCompiler_def)

text \<open>Balancer types that are added do not change the others: a type that is not among them is built as without them.\<close>

lemma customBalancer_other:
  "map_of custom (balancer_Type (upstream_Balancer opts)) = None \<Longrightarrow> customBalancer custom opts endpoints = defaultBalancerFactory opts endpoints"
  by (simp add: customBalancer_def)

lemma builtin_names: "map md_Name builtins =
  [''request_id'', ''limit_count'', ''rewrite_path_regex'', ''request_transformer'', ''response_transformer'', ''replace_path'',
   ''strip_prefix'', ''add_prefix'', ''access_log'']"
  by code_simp

section \<open>What is started\<close>















lemma startLoaded_not_early [simp]:
  "startLoaded pf ev opt source admin s \<noteq> (s', Tested)"
  "startLoaded pf ev opt source admin s \<noteq> (s', StartFailed (BootFailed b))"
  "startLoaded pf ev opt source admin s \<noteq> (s', StartFailed (InitFailed m))"
  "startLoaded pf ev opt source admin s \<noteq> (s', StartFailed (SourceFailed p))"
  "startLoaded pf ev opt source admin s \<noteq> (s', StartFailed (AdminFailed m))"
  by (auto simp: startLoaded_def Let_def split: prod.splits sum.splits)





lemma builtin_catalog:
  "\<exists>r. builtinRegistry errText factories = Inr r
     \<and> catalogOf r = map (\<lambda>md. \<lparr>pce_Name = md_Name md, pce_Scopes = AllScopes\<rparr>) builtins"
  by (simp add: builtinRegistry_def BuiltinRegister_def builtins_def builtin_def Register_def NewRegistry_def catalogOf_def Definitions_def
      map_put_def AllScopes_def)

end
