(* ===== verification/Server.thy ===== *)
theory Server
  imports Lifecycle
begin

text \<open>
  The edges of the gateway: the HTTP client of a proxy (\<^verbatim>\<open>internal/proxy/proxy.go\<close>, \<open>NewHTTP\<close>), the writer that collects the
  metrics of the process and the handlers of the server (\<^verbatim>\<open>internal/gateway/gateway.go\<close>), and the small command
  that serves one configuration file (\<^verbatim>\<open>internal/app/app.go\<close>). Durations are in nanoseconds.
\<close>

section \<open>The HTTP client\<close>

definition second :: int where
  "second = 1000000000"

record Transport =
  tr_ForceAttemptHTTP2 :: bool
  tr_MaxIdleConns :: int
  tr_MaxIdleConnsPerHost :: int
  tr_MaxConnsPerHost :: int
  tr_IdleConnTimeout :: int
  tr_ResponseHeaderTimeout :: int
  tr_TLSHandshakeTimeout :: int
  tr_DialTimeout :: "int option"

text \<open>A transport is the one of the options or the default one. Without a dial timeout the dialer of the library is used.\<close>

datatype 't roundTripper = Given 't | DefaultTransport Transport

record 't HTTPOptions =
  ho_Transport :: "'t option"
  ho_Timeout :: TimeoutOptions

record 't HTTPProxy =
  hp_Timeout :: int
  hp_Transport :: "'t roundTripper"

definition NewHTTP :: "'t HTTPOptions \<Rightarrow> 't HTTPProxy" where
  "NewHTTP options =
     (let transport = (case ho_Transport options of
          Some t \<Rightarrow> Given t
        | None \<Rightarrow>
            (let defaultTransport =
               \<lparr>tr_ForceAttemptHTTP2 = True, tr_MaxIdleConns = 1024, tr_MaxIdleConnsPerHost = 512, tr_MaxConnsPerHost = 0,
                tr_IdleConnTimeout = 90 * second, tr_ResponseHeaderTimeout = Read (ho_Timeout options),
                tr_TLSHandshakeTimeout = Connect (ho_Timeout options), tr_DialTimeout = None\<rparr>
             in DefaultTransport (if Connect (ho_Timeout options) > 0
                  then defaultTransport\<lparr>tr_DialTimeout := Some (Connect (ho_Timeout options))\<rparr> else defaultTransport)))
      in \<lparr>hp_Timeout = requestTimeout (ho_Timeout options), hp_Transport = transport\<rparr>)"

section \<open>The metrics of the process\<close>

record metricsResponseWriter =
  mw_header :: "(string \<times> string list) list option"
  mw_body :: string
  mw_statusCode :: int

definition Header :: "metricsResponseWriter \<Rightarrow> metricsResponseWriter \<times> (string \<times> string list) list" where
  "Header w = (case mw_header w of None \<Rightarrow> (w\<lparr>mw_header := Some []\<rparr>, []) | Some h \<Rightarrow> (w, h))"

definition WriteHeader :: "int \<Rightarrow> metricsResponseWriter \<Rightarrow> metricsResponseWriter" where
  "WriteHeader code w = (if mw_statusCode w \<noteq> 0 then w else w\<lparr>mw_statusCode := code\<rparr>)"

definition WriteBytes :: "string \<Rightarrow> metricsResponseWriter \<Rightarrow> metricsResponseWriter \<times> int" where
  "WriteBytes b w =
     (let w = (if mw_statusCode w = 0 then w\<lparr>mw_statusCode := 200\<rparr> else w)
      in (w\<lparr>mw_body := mw_body w @ b\<rparr>, int (length b)))"

text \<open>The handler of the metrics library calls the writer; what it calls is a list.\<close>

datatype writerCall = CallHeader | CallWriteHeader int | CallWrite string

primrec writerStep :: "writerCall \<Rightarrow> metricsResponseWriter \<Rightarrow> metricsResponseWriter" where
  "writerStep CallHeader w = fst (Header w)"
| "writerStep (CallWriteHeader code) w = WriteHeader code w"
| "writerStep (CallWrite b) w = fst (WriteBytes b w)"

definition collectStdPromMetrics :: "writerCall list \<Rightarrow> string" where
  "collectStdPromMetrics calls = mw_body (fold writerStep calls \<lparr>mw_header = None, mw_body = [], mw_statusCode = 0\<rparr>)"

section \<open>The server\<close>

definition healthBody :: string where
  "healthBody = [CHR 0x7B, CHR 0x22] @ ''status'' @ [CHR 0x22, CHR 0x3A, CHR 0x22] @ ''ok'' @ [CHR 0x22, CHR 0x7D]"

definition healthHandler :: "'raw handler" where
  "healthHandler w =
     observeRequest ''health'' '''' (w_clock w)
       (w\<lparr>w_response := (w_response w)\<lparr>
            rp_Headers := map_put ''Content-Type'' ''application/json'' (rp_Headers (w_response w)),
            rp_Status := 200, rp_Body := healthBody\<rparr>\<rparr>)"

text \<open>The routes of the server: \<^verbatim>\<open>GET /health\<close> before any method and path.\<close>

definition serverHandler ::
    "'raw run_handlers \<Rightarrow> ('raw \<Rightarrow> 'raw) \<Rightarrow> ('raw world \<Rightarrow> 'raw world \<times> bool) option \<Rightarrow> ('raw world \<Rightarrow> string)
      \<Rightarrow> ('raw, 'p) Gateway \<Rightarrow> 'raw handler" where
  "serverHandler runHandlers rawAbort admin metricsText g w =
     (if rq_Method (w_request w) = ''GET'' \<and> rq_Path (w_request w) = ''/health'' then healthHandler w
      else gatewayServeHTTP runHandlers rawAbort admin metricsText (map_option snd (gw_snapshot g)) w)"

section \<open>Serving one file\<close>

definition NewGateway ::
    "('raw, 'p) Environment \<Rightarrow> (string + 'raw handler Registry) \<Rightarrow> (TimeoutOptions \<Rightarrow> 'p) \<Rightarrow> Options \<Rightarrow> gateway_error + ('raw, 'p) Gateway" where
  "NewGateway ev defaultRegistryFactory newHTTP options =
     NewWithCompiler ev (NewRuntimeCompiler defaultRegistryFactory newHTTP []) options"

datatype ('raw, 'p) app_result =
    AppTested
  | AppConfigFailed load_error
  | AppGatewayFailed gateway_error
  | AppRunning "('raw, 'p) Gateway"

definition appRun ::
    "(string \<Rightarrow> 'data option) \<Rightarrow> ('data \<Rightarrow> Options option) \<Rightarrow> ('raw, 'p) Environment \<Rightarrow> (string + 'raw handler Registry)
      \<Rightarrow> (TimeoutOptions \<Rightarrow> 'p) \<Rightarrow> string \<Rightarrow> bool \<Rightarrow> ('raw, 'p) app_result" where
  "appRun readFile unmarshal ev defaultRegistryFactory newHTTP configPath testConfig =
     (case Config.Load readFile unmarshal configPath of
       Inl err \<Rightarrow> AppConfigFailed err
     | Inr options \<Rightarrow>
         if testConfig then AppTested
         else (case NewGateway ev defaultRegistryFactory newHTTP options of
             Inl err \<Rightarrow> AppGatewayFailed err
           | Inr g \<Rightarrow> AppRunning g))"

text \<open>The end: by a signal, with the error of the server's shutdown, or by the server itself.\<close>

datatype ending = BySignal "string option" | ByServer "string option"

definition appEnd :: "ending \<Rightarrow> ('raw, 'p) Gateway \<Rightarrow> ('raw, 'p) Gateway \<times> string option" where
  "appEnd e g = (case e of BySignal serverErr \<Rightarrow> ShutdownContext serverErr g | ByServer err \<Rightarrow> (g, err))"

section \<open>Closing\<close>

text \<open>Closing a client of etcd is an operation of the library; a store, a history or a source without a client has nothing to close.
  A service closes its store and then its history, and reports the first error.\<close>

definition closeClient :: "('s \<Rightarrow> 's \<times> string option) option \<Rightarrow> 's \<Rightarrow> 's \<times> string option" where
  "closeClient client s = (case client of None \<Rightarrow> (s, None) | Some close \<Rightarrow> close s)"

definition closeSource :: "'s Source \<Rightarrow> ('s \<Rightarrow> 's \<times> string option) option \<Rightarrow> 's \<Rightarrow> 's \<times> string option" where
  "closeSource source client s = (case source of FileSource _ \<Rightarrow> (s, None) | EtcdSource _ \<Rightarrow> closeClient client s)"

definition closeService ::
    "('s \<Rightarrow> 's \<times> string option) option \<Rightarrow> ('s \<Rightarrow> 's \<times> string option) option \<Rightarrow> 's \<Rightarrow> 's \<times> string option" where
  "closeService store history s =
     (case closeClient store s of (s, err) \<Rightarrow>
        (case closeClient history s of (s, closeErr) \<Rightarrow> (s, if err = None then closeErr else err)))"

definition closeAdmin ::
    "(('s \<Rightarrow> 's \<times> string option) option \<times> ('s \<Rightarrow> 's \<times> string option) option) option \<Rightarrow> 's \<Rightarrow> 's \<times> string option" where
  "closeAdmin service s = (case service of None \<Rightarrow> (s, None) | Some (store, history) \<Rightarrow> closeService store history s)"

section \<open>Facts\<close>

lemma closeService_both:
  "closeService (Some c1) (Some c2) s =
     (fst (c2 (fst (c1 s))), case snd (c1 s) of None \<Rightarrow> snd (c2 (fst (c1 s))) | Some err \<Rightarrow> Some err)"
  by (simp add: closeService_def closeClient_def case_prod_beta split: option.split)

text \<open>With the default transport no phase of an exchange may take longer than the whole of it.\<close>

lemma NewHTTP_timeouts:
  assumes "0 \<le> Connect t" "0 \<le> Read t" "0 \<le> Write t" and "Connect t + Read t + Write t < 2 ^ 63"
  obtains tr where "hp_Transport (NewHTTP \<lparr>ho_Transport = None, ho_Timeout = t\<rparr>) = DefaultTransport tr"
    and "tr_ResponseHeaderTimeout tr \<le> hp_Timeout (NewHTTP \<lparr>ho_Transport = None, ho_Timeout = t\<rparr>)"
    and "tr_TLSHandshakeTimeout tr \<le> hp_Timeout (NewHTTP \<lparr>ho_Transport = None, ho_Timeout = t\<rparr>)"
    and "tr_DialTimeout tr = (if Connect t > 0 then Some (Connect t) else None)"
  using assms by (simp add: NewHTTP_def Let_def requestTimeout_sum)

text \<open>The status that a list of calls decides, and the text that is collected.\<close>

fun decided :: "writerCall list \<Rightarrow> int" where
  "decided [] = 0"
| "decided (CallHeader # calls) = decided calls"
| "decided (CallWriteHeader code # calls) = (if code = 0 then decided calls else code)"
| "decided (CallWrite b # calls) = 200"

primrec written :: "writerCall \<Rightarrow> string" where
  "written CallHeader = []"
| "written (CallWriteHeader code) = []"
| "written (CallWrite b) = b"

lemma writer_run:
  "mw_body (fold writerStep calls w) = mw_body w @ concat (map written calls)
   \<and> mw_statusCode (fold writerStep calls w) = (if mw_statusCode w = 0 then decided calls else mw_statusCode w)"
proof (induction calls arbitrary: w)
  case (Cons c calls)
  show ?case
    by (cases c) (auto simp: Cons Header_def WriteHeader_def WriteBytes_def Let_def split: option.split)
qed simp

lemma collect_metrics: "collectStdPromMetrics calls = concat (map written calls)"
  by (simp add: collectStdPromMetrics_def writer_run)

lemma appRun_serves:
  assumes "appRun readFile unmarshal ev factory newHTTP path test = AppRunning g"
  obtains options r sn where "Config.Load readFile unmarshal path = Inr options" "Validate options = None"
    "compileIn ev (NewRuntimeCompiler factory newHTTP []) options = (r, Inr sn)" "gw_snapshot g = Some (r, sn)"
proof -
  obtain options where options: "Config.Load readFile unmarshal path = Inr options"
    and new: "NewWithCompiler ev (NewRuntimeCompiler factory newHTTP []) options = Inr g"
    using assms by (auto simp: appRun_def NewGateway_def split: sum.splits if_splits)
  moreover from options have "Validate options = None"
    by (auto simp: Config.Load_def Let_def split: option.splits)
  ultimately show ?thesis using that by (metis NewWithCompiler_snapshot)
qed

lemma statusClass_ok: "statusClass 200 = ''2xx''"
  by code_simp

section \<open>Results\<close>

text \<open>
  Liveness probes. \<^verbatim>\<open>GET /health\<close> is answered 200 by a gateway in any state, also after its shutdown and whatever its
  routes and its admin handler are, and is observed once; so no route with that path is reached by this method. Every other
  request goes to the request path of the gateway.
\<close>

theorem health_always_answers:
  "serverHandler run rawAbort admin metricsText g w =
     (if rq_Method (w_request w) = ''GET'' \<and> rq_Path (w_request w) = ''/health''
      then w\<lparr>w_response := (w_response w)\<lparr>rp_Headers := map_put ''Content-Type'' ''application/json'' (rp_Headers (w_response w)),
               rp_Status := 200, rp_Body := healthBody\<rparr>,
             w_recorder := ObserveGateway \<lparr>gl_Handler = ''health'', gl_Method = ''GET'', gl_RouteID = [], gl_StatusClass = ''2xx''\<rparr> 0 (w_recorder w)\<rparr>
      else gatewayServeHTTP run rawAbort admin metricsText (map_option snd (gw_snapshot g)) w)"
  by (simp add: serverHandler_def healthHandler_def observeRequest_def statusClass_ok)

end
