(* ===== verification/Bundle_Plan.thy ===== *)
theory Bundle_Plan
  imports Bundle_Apply
begin

text \<open>
  What the plan of an application says: \<^verbatim>\<open>BuildApplyPlan\<close> over the interface \<open>resource_store\<close>. The plan lists the
  actions that the contents of the store and the bundle call for, and after an application nothing is left to do.
\<close>

section \<open>Notions used in the statements\<close>

definition normalized :: "string \<Rightarrow> RawMessage \<Rightarrow> RawMessage" where
  "normalized i raw = (case NormalizeResourceBody raw i of Inr after \<Rightarrow> after | Inl _ \<Rightarrow> None)"

text \<open>The action that one resource calls for.\<close>

definition expected :: "FileBundle \<Rightarrow> ResourceKind list \<Rightarrow> resources \<Rightarrow> ResourceKind \<Rightarrow> string \<Rightarrow> ChangeAction option" where
  "expected b prune res kind i =
     (case desired b kind i of
        Some raw \<Rightarrow>
          (case res kind i of
             None \<Rightarrow> Some ChangeCreate
           | Some v \<Rightarrow> Some (if semanticResourceEqual (Some v) (normalized i raw) then ChangeUnchanged else ChangeUpdate))
      | None \<Rightarrow> if kind \<in> set prune \<and> res kind i \<noteq> None then Some ChangeDelete else None)"

definition occurrences :: "ResourceKind \<Rightarrow> ChangeAction \<Rightarrow> ChangeItem list \<Rightarrow> int" where
  "occurrences kind action items = int (length (filter (\<lambda>c. ci_Kind c = kind \<and> ci_Action c = action) items))"

definition summaryOf :: "ChangeItem list \<Rightarrow> ResourceKind \<Rightarrow> PlanSummary option" where
  "summaryOf items kind =
     (if kind \<in> ci_Kind ` set items
      then Some \<lparr>ps_Kind = kind, ps_Create = occurrences kind ChangeCreate items, ps_Update = occurrences kind ChangeUpdate items,
                 ps_Delete = occurrences kind ChangeDelete items, ps_Unchanged = occurrences kind ChangeUnchanged items\<rparr>
      else None)"

text \<open>A plan that lists the items \<open>all\<close>, without the unchanged ones unless they are asked for.\<close>

definition shows_items :: "bool \<Rightarrow> ChangeItem list \<Rightarrow> plan_state \<Rightarrow> bool" where
  "shows_items includeUnchanged all st \<longleftrightarrow>
     fst st = foldl (\<lambda>acc c. recordSummary acc (ci_Kind c) (ci_Action c)) [] all
     \<and> snd st = filter (\<lambda>c. ci_Action c = ChangeUnchanged \<longrightarrow> includeUnchanged) all"

section \<open>Facts\<close>

lemma DeepEqual_same_map:
  assumes "distinct (map fst m)" and "distinct (map fst n)" and eq: "map_of m = map_of n" and doc: "\<And>k v. map_of m k = Some v \<Longrightarrow> document v"
  shows "DeepEqual (AMap m) (AMap n)"
proof -
  have "set (map fst m) = set (map fst n)" using eq by (metis dom_map_of_conv_image_fst list.set_map)
  then have "length m = length n" using assms(1,2) by (metis distinct_card length_map)
  moreover have "case map_of n k of None \<Rightarrow> False | Some w \<Rightarrow> DeepEqual v w" if "(k, v) \<in> set m" for k v
  proof -
    have "map_of m k = Some v" using that assms(1) by simp
    then show ?thesis using eq doc DeepEqual_refl by (metis option.simps(5))
  qed
  ultimately show ?thesis by auto
qed

lemma normalized_storable:
  assumes "storable m"
  shows "NormalizeResourceBody (Some (AMap m)) i = Inr (Some (AMap (map_put ''id'' (AString i) m)))"
proof -
  have "document (AMap (map_put ''id'' (AString i) m))" using assms by (auto simp: storable_def dest!: set_map_put)
  then have "jsonify (AMap (map_put ''id'' (AString i) m)) = AMap (map_put ''id'' (AString i) m)" by (rule jsonify_document)
  then show ?thesis using storable_decode [OF assms] by (simp add: NormalizeResourceBody_def)
qed

lemma distinct_map_delete [simp]: "distinct (map fst m) \<Longrightarrow> distinct (map fst (map_delete k m))"
  by (simp add: map_delete_def distinct_delete)

lemma deploys_semantic:
  assumes d: "deploys i raw v" and st: "storableRaw raw"
  shows "semanticResourceEqual (Some v) (normalized i raw)"
proof -
  obtain m m' where m: "raw = Some (AMap m)" "v = AMap m'" "resource i v" and
    agree: "\<And>k. k \<noteq> ''create_time'' \<and> k \<noteq> ''update_time'' \<Longrightarrow> map_of m' k = (if k = ''id'' then Some (AString i) else map_of m k)"
    using d by (auto simp: deploys_def)
  have s: "storable m" using st m by (simp add: storableRaw_def)
  let ?a = "map_delete ''update_time'' (map_delete ''create_time'' m')"
  let ?b = "map_delete ''update_time'' (map_delete ''create_time'' (map_put ''id'' (AString i) m))"
  have docs: "document (AMap m')" "distinct (map fst m')" "distinct (map fst m)"
    using m s by (auto simp: resource_def storable_def)
  have "DeepEqual (AMap ?a) (AMap ?b)"
  proof (rule DeepEqual_same_map)
    show "map_of ?a = map_of ?b" using agree by (auto simp: fun_eq_iff)
    show "document w" if "map_of ?a k = Some w" for k w
      using that document_lookup [OF docs(1)] by (simp split: if_splits)
  qed (use docs in simp_all)
  then show ?thesis using m normalized_storable [OF s]
    by (simp add: semanticResourceEqual_def previewComparableValue_def decodeJSONObject_def decodeMap_def normalized_def)
qed

lemma enrich_fields [simp]:
  "ci_Kind (enrichChangeItem c) = ci_Kind c" "ci_ID (enrichChangeItem c) = ci_ID c" "ci_Action (enrichChangeItem c) = ci_Action c"
  by (simp_all add: enrichChangeItem_def Let_def split: prod.split)

lemma planResource_fields [simp]:
  "ci_Kind (planResource kind i after cur) = kind" "ci_ID (planResource kind i after cur) = i"
  "ci_Action (planResource kind i after cur) =
     (case cur of None \<Rightarrow> ChangeCreate
      | Some env \<Rightarrow> if semanticResourceEqual (env_Value env) after then ChangeUnchanged else ChangeUpdate)"
  by (simp_all add: planResource_def Let_def newChange_def split: option.split)

lemma planDelete_fields [simp]:
  "ci_Kind (planDelete src kind i before) = kind" "ci_ID (planDelete src kind i before) = i"
  "ci_Action (planDelete src kind i before) = ChangeDelete"
  by (simp_all add: planDelete_def newChange_def)

lemma occurrences_snoc [simp]:
  "occurrences k a (cs @ [c]) = occurrences k a cs + (if ci_Kind c = k \<and> ci_Action c = a then 1 else 0)"
  by (simp add: occurrences_def)

lemma occurrences_absent: "k \<notin> ci_Kind ` set cs \<Longrightarrow> occurrences k a cs = 0"
  by (auto simp: occurrences_def filter_empty_conv)

lemma tally: "map_of (foldl (\<lambda>acc c. recordSummary acc (ci_Kind c) (ci_Action c)) [] cs) k = summaryOf cs k"
proof (induction cs rule: rev_induct)
  case (snoc c cs)
  then show ?case
    by (cases "ci_Action c"; cases "ci_Kind c = k"; cases "k \<in> ci_Kind ` set cs")
      (auto simp: recordSummary_def summaryOf_def Let_def occurrences_absent)
qed (simp add: summaryOf_def)

lemma planDesired_outcome:
  assumes "\<forall>i\<in>set ids. \<exists>after. NormalizeResourceBody (map_get None g i) i = Inr after"
    and "shows_items incl all st"
  shows "\<exists>st'. planDesired incl kind g cur ids st = Inr st'
    \<and> shows_items incl (all @ map (\<lambda>i. planResource kind i (normalized i (map_get None g i)) (map_of cur i)) ids) st'"
  using assms
proof (induction ids arbitrary: all st)
  case (Cons i ids)
  obtain after where after: "NormalizeResourceBody (map_get None g i) i = Inr after" using Cons.prems by auto
  obtain acc chs where st: "st = (acc, chs)" by fastforce
  let ?c = "planResource kind i after (map_of cur i)"
  let ?st = "(recordSummary acc kind (ci_Action ?c), if ci_Action ?c = ChangeUnchanged \<and> \<not> incl then chs else chs @ [?c])"
  have n: "normalized i (map_get None g i) = after" using after by (simp add: normalized_def)
  have "shows_items incl (all @ [?c]) ?st" using Cons.prems(2) st by (auto simp: shows_items_def)
  moreover have "\<forall>i\<in>set ids. \<exists>after. NormalizeResourceBody (map_get None g i) i = Inr after" using Cons.prems(1) by simp
  moreover have "planDesired incl kind g cur (i # ids) st = planDesired incl kind g cur ids ?st"
    using after st by (simp add: Let_def)
  ultimately show ?case using Cons.IH [of "all @ [?c]" ?st] n by simp
qed simp

lemma planPrunes_outcome:
  assumes "shows_items incl all st"
  shows "shows_items incl (all @ map (\<lambda>i. planDelete src kind i (case map_of cur i of None \<Rightarrow> None | Some env \<Rightarrow> env_Value env))
      (filter (\<lambda>i. map_of g i = None) ids)) (planPrunes src kind g cur ids st)"
  using assms
proof (induction ids arbitrary: all st)
  case (Cons i ids)
  obtain acc chs where st: "st = (acc, chs)" by fastforce
  let ?c = "planDelete src kind i (case map_of cur i of None \<Rightarrow> None | Some env \<Rightarrow> env_Value env)"
  have "shows_items incl (all @ [?c]) (recordSummary acc kind ChangeDelete, chs @ [?c])"
    using Cons.prems st by (auto simp: shows_items_def)
  then show ?case using Cons.IH [of all st] Cons.IH [of "all @ [?c]"] Cons.prems st by (cases "map_of g i") auto
qed simp

lemma envelopesByID_lookup:
  assumes "\<forall>item\<in>set items. ExtractResourceID (env_Value item) = Inr (idOf item) \<and> idOf item \<noteq> []" and "distinct (map idOf items)"
  shows "map_of (envelopesByID acc items) i = (if i \<in> idOf ` set items then Some (THE item. item \<in> set items \<and> idOf item = i) else map_of acc i)
    \<and> (distinct (map fst acc) \<longrightarrow> distinct (map fst (envelopesByID acc items)))"
  using assms
proof (induction items arbitrary: acc)
  case (Cons item items)
  have eq: "envelopesByID acc (item # items) = envelopesByID (map_put (idOf item) item acc) items" using Cons.prems(1) by simp
  have "(THE x. x \<in> set (item # items) \<and> idOf x = i) = (if i = idOf item then item else (THE x. x \<in> set items \<and> idOf x = i))"
    if "i \<in> idOf ` set (item # items)"
  proof (cases "i = idOf item")
    case True
    then have "x \<in> set (item # items) \<and> idOf x = i \<longleftrightarrow> x = item" for x using Cons.prems(2) by (auto simp: image_iff)
    then show ?thesis using True by simp
  next
    case False
    then have "x \<in> set (item # items) \<and> idOf x = i \<longleftrightarrow> x \<in> set items \<and> idOf x = i" for x by auto
    then show ?thesis using False by simp
  qed
  then show ?case unfolding eq using Cons.IH [of "map_put (idOf item) item acc"] Cons.prems by auto
qed simp

text \<open>The triples of kind, identifier and action that a list of items stands for.\<close>

definition actions :: "ChangeItem list \<Rightarrow> (ResourceKind \<times> string \<times> ChangeAction) set" where
  "actions items = (\<lambda>c. (ci_Kind c, ci_ID c, ci_Action c)) ` set items"

lemma actions_member: "c \<in> set items \<Longrightarrow> (ci_Kind c, ci_ID c, ci_Action c) \<in> actions items"
  by (simp add: actions_def)

lemma keys_lookup: "i \<in> fst ` set m \<longleftrightarrow> (\<exists>v. map_of m i = Some v)"
  by (metis domD domI dom_map_of_conv_image_fst)

lemma group_normalizes:
  assumes ok: "bundleOK b" and g: "g = (case map_of (fb_Resources b) kind of None \<Rightarrow> [] | Some g \<Rightarrow> g)" and i: "i \<in> set (sort (map fst g))"
  shows "\<exists>after. NormalizeResourceBody (map_get None g i) i = Inr after"
proof -
  have "map_of (fb_Resources b) kind = Some g" using g i by (cases "map_of (fb_Resources b) kind") auto
  then have "groupOK g" using bundleOK_lookup [OF ok] by blast
  moreover obtain raw where "map_of g i = Some raw" using i by (auto simp: keys_lookup)
  ultimately show ?thesis using groupOK_lookup normalized_storable by (fastforce simp: map_get_def)
qed

context resource_store
begin

lemma envelopes_view:
  assumes inv: "inv s" and l: "listing (view s kind) items"
  shows "map_option env_Value (map_of (envelopesByID [] items) i) = map_option Some (view s kind i)"
    and "distinct (map fst (envelopesByID [] items))"
proof -
  obtain idOf where ids: "\<forall>item\<in>set items. ExtractResourceID (env_Value item) = Inr (idOf item) \<and> plainSegment (idOf item)
      \<and> env_Value item = view s kind (idOf item)" "idOf ` set items = dom (view s kind)" "distinct (map idOf items)"
    using listing_ids [OF inv l] by metis
  then have ne: "\<forall>item\<in>set items. ExtractResourceID (env_Value item) = Inr (idOf item) \<and> idOf item \<noteq> []" by (auto simp: plainSegment_def)
  note look = envelopesByID_lookup [OF ne ids(3), of "[]" i]
  show "distinct (map fst (envelopesByID [] items))" using envelopesByID_lookup [OF ne ids(3), of "[]"] by simp
  show "map_option env_Value (map_of (envelopesByID [] items) i) = map_option Some (view s kind i)"
  proof (cases "i \<in> idOf ` set items")
    case True
    then obtain item where item: "item \<in> set items" "idOf item = i" by auto
    then have "(THE x. x \<in> set items \<and> idOf x = i) = item"
      using ids(3) by (auto intro!: the_equality simp: distinct_map dest: inj_onD)
    then have "map_option env_Value (map_of (envelopesByID [] items) i) = Some (view s kind i)"
      using look True item ids(1) by auto
    moreover have "view s kind i \<noteq> None" using True ids(2) by auto
    ultimately show ?thesis by auto
  next
    case False
    then show ?thesis using look ids(2) by auto
  qed
qed

text \<open>The items of one kind.\<close>

lemma planKind_items:
  assumes ok: "bundleOK b" and inv: "inv s" and l: "listing (view s kind) items"
    and g: "g = (case map_of (fb_Resources b) kind of None \<Rightarrow> [] | Some g \<Rightarrow> g)"
    and cur: "cur = envelopesByID [] items"
    and new: "new = map (\<lambda>i. planResource kind i (normalized i (map_get None g i)) (map_of cur i)) (sort (map fst g))
       @ (if kind \<in> set prune
          then map (\<lambda>i. planDelete src kind i (case map_of cur i of None \<Rightarrow> None | Some env \<Rightarrow> env_Value env))
            (filter (\<lambda>i. map_of g i = None) (sort (map fst cur))) else [])"
  shows "actions new = {(k, i, a). k = kind \<and> expected b prune (view s) kind i = Some a}" and "distinct (map ci_ID new)"
proof -
  have gok: "groupOK g" unfolding g
    by (cases "map_of (fb_Resources b) kind") (use bundleOK_lookup [OF ok, of kind] in \<open>simp_all add: groupOK_def [of "[]"]\<close>)
  have des: "desired b kind i = map_of g i" for i unfolding g by (simp add: desired_def split: option.splits)
  note view = envelopes_view [OF inv l, folded cur]
  have curN: "map_of cur i = None \<longleftrightarrow> view s kind i = None" for i using view(1) [of i] by (cases "map_of cur i"; cases "view s kind i") auto
  have puts: "ci_Action (planResource kind i (normalized i (map_get None g i)) (map_of cur i)) = a \<longleftrightarrow> expected b prune (view s) kind i = Some a"
    if "map_of g i = Some raw" for i raw a
    using view(1) [of i] that
    by (cases "map_of cur i"; cases "view s kind i") (auto simp: expected_def des map_get_def)
  show "actions new = {(k, i, a). k = kind \<and> expected b prune (view s) kind i = Some a}"
  proof (intro set_eqI iffI)
    fix x assume "x \<in> actions new"
    then consider i raw where "map_of g i = Some raw" "x = (kind, i, ci_Action (planResource kind i (normalized i (map_get None g i)) (map_of cur i)))"
      | i where "kind \<in> set prune" "map_of g i = None" "map_of cur i \<noteq> None" "x = (kind, i, ChangeDelete)"
      unfolding new actions_def by (auto split: if_splits dest!: weak_map_of_SomeI)
    then show "x \<in> {(k, i, a). k = kind \<and> expected b prune (view s) kind i = Some a}"
      using puts curN by cases (auto simp: expected_def des)
  next
    fix x assume "x \<in> {(k, i, a). k = kind \<and> expected b prune (view s) kind i = Some a}"
    then obtain i a where x: "x = (kind, i, a)" "expected b prune (view s) kind i = Some a" by auto
    show "x \<in> actions new"
    proof (cases "map_of g i")
      case (Some raw)
      then have "i \<in> set (sort (map fst g))" by (simp add: keys_lookup)
      then have "planResource kind i (normalized i (map_get None g i)) (map_of cur i) \<in> set new" unfolding new by simp
      moreover have "x = (kind, i, ci_Action (planResource kind i (normalized i (map_get None g i)) (map_of cur i)))"
        using puts [OF Some, of a] x by (simp only: planResource_fields) simp
      ultimately show ?thesis unfolding actions_def by (intro image_eqI) (simp_all only: planResource_fields)
    next
      case None
      then have "a = ChangeDelete" "kind \<in> set prune" "map_of cur i \<noteq> None" using x curN by (auto simp: expected_def des split: if_splits)
      moreover have "i \<in> set (sort (map fst cur))" using calculation(3) by (simp add: keys_lookup)
      ultimately have "planDelete src kind i (case map_of cur i of None \<Rightarrow> None | Some env \<Rightarrow> env_Value env) \<in> set new"
        using None unfolding new by auto
      then show ?thesis unfolding actions_def using x(1) \<open>a = ChangeDelete\<close> by (intro image_eqI) simp_all
    qed
  qed
  show "distinct (map ci_ID new)"
    using gok view(2) unfolding new by (auto simp: groupOK_def comp_def map_of_eq_None_iff intro: rev_image_eqI)
qed

text \<open>One kind: the items that it adds, and the state of the plan after it.\<close>

lemma planKinds_Cons:
  assumes ok: "bundleOK b" and inv: "inv t" "listing (view t kind) items"
    and g: "g = (case map_of (fb_Resources b) kind of None \<Rightarrow> [] | Some g \<Rightarrow> g)"
    and some: "\<not> (map_of (fb_Resources b) kind = None \<and> kind \<notin> set prune)"
    and st: "shows_items (po_IncludeUnchanged options) all st" and l: "ServiceList store kind s = (t, Inr items)"
  obtains new st2 where "shows_items (po_IncludeUnchanged options) (all @ new) st2"
    and "actions new = {(k, i, a). k = kind \<and> expected b prune (view t) kind i = Some a}" and "distinct (map ci_ID new)"
    and "planKinds store b options prune (kind # kinds) st s = planKinds store b options prune kinds st2 t"
proof -
  define cur where "cur = envelopesByID [] items"
  let ?puts = "map (\<lambda>i. planResource kind i (normalized i (map_get None g i)) (map_of cur i)) (sort (map fst g))"
  let ?dels = "map (\<lambda>i. planDelete (pruneSourceLabel b options kind) kind i (case map_of cur i of None \<Rightarrow> None | Some env \<Rightarrow> env_Value env))
        (filter (\<lambda>i. map_of g i = None) (sort (map fst cur)))"
  define new where "new = ?puts @ (if kind \<in> set prune then ?dels else [])"
  note items = planKind_items [OF ok inv g cur_def new_def]
  have "\<forall>i\<in>set (sort (map fst g)). \<exists>after. NormalizeResourceBody (map_get None g i) i = Inr after"
    using group_normalizes [OF ok g] by blast
  from planDesired_outcome [OF this st] obtain st1
    where st1: "planDesired (po_IncludeUnchanged options) kind g cur (sort (map fst g)) st = Inr st1"
      "shows_items (po_IncludeUnchanged options) (all @ ?puts) st1" by blast
  define st2 where "st2 = (if kind \<in> set prune
      then planPrunes (pruneSourceLabel b options kind) kind g cur (sort (map fst cur)) st1 else st1)"
  have "shows_items (po_IncludeUnchanged options) (all @ new) st2"
    using st1(2) planPrunes_outcome [OF st1(2)] unfolding st2_def new_def by auto
  moreover have "planKinds store b options prune (kind # kinds) st s = planKinds store b options prune kinds st2 t"
    unfolding planKinds.simps Let_def g [symmetric] l using some by (auto simp: cur_def [symmetric] st1(1) st2_def)
  ultimately show ?thesis using items by (intro that)
qed

lemma planKinds_outcome:
  assumes ok: "bundleOK b" and "inv s" and "distinct kinds" and "set kinds \<subseteq> set supportedKinds"
    and "shows_items (po_IncludeUnchanged options) all st"
    and "planKinds store b options prune kinds st s = (s', r)"
  shows "inv s' \<and> view s' = view s
    \<and> (case r of
         Inl e \<Rightarrow> \<exists>msg. e = StoreFailed msg
       | Inr st' \<Rightarrow> \<exists>new. shows_items (po_IncludeUnchanged options) (all @ new) st'
           \<and> actions new = {(k, i, a). k \<in> set kinds \<and> expected b prune (view s) k i = Some a}
           \<and> distinct (map (\<lambda>c. (ci_Kind c, ci_ID c)) new))"
  using assms(2-)
proof (induction kinds arbitrary: s all st)
  case Nil
  then show ?case by (auto simp: actions_def intro!: exI [of _ "[]"])
next
  case (Cons kind kinds)
  have k: "kind \<in> set supportedKinds" "set kinds \<subseteq> set supportedKinds" "distinct kinds" "kind \<notin> set kinds" using Cons.prems by auto
  show ?case
  proof (cases "map_of (fb_Resources b) kind = None \<and> kind \<notin> set prune")
    case True
    then have "planKinds store b options prune kinds st s = (s', r)" using Cons.prems(5) by simp
    moreover have "expected b prune (view s) kind i = None" for i using True by (simp add: expected_def desired_def)
    ultimately show ?thesis using Cons.IH [OF Cons.prems(1) k(3,2) Cons.prems(4)] by (auto split: sum.splits)
  next
    case False
    obtain t l where l: "ServiceList store kind s = (t, l)" by fastforce
    note lst = List_outcome [OF Cons.prems(1) k(1) l]
    show ?thesis
    proof (cases l)
      case (Inl e)
      then show ?thesis using lst l Cons.prems(5) False by (auto simp: Let_def)
    next
      case (Inr items)
      have t: "inv t" "view t = view s" "listing (view t kind) items" using lst Inr by auto
      obtain new st2 where st2: "shows_items (po_IncludeUnchanged options) (all @ new) st2"
        and items: "actions new = {(k, i, a). k = kind \<and> expected b prune (view t) kind i = Some a}" "distinct (map ci_ID new)"
        and step: "planKinds store b options prune (kind # kinds) st s = planKinds store b options prune kinds st2 t"
        using planKinds_Cons [OF ok t(1,3) refl False Cons.prems(4) l [unfolded Inr], of kinds] by blast
      have run: "planKinds store b options prune kinds st2 t = (s', r)" using Cons.prems(5) unfolding step .
      note IH = Cons.IH [OF t(1) k(3,2) st2 run, unfolded t(2)]
      show ?thesis
      proof (cases r)
        case (Inl e)
        then show ?thesis using IH by simp
      next
        case (Inr st')
        then obtain rest where rest: "shows_items (po_IncludeUnchanged options) ((all @ new) @ rest) st'"
          "actions rest = {(k, i, a). k \<in> set kinds \<and> expected b prune (view s) k i = Some a}"
          "distinct (map (\<lambda>c. (ci_Kind c, ci_ID c)) rest)" using IH by auto
        have kinds: "c \<in> set new \<Longrightarrow> ci_Kind c = kind" "c \<in> set rest \<Longrightarrow> ci_Kind c \<in> set kinds" for c
          using actions_member [of c new] actions_member [of c rest] items(1) rest(2) by auto
        have "actions (new @ rest) = actions new \<union> actions rest" by (auto simp: actions_def)
        also have "\<dots> = {(k, i, a). k \<in> set (kind # kinds) \<and> expected b prune (view s) k i = Some a}"
          using items(1) rest(2) t(2) by auto
        finally have "actions (new @ rest) = {(k, i, a). k \<in> set (kind # kinds) \<and> expected b prune (view s) k i = Some a}" .
        moreover have "distinct (map (\<lambda>c. (ci_Kind c, ci_ID c)) (new @ rest))"
          using items(2) rest(3) kinds k(4) by (auto simp: distinct_map inj_on_def)
        ultimately show ?thesis using IH rest(1) Inr by (auto intro!: exI [of _ "new @ rest"])
      qed
    qed
  qed
qed

lemma BuildApplyPlan_outcome:
  assumes ok: "bundleOK b" and inv: "inv s" and run: "BuildApplyPlan store b options s = (s', r)"
    and prune: "prune = resolvePruneKinds b \<lparr>ao_PruneKinds = po_PruneKinds options, ao_Prune = po_Prune options\<rparr>"
  shows "inv s' \<and> view s' = view s
    \<and> (case r of
         Inl e \<Rightarrow> \<exists>msg. e = StoreFailed msg
       | Inr plan \<Rightarrow> \<exists>all.
           actions all = {(k, i, a). expected b prune (view s) k i = Some a} \<and> distinct (map (\<lambda>c. (ci_Kind c, ci_ID c)) all)
           \<and> ap_Changes plan = filter (\<lambda>c. ci_Action c = ChangeUnchanged \<longrightarrow> po_IncludeUnchanged options) all
           \<and> ap_Summary plan = List.map_filter (summaryOf all) applyOrder)"
proof -
  obtain t q where q: "planKinds store b options prune applyOrder ([], []) s = (t, q)" by fastforce
  have order: "distinct applyOrder" "set applyOrder = set supportedKinds" by code_simp+
  note out = planKinds_outcome [OF ok inv order(1) _ _ q, of "[]"]
  have out: "inv t" "view t = view s" "\<And>e. q = Inl e \<Longrightarrow> \<exists>msg. e = StoreFailed msg"
    "\<And>st'. q = Inr st' \<Longrightarrow> \<exists>new. shows_items (po_IncludeUnchanged options) new st'
           \<and> actions new = {(k, i, a). k \<in> set supportedKinds \<and> expected b prune (view s) k i = Some a}
           \<and> distinct (map (\<lambda>c. (ci_Kind c, ci_ID c)) new)"
    using out order(2) by (auto simp: shows_items_def)
  have sup: "k \<in> set supportedKinds" if "expected b prune (view s) k i = Some a" for k i a
  proof (rule ccontr)
    assume k: "k \<notin> set supportedKinds"
    have "view s k i = None" using view_resource [OF inv, of k i] k by (cases "view s k i") (auto simp: addressable_def)
    moreover have "map_of (fb_Resources b) k = None"
      using bundleOK_lookup [OF ok, of k] k by (cases "map_of (fb_Resources b) k") auto
    ultimately show False using that by (simp add: expected_def desired_def split: if_splits)
  qed
  then have supset: "{(k, i, a). k \<in> set supportedKinds \<and> expected b prune (view s) k i = Some a} = {(k, i, a). expected b prune (view s) k i = Some a}"
    by blast
  show ?thesis
  proof (cases q)
    case (Inl e)
    then show ?thesis using run q out unfolding BuildApplyPlan_def prune [symmetric] Let_def by auto
  next
    case (Inr st')
    obtain acc chs where st': "st' = (acc, chs)" by fastforce
    then have r: "s' = t" "r = Inr \<lparr>ap_Summary = flattenSummaries acc, ap_Changes = chs\<rparr>"
      using run q Inr unfolding BuildApplyPlan_def prune [symmetric] Let_def by auto
    obtain new where new: "shows_items (po_IncludeUnchanged options) new st'"
      "actions new = {(k, i, a). expected b prune (view s) k i = Some a}" "distinct (map (\<lambda>c. (ci_Kind c, ci_ID c)) new)"
      using out(4) [OF Inr] supset by auto
    moreover have "map_of acc = summaryOf new" using new(1) tally st' by (auto simp: shows_items_def fun_eq_iff)
    ultimately show ?thesis using out(1,2) r st' by (auto simp: shows_items_def flattenSummaries_def intro!: exI [of _ new])
  qed
qed

end

section \<open>Results\<close>

text \<open>
  The plan is what the bundle and the store call for: on etcd and for a bundle of storable resources, the items
  are exactly one creation for each resource of the bundle that is not stored, one update for each that is stored with other
  members, one unchanged item for each of the others (listed when asked for), and one deletion for each stored resource of a
  pruned kind that the bundle omits; the summaries count them by kind in the order of application. Planning changes nothing
  and fails for an error of etcd only.
\<close>

theorem plan_meaning:
  assumes "etcd_store client kvs prefix" and "bundleOK b" and "etcdInv (normalizePrefix prefix) (kvs s)"
    and "BuildApplyPlan (etcdStore (NewEtcdStoreWithClient client prefix)) b options s = (s', r)"
    and "prune = resolvePruneKinds b \<lparr>ao_PruneKinds = po_PruneKinds options, ao_Prune = po_Prune options\<rparr>"
  shows "etcdInv (normalizePrefix prefix) (kvs s') \<and> etcdView (normalizePrefix prefix) (kvs s') = etcdView (normalizePrefix prefix) (kvs s)
    \<and> (case r of
         Inl e \<Rightarrow> \<exists>msg. e = StoreFailed msg
       | Inr plan \<Rightarrow> \<exists>all.
           actions all = {(k, i, a). expected b prune (etcdView (normalizePrefix prefix) (kvs s)) k i = Some a}
           \<and> distinct (map (\<lambda>c. (ci_Kind c, ci_ID c)) all)
           \<and> ap_Changes plan = filter (\<lambda>c. ci_Action c = ChangeUnchanged \<longrightarrow> po_IncludeUnchanged options) all
           \<and> ap_Summary plan = List.map_filter (summaryOf all) applyOrder)"
  using resource_store.BuildApplyPlan_outcome [OF etcd_store.is_store [OF assms(1)] assms(2-)] .

definition planOptions :: PreviewOptions where
  "planOptions = \<lparr>po_PruneKinds = [], po_Prune = True, po_IncludeUnchanged = False\<rparr>"

definition samplePlan :: "memory \<times> (cp_error + ApplyPlan)" where
  "samplePlan = BuildApplyPlan memoryStore sampleBundle planOptions (fst afterPut)"

theorem plan_meaning_witness:
  "etcdView (normalizePrefix productionPrefix) (memKvs (fst samplePlan)) = etcdView (normalizePrefix productionPrefix) (memKvs (fst afterPut))
   \<and> (case snd samplePlan of
        Inl _ \<Rightarrow> False
      | Inr plan \<Rightarrow> map (\<lambda>c. (ci_Kind c, ci_ID c, ci_Action c)) (ap_Changes plan)
          = [(KindRoute, ''7'', ChangeCreate), (KindRoute, ''42'', ChangeDelete)])"
proof
  have "BuildApplyPlan (etcdStore (NewEtcdStoreWithClient memClient productionPrefix)) sampleBundle planOptions (fst afterPut)
      = (fst samplePlan, snd samplePlan)" by (simp add: samplePlan_def memoryStore_def)
  from plan_meaning [OF etcd_store_production sampleBundle_OK afterPut_inv this refl]
  show "etcdView (normalizePrefix productionPrefix) (memKvs (fst samplePlan)) = etcdView (normalizePrefix productionPrefix) (memKvs (fst afterPut))"
    by blast
  show "case snd samplePlan of
        Inl _ \<Rightarrow> False
      | Inr plan \<Rightarrow> map (\<lambda>c. (ci_Kind c, ci_ID c, ci_Action c)) (ap_Changes plan)
          = [(KindRoute, ''7'', ChangeCreate), (KindRoute, ''42'', ChangeDelete)]" by code_simp
qed

lemma applied_expected:
  assumes ok: "bundleOK b" and ap: "applied b prune res res'"
  shows "expected b prune res' k i \<in> {None, Some ChangeUnchanged}"
proof -
  have one: "if concerned b prune k i then reached b prune k i (res' k i) else res' k i = res k i" using ap by (simp add: applied_def)
  show ?thesis
  proof (cases "desired b k i")
    case None
    then show ?thesis using one by (auto simp: expected_def concerned_def reached_def)
  next
    case (Some raw)
    then obtain v where v: "res' k i = Some v" "deploys i raw v" using one by (auto simp: concerned_def reached_def)
    have "storableRaw raw" using Some bundleOK_lookup [OF ok] groupOK_lookup
      by (fastforce simp: desired_def storableRaw_object split: option.splits)
    then show ?thesis using Some v deploys_semantic by (simp add: expected_def)
  qed
qed

text \<open>
  After a bundle has been applied, nothing is left to do: the plan for the same bundle and the same pruning lists
  no change, so applying is idempotent as far as the plan can tell.
\<close>

theorem plan_after_apply:
  assumes "etcd_store client kvs prefix" and "bundleOK b" and "etcdInv (normalizePrefix prefix) (kvs s)"
    and "ApplyBundleWithOptions (etcdStore (NewEtcdStoreWithClient client prefix)) now b
           \<lparr>ao_PruneKinds = po_PruneKinds options, ao_Prune = po_Prune options\<rparr> s = (s', Inr counts)"
    and "\<not> po_IncludeUnchanged options"
    and "BuildApplyPlan (etcdStore (NewEtcdStoreWithClient client prefix)) b options s' = (s'', Inr plan)"
  shows "ap_Changes plan = []"
proof -
  let ?prune = "resolvePruneKinds b \<lparr>ao_PruneKinds = po_PruneKinds options, ao_Prune = po_Prune options\<rparr>"
  note store = etcd_store.is_store [OF assms(1)]
  note fin = resource_store.ApplyBundle_outcome [OF store assms(2-4)]
  then obtain all where all: "actions all = {(k, i, a). expected b ?prune (etcdView (normalizePrefix prefix) (kvs s')) k i = Some a}"
    "ap_Changes plan = filter (\<lambda>c. ci_Action c = ChangeUnchanged \<longrightarrow> po_IncludeUnchanged options) all"
    using resource_store.BuildApplyPlan_outcome [OF store assms(2) _ assms(6) refl] by auto
  have "ci_Action c = ChangeUnchanged" if "c \<in> set all" for c
  proof -
    have "applied b ?prune (etcdView (normalizePrefix prefix) (kvs s)) (etcdView (normalizePrefix prefix) (kvs s'))" using fin by simp
    from applied_expected [OF assms(2) this, of "ci_Kind c" "ci_ID c"] actions_member [OF that] show ?thesis unfolding all(1) by auto
  qed
  then show ?thesis using all(2) assms(5) by (simp add: filter_empty_conv)
qed

theorem plan_after_apply_witness:
  "case snd (BuildApplyPlan memoryStore sampleBundle planOptions (fst afterApply)) of
     Inl _ \<Rightarrow> False | Inr plan \<Rightarrow> ap_Changes plan = []"
proof -
  have run: "snd afterApply = Inr [(KindRoute, 1)]" by code_simp
  have ran: "ApplyBundleWithOptions (etcdStore (NewEtcdStoreWithClient memClient productionPrefix)) me_clock sampleBundle
      \<lparr>ao_PruneKinds = po_PruneKinds planOptions, ao_Prune = po_Prune planOptions\<rparr> (fst afterPut) = (fst afterApply, Inr [(KindRoute, 1)])"
    using run by (simp add: afterApply_def memoryStore_def planOptions_def pruneOptions_def prod_eq_iff)
  have "case snd (BuildApplyPlan memoryStore sampleBundle planOptions (fst afterApply)) of Inl _ \<Rightarrow> False | Inr _ \<Rightarrow> True" by code_simp
  then obtain t plan where "BuildApplyPlan memoryStore sampleBundle planOptions (fst afterApply) = (t, Inr plan)"
    by (cases "BuildApplyPlan memoryStore sampleBundle planOptions (fst afterApply)") (auto split: sum.splits)
  with plan_after_apply [OF etcd_store_production sampleBundle_OK afterPut_inv ran] show ?thesis
    by (simp add: planOptions_def memoryStore_def)
qed

end
