(* ===== verification/History_Laws.thy ===== *)
theory History_Laws
  imports History Bundle_Plan
begin

text \<open>
  What the history promises: entries survive their encoding, saving keeps the newest entries up to the limit, and
  rolling back brings the resources of an entry back.
\<close>

section \<open>Notions used in the statements\<close>

text \<open>An entry that its encoding does not lose anything of: no nil message, and counts in the range of
  \<^verbatim>\<open>int\<close>.\<close>

definition entryOK :: "HistoryEntry \<Rightarrow> bool" where
  "entryOK e \<longleftrightarrow>
     (\<forall>(kind, g)\<in>set (fb_Resources (he_Bundle e)). \<forall>(i, raw)\<in>set g. raw \<noteq> None)
     \<and> (\<forall>(kind, n)\<in>set (hs_Counts (he_Summary e)). - (2 ^ 63) \<le> n \<and> n < 2 ^ 63)"

text \<open>The entries below the root of the history, and that there is nothing else there.\<close>

definition historyView :: "string \<Rightarrow> (string \<Rightarrow> RawMessage option) \<Rightarrow> string \<Rightarrow> HistoryEntry option" where
  "historyView rootKey kvs i =
     (if plainSegment i then (case kvs (rootKey @ i) of None \<Rightarrow> None | Some raw \<Rightarrow> unmarshalEntry raw) else None)"

definition historyInv :: "string \<Rightarrow> (string \<Rightarrow> RawMessage option) \<Rightarrow> bool" where
  "historyInv rootKey kvs \<longleftrightarrow>
     (\<forall>key raw. kvs key = Some raw \<and> HasPrefix key rootKey \<longrightarrow>
        (\<exists>e. entryOK e \<and> plainSegment (he_ID e) \<and> key = rootKey @ he_ID e \<and> raw = Some (marshalEntry e)))"

section \<open>The encoding\<close>

lemma jsonField_omit: "jsonField name (omitString key s) = (if s \<noteq> [] \<and> EqualFold key name then Some (AString s) else None)"
  by (simp add: omitString_def jsonField_Cons)

lemma asString_omit [simp]: "asString (if s \<noteq> [] then Some (AString s) else None) = Some s"
  by (simp add: asString_def)

lemma decodeAll_map: "(\<And>x. x \<in> set xs \<Longrightarrow> f (g x) = Some x) \<Longrightarrow> decodeAll f (map g xs) = Some xs"
  by (induction xs) auto

lemma asStrings_list [simp]: "asStrings (Some (AList (map AString xs))) = Some xs"
  by (simp add: asStrings_def asString_def decodeAll_map)

lemma asMapOf_map:
  assumes "\<And>k x. (k, x) \<in> set m \<Longrightarrow> f (Some (g x)) = Some x"
  shows "asMapOf f (Some (AMap (map (map_prod id g) m))) = Some m"
  using assms by (auto simp: asMapOf_def intro!: decodeAll_map)

lemma floor_of_int_bounds: "- (2 ^ 63) \<le> n \<Longrightarrow> n < 2 ^ 63 \<Longrightarrow> asInt (Some (AFloat (of_int n))) = Some n"
  by (auto simp: asInt_def isInt_def)

lemma summary_roundtrip:
  assumes "\<forall>(kind, n)\<in>set (hs_Counts s). - (2 ^ 63) \<le> n \<and> n < 2 ^ 63"
  shows "unmarshalSummary (Some (marshalSummary s)) = Some s"
proof -
  have "asMapOf asInt (Some (AMap (map (map_prod id (\<lambda>n. AFloat (of_int n))) (hs_Counts s)))) = Some (hs_Counts s)"
    using assms by (intro asMapOf_map floor_of_int_bounds) auto
  moreover have "\<not> EqualFold ''counts'' ''managed_kinds''" "\<not> EqualFold ''managed_kinds'' ''counts''"
    "EqualFold ''counts'' ''counts''" "EqualFold ''managed_kinds'' ''managed_kinds''" by code_simp+
  ultimately show ?thesis
    by (cases "hs_Counts s = []"; cases "hs_ManagedKinds s = []")
      (auto simp: unmarshalSummary_def marshalSummary_def asObject_def jsonField_Cons asMapOf_def [of _ None] asStrings_def [of None])
qed

lemma meta_roundtrip: "unmarshalMeta (Some (marshalMeta m)) = Some m"
proof -
  have fold: "\<not> EqualFold ''exported_at'' ''format''" "\<not> EqualFold ''etcd_prefix'' ''format''" "\<not> EqualFold ''managed_kinds'' ''format''"
    "\<not> EqualFold ''format'' ''exported_at''" "\<not> EqualFold ''etcd_prefix'' ''exported_at''" "\<not> EqualFold ''managed_kinds'' ''exported_at''"
    "\<not> EqualFold ''format'' ''etcd_prefix''" "\<not> EqualFold ''exported_at'' ''etcd_prefix''" "\<not> EqualFold ''managed_kinds'' ''etcd_prefix''"
    "\<not> EqualFold ''format'' ''managed_kinds''" "\<not> EqualFold ''exported_at'' ''managed_kinds''" "\<not> EqualFold ''etcd_prefix'' ''managed_kinds''"
    "EqualFold ''format'' ''format''" "EqualFold ''exported_at'' ''exported_at''" "EqualFold ''etcd_prefix'' ''etcd_prefix''"
    "EqualFold ''managed_kinds'' ''managed_kinds''"
    by code_simp+
  let ?m = "omitString ''format'' (bm_Format m) @ omitString ''exported_at'' (bm_ExportedAt m)
           @ omitString ''etcd_prefix'' (bm_EtcdPrefix m)
           @ (if bm_ManagedKinds m = [] then [] else [(''managed_kinds'', AList (map AString (bm_ManagedKinds m)))])"
  have "asString (jsonField ''format'' ?m) = Some (bm_Format m)" "asString (jsonField ''exported_at'' ?m) = Some (bm_ExportedAt m)"
    "asString (jsonField ''etcd_prefix'' ?m) = Some (bm_EtcdPrefix m)" "asStrings (jsonField ''managed_kinds'' ?m) = Some (bm_ManagedKinds m)"
    by (simp_all add: jsonField_append jsonField_omit jsonField_Cons fold asString_def asStrings_def [of None])
  then show ?thesis by (simp add: unmarshalMeta_def marshalMeta_def asObject_def)
qed

lemma bundle_roundtrip:
  assumes "\<forall>(kind, g)\<in>set (fb_Resources b). \<forall>(i, raw)\<in>set g. raw \<noteq> None"
  shows "unmarshalBundle (Some (marshalBundle b)) = Some b"
proof -
  have grp: "asMapOf asRaw (Some (AMap (map (map_prod id marshalRaw) g))) = Some g" if "(kind, g) \<in> set (fb_Resources b)" for kind g
  proof (rule asMapOf_map)
    fix i raw assume "(i, raw) \<in> set g"
    then have "raw \<noteq> None" using assms that by fastforce
    then show "asRaw (Some (marshalRaw raw)) = Some raw" by (auto simp: asRaw_def marshalRaw_def)
  qed
  have "asMapOf (asMapOf asRaw) (Some (AMap (map (map_prod id (\<lambda>g. AMap (map (map_prod id marshalRaw) g))) (fb_Resources b)))) = Some (fb_Resources b)"
    by (rule asMapOf_map) (rule grp)
  moreover have "\<not> EqualFold ''Meta'' ''Resources''" "\<not> EqualFold ''Resources'' ''Meta''" "EqualFold ''Meta'' ''Meta''"
    "EqualFold ''Resources'' ''Resources''" by code_simp+
  ultimately show ?thesis
    by (simp add: unmarshalBundle_def marshalBundle_def asObject_def jsonField_Cons meta_roundtrip)
qed

lemma entry_roundtrip: "entryOK e \<Longrightarrow> unmarshalEntry (Some (marshalEntry e)) = Some e"
proof -
  assume ok: "entryOK e"
  let ?flds = "[(''id'', AString (he_ID e)), (''created_at'', AString (he_CreatedAt e)), (''source'', AString (he_Source e)),
            (''summary'', marshalSummary (he_Summary e))]
           @ omitString ''actor'' (he_Actor e) @ omitString ''note'' (he_Note e) @ omitString ''rollback_of'' (he_RollbackOf e)
           @ [(''bundle'', marshalBundle (he_Bundle e))]"
  have fld: "jsonField name ?flds =
      (if EqualFold ''bundle'' name then Some (marshalBundle (he_Bundle e))
       else if he_RollbackOf e \<noteq> [] \<and> EqualFold ''rollback_of'' name then Some (AString (he_RollbackOf e))
       else if he_Note e \<noteq> [] \<and> EqualFold ''note'' name then Some (AString (he_Note e))
       else if he_Actor e \<noteq> [] \<and> EqualFold ''actor'' name then Some (AString (he_Actor e))
       else if EqualFold ''summary'' name then Some (marshalSummary (he_Summary e))
       else if EqualFold ''source'' name then Some (AString (he_Source e))
       else if EqualFold ''created_at'' name then Some (AString (he_CreatedAt e))
       else if EqualFold ''id'' name then Some (AString (he_ID e)) else None)" for name
    by (simp add: jsonField_append jsonField_omit jsonField_Cons)
  have f1: "asString (jsonField ''id'' ?flds) = Some (he_ID e)" "asString (jsonField ''created_at'' ?flds) = Some (he_CreatedAt e)"
    "asString (jsonField ''source'' ?flds) = Some (he_Source e)"
    unfolding fld by (simp_all add: asString_def EqualFold_def lower_char_def)
  have f2: "asString (jsonField ''actor'' ?flds) = Some (he_Actor e)" "asString (jsonField ''note'' ?flds) = Some (he_Note e)"
    "asString (jsonField ''rollback_of'' ?flds) = Some (he_RollbackOf e)"
    unfolding fld by (simp_all add: asString_def EqualFold_def lower_char_def)
  have f3: "jsonField ''summary'' ?flds = Some (marshalSummary (he_Summary e))" "jsonField ''bundle'' ?flds = Some (marshalBundle (he_Bundle e))"
    unfolding fld by (simp_all add: EqualFold_def lower_char_def)
  have "unmarshalSummary (Some (marshalSummary (he_Summary e))) = Some (he_Summary e)"
    "unmarshalBundle (Some (marshalBundle (he_Bundle e))) = Some (he_Bundle e)"
    by (rule summary_roundtrip [OF conjunct2 [OF ok [unfolded entryOK_def]]])
      (rule bundle_roundtrip [OF conjunct1 [OF ok [unfolded entryOK_def]]])
  then show ?thesis unfolding unmarshalEntry_def marshalEntry_def
    by (simp only: Option.bind.simps asObject_def option.case any.case f1 f2 f3) simp
qed

section \<open>Keys\<close>

definition historyRoot :: "string \<Rightarrow> string" where
  "historyRoot prefix = ''/lumen/history/'' @ historyNamespace prefix @ ''/''"

lemma historyRoot_eq:
  assumes "plainSegment (historyNamespace prefix)"
  shows "eh_root (NewEtcdHistoryStoreWithClient client prefix) = historyRoot prefix"
proof -
  have "properPrefix ''/lumen/history''" "Clean ''/lumen/history'' = ''/lumen/history''" by code_simp+
  with pathJoin_key(2) [of "''/lumen/history''", OF _ assms assms] show ?thesis
    by (simp add: NewEtcdHistoryStoreWithClient_def historyRoot_def)
qed

lemma historyKey_eq:
  assumes ns: "plainSegment (historyNamespace prefix)" and i: "plainSegment i"
  shows "historyKey (NewEtcdHistoryStoreWithClient client prefix) i = historyRoot prefix @ i"
proof -
  let ?ns = "historyNamespace prefix"
  have parts: "Split ''/lumen/history'' CHR ''/'' = [[], ''lumen'', ''history'']" by code_simp
  have seg: "Split (historyRoot prefix) CHR ''/'' = [[], ''lumen'', ''history'', ?ns, []]"
    using Split_append [of "''/lumen/history''" "CHR ''/''" "?ns @ ''/''"] Split_append [of ?ns "CHR ''/''" "[]"] ns parts
    by (simp add: historyRoot_def plainSegment_def Split_no_sep)
  have clean: "cleanSegments True [[], ''lumen'', ''history'', ?ns, []] [] = [''lumen'', ''history'', ?ns]"
    using ns by (simp add: plainSegment_def)
  have pre: "HasPrefix (historyRoot prefix) ''/''" by (simp add: historyRoot_def)
  have proper: "properPrefix (historyRoot prefix)" unfolding properPrefix_def seg clean using pre by simp
  have "Clean (historyRoot prefix) = ''/lumen/history/'' @ ?ns"
    unfolding Clean_proper [OF proper] seg clean by simp
  with pathJoin_key(2) [OF proper i i] show ?thesis
    by (simp add: historyKey_def historyRoot_eq [OF ns]) (simp add: historyRoot_def)
qed

section \<open>The store\<close>

lemma historyView_entry:
  assumes inv: "historyInv rootKey m" and i: "plainSegment i" and val: "m (rootKey @ i) = Some raw"
  shows "\<exists>e. entryOK e \<and> he_ID e = i \<and> raw = Some (marshalEntry e) \<and> historyView rootKey m i = Some e"
proof -
  obtain e where e: "entryOK e" "rootKey @ i = rootKey @ he_ID e" "raw = Some (marshalEntry e)"
    using inv val unfolding historyInv_def by (metis HasPrefix_append)
  then show ?thesis using entry_roundtrip [OF e(1)] i val by (auto simp: historyView_def)
qed

lemma historyView_ID: "historyInv rootKey m \<Longrightarrow> historyView rootKey m i = Some e \<Longrightarrow> plainSegment i \<and> entryOK e \<and> he_ID e = i"
  using historyView_entry [of rootKey m i] by (fastforce simp: historyView_def split: if_splits option.splits)

lemma historyView_update:
  assumes "plainSegment i"
  shows "historyView rootKey (m(rootKey @ i := raw)) = (historyView rootKey m)(i := (case raw of None \<Rightarrow> None | Some r \<Rightarrow> unmarshalEntry r))"
  using assms by (auto simp: historyView_def fun_eq_iff)

lemma historyInv_put:
  "historyInv rootKey m \<Longrightarrow> entryOK e \<Longrightarrow> plainSegment (he_ID e) \<Longrightarrow> historyInv rootKey (m(rootKey @ he_ID e \<mapsto> Some (marshalEntry e)))"
  unfolding historyInv_def by auto

lemma historyInv_delete: "historyInv rootKey m \<Longrightarrow> historyInv rootKey (m(key := None))"
  unfolding historyInv_def by auto

lemma historyItems_entries:
  assumes "\<forall>kv\<in>set l. kv_Key kv \<noteq> rootKey \<and> kv_Key kv \<noteq> TrimSuffix rootKey ''/''
      \<and> (\<exists>e. kv_Value kv = Some (marshalEntry e) \<and> entryOK e \<and> he_ID e \<noteq> [] \<and> kv_Key kv = rootKey @ he_ID e)"
  shows "\<exists>items. historyItems rootKey l = Inr items \<and> map (\<lambda>e. rootKey @ he_ID e) items = map kv_Key l
      \<and> (\<forall>e\<in>set items. entryOK e \<and> (\<exists>kv\<in>set l. kv_Key kv = rootKey @ he_ID e \<and> kv_Value kv = Some (marshalEntry e)))"
  using assms
proof (induction l)
  case (Cons kv l)
  then obtain e where e: "kv_Value kv = Some (marshalEntry e)" "entryOK e" "he_ID e \<noteq> []" "kv_Key kv = rootKey @ he_ID e" by auto
  obtain items where items: "historyItems rootKey l = Inr items" "map (\<lambda>e. rootKey @ he_ID e) items = map kv_Key l"
    "\<forall>e\<in>set items. entryOK e \<and> (\<exists>kv\<in>set l. kv_Key kv = rootKey @ he_ID e \<and> kv_Value kv = Some (marshalEntry e))"
    using Cons by auto
  have "historyItems rootKey (kv # l) = Inr (e # items)" using Cons.prems e items(1) entry_roundtrip [OF e(2)] by simp
  then show ?case using items e by auto
qed simp

text \<open>What is left when all but the newest entries are deleted.\<close>

lemma newest_view:
  assumes "finite (dom v)" and all: "map he_ID all = rev (sorted_list_of_set (dom v))"
    and gone: "\<And>i. i \<in> he_ID ` set (drop n all) \<Longrightarrow> w i = None" and kept: "\<And>i. i \<notin> he_ID ` set (drop n all) \<Longrightarrow> w i = v i"
  shows "w = v |` set (take n (rev (sorted_list_of_set (dom v))))"
proof
  let ?ids = "rev (sorted_list_of_set (dom v))"
  have old: "he_ID ` set (drop n all) = set (drop n ?ids)" using all by (metis drop_map list.set_map)
  have ids: "set (take n ?ids) \<union> set (drop n ?ids) = dom v" using assms(1) by (metis append_take_drop_id set_append set_rev set_sorted_list_of_set)
  have disj: "set (take n ?ids) \<inter> set (drop n ?ids) = {}" by (intro set_take_disj_set_drop_if_distinct) simp_all
  fix i show "w i = (v |` set (take n ?ids)) i"
  proof (cases "i \<in> set (drop n ?ids)")
    case True
    then show ?thesis using gone old disj by (auto simp: restrict_map_def)
  next
    case False
    then show ?thesis using kept old ids by (auto simp: restrict_map_def)
  qed
qed

context etcd_client
begin

lemma historyList_outcome:
  assumes ns: "plainSegment (historyNamespace prefix)" and inv: "historyInv (historyRoot prefix) (kvs s)"
    and run: "historyList (NewEtcdHistoryStoreWithClient client prefix) limit s = (s', r)"
  shows "kvs s' = kvs s
    \<and> (case r of Inl e \<Rightarrow> \<exists>msg. e = StoreFailed msg
       | Inr items \<Rightarrow> \<exists>all. finite (dom (historyView (historyRoot prefix) (kvs s)))
           \<and> map he_ID all = rev (sorted_list_of_set (dom (historyView (historyRoot prefix) (kvs s))))
           \<and> (\<forall>e\<in>set all. historyView (historyRoot prefix) (kvs s) (he_ID e) = Some e)
           \<and> items = (if limit > 0 then take (nat limit) all else all))"
proof -
  let ?root = "historyRoot prefix" and ?view = "historyView (historyRoot prefix) (kvs s)"
  obtain t g where g: "ec_GetPrefix client ?root s = (t, g)" by fastforce
  have client: "eh_client (NewEtcdHistoryStoreWithClient client prefix) = client" by (simp add: NewEtcdHistoryStoreWithClient_def)
  show ?thesis
  proof (cases g)
    case (Inl err)
    then show ?thesis using etcd_get_prefix [OF g] g run by (auto simp: historyList_def historyRoot_eq [OF ns] client)
  next
    case (Inr l)
    note l = etcd_get_prefix [OF g, unfolded Inr sum.case]
    have entry: "\<exists>e. kv_Value kv = Some (marshalEntry e) \<and> entryOK e \<and> plainSegment (he_ID e) \<and> kv_Key kv = ?root @ he_ID e" if "kv \<in> set l" for kv
    proof -
      have "HasPrefix (kv_Key kv) ?root" "kvs s (kv_Key kv) = Some (kv_Value kv)" using l that by auto
      then show ?thesis using inv unfolding historyInv_def by blast
    qed
    have "kv_Key kv \<noteq> ?root \<and> kv_Key kv \<noteq> TrimSuffix ?root ''/''
      \<and> (\<exists>e. kv_Value kv = Some (marshalEntry e) \<and> entryOK e \<and> he_ID e \<noteq> [] \<and> kv_Key kv = ?root @ he_ID e)" if "kv \<in> set l" for kv
      using entry [OF that] TrimSuffix_append [of "''/lumen/history/'' @ historyNamespace prefix" "''/''"]
      by (auto simp: historyRoot_def plainSegment_def)
    then obtain items where items: "historyItems ?root l = Inr items" "map (\<lambda>e. ?root @ he_ID e) items = map kv_Key l"
      "\<forall>e\<in>set items. entryOK e \<and> (\<exists>kv\<in>set l. kv_Key kv = ?root @ he_ID e \<and> kv_Value kv = Some (marshalEntry e))"
      using historyItems_entries [of l ?root] by blast
    have view: "?view (he_ID e) = Some e" if "e \<in> set items" for e
    proof -
      obtain kv where kv: "kv \<in> set l" "kv_Key kv = ?root @ he_ID e" "kv_Value kv = Some (marshalEntry e)" "entryOK e" using items(3) \<open>e \<in> set items\<close> by blast
      then have "plainSegment (he_ID e)" "kvs s (?root @ he_ID e) = Some (Some (marshalEntry e))" using entry [OF kv(1)] l by auto
      then show ?thesis using entry_roundtrip [OF kv(4)] by (simp add: historyView_def)
    qed
    have dist: "distinct (map he_ID items)"
    proof -
      have "distinct (map (\<lambda>e. ?root @ he_ID e) items)" using l items(2) by simp
      then show ?thesis by (simp add: distinct_map inj_on_def)
    qed
    have dom: "he_ID ` set items = dom ?view"
    proof (intro equalityI subsetI)
      fix i assume "i \<in> dom ?view"
      then obtain e where e: "?view i = Some e" by auto
      then have i: "plainSegment i" "kvs s (?root @ i) \<noteq> None" by (auto simp: historyView_def split: if_splits option.splits)
      then have "?root @ i \<in> set (map kv_Key l)" using l by simp
      then show "i \<in> he_ID ` set items" unfolding items(2) [symmetric] by auto
    qed (use view in auto)
    let ?all = "rev (sort_key he_ID items)"
    have fin: "finite (dom ?view)" using dom by (metis List.finite_set finite_imageI)
    have sorted: "map he_ID (sort_key he_ID items) = sorted_list_of_set (dom ?view)"
      using dist dom by (intro sorted_distinct_set_unique) (simp_all add: distinct_map fin)
    have r: "kvs s' = kvs s" "r = Inr (if limit > 0 then take (nat limit) ?all else ?all)"
      using run g Inr items(1) l by (auto simp: historyList_def historyRoot_eq [OF ns] client Let_def)
    show ?thesis unfolding r(2) sum.case
      using r(1) sorted fin view by (intro conjI exI [of _ ?all]) (simp_all add: rev_map [symmetric])
  qed
qed

lemma historyTrim_outcome:
  assumes ns: "plainSegment (historyNamespace prefix)" and "historyInv (historyRoot prefix) (kvs s)"
    and "\<forall>e\<in>set items. plainSegment (he_ID e)"
    and "historyTrim (NewEtcdHistoryStoreWithClient client prefix) items s = (s', r)"
  shows "historyInv (historyRoot prefix) (kvs s')
    \<and> (\<forall>key. (\<forall>e\<in>set items. key \<noteq> historyRoot prefix @ he_ID e) \<longrightarrow> kvs s' key = kvs s key)
    \<and> (case r of Inl e \<Rightarrow> \<exists>msg. e = StoreFailed msg | Inr _ \<Rightarrow> \<forall>e\<in>set items. kvs s' (historyRoot prefix @ he_ID e) = None)"
  using assms(2-)
proof (induction items arbitrary: s)
  case (Cons item items)
  let ?key = "historyRoot prefix @ he_ID item"
  have key: "historyKey (NewEtcdHistoryStoreWithClient client prefix) (he_ID item) = ?key" by (rule historyKey_eq [OF ns]) (use Cons.prems(2) in simp)
  obtain t d where d: "ec_Delete client ?key s = (t, d)" by fastforce
  have client: "eh_client (NewEtcdHistoryStoreWithClient client prefix) = client" by (simp add: NewEtcdHistoryStoreWithClient_def)
  note del = etcd_delete [OF d]
  have inv: "historyInv (historyRoot prefix) (kvs t)" and other: "key \<noteq> ?key \<Longrightarrow> kvs t key = kvs s key" for key
    using del Cons.prems(1) historyInv_delete [OF Cons.prems(1), of ?key] by (auto split: sum.splits)
  show ?case
  proof (cases d)
    case (Inl err)
    then show ?thesis using Cons.prems(3) d inv other by (auto simp: key client)
  next
    case (Inr n)
    have run: "historyTrim (NewEtcdHistoryStoreWithClient client prefix) items t = (s', r)" using Cons.prems(3) d Inr by (simp add: key client)
    have none: "kvs t ?key = None" using del Inr by simp
    note IH = Cons.IH [OF inv _ run]
    have "kvs s' ?key = None" if "r = Inr u" for u
      using IH Cons.prems(2) that none by (cases "\<exists>e\<in>set items. ?key = historyRoot prefix @ he_ID e") auto
    then show ?thesis using IH Cons.prems(2) other by (cases r) auto
  qed
qed auto

lemma historySave_outcome:
  assumes ns: "plainSegment (historyNamespace prefix)" and inv: "historyInv (historyRoot prefix) (kvs s)"
    and e: "entryOK e" "plainSegment (he_ID e)" and limit: "limit > 0"
    and run: "historySave nano (NewEtcdHistoryStoreWithClient client prefix) e limit s = (s', r)"
    and v: "v = (historyView (historyRoot prefix) (kvs s))(he_ID e \<mapsto> e)"
  shows "historyInv (historyRoot prefix) (kvs s') \<and> (\<forall>key. \<not> HasPrefix key (historyRoot prefix) \<longrightarrow> kvs s' key = kvs s key)
    \<and> (case r of Inl err \<Rightarrow> \<exists>msg. err = StoreFailed msg
       | Inr e' \<Rightarrow> e' = e \<and> finite (dom v)
           \<and> historyView (historyRoot prefix) (kvs s') = v |` set (take (nat limit) (rev (sorted_list_of_set (dom v)))))"
proof -
  let ?root = "historyRoot prefix" and ?st = "NewEtcdHistoryStoreWithClient client prefix"
  have key: "historyKey ?st (he_ID e) = ?root @ he_ID e" by (rule historyKey_eq [OF ns e(2)])
  have client: "eh_client ?st = client" by (simp add: NewEtcdHistoryStoreWithClient_def)
  have id: "he_ID e \<noteq> []" using e(2) by (simp add: plainSegment_def)
  obtain t p where p: "ec_Put client (?root @ he_ID e) (Some (marshalEntry e)) s = (t, p)" by fastforce
  note put = etcd_put [OF p]
  show ?thesis
  proof (cases p)
    case (Inl err)
    then show ?thesis using run p put inv historyInv_put [OF inv e] id by (auto simp: historySave_def key client Let_def)
  next
    case (Inr u)
    have kvs: "kvs t = (kvs s)(?root @ he_ID e \<mapsto> Some (marshalEntry e))" using put Inr by simp
    have inv_t: "historyInv ?root (kvs t)" using historyInv_put [OF inv e] kvs by simp
    have view_t: "historyView ?root (kvs t) = v"
      unfolding kvs v historyView_update [OF e(2)] using entry_roundtrip [OF e(1)] by simp
    obtain t1 l where l: "historyList ?st 0 t = (t1, l)" by fastforce
    note lst = historyList_outcome [OF ns inv_t l, unfolded view_t]
    have other: "\<not> HasPrefix key ?root \<Longrightarrow> kvs t1 key = kvs s key" for key using lst kvs by auto
    have inv_t1: "historyInv ?root (kvs t1)" using lst inv_t by simp
    show ?thesis
    proof (cases l)
      case (Inl err)
      then show ?thesis using run p \<open>p = Inr u\<close> l lst inv_t1 other id limit by (auto simp: historySave_def key client Let_def)
    next
      case (Inr all)
      have all: "finite (dom v)" "map he_ID all = rev (sorted_list_of_set (dom v))" "\<forall>x\<in>set all. v (he_ID x) = Some x"
        using lst Inr by auto
      let ?old = "drop (nat limit) all"
      have plain: "\<forall>x\<in>set ?old. plainSegment (he_ID x)"
        using all(3) historyView_ID [OF inv_t] view_t by (metis in_set_dropD)
      obtain t2 q where q: "historyTrim ?st ?old t1 = (t2, q)" by fastforce
      note trim = historyTrim_outcome [OF ns inv_t1 plain q]
      have keep: "\<not> HasPrefix key ?root \<Longrightarrow> kvs t2 key = kvs s key" for key using trim other by (metis HasPrefix_append)
      show ?thesis
      proof (cases q)
        case (Inl err)
        then show ?thesis using run p \<open>p = Inr u\<close> l \<open>l = Inr all\<close> q trim keep id limit by (auto simp: historySave_def key client Let_def)
      next
        case (Inr w)
        have r: "s' = t2" "r = Inr e" using run p \<open>p = Inr u\<close> l \<open>l = Inr all\<close> q Inr id limit by (auto simp: historySave_def key client Let_def)
        have gone: "historyView ?root (kvs t2) i = None" if "i \<in> he_ID ` set ?old" for i
          using that trim Inr by (auto simp: historyView_def)
        have kept: "historyView ?root (kvs t2) i = v i" if "i \<notin> he_ID ` set ?old" for i
        proof -
          from that have "\<forall>x\<in>set ?old. ?root @ i \<noteq> ?root @ he_ID x" by auto
          then have "kvs t2 (?root @ i) = kvs t1 (?root @ i)" using trim by blast
          then have "historyView ?root (kvs t2) i = historyView ?root (kvs t) i" using lst by (simp add: historyView_def)
          then show ?thesis using view_t by simp
        qed
        show ?thesis using r trim keep all(1) newest_view [OF all(1,2) gone kept] by simp
      qed
    qed
  qed
qed

lemma historyGet_outcome:
  assumes ns: "plainSegment (historyNamespace prefix)" and inv: "historyInv (historyRoot prefix) (kvs s)" and i: "plainSegment i"
    and run: "historyGet (NewEtcdHistoryStoreWithClient client prefix) i s = (s', r)"
  shows "kvs s' = kvs s
    \<and> (case r of Inl e \<Rightarrow> e = ErrNotFound \<and> historyView (historyRoot prefix) (kvs s) i = None \<or> (\<exists>msg. e = StoreFailed msg)
       | Inr e \<Rightarrow> historyView (historyRoot prefix) (kvs s) i = Some e)"
proof -
  have key: "historyKey (NewEtcdHistoryStoreWithClient client prefix) i = historyRoot prefix @ i" by (rule historyKey_eq [OF ns i])
  have client: "eh_client (NewEtcdHistoryStoreWithClient client prefix) = client" by (simp add: NewEtcdHistoryStoreWithClient_def)
  obtain t g where g: "ec_Get client (historyRoot prefix @ i) s = (t, g)" by fastforce
  show ?thesis
  proof (cases "kvs s (historyRoot prefix @ i)")
    case None
    then show ?thesis using etcd_get [OF g] g run by (cases g) (auto simp: historyGet_def key client historyView_def)
  next
    case (Some raw)
    obtain e where e: "entryOK e" "he_ID e = i" "raw = Some (marshalEntry e)" "historyView (historyRoot prefix) (kvs s) i = Some e"
      using historyView_entry [OF inv i Some] by blast
    then show ?thesis using etcd_get [OF g] g run Some entry_roundtrip [OF e(1)]
      by (cases g) (auto simp: historyGet_def key client)
  qed
qed

end

section \<open>Export\<close>

lemma map_put_map: "map_put k (f v) (map (map_prod id f) m) = map (map_prod id f) (map_put k v m)"
  unfolding map_put_def by (induction m) auto

lemma map_of_map_prod: "map_of (map (map_prod id f) m) k = map_option f (map_of m k)"
  by (induction m) auto

lemma exportGroup_envelopes: "exportGroup (map (map_prod id env_Value) acc) items = map (map_prod id env_Value) (envelopesByID acc items)"
  by (induction items arbitrary: acc) (auto simp: map_put_map split: sum.splits)

lemma set_dedupKinds: "set (dedupKinds seen kinds) = set kinds - set seen"
  by (induction seen kinds rule: dedupKinds.induct) auto

lemma distinct_dedupKinds: "distinct (dedupKinds seen kinds)"
  by (induction seen kinds rule: dedupKinds.induct) (auto simp: set_dedupKinds)

lemma kindSelection:
  "distinct (normalizeResourceKindSelection kinds)" "normalizeResourceKindSelection kinds \<noteq> []"
  "set (normalizeResourceKindSelection kinds) = (if kinds = [] then set supportedKinds else set kinds)"
proof -
  have sup: "distinct SupportedKinds" "SupportedKinds \<noteq> []" by code_simp+
  show "distinct (normalizeResourceKindSelection kinds)" using sup by (simp add: normalizeResourceKindSelection_def distinct_dedupKinds)
  show set: "set (normalizeResourceKindSelection kinds) = (if kinds = [] then set supportedKinds else set kinds)"
    by (simp add: normalizeResourceKindSelection_def set_dedupKinds SupportedKinds_def)
  show "normalizeResourceKindSelection kinds \<noteq> []" using set sup by (cases kinds) (auto simp: SupportedKinds_def)
qed

context resource_store
begin

lemma exportGroup_view:
  assumes inv: "inv s" and l: "listing (view s kind) items"
  shows "map_of (exportGroup [] items) i = map_option Some (view s kind i)" and "groupOK (exportGroup [] items)"
proof -
  have eq: "exportGroup [] items = map (map_prod id env_Value) (envelopesByID [] items)" using exportGroup_envelopes [of "[]" items] by simp
  show look: "map_of (exportGroup [] items) i = map_option Some (view s kind i)" for i
    using envelopes_view(1) [OF inv l, of i] unfolding eq by (simp add: map_of_map_prod)
  have dist: "distinct (map fst (exportGroup [] items))" unfolding eq using envelopes_view(2) [OF inv l] by (simp add: comp_def)
  have "plainSegment i \<and> storableRaw raw" if "(i, raw) \<in> set (exportGroup [] items)" for i raw
  proof -
    have "map_of (exportGroup [] items) i = Some raw" using that dist by simp
    then obtain v where v: "view s kind i = Some v" "raw = Some v" using look [of i] by auto
    have "addressable kind i" "resource i v" using view_resource [OF inv v(1)] by auto
    then show ?thesis using v by (cases v) (auto simp: addressable_def resource_def storableRaw_def storable_def simp del: document_AMap)
  qed
  then show "groupOK (exportGroup [] items)" using dist by (auto simp: groupOK_def)
qed

lemma exportKinds_outcome:
  assumes "inv s" and "set kinds \<subseteq> set supportedKinds" and "distinct kinds" and "exportKinds store kinds s = (s', r)"
  shows "inv s' \<and> view s' = view s
    \<and> (case r of Inl e \<Rightarrow> \<exists>msg. e = StoreFailed msg
       | Inr res \<Rightarrow> distinct (map fst res) \<and> (\<forall>(kind, g)\<in>set res. kind \<in> set kinds \<and> groupOK g)
           \<and> (\<forall>kind i. (case map_of res kind of None \<Rightarrow> None | Some g \<Rightarrow> map_of g i)
                = (if kind \<in> set kinds then map_option Some (view s kind i) else None)))"
  using assms
proof (induction kinds arbitrary: s s' r)
  case (Cons kind kinds)
  obtain t l where l: "ServiceList store kind s = (t, l)" by fastforce
  note lst = List_outcome [OF Cons.prems(1) _ l]
  have lst: "inv t" "view t = view s" "case l of Inl e \<Rightarrow> \<exists>msg. e = StoreFailed msg | Inr items \<Rightarrow> listing (view s kind) items"
    using lst Cons.prems(2) by auto
  show ?case
  proof (cases l)
    case (Inl e)
    then show ?thesis using l lst Cons.prems(4) by auto
  next
    case (Inr items)
    let ?g = "exportGroup [] items"
    have items: "listing (view t kind) items" using lst Inr by simp
    note grp = exportGroup_view [OF lst(1) items, unfolded lst(2)]
    obtain u q where q: "exportKinds store kinds t = (u, q)" by fastforce
    have IH: "inv u" "view u = view s" "case q of Inl e \<Rightarrow> \<exists>msg. e = StoreFailed msg
       | Inr res \<Rightarrow> distinct (map fst res) \<and> (\<forall>(kind, g)\<in>set res. kind \<in> set kinds \<and> groupOK g)
           \<and> (\<forall>kind i. (case map_of res kind of None \<Rightarrow> None | Some g \<Rightarrow> map_of g i)
                = (if kind \<in> set kinds then map_option Some (view s kind i) else None))"
      using Cons.IH [OF lst(1) _ _ q, unfolded lst(2)] Cons.prems(2,3) by simp_all
    show ?thesis
    proof (cases q)
      case (Inl e)
      then show ?thesis using IH q l \<open>l = Inr items\<close> Cons.prems(4) by (auto simp: Let_def)
    next
      case (Inr rest)
      note rest = IH(3) [unfolded Inr sum.case]
      have r: "s' = u" "r = Inr (if length ?g > 0 then (kind, ?g) # rest else rest)"
        using q l \<open>l = Inr items\<close> Inr Cons.prems(4) by (auto simp: Let_def)
      have none: "map_of rest kind = None"
      proof (rule ccontr)
        assume "map_of rest kind \<noteq> None"
        then obtain g where "(kind, g) \<in> set rest" by (auto dest: map_of_SomeD)
        then show False using rest Cons.prems(3) by auto
      qed
      then have fresh: "kind \<notin> fst ` set rest" by (simp add: map_of_eq_None_iff)
      have look: "(case map_of (if length ?g > 0 then (kind, ?g) # rest else rest) k of None \<Rightarrow> None | Some g \<Rightarrow> map_of g i)
          = (if k \<in> set (kind # kinds) then map_option Some (view s k i) else None)" for k i
      proof (cases "k = kind")
        case True
        then show ?thesis using none grp(1) [of i] by (cases ?g) auto
      next
        case False
        then show ?thesis using rest by (cases ?g) auto
      qed
      have "distinct (map fst (if length ?g > 0 then (kind, ?g) # rest else rest))" using rest fresh by simp
      moreover have "\<forall>(k, g)\<in>set (if length ?g > 0 then (kind, ?g) # rest else rest). k \<in> set (kind # kinds) \<and> groupOK g"
        using rest grp(2) by auto
      ultimately show ?thesis unfolding r sum.case using IH(1,2) look by blast
    qed
  qed
qed auto

lemma ExportBundle_outcome:
  assumes inv: "inv s" and kinds: "set (eo_IncludeKinds options) \<subseteq> set supportedKinds"
    and run: "ExportBundleWithOptions store stamp options s = (s', r)"
  shows "inv s' \<and> view s' = view s
    \<and> (case r of Inl e \<Rightarrow> \<exists>msg. e = StoreFailed msg
       | Inr b \<Rightarrow> bundleOK b
           \<and> (\<forall>kind i. desired b kind i = (if kind \<in> set (normalizeResourceKindSelection (eo_IncludeKinds options))
                then map_option Some (view s kind i) else None))
           \<and> (eo_IncludeMeta options \<longrightarrow> bm_ManagedKinds (fb_Meta b) = normalizeResourceKindSelection (eo_IncludeKinds options)))"
proof -
  let ?kinds = "normalizeResourceKindSelection (eo_IncludeKinds options)"
  obtain t q where q: "exportKinds store ?kinds s = (t, q)" by fastforce
  have sub: "set ?kinds \<subseteq> set supportedKinds" using kinds kindSelection(3) by auto
  note ex = exportKinds_outcome [OF inv sub kindSelection(1) q]
  show ?thesis
  proof (cases q)
    case (Inl e)
    then show ?thesis using ex run q by (auto simp: ExportBundleWithOptions_def Let_def)
  next
    case (Inr res)
    note out = conjunct2 [OF conjunct2 [OF ex], unfolded Inr sum.case]
    obtain meta where r: "s' = t" "r = Inr \<lparr>fb_Resources = res, fb_Meta = meta\<rparr>"
      "eo_IncludeMeta options \<Longrightarrow> bm_ManagedKinds meta = ?kinds"
      using run q Inr by (auto simp: ExportBundleWithOptions_def Let_def)
    have "bundleOK \<lparr>fb_Resources = res, fb_Meta = meta\<rparr>" using out sub by (fastforce simp: bundleOK_def)
    moreover have "desired \<lparr>fb_Resources = res, fb_Meta = meta\<rparr> kind i = (if kind \<in> set ?kinds then map_option Some (view s kind i) else None)" for kind i
      using out by (simp add: desired_def)
    ultimately show ?thesis using ex r by simp
  qed
qed

end

section \<open>Rolling back\<close>

text \<open>The same resource up to the time of its last update.\<close>

definition sameResource :: "any option \<Rightarrow> any option \<Rightarrow> bool" where
  "sameResource a b \<longleftrightarrow>
     (case (a, b) of
        (None, None) \<Rightarrow> True
      | (Some (AMap m), Some (AMap n)) \<Rightarrow> \<forall>k. k \<noteq> ''create_time'' \<and> k \<noteq> ''update_time'' \<longrightarrow> map_of n k = map_of m k
      | _ \<Rightarrow> False)"

text \<open>The history is not kept where resources are.\<close>

definition separate :: "string \<Rightarrow> bool" where
  "separate prefix \<longleftrightarrow>
     plainSegment (historyNamespace prefix)
     \<and> (\<forall>kind\<in>set supportedKinds. \<not> HasPrefix (kindRoot (normalizePrefix prefix) kind) (historyRoot prefix))"

definition historyService ::
    "('s \<Rightarrow> int) \<Rightarrow> ('s \<Rightarrow> int) \<Rightarrow> ('s \<Rightarrow> string) \<Rightarrow> 's etcdKVClient \<Rightarrow> string \<Rightarrow> int \<Rightarrow> ExportOptions \<Rightarrow> 's CpService" where
  "historyService now nano stamp client prefix limit options =
     NewService now nano stamp (etcdStore (NewEtcdStoreWithClient client prefix))
       [WithHistory (etcdHistory nano (NewEtcdHistoryStoreWithClient client prefix)) limit options]"

lemma historyService_fields:
  "sv_store (historyService now nano stamp client prefix limit options) = etcdStore (NewEtcdStoreWithClient client prefix)"
  "sv_history (historyService now nano stamp client prefix limit options) = Some (etcdHistory nano (NewEtcdHistoryStoreWithClient client prefix))"
  "sv_exportOptions (historyService now nano stamp client prefix limit options) = options\<lparr>eo_IncludeMeta := True\<rparr>"
  "sv_historyLimit (historyService now nano stamp client prefix limit options) = (if limit > 0 then limit else 10)"
  "sv_now (historyService now nano stamp client prefix limit options) = now"
  "sv_nano (historyService now nano stamp client prefix limit options) = nano"
  "sv_stamp (historyService now nano stamp client prefix limit options) = stamp"
  by (simp_all add: historyService_def NewService_def WithHistory_def)

lemma directory_prefix:
  assumes "HasPrefix (d @ i) (e @ ''/'')" and "CHR ''/'' \<notin> set i"
  shows "HasPrefix d (e @ ''/'')"
proof -
  obtain r where r: "d @ i = (e @ ''/'') @ r" using assms(1) by (auto simp: HasPrefix_iff)
  then consider us where "d = (e @ ''/'') @ us" | us where "d @ us = e @ ''/''" "i = us @ r"
    using iffD1 [OF append_eq_append_conv2 r] by blast
  then show ?thesis
  proof cases
    case 2
    then have "us = []" using assms(2) by (cases us rule: rev_cases) auto
    then show ?thesis using 2 by simp
  qed (auto simp: HasPrefix_iff)
qed

lemma resource_not_history:
  assumes p: "properPrefix (normalizePrefix prefix)" and sep: "separate prefix" and a: "addressable kind i"
  shows "\<not> HasPrefix (resourceKey (normalizePrefix prefix) kind i) (historyRoot prefix)"
proof
  have plain: "plainSegment kind" "plainSegment i" using a by auto
  have key: "resourceKey (normalizePrefix prefix) kind i = kindRoot (normalizePrefix prefix) kind @ i"
    using resourceKey_plain [OF p plain] kindRoot_plain [OF p plain(1)] by simp
  assume "HasPrefix (resourceKey (normalizePrefix prefix) kind i) (historyRoot prefix)"
  then have "HasPrefix (kindRoot (normalizePrefix prefix) kind @ i) ((''/lumen/history/'' @ historyNamespace prefix) @ ''/'')"
    using key by (simp add: historyRoot_def)
  then have "HasPrefix (kindRoot (normalizePrefix prefix) kind) ((''/lumen/history/'' @ historyNamespace prefix) @ ''/'')"
    using directory_prefix plain(2) unfolding plainSegment_def by blast
  then show False using sep a by (auto simp: separate_def addressable_def historyRoot_def)
qed

text \<open>Changes of the history are not visible in the resources, and conversely.\<close>

lemma history_invisible:
  assumes "properPrefix (normalizePrefix prefix)" and "separate prefix"
    and "\<And>key. \<not> HasPrefix key (historyRoot prefix) \<Longrightarrow> m' key = m key"
  shows "etcdView (normalizePrefix prefix) m' = etcdView (normalizePrefix prefix) m"
  using assms resource_not_history by (fastforce simp: etcdView_def fun_eq_iff)

lemma historyInv_frame:
  assumes "\<And>key. HasPrefix key rootKey \<Longrightarrow> m' key = m key"
  shows "historyInv rootKey m' = historyInv rootKey m" and "historyView rootKey m' = historyView rootKey m"
  using assms by (auto simp: historyInv_def historyView_def fun_eq_iff)

context etcd_client
begin

text \<open>A store operation touches the key of its resource only.\<close>

lemma etcd_frame:
  assumes "key \<noteq> resourceKey p kind i"
  shows "etcdGet \<lparr>es_client = client, es_prefix = p\<rparr> kind i s = (s', rg) \<Longrightarrow> kvs s' = kvs s"
    and "etcdPut \<lparr>es_client = client, es_prefix = p\<rparr> kind i raw s = (s', rp) \<Longrightarrow> kvs s' key = kvs s key"
    and "etcdDelete \<lparr>es_client = client, es_prefix = p\<rparr> kind i s = (s', rd) \<Longrightarrow> kvs s' key = kvs s key"
proof -
  have get: "kvs t' = kvs t" if run: "etcdGet \<lparr>es_client = client, es_prefix = p\<rparr> kind i t = (t', rg)" for t t' rg
  proof -
    obtain u g where g: "ec_Get client (resourceKey p kind i) t = (u, g)" by fastforce
    then have "t' = u" using run by (auto simp: etcdGet_def split: sum.splits list.splits option.splits)
    then show ?thesis using etcd_get [OF g] by simp
  qed
  then show "etcdGet \<lparr>es_client = client, es_prefix = p\<rparr> kind i s = (s', rg) \<Longrightarrow> kvs s' = kvs s" .
  show "kvs s' key = kvs s key" if "etcdPut \<lparr>es_client = client, es_prefix = p\<rparr> kind i raw s = (s', rp)"
  proof -
    obtain t g where g: "ec_Put client (resourceKey p kind i) raw s = (t, g)" by fastforce
    have "kvs t key = kvs s key" using etcd_put [OF g] assms by (cases g) auto
    moreover have "s' = t \<or> etcdGet \<lparr>es_client = client, es_prefix = p\<rparr> kind i t = (s', rp)"
      using that g by (cases g) (auto simp: etcdPut_def)
    ultimately show ?thesis using get by auto
  qed
  show "kvs s' key = kvs s key" if "etcdDelete \<lparr>es_client = client, es_prefix = p\<rparr> kind i s = (s', rd)"
  proof -
    obtain t g where g: "ec_Delete client (resourceKey p kind i) s = (t, g)" by fastforce
    have "kvs t key = kvs s key" using etcd_delete [OF g] assms by (cases g) auto
    moreover have "s' = t" using that g by (cases g) (auto simp: etcdDelete_def Let_def)
    ultimately show ?thesis by simp
  qed
qed

end

text \<open>The etcd store beside a history: the same interface, with an invariant that keeps the history as it is.\<close>

locale etcd_with_history = etcd_store +
  fixes entries :: "string \<Rightarrow> HistoryEntry option"
  assumes separate: "separate prefix"

definition bothInv :: "string \<Rightarrow> (string \<Rightarrow> HistoryEntry option) \<Rightarrow> (string \<Rightarrow> RawMessage option) \<Rightarrow> bool" where
  "bothInv prefix entries m \<longleftrightarrow>
     etcdInv (normalizePrefix prefix) m \<and> historyInv (historyRoot prefix) m \<and> historyView (historyRoot prefix) m = entries"

context etcd_with_history
begin

lemma bothInv_frame:
  assumes "bothInv prefix entries m" and "addressable kind i" and "etcdInv (normalizePrefix prefix) m'"
    and "\<And>key. key \<noteq> resourceKey (normalizePrefix prefix) kind i \<Longrightarrow> m' key = m key"
  shows "bothInv prefix entries m'"
proof -
  have "m' key = m key" if "HasPrefix key (historyRoot prefix)" for key
    using assms(4) [of key] that resource_not_history [OF proper separate assms(2)] by auto
  from historyInv_frame [OF this] show ?thesis using assms(1,3) by (simp add: bothInv_def)
qed

end

sublocale etcd_with_history \<subseteq> both: resource_store "etcdStore (NewEtcdStoreWithClient client prefix)"
  "\<lambda>s. etcdView (normalizePrefix prefix) (kvs s)" "\<lambda>s. bothInv prefix entries (kvs s)"
proof (unfold_locales, goal_cases)
  case (1 s kind i v)
  then show ?case using view_resource [of s kind i v] by (simp add: bothInv_def)
next
  case (2 s kind i s' rg)
  then have run: "etcdGet \<lparr>es_client = client, es_prefix = normalizePrefix prefix\<rparr> kind i s = (s', rg)" and inv: "etcdInv (normalizePrefix prefix) (kvs s)"
    by (auto simp: etcdStore_def NewEtcdStoreWithClient_def bothInv_def)
  from etcdGet_law [OF proper inv 2(2) run] show ?case using 2(1) by auto
next
  case (3 s kind i v s' rp)
  then have run: "etcdPut \<lparr>es_client = client, es_prefix = normalizePrefix prefix\<rparr> kind i (Some v) s = (s', rp)" and inv: "etcdInv (normalizePrefix prefix) (kvs s)"
    by (auto simp: etcdStore_def NewEtcdStoreWithClient_def bothInv_def)
  note law = etcdPut_law [OF proper inv 3(2,3) run]
  then have "bothInv prefix entries (kvs s')" using bothInv_frame [OF 3(1,2)] etcd_frame(2) [OF _ run] by blast
  then show ?case using law by auto
next
  case (4 s kind i s' rd)
  then have run: "etcdDelete \<lparr>es_client = client, es_prefix = normalizePrefix prefix\<rparr> kind i s = (s', rd)" and inv: "etcdInv (normalizePrefix prefix) (kvs s)"
    by (auto simp: etcdStore_def NewEtcdStoreWithClient_def bothInv_def)
  note law = etcdDelete_law [OF proper inv 4(2) run]
  then have "bothInv prefix entries (kvs s')" using bothInv_frame [OF 4(1,2)] etcd_frame(3) [OF _ run] by blast
  then show ?case using law by auto
next
  case (5 s kind s' rl)
  then have run: "etcdList \<lparr>es_client = client, es_prefix = normalizePrefix prefix\<rparr> kind s = (s', rl)" and inv: "etcdInv (normalizePrefix prefix) (kvs s)"
    by (auto simp: etcdStore_def NewEtcdStoreWithClient_def bothInv_def)
  from etcdList_law [OF proper inv 5(2) run] show ?case using 5(1) by auto
qed

lemma deploys_same:
  assumes "deploys i (Some v) v'" and "resource i v"
  shows "sameResource (Some v) (Some v')"
proof -
  obtain m m' where m: "v = AMap m" "v' = AMap m'"
    "\<And>k. k \<noteq> ''create_time'' \<and> k \<noteq> ''update_time'' \<Longrightarrow> map_of m' k = (if k = ''id'' then Some (AString i) else map_of m k)"
    using assms(1) unfolding deploys_def by blast
  moreover have "map_of m ''id'' = Some (AString i)" using assms(2) m(1) by (simp add: resource_def)
  ultimately show ?thesis by (simp add: sameResource_def)
qed

lemma historySave_bundle:
  "historySave nano st e limit s = (s', Inr e') \<Longrightarrow> he_Bundle e' = he_Bundle e"
  by (cases "limit > 0") (auto simp: historySave_def Let_def split: sum.splits prod.splits if_splits)

text \<open>What saving a snapshot leaves of the resources, and the bundle in the entry.\<close>

lemma save_snapshot:
  assumes store: "etcd_store client kvs prefix" and sep: "separate prefix"
    and inv: "etcdInv (normalizePrefix prefix) (kvs s)" and hinv: "historyInv (historyRoot prefix) (kvs s)"
    and kinds: "set (eo_IncludeKinds options) \<subseteq> set supportedKinds"
    and svc: "svc = historyService now nano stamp client prefix limit options"
    and run: "saveHistorySnapshot svc source actor note' rollbackOf s = (s', Inr entry)"
  shows "bundleOK (he_Bundle entry)
    \<and> bm_ManagedKinds (fb_Meta (he_Bundle entry)) = normalizeResourceKindSelection (eo_IncludeKinds options)
    \<and> (\<forall>kind i. desired (he_Bundle entry) kind i = (if kind \<in> set (normalizeResourceKindSelection (eo_IncludeKinds options))
         then map_option Some (etcdView (normalizePrefix prefix) (kvs s) kind i) else None))"
proof -
  let ?opts = "options\<lparr>eo_IncludeMeta := True\<rparr>"
  obtain t q where q: "ExportBundleWithOptions (etcdStore (NewEtcdStoreWithClient client prefix)) stamp ?opts s = (t, q)" by fastforce
  from run q obtain b where b: "q = Inr b" unfolding svc
    by (cases q) (auto simp: saveHistorySnapshot_def historyService_fields)
  have "he_Bundle entry = b"
    using run q b unfolding svc
    by (auto simp: saveHistorySnapshot_def historyService_fields etcdHistory_def dest!: historySave_bundle)
  moreover have "set (eo_IncludeKinds ?opts) \<subseteq> set supportedKinds" using kinds by simp
  note resource_store.ExportBundle_outcome [OF etcd_store.is_store [OF store] inv this q, unfolded b sum.case]
  ultimately show ?thesis by auto
qed

lemma decimal_digits: "decimal n \<noteq> [] \<and> set (decimal n) \<subseteq> set ''0123456789''"
proof (induction n rule: decimal.induct)
  case (1 n)
  have digit: "char_of (48 + d) \<in> set ''0123456789''" if "d < 10" for d :: nat
  proof -
    have "list_all (\<lambda>d :: nat. char_of (48 + d) \<in> set ''0123456789'') [0..<10]" by code_simp
    then show ?thesis using that by (simp only: list_all_iff) simp
  qed
  show ?case
  proof (cases "n < 10")
    case True
    then show ?thesis using digit [OF True] by (simp add: decimal.simps [of n])
  next
    case False
    then have "set (decimal (n div 10)) \<subseteq> set ''0123456789''" using 1 by blast
    moreover have "decimal n = decimal (n div 10) @ [char_of (48 + n mod 10)]" using False by (simp add: decimal.simps [of n])
    ultimately show ?thesis using digit [of "n mod 10"] by auto
  qed
qed

lemma Itoa_plain: "plainSegment (Itoa n)"
proof -
  define cs where "cs = set ''-0123456789''"
  have "set (decimal k) \<subseteq> cs" for k using decimal_digits [of k] unfolding cs_def by (simp only: list.set) blast
  moreover have "CHR ''-'' \<in> cs" by (simp add: cs_def)
  ultimately have sub: "set (Itoa n) \<subseteq> cs" by (simp add: Itoa_def)
  have ne: "Itoa n \<noteq> []" using decimal_digits by (simp add: Itoa_def)
  have no: "CHR ''/'' \<notin> cs" "CHR ''.'' \<notin> cs" unfolding cs_def by code_simp+
  then have "CHR ''/'' \<notin> set (Itoa n)" "CHR ''.'' \<notin> set (Itoa n)" using sub by blast+
  then show ?thesis using ne unfolding plainSegment_def by (metis list.set_intros(1))
qed

text \<open>The counts of an exported bundle depend on which resources it has only.\<close>

lemma group_size:
  assumes "bundleOK b" and "map_of (fb_Resources b) kind = Some g"
  shows "length g = card {i. desired b kind i \<noteq> None}"
proof -
  have "groupOK g" using bundleOK_lookup [OF assms] by blast
  then have "length g = card (fst ` set g)" using distinct_card [of "map fst g"] by (simp add: groupOK_def)
  also have "fst ` set g = {i. desired b kind i \<noteq> None}"
    using assms(2) unfolding set_eq_iff keys_lookup by (simp add: desired_def)
  finally show ?thesis .
qed

lemma summarize_counts: "(kind, n) \<in> set (hs_Counts (summarizeBundle b)) \<Longrightarrow>
    kind \<in> set SupportedKinds \<and> (\<exists>g. map_of (fb_Resources b) kind = Some g \<and> n = int (length g))"
  unfolding summarizeBundle_def by (force split: option.splits)

lemma summarize_counts_in:
  "kind \<in> set SupportedKinds \<Longrightarrow> map_of (fb_Resources b) kind = Some g \<Longrightarrow> (kind, int (length g)) \<in> set (hs_Counts (summarizeBundle b))"
  unfolding summarizeBundle_def by (force intro!: bexI [of _ kind])

lemma entryOK_like:
  assumes e: "entryOK e" "he_Summary e = summarizeBundle (he_Bundle e)" "bundleOK (he_Bundle e)"
    and e': "he_Summary e' = summarizeBundle (he_Bundle e')" "bundleOK (he_Bundle e')"
    and same: "\<And>kind i. desired (he_Bundle e') kind i = None \<longleftrightarrow> desired (he_Bundle e) kind i = None"
  shows "entryOK e'"
proof -
  have "raw \<noteq> None" if "(kind, g) \<in> set (fb_Resources (he_Bundle e'))" "(i, raw) \<in> set g" for kind g i raw
  proof -
    have "groupOK g" using e'(2) that(1) by (auto simp: bundleOK_def)
    then show ?thesis using that(2) by (auto simp: groupOK_def storableRaw_object)
  qed
  moreover have "- (2 ^ 63) \<le> n \<and> n < 2 ^ 63" if n: "(kind, n) \<in> set (hs_Counts (he_Summary e'))" for kind n
  proof -
    obtain g' where g': "map_of (fb_Resources (he_Bundle e')) kind = Some g'" "n = int (length g')" "kind \<in> set SupportedKinds"
      using summarize_counts [OF n [unfolded e'(1)]] by blast
    have size: "length g' = card {i. desired (he_Bundle e) kind i \<noteq> None}" using group_size [OF e'(2) g'(1)] same by simp
    show ?thesis
    proof (cases "map_of (fb_Resources (he_Bundle e)) kind")
      case None
      then show ?thesis using size g'(2) by (simp add: desired_def)
    next
      case (Some g)
      then have "(kind, n) \<in> set (hs_Counts (he_Summary e))"
        using group_size [OF e(3) Some] size g'(2) summarize_counts_in [OF g'(3) Some] unfolding e(2) by simp
      then show ?thesis using e(1) unfolding entryOK_def by blast
    qed
  qed
  ultimately show ?thesis unfolding entryOK_def by blast
qed

lemma saved_summary:
  assumes "saveHistorySnapshot (historyService now nano stamp client prefix limit options) source actor note' rollbackOf s = (s', Inr entry)"
  shows "he_Summary entry = summarizeBundle (he_Bundle entry)"
  using assms
  by (auto simp: saveHistorySnapshot_def historyService_fields etcdHistory_def historySave_def Let_def generateResourceID_def
      Itoa_plain [unfolded plainSegment_def] split: prod.splits sum.splits if_splits)

context etcd_with_history
begin

text \<open>Saving a snapshot, whether it succeeds or not, is not visible in the resources.\<close>

lemma save_invisible:
  assumes inv: "bothInv prefix entries (kvs s)" and kinds: "set (eo_IncludeKinds options) \<subseteq> set supportedKinds"
    and ok: "\<And>e. bundleOK (he_Bundle e) \<Longrightarrow> he_Summary e = summarizeBundle (he_Bundle e) \<Longrightarrow>
       (\<And>kind i. desired (he_Bundle e) kind i = (if kind \<in> set (normalizeResourceKindSelection (eo_IncludeKinds options))
         then map_option Some (etcdView (normalizePrefix prefix) (kvs s) kind i) else None)) \<Longrightarrow> entryOK e"
    and run: "saveHistorySnapshot (historyService now nano stamp client prefix limit options) source actor note' rollbackOf s = (s', r)"
  shows "etcdView (normalizePrefix prefix) (kvs s') = etcdView (normalizePrefix prefix) (kvs s)"
proof -
  let ?opts = "options\<lparr>eo_IncludeMeta := True\<rparr>" and ?st = "NewEtcdHistoryStoreWithClient client prefix"
  have ns: "plainSegment (historyNamespace prefix)" using separate by (simp add: separate_def)
  obtain t q where q: "ExportBundleWithOptions (etcdStore (NewEtcdStoreWithClient client prefix)) stamp ?opts s = (t, q)" by fastforce
  have "set (eo_IncludeKinds ?opts) \<subseteq> set supportedKinds" using kinds by simp
  note ex = both.ExportBundle_outcome [OF inv this q]
  show ?thesis
  proof (cases q)
    case (Inl e)
    then have "s' = t" using run q by (auto simp: saveHistorySnapshot_def historyService_fields)
    then show ?thesis using ex by simp
  next
    case (Inr b)
    let ?e = "\<lparr>he_ID = generateResourceID nano t, he_CreatedAt = stamp t, he_Source = source, he_Summary = summarizeBundle b,
        he_Actor = actor, he_Note = note', he_RollbackOf = rollbackOf, he_Bundle = b\<rparr>"
    let ?limit = "if limit > 0 then limit else 10"
    have save: "historySave nano ?st ?e ?limit t = (s', r)"
      using run q Inr by (auto simp: saveHistorySnapshot_def historyService_fields etcdHistory_def)
    have e: "entryOK ?e" using ok [of ?e] ex Inr by simp
    have i: "plainSegment (he_ID ?e)" by (simp add: generateResourceID_def Itoa_plain)
    have hinv: "historyInv (historyRoot prefix) (kvs t)" using ex by (simp add: bothInv_def)
    have "\<forall>key. \<not> HasPrefix key (historyRoot prefix) \<longrightarrow> kvs s' key = kvs t key"
      using historySave_outcome [OF ns hinv e i _ save refl] by simp
    then show ?thesis using history_invisible [OF proper separate, of "kvs s'" "kvs t"] ex by simp
  qed
qed

lemma rollback_outcome:
  assumes inv: "bothInv prefix entries (kvs s)" and kinds: "set (eo_IncludeKinds options) \<subseteq> set supportedKinds"
    and svc: "svc = historyService now nano stamp client prefix limit options"
    and entry: "entries i = Some entry" "he_Summary entry = summarizeBundle (he_Bundle entry)" "bundleOK (he_Bundle entry)"
      "bm_ManagedKinds (fb_Meta (he_Bundle entry)) = normalizeResourceKindSelection (eo_IncludeKinds options)"
      "\<And>kind i. desired (he_Bundle entry) kind i = (if kind \<in> set (normalizeResourceKindSelection (eo_IncludeKinds options))
         then map_option Some (res kind i) else None)"
      "\<And>kind i v. res kind i = Some v \<Longrightarrow> resource i v"
    and run: "RollbackHistory svc i s = (s', Inr (result, saved))"
  shows "\<forall>kind j. if kind \<in> set (normalizeResourceKindSelection (eo_IncludeKinds options))
      then sameResource (res kind j) (etcdView (normalizePrefix prefix) (kvs s') kind j)
      else etcdView (normalizePrefix prefix) (kvs s') kind j = etcdView (normalizePrefix prefix) (kvs s) kind j"
proof -
  let ?K = "normalizeResourceKindSelection (eo_IncludeKinds options)" and ?b = "he_Bundle entry"
  let ?view = "\<lambda>s. etcdView (normalizePrefix prefix) (kvs s)"
  let ?aopts = "\<lparr>ao_PruneKinds = bm_ManagedKinds (fb_Meta ?b), ao_Prune = True\<rparr>"
  let ?store = "etcdStore (NewEtcdStoreWithClient client prefix)" and ?st = "NewEtcdHistoryStoreWithClient client prefix"
  have ns: "plainSegment (historyNamespace prefix)" using separate by (simp add: separate_def)
  have hinv: "historyInv (historyRoot prefix) (kvs s)" "historyView (historyRoot prefix) (kvs s) = entries"
    using inv by (auto simp: bothInv_def)
  have i: "plainSegment i" "entryOK entry" using historyView_ID [OF hinv(1), of i entry] hinv(2) entry(1) by auto
  obtain t g where g: "historyGet ?st i s = (t, g)" by fastforce
  obtain target where target: "g = Inr target" using run g unfolding svc
    by (cases g) (auto simp: RollbackHistory_def historyService_fields etcdHistory_def)
  have got: "kvs t = kvs s" "target = entry" using historyGet_outcome [OF ns hinv(1) i(1) g] target hinv(2) entry(1) by auto
  obtain u q where q: "ApplyBundleWithOptions ?store now ?b ?aopts t = (u, q)" by fastforce
  obtain c where c: "q = Inr c" using run g target got(2) q unfolding svc
    by (cases q) (auto simp: RollbackHistory_def historyService_fields etcdHistory_def)
  have inv_t: "bothInv prefix entries (kvs t)" using inv got by simp
  have done': "bothInv prefix entries (kvs u)" "applied ?b (resolvePruneKinds ?b ?aopts) (?view s) (?view u)"
    using both.ApplyBundle_outcome [OF entry(3) inv_t q] c got(1) by auto
  have prune: "set (resolvePruneKinds ?b ?aopts) = set ?K"
    using kindSelection(2,3) [of "eo_IncludeKinds options"] kindSelection(3) [of ?K] entry(4)
    by (simp add: resolvePruneKinds_def)
  have res: "if kind \<in> set ?K then sameResource (res kind j) (?view u kind j) else ?view u kind j = ?view s kind j" for kind j
  proof -
    have one: "if concerned ?b (resolvePruneKinds ?b ?aopts) kind j then reached ?b (resolvePruneKinds ?b ?aopts) kind j (?view u kind j)
        else ?view u kind j = ?view s kind j" using done'(2) by (simp add: applied_def)
    show ?thesis
    proof (cases "kind \<in> set ?K")
      case True
      then have "reached ?b (resolvePruneKinds ?b ?aopts) kind j (?view u kind j)" using one prune by (simp add: concerned_def)
      then show ?thesis using True entry(5) [of kind j] entry(6) [of kind j] deploys_same
        by (cases "res kind j") (auto simp: reached_def sameResource_def [of None])
    next
      case False
      then show ?thesis using one prune entry(5) [of kind j] by (simp add: concerned_def)
    qed
  qed
  have nn: "?view u kind j = None \<longleftrightarrow> res kind j = None" if "kind \<in> set ?K" for kind j
    using res [of kind j] that by (auto simp: sameResource_def split: option.splits any.splits)
  have save: "saveHistorySnapshot (historyService now nano stamp client prefix limit options) ''history_rollback'' [] [] i u = (s', saved)"
    using run g target got(2) q c unfolding svc
    by (auto simp: RollbackHistory_def historyService_fields etcdHistory_def split: prod.splits)
  have "?view s' = ?view u"
  proof (rule save_invisible [OF done'(1) kinds _ save])
    fix e :: HistoryEntry
    assume e: "bundleOK (he_Bundle e)" "he_Summary e = summarizeBundle (he_Bundle e)"
      "\<And>kind i. desired (he_Bundle e) kind i = (if kind \<in> set ?K then map_option Some (?view u kind i) else None)"
    show "entryOK e"
      using entryOK_like [OF i(2) entry(2,3) e(2,1)] e(3) entry(5) nn by auto
  qed
  then show ?thesis using res by simp
qed

end

section \<open>Results\<close>

text \<open>
  C12. Rolling back restores. When a snapshot of the resources has been saved and its entry is still in the history,
  a successful rollback to it, from whatever state the resources are in by then, brings back every resource of the exported
  kinds, up to its times, and removes every resource of these kinds that the snapshot does not have; resources of other kinds
  stay as they are. This holds for every limit of the history and whether or not the entry for the rollback can be saved.
\<close>

theorem rollback_restores:
  assumes store: "etcd_store client kvs prefix" and sep: "separate prefix"
    and kinds: "set (eo_IncludeKinds options) \<subseteq> set supportedKinds"
    and svc: "svc = historyService now nano stamp client prefix limit options"
    and before: "etcdInv (normalizePrefix prefix) (kvs s0)" "historyInv (historyRoot prefix) (kvs s0)"
    and save: "SaveHistorySnapshot svc source s0 = (s1, Inr entry)"
    and later: "etcdInv (normalizePrefix prefix) (kvs s2)" "historyInv (historyRoot prefix) (kvs s2)"
      "historyView (historyRoot prefix) (kvs s2) (he_ID entry) = Some entry"
    and rolled: "RollbackHistory svc (he_ID entry) s2 = (s3, Inr (result, saved))"
  shows "\<forall>kind i. if kind \<in> set (normalizeResourceKindSelection (eo_IncludeKinds options))
      then sameResource (etcdView (normalizePrefix prefix) (kvs s0) kind i) (etcdView (normalizePrefix prefix) (kvs s3) kind i)
      else etcdView (normalizePrefix prefix) (kvs s3) kind i = etcdView (normalizePrefix prefix) (kvs s2) kind i"
proof -
  have hist: "etcd_with_history client kvs prefix" using store sep by (simp add: etcd_with_history_def etcd_with_history_axioms_def)
  note snap = save_snapshot [OF store sep before kinds svc save [unfolded SaveHistorySnapshot_def]]
  note sum = saved_summary [OF save [unfolded SaveHistorySnapshot_def svc]]
  have both: "bothInv prefix (historyView (historyRoot prefix) (kvs s2)) (kvs s2)" using later by (simp add: bothInv_def)
  have res: "etcdView (normalizePrefix prefix) (kvs s0) kind i = Some v \<Longrightarrow> resource i v" for kind i v
    using resource_store.view_resource [OF etcd_store.is_store [OF store] before(1)] by blast
  show ?thesis
    by (rule etcd_with_history.rollback_outcome [OF hist both kinds svc later(3) sum _ _ _ res rolled]) (use snap in auto)
qed

text \<open>The invariant of a history in memory, checked entry by entry.\<close>

definition memHistoryOK :: "string \<Rightarrow> memory \<Rightarrow> bool" where
  "memHistoryOK rootKey s \<longleftrightarrow>
     list_all (\<lambda>(key, v, _). HasPrefix key rootKey \<longrightarrow>
         (case unmarshalEntry v of None \<Rightarrow> False
          | Some e \<Rightarrow> entryOK e \<and> plainSegment (he_ID e) \<and> key = rootKey @ he_ID e \<and> v = Some (marshalEntry e))) (me_kvs s)"

lemma memHistoryOK_inv: "memHistoryOK rootKey s \<Longrightarrow> historyInv rootKey (memKvs s)"
  unfolding historyInv_def memHistoryOK_def list_all_iff
  by (fastforce dest!: memKvs_member split: option.splits)

definition memService :: "memory CpService" where
  "memService = historyService me_clock me_revision (\<lambda>_. ''2024-01-01T00:00:00Z'') memClient productionPrefix 3
     \<lparr>eo_EtcdPrefix = productionPrefix, eo_IncludeKinds = [], eo_IncludeMeta = True\<rparr>"

definition snapshotTaken :: "memory \<times> (cp_error + HistoryEntry)" where
  "snapshotTaken = SaveHistorySnapshot memService ''manual'' (fst afterPut)"

definition snapshotEntry :: HistoryEntry where
  "snapshotEntry = (case snd snapshotTaken of Inr e \<Rightarrow> e | Inl _ \<Rightarrow> zeroEntry)"

definition routeDeleted :: memory where
  "routeDeleted = fst (ServiceDelete memoryStore KindRoute sampleRoute (fst snapshotTaken))"

definition rolledBack :: "memory \<times> (cp_error + ApplyResult \<times> (cp_error + HistoryEntry))" where
  "rolledBack = RollbackHistory memService (he_ID snapshotEntry) routeDeleted"

lemma sample_snapshot:
  "(\<lambda>(t, r). memHistoryOK (historyRoot productionPrefix) t \<and> (case r of Inl _ \<Rightarrow> False | Inr e \<Rightarrow> entryOK e)) snapshotTaken"
  by code_simp

lemma sample_snapshot_OK: "memHistoryOK (historyRoot productionPrefix) (fst snapshotTaken) \<and> entryOK snapshotEntry"
  using sample_snapshot by (simp add: case_prod_beta snapshotEntry_def split: sum.splits)

lemma sample_deleted:
  "(\<lambda>t. memStoreOK (normalizePrefix productionPrefix) t \<and> memHistoryOK (historyRoot productionPrefix) t
      \<and> etcdView (normalizePrefix productionPrefix) (memKvs t) KindRoute sampleRoute = None
      \<and> historyView (historyRoot productionPrefix) (memKvs t) (he_ID snapshotEntry) = Some snapshotEntry) routeDeleted"
  by code_simp

lemma sample_rolled:
  "(\<lambda>(t, r). (case r of Inl _ \<Rightarrow> False | Inr _ \<Rightarrow> True)
      \<and> etcdView (normalizePrefix productionPrefix) (memKvs t) KindRoute sampleRoute \<noteq> None) rolledBack"
  by code_simp

lemma sample_saved: "SaveHistorySnapshot memService ''manual'' (fst afterPut) = (fst snapshotTaken, Inr snapshotEntry)"
  using sample_snapshot by (auto simp: snapshotEntry_def snapshotTaken_def [symmetric] prod_eq_iff split: sum.splits prod.splits)

theorem rollback_restores_witness:
  "etcdView (normalizePrefix productionPrefix) (memKvs routeDeleted) KindRoute sampleRoute = None
   \<and> sameResource (etcdView (normalizePrefix productionPrefix) (memKvs (fst afterPut)) KindRoute sampleRoute)
       (etcdView (normalizePrefix productionPrefix) (memKvs (fst rolledBack)) KindRoute sampleRoute)
   \<and> etcdView (normalizePrefix productionPrefix) (memKvs (fst rolledBack)) KindRoute sampleRoute \<noteq> None"
proof -
  have sep: "separate productionPrefix" by code_simp
  have h: "memHistoryOK (historyRoot productionPrefix) (fst afterPut)" by code_simp
  obtain r sv where rolled: "RollbackHistory memService (he_ID snapshotEntry) routeDeleted = (fst rolledBack, Inr (r, sv))"
    using sample_rolled by (cases rolledBack) (auto simp: rolledBack_def split: sum.splits)
  have "KindRoute \<in> set (normalizeResourceKindSelection [])" by code_simp
  with rollback_restores [OF etcd_store_production sep _ memService_def afterPut_inv memHistoryOK_inv [OF h] sample_saved
      memStoreOK_inv memHistoryOK_inv _ rolled] sample_deleted
  have "sameResource (etcdView (normalizePrefix productionPrefix) (memKvs (fst afterPut)) KindRoute sampleRoute)
       (etcdView (normalizePrefix productionPrefix) (memKvs (fst rolledBack)) KindRoute sampleRoute)" by simp
  then show ?thesis using sample_deleted sample_rolled by (simp add: case_prod_beta)
qed

text \<open>
  C24. The history keeps the newest entries. Saving an entry with a positive limit, on etcd and below a history root of
  its own, stores the entry and deletes all but the \<open>limit\<close> entries with the greatest identifiers, the new one included;
  no key outside the history changes. The only error is one of the store, of etcd or of the decoding
  of a stored entry.
\<close>

theorem history_keeps_newest:
  assumes "etcd_client client kvs" and "plainSegment (historyNamespace prefix)"
    and "historyInv (historyRoot prefix) (kvs s)" and "entryOK e" and "plainSegment (he_ID e)" and "limit > 0"
    and "historySave nano (NewEtcdHistoryStoreWithClient client prefix) e limit s = (s', r)"
    and "v = (historyView (historyRoot prefix) (kvs s))(he_ID e \<mapsto> e)"
  shows "historyInv (historyRoot prefix) (kvs s') \<and> (\<forall>key. \<not> HasPrefix key (historyRoot prefix) \<longrightarrow> kvs s' key = kvs s key)
    \<and> (case r of Inl err \<Rightarrow> \<exists>msg. err = StoreFailed msg
       | Inr e' \<Rightarrow> e' = e \<and> finite (dom v)
           \<and> historyView (historyRoot prefix) (kvs s') = v |` set (take (nat limit) (rev (sorted_list_of_set (dom v)))))"
  using etcd_client.historySave_outcome [OF assms] .

definition nextEntry :: HistoryEntry where
  "nextEntry = snapshotEntry\<lparr>he_ID := ''9''\<rparr>"

definition nextSaved :: "memory \<times> (cp_error + HistoryEntry)" where
  "nextSaved = historySave me_revision (NewEtcdHistoryStoreWithClient memClient productionPrefix) nextEntry 1 (fst snapshotTaken)"

theorem history_keeps_newest_witness:
  "historyInv (historyRoot productionPrefix) (memKvs (fst nextSaved))
   \<and> historyView (historyRoot productionPrefix) (memKvs (fst nextSaved)) (he_ID snapshotEntry) = None
   \<and> historyView (historyRoot productionPrefix) (memKvs (fst nextSaved)) (he_ID nextEntry) = Some nextEntry"
proof -
  have ok: "plainSegment (historyNamespace productionPrefix)" "plainSegment (he_ID nextEntry)" by (code_simp, simp add: nextEntry_def plainSegment_def)
  have inv: "historyInv (historyRoot productionPrefix) (memKvs (fst snapshotTaken))" and e: "entryOK nextEntry"
    using sample_snapshot_OK by (auto simp: entryOK_def nextEntry_def intro: memHistoryOK_inv)
  have "historySave me_revision (NewEtcdHistoryStoreWithClient memClient productionPrefix) nextEntry 1 (fst snapshotTaken)
      = (fst nextSaved, snd nextSaved)" by (simp add: nextSaved_def)
  from history_keeps_newest [OF mem.etcd_client_axioms ok(1) inv e ok(2) _ this refl]
  have "historyInv (historyRoot productionPrefix) (memKvs (fst nextSaved))" by simp
  moreover have "(\<lambda>t. historyView (historyRoot productionPrefix) (memKvs t) (he_ID snapshotEntry) = None
      \<and> historyView (historyRoot productionPrefix) (memKvs t) (he_ID nextEntry) = Some nextEntry) (fst nextSaved)" by code_simp
  ultimately show ?thesis by simp
qed

text \<open>
  C25. An entry of the history survives its encoding: what is read back is what was saved, bundle, metadata and summary
  included.
\<close>

theorem history_entry_roundtrip: "entryOK e \<Longrightarrow> unmarshalEntry (Some (marshalEntry e)) = Some e"
  by (rule entry_roundtrip)

theorem history_entry_roundtrip_witness: "unmarshalEntry (Some (marshalEntry snapshotEntry)) = Some snapshotEntry"
proof -
  have "entryOK snapshotEntry" using sample_snapshot_OK by simp
  then show ?thesis by (rule history_entry_roundtrip)
qed

interpretation recorded: etcd_with_history memClient memKvs productionPrefix "\<lambda>_. None"
  by unfold_locales code_simp

end
