(* ===== verification/Bundle_File.thy ===== *)
theory Bundle_File
  imports History_Laws "HOL-Library.Countable"
begin

text \<open>
  A bundle as a file (\<^verbatim>\<open>internal/controlplane/filebundle.go\<close>, \<open>ToYAML\<close> and \<open>ParseBundle\<close>): what an export prints is parsed
  to the same resources. YAML is a codec that gives back each document it has printed, as JSON sees it: the order of the members of
  an object is lost, and so is the difference between a whole \<^verbatim>\<open>float64\<close> and an integer.
\<close>

section \<open>Lists of entries\<close>

definition collect :: "('k \<Rightarrow> 'v option) \<Rightarrow> 'k list \<Rightarrow> ('k \<times> 'v) list" where
  "collect f ks = concat (map (\<lambda>k. case f k of None \<Rightarrow> [] | Some v \<Rightarrow> [(k, v)]) ks)"

lemma collect_simps [simp]:
  "collect f [] = []" "collect f (k # ks) = (case f k of None \<Rightarrow> [] | Some v \<Rightarrow> [(k, v)]) @ collect f ks"
  by (simp_all add: collect_def)

lemma map_of_collect: "map_of (collect f ks) k = (if k \<in> set ks then f k else None)"
  by (induction ks) (auto split: option.splits)

lemma keys_collect: "fst ` set (collect f ks) \<subseteq> set ks"
  by (induction ks) (auto split: option.splits)

lemma distinct_collect: "distinct ks \<Longrightarrow> distinct (map fst (collect f ks))"
proof (induction ks)
  case (Cons k ks)
  then have "k \<notin> fst ` set (collect f ks)" using keys_collect [of f ks] by auto
  with Cons show ?case by (auto split: option.splits)
qed simp

lemma map_put_same: "map_of m k = Some v \<Longrightarrow> map_put k v m = m"
  by (induction m) (auto simp: map_put_def split: if_splits)

section \<open>Documents that are equal up to the order of their members\<close>

lemma DeepEqual_kinds [simp]:
  "DeepEqual (AString s) w \<longleftrightarrow> w = AString s"
  "jsonify x = AString s \<longleftrightarrow> x = AString s"
  by (cases w; auto) (cases x; auto)

lemma DeepEqual_object: "DeepEqual (AMap m) w \<Longrightarrow> \<exists>n. w = AMap n"
  by (cases w) auto

lemma jsonify_object: "jsonify x = AMap n \<Longrightarrow> \<exists>y. x = AMap y \<and> n = map (map_prod id jsonify) y"
  by (cases x) auto

lemma DeepEqual_members:
  assumes "DeepEqual (AMap m) (AMap n)" and "distinct (map fst m)" and "distinct (map fst n)"
  shows "rel_option DeepEqual (map_of m k) (map_of n k)"
proof -
  have len: "length m = length n" and sub: "\<And>k v. (k, v) \<in> set m \<Longrightarrow> \<exists>w. map_of n k = Some w \<and> DeepEqual v w"
    using assms(1) by (auto split: option.splits)
  then have "fst ` set m \<subseteq> fst ` set n" by (force dest: map_of_SomeD)
  moreover have "card (fst ` set m) = card (fst ` set n)" using len distinct_card [OF assms(2)] distinct_card [OF assms(3)] by simp
  ultimately have keys: "fst ` set m = fst ` set n" by (intro card_subset_eq) auto
  show ?thesis
  proof (cases "map_of m k")
    case None
    then have "map_of n k = None" using keys by (simp add: map_of_eq_None_iff)
    with None show ?thesis by simp
  next
    case (Some v)
    then show ?thesis using sub [OF map_of_SomeD [OF Some]] by auto
  qed
qed

definition sameJSON :: "any \<Rightarrow> any \<Rightarrow> bool" where
  "sameJSON v w \<longleftrightarrow> document v \<and> document w \<and> DeepEqual v w"

lemma sameJSON_object:
  assumes "sameJSON (AMap m) w"
  obtains n where "w = AMap n" and "distinct (map fst n)" and "\<forall>k. rel_option sameJSON (map_of m k) (map_of n k)"
proof -
  obtain n where n: "w = AMap n" using assms DeepEqual_object by (auto simp only: sameJSON_def)
  have docs: "document (AMap m)" "document (AMap n)" and eq: "DeepEqual (AMap m) (AMap n)" using assms n by (simp_all only: sameJSON_def)
  have "rel_option sameJSON (map_of m k) (map_of n k)" for k
  proof -
    have "document v" if "map_of m k = Some v" for v using docs(1) map_of_SomeD [OF that] by auto
    moreover have "document v" if "map_of n k = Some v" for v using docs(2) map_of_SomeD [OF that] by auto
    ultimately show ?thesis using DeepEqual_members [OF eq, of k] docs
      by (cases "map_of m k"; cases "map_of n k") (auto simp: sameJSON_def)
  qed
  then show ?thesis using that n docs(2) by simp
qed

text \<open>A value that was decoded from YAML, whole numbers being integers there, and that is the JSON document which was printed.\<close>

definition readsAs :: "any \<Rightarrow> any \<Rightarrow> bool" where
  "readsAs v x \<longleftrightarrow> sameJSON v (jsonify x)"

lemma readsAs_object:
  assumes "readsAs (AMap m) x"
  obtains y where "x = AMap y" and "distinct (map fst y)" and "\<forall>k. rel_option readsAs (map_of m k) (map_of y k)"
proof -
  obtain n where n: "jsonify x = AMap n" "distinct (map fst n)" "\<forall>k. rel_option sameJSON (map_of m k) (map_of n k)"
    by (rule sameJSON_object [OF assms [unfolded readsAs_def]])
  obtain y where y: "x = AMap y" "n = map (map_prod id jsonify) y" using jsonify_object [OF n(1)] by blast
  have "rel_option readsAs (map_of m k) (map_of y k)" for k
    using n(3) by (simp add: y(2) map_of_jsonify option.rel_map readsAs_def [abs_def])
  moreover have "distinct (map fst y)" using n(2) y(2) by simp
  ultimately show ?thesis using that y(1) by blast
qed

lemma readsAs_string: "readsAs (AString s) x \<longleftrightarrow> x = AString s"
  by (cases x) (auto simp: readsAs_def sameJSON_def)

lemma readsAs_strings:
  assumes "readsAs (AList (map AString ss)) x"
  shows "x = AList (map AString ss)"
proof -
  obtain ys where ys: "jsonify x = AList ys" "length ys = length ss" "\<forall>p\<in>set (zip (map AString ss) ys). DeepEqual (fst p) (snd p)"
    using assms by (cases "jsonify x") (auto simp: readsAs_def sameJSON_def case_prod_beta)
  have "ys ! i = AString (ss ! i)" if "i < length ss" for i
    using that ys(2) bspec [OF ys(3), of "(AString (ss ! i), ys ! i)"] by (force simp: set_zip)
  then have eq: "ys = map AString ss" using ys(2) by (simp add: list_eq_iff_nth_eq)
  obtain xs where xs: "x = AList xs" "map jsonify xs = ys" using ys(1) by (cases x) auto
  then have "map jsonify xs = map AString ss" using eq by simp
  then have "xs = map AString ss" by (induction xs arbitrary: ss) (auto simp: Cons_eq_map_conv)
  with xs show ?thesis by simp
qed

section \<open>Groups\<close>

text \<open>The groups of an exported bundle: every resource under its own identifier.\<close>

definition exportedGroup :: "group \<Rightarrow> bool" where
  "exportedGroup g \<longleftrightarrow> distinct (map fst g) \<and> (\<forall>(i, raw)\<in>set g. \<exists>v. raw = Some v \<and> resource i v)"

definition printed :: "group \<Rightarrow> (string \<times> any) list" where
  "printed g = map (\<lambda>i. (i, case map_get None g i of Some v \<Rightarrow> v | None \<Rightarrow> ANil)) (sort (map fst g))"

lemma exportedGroup_get:
  assumes "exportedGroup g" "i \<in> set (map fst g)"
  obtains v where "map_get None g i = Some v" "map_of g i = Some (Some v)" "resource i v"
proof -
  obtain raw where "map_of g i = Some raw" using assms(2) by (metis map_of_eq_None_iff not_None_eq set_map)
  moreover from this have "(i, raw) \<in> set g" by (rule map_of_SomeD)
  ultimately show ?thesis using assms(1) that by (auto simp: exportedGroup_def map_get_def)
qed

lemma groupToMap_printed:
  assumes "exportedGroup g"
  shows "groupToMap g (sort (map fst g)) = Some (printed g)"
proof -
  have "set ids \<subseteq> set (map fst g) \<Longrightarrow>
      groupToMap g ids = Some (map (\<lambda>i. (i, case map_get None g i of Some v \<Rightarrow> v | None \<Rightarrow> ANil)) ids)" for ids
  proof (induction ids)
    case (Cons i ids)
    then have i: "i \<in> set (map fst g)" by simp
    obtain v where "map_get None g i = Some v" by (rule exportedGroup_get [OF assms i])
    with Cons show ?case by simp
  qed simp
  then show ?thesis by (simp add: printed_def)
qed

text \<open>A group that was read: the resources under the same identifiers, each the same document.\<close>

definition sameGroup :: "group \<Rightarrow> group \<Rightarrow> bool" where
  "sameGroup g g' \<longleftrightarrow> distinct (map fst g') \<and> (\<forall>i. rel_option (rel_option sameJSON) (map_of g i) (map_of g' i))"

definition readGroup :: "any \<Rightarrow> group" where
  "readGroup raw = (case raw of AMap value \<Rightarrow> map (\<lambda>(i, x). (i, Some (jsonify x))) value | _ \<Rightarrow> [])"

lemma map_of_keyed: "map_of (map (\<lambda>i. (i, f i)) ks) k = (if k \<in> set ks then Some (f k) else None)"
  by (induction ks) auto

lemma map_of_printed:
  assumes "exportedGroup g"
  shows "map_of g i = map_option Some (map_of (printed g) i)"
proof (cases "i \<in> set (map fst g)")
  case True
  obtain v where "map_get None g i = Some v" "map_of g i = Some (Some v)" by (rule exportedGroup_get [OF assms True])
  then show ?thesis using True by (simp add: printed_def map_of_keyed)
next
  case False
  then have "map_of g i = None" by (simp add: map_of_eq_None_iff)
  with False show ?thesis by (simp add: printed_def map_of_keyed)
qed

text \<open>Writing the identifier into a resource that was read changes nothing: it is there.\<close>

lemma bundleResource_read:
  assumes "resource i v" and "readsAs v x"
  shows "bundleResource i x = Some (jsonify x)"
proof -
  obtain m where m: "v = AMap m" "map_of m ''id'' = Some (AString i)" using assms(1) by (auto simp: resource_def split: any.splits)
  obtain y where y: "x = AMap y" "\<forall>k. rel_option readsAs (map_of m k) (map_of y k)" by (rule readsAs_object [OF assms(2) [unfolded m(1)]])
  have "map_of y ''id'' = Some (AString i)" using spec [OF y(2), of "''id''"] m(2) by (cases "map_of y ''id''") (auto simp: readsAs_string)
  then show ?thesis using y(1) by (simp only: bundleResource_def any.case map_put_same)
qed

lemma read_group:
  assumes "exportedGroup g" and "readsAs (AMap (printed g)) raw"
  shows "normalizeBundleResources raw = Inr (readGroup raw)" and "sameGroup g (readGroup raw)"
proof -
  obtain y where y: "raw = AMap y" "distinct (map fst y)" "\<forall>k. rel_option readsAs (map_of (printed g) k) (map_of y k)"
    by (rule readsAs_object [OF assms(2)])
  have entry: "bundleResource i x = Some (jsonify x)" if "(i, x) \<in> set y" for i x
  proof -
    have "map_of y i = Some x" using that y(2) by simp
    then obtain v where v: "map_of (printed g) i = Some v" "readsAs v x" using spec [OF y(3), of i] by (cases "map_of (printed g) i") auto
    then have "map_of g i = Some (Some v)" using map_of_printed [OF assms(1)] by simp
    then have "resource i v" using assms(1) by (auto simp: exportedGroup_def dest!: map_of_SomeD)
    then show ?thesis using v(2) by (rule bundleResource_read)
  qed
  then show "normalizeBundleResources raw = Inr (readGroup raw)"
    by (auto simp: normalizeBundleResources_def readGroup_def y(1))
  have "map_of (readGroup raw) i = map_option (\<lambda>x. Some (jsonify x)) (map_of y i)" for i
    using map_of_map [of "\<lambda>x. Some (jsonify x)" y] by (simp add: readGroup_def y(1))
  then have "rel_option (rel_option sameJSON) (map_of g i) (map_of (readGroup raw) i)" for i
    using spec [OF y(3), of i] unfolding map_of_printed [OF assms(1)]
    by (cases "map_of (printed g) i"; cases "map_of y i") (auto simp: readsAs_def)
  moreover have "distinct (map fst (readGroup raw))" using y(2) by (simp add: readGroup_def y(1) comp_def case_prod_beta)
  ultimately show "sameGroup g (readGroup raw)" by (simp add: sameGroup_def)
qed

lemma sameGroup_Nil:
  assumes "sameGroup g g'"
  shows "g' = [] \<longleftrightarrow> g = []"
proof -
  have "map_of g i = None \<longleftrightarrow> map_of g' i = None" for i
    using assms by (cases "map_of g i"; cases "map_of g' i") (auto simp: sameGroup_def dest!: spec [where x = i])
  then have "fst ` set g = fst ` set g'" by (auto simp: map_of_eq_None_iff)
  then show ?thesis by (metis image_is_empty set_empty)
qed

lemma jsonField_same_names: "(\<And>k. map_of m k = None \<longleftrightarrow> map_of n k = None) \<Longrightarrow> jsonField name m = None \<Longrightarrow> jsonField name n = None"
  unfolding jsonField_None map_of_eq_None_iff by blast

lemma sameGroup_OK:
  assumes "exportedGroup g" and "groupOK g" and "sameGroup g g'"
  shows "groupOK g'"
proof -
  have "plainSegment i \<and> storableRaw raw" if "(i, raw) \<in> set g'" for i raw
  proof -
    have "map_of g' i = Some raw" using that assms(3) by (simp add: sameGroup_def)
    then obtain r where r: "map_of g i = Some r" "rel_option sameJSON r raw"
      using assms(3) by (cases "map_of g i") (auto simp: sameGroup_def dest!: spec [where x = i])
    then obtain v where v: "r = Some v" "resource i v" using assms(1) by (auto simp: exportedGroup_def dest!: map_of_SomeD)
    then obtain x where x: "raw = Some x" "sameJSON v x" using r(2) by (cases raw) auto
    obtain m where m: "v = AMap m" "jsonField ''value'' m = None" using v(2) by (auto simp: resource_def split: any.splits)
    obtain n where n: "x = AMap n" "\<forall>k. rel_option sameJSON (map_of m k) (map_of n k)" by (rule sameJSON_object [OF x(2) [unfolded m(1)]])
    have "map_of m k = None \<longleftrightarrow> map_of n k = None" for k using spec [OF n(2), of k] by (cases "map_of m k"; cases "map_of n k") auto
    then have "jsonField ''value'' n = None" using jsonField_same_names m(2) by blast
    moreover have "document (AMap n)" using x(2) n(1) by (simp only: sameJSON_def)
    moreover have "plainSegment i" using assms(2) map_of_SomeD [OF r(1)] by (auto simp: groupOK_def)
    ultimately show ?thesis using x(1) n(1) by (simp only: storableRaw_def storable_def option.case any.case)
  qed
  then show ?thesis using assms(3) by (auto simp: groupOK_def sameGroup_def)
qed

lemma document_printed:
  assumes "exportedGroup g"
  shows "document (AMap (printed g))"
proof -
  have "document (case map_get None g i of Some v \<Rightarrow> v | None \<Rightarrow> ANil)" if i: "i \<in> set (map fst g)" for i
  proof -
    obtain v where "map_get None g i = Some v" "resource i v" by (rule exportedGroup_get [OF assms i])
    then show ?thesis by (auto simp: resource_def split: any.splits)
  qed
  moreover have "map fst (printed g) = sort (map fst g)" by (simp add: printed_def o_def)
  moreover have "distinct (sort (map fst g))" using assms by (simp add: exportedGroup_def)
  ultimately show ?thesis by (auto simp: printed_def)
qed

section \<open>Bundles\<close>

definition exportedBundle :: "FileBundle \<Rightarrow> bool" where
  "exportedBundle b \<longleftrightarrow>
     bundleOK b \<and> (\<forall>(kind, g)\<in>set (fb_Resources b). exportedGroup g) \<and> set (bm_ManagedKinds (fb_Meta b)) \<subseteq> set supportedKinds"

definition groupOf :: "FileBundle \<Rightarrow> ResourceKind \<Rightarrow> group option" where
  "groupOf b kind = (case map_of (fb_Resources b) kind of None \<Rightarrow> None | Some g \<Rightarrow> if g = [] then None else Some g)"

lemma groupOf_exported: "exportedBundle b \<Longrightarrow> groupOf b kind = Some g \<Longrightarrow> exportedGroup g \<and> groupOK g \<and> g \<noteq> []"
  by (auto simp: exportedBundle_def bundleOK_def groupOf_def dest!: map_of_SomeD split: option.splits if_splits)

lemma desired_groupOf: "desired b kind i = (case groupOf b kind of None \<Rightarrow> None | Some g \<Rightarrow> map_of g i)"
  by (simp add: desired_def groupOf_def split: option.split)

lemma kindsToMap_printed:
  assumes "exportedBundle b"
  shows "kindsToMap b kinds = Some (collect (\<lambda>k. map_option (\<lambda>g. AMap (printed g)) (groupOf b k)) kinds)"
proof (induction kinds)
  case (Cons kind kinds)
  show ?case
  proof (cases "groupOf b kind")
    case None
    then show ?thesis using Cons by (auto simp: groupOf_def split: option.splits if_splits)
  next
    case (Some g)
    then have "map_of (fb_Resources b) kind = Some g" "g \<noteq> []" by (auto simp: groupOf_def split: option.splits if_splits)
    then show ?thesis using Cons Some groupToMap_printed groupOf_exported [OF assms Some] by simp
  qed
qed simp

lemma parseKinds_read:
  assumes "exportedBundle b" and "\<And>k. k \<in> set kinds \<Longrightarrow> rel_option readsAs (map_option (\<lambda>g. AMap (printed g)) (groupOf b k)) (map_of decoded k)"
  shows "parseKinds decoded kinds = Inr (collect (\<lambda>k. map_option readGroup (map_of decoded k)) kinds)"
  using assms(2)
proof (induction kinds)
  case (Cons kind kinds)
  then have kind: "rel_option readsAs (map_option (\<lambda>g. AMap (printed g)) (groupOf b kind)) (map_of decoded kind)" by simp
  from Cons have IH: "parseKinds decoded kinds = Inr (collect (\<lambda>k. map_option readGroup (map_of decoded k)) kinds)" by simp
  show ?case
  proof (cases "groupOf b kind")
    case None
    then have "map_of decoded kind = None" using kind by (cases "map_of decoded kind") auto
    then show ?thesis using IH by simp
  next
    case (Some g)
    then obtain raw where raw: "map_of decoded kind = Some raw" "readsAs (AMap (printed g)) raw" using kind by (cases "map_of decoded kind") auto
    note g = groupOf_exported [OF assms(1) Some]
    have "readGroup raw \<noteq> []" using sameGroup_Nil [OF read_group(2) [of g raw]] g raw(2) by simp
    then show ?thesis using raw IH read_group(1) [of g raw] g by simp
  qed
qed simp

section \<open>The description of a bundle\<close>

lemma dedupKinds_same: "distinct kinds \<Longrightarrow> set kinds \<inter> set seen = {} \<Longrightarrow> dedupKinds seen kinds = kinds"
  by (induction kinds arbitrary: seen) auto

lemma kindSelection_again:
  "kinds \<noteq> [] \<Longrightarrow> normalizeResourceKindSelection (normalizeResourceKindSelection kinds) = normalizeResourceKindSelection kinds"
  using kindSelection(1,2) [of kinds] by (auto simp: normalizeResourceKindSelection_def dedupKinds_same sorted_sort_id split: if_splits)

lemma managedKinds_printed: "set kinds \<subseteq> set supportedKinds \<Longrightarrow> managedKinds (map AString kinds) = Inr kinds"
  by (induction kinds) (auto simp: ParseKind_def)

definition selected :: "BundleMeta \<Rightarrow> BundleMeta" where
  "selected meta =
     meta\<lparr>bm_ManagedKinds := (if bm_ManagedKinds meta = [] then [] else normalizeResourceKindSelection (bm_ManagedKinds meta))\<rparr>"

lemma parseManagedKinds_printed:
  assumes "set kinds \<subseteq> set supportedKinds" and "kinds \<noteq> []"
  shows "parseManagedKinds (AList (map AString (normalizeResourceKindSelection kinds))) = Inr (normalizeResourceKindSelection kinds)"
proof -
  have "set (normalizeResourceKindSelection kinds) \<subseteq> set supportedKinds" using assms by (simp add: kindSelection(3))
  then show ?thesis using kindSelection_again [OF assms(2)] by (simp add: parseManagedKinds_def managedKinds_printed)
qed

lemma meta_printed:
  assumes "set (bm_ManagedKinds meta) \<subseteq> set supportedKinds"
  shows "parseBundleMeta (if isZero meta then ANil else AMap (metaToMap meta)) = Inr (selected meta)"
proof (cases "isZero meta")
  case True
  then show ?thesis by (cases meta) (simp add: isZero_def selected_def parseBundleMeta_def emptyMeta_def)
next
  case False
  show ?thesis
  proof (cases "bm_ManagedKinds meta = []")
    case True
    with False show ?thesis
      by (cases meta) (auto simp: isZero_def selected_def parseBundleMeta_def metaToMap_def lookupString_def)
  next
    case kinds: False
    note p = parseManagedKinds_printed [OF assms kinds]
    from False kinds p show ?thesis
      by (cases meta) (simp add: selected_def parseBundleMeta_def metaToMap_def lookupString_def)
  qed
qed

text \<open>The description has strings only, so it comes back as it was printed; of the map that holds it only the members count.\<close>

lemma meta_members:
  assumes "map_of (metaToMap meta) k = Some v" and "readsAs v x"
  shows "x = v"
proof -
  have "(\<exists>s. v = AString s) \<or> (\<exists>ss. v = AList (map AString ss))" using map_of_SomeD [OF assms(1)] by (auto simp: metaToMap_def split: if_splits)
  then show ?thesis using assms(2) readsAs_string readsAs_strings by blast
qed

lemma meta_read:
  assumes "readsAs (AMap (metaToMap meta)) x"
  shows "parseBundleMeta x = parseBundleMeta (AMap (metaToMap meta))"
proof -
  obtain y where y: "x = AMap y" "distinct (map fst y)" "\<forall>k. rel_option readsAs (map_of (metaToMap meta) k) (map_of y k)"
    by (rule readsAs_object [OF assms])
  have same: "map_of y = map_of (metaToMap meta)"
  proof
    fix k show "map_of y k = map_of (metaToMap meta) k"
      using spec [OF y(3), of k] meta_members [of meta k] by (cases "map_of (metaToMap meta) k"; cases "map_of y k") auto
  qed
  then have "(y = []) = (metaToMap meta = [])" by (metis map_of_eq_empty_iff)
  with same y(1) show ?thesis by (simp add: parseBundleMeta_def lookupString_def)
qed

section \<open>Files\<close>

definition readBundle :: "FileBundle \<Rightarrow> (string \<times> any) list \<Rightarrow> FileBundle" where
  "readBundle b decoded =
     \<lparr>fb_Resources = collect (\<lambda>k. map_option readGroup (map_of decoded k)) SupportedKinds, fb_Meta = selected (fb_Meta b)\<rparr>"

definition fileMap :: "FileBundle \<Rightarrow> (string \<times> any) list" where
  "fileMap b =
     (if isZero (fb_Meta b) then [] else [(''_meta'', AMap (metaToMap (fb_Meta b)))])
     @ collect (\<lambda>k. map_option (\<lambda>g. AMap (printed g)) (groupOf b k)) SupportedKinds"

lemma supported_distinct: "distinct SupportedKinds" "''_meta'' \<notin> set SupportedKinds"
  by code_simp+

lemma ToMap_fileMap: "exportedBundle b \<Longrightarrow> ToMap b = Some (fileMap b)"
  by (simp add: ToMap_def fileMap_def kindsToMap_printed)

lemma fileMap_kinds:
  assumes "k \<in> set SupportedKinds"
  shows "map_of (fileMap b) k = map_option (\<lambda>g. AMap (printed g)) (groupOf b k)"
proof -
  have "k \<noteq> ''_meta''" using assms supported_distinct(2) by auto
  then show ?thesis using assms by (simp add: fileMap_def map_of_collect)
qed

text \<open>A file that was read: the members of the map are those of the file, each as it was read.\<close>

lemma fileMap_read:
  assumes "exportedBundle b" and "readsAs (AMap (fileMap b)) (AMap decoded)"
  shows "bundleOfMap decoded = Inr (readBundle b decoded)"
    and "k \<in> set SupportedKinds \<Longrightarrow> rel_option readsAs (map_option (\<lambda>g. AMap (printed g)) (groupOf b k)) (map_of decoded k)"
proof -
  have members: "rel_option readsAs (map_of (fileMap b) k) (map_of decoded k)" for k using readsAs_object [OF assms(2)] by blast
  then show kinds: "k \<in> set SupportedKinds \<Longrightarrow> rel_option readsAs (map_option (\<lambda>g. AMap (printed g)) (groupOf b k)) (map_of decoded k)" for k
    using fileMap_kinds by metis
  have m: "map_of (fileMap b) ''_meta'' = (if isZero (fb_Meta b) then None else Some (AMap (metaToMap (fb_Meta b))))"
    using supported_distinct(2) by (simp add: fileMap_def map_of_collect)
  have sub: "set (bm_ManagedKinds (fb_Meta b)) \<subseteq> set supportedKinds" using assms by (simp add: exportedBundle_def)
  have "parseBundleMeta (map_get ANil decoded ''_meta'') = Inr (selected (fb_Meta b))"
  proof (cases "isZero (fb_Meta b)")
    case True
    then have "map_of decoded ''_meta'' = None" using members [of "''_meta''"] m by (cases "map_of decoded ''_meta''") auto
    then show ?thesis using meta_printed [OF sub] True by (simp add: map_get_def)
  next
    case False
    then obtain x where "map_of decoded ''_meta'' = Some x" "readsAs (AMap (metaToMap (fb_Meta b))) x"
      using members [of "''_meta''"] m by (cases "map_of decoded ''_meta''") auto
    then show ?thesis using meta_read meta_printed [OF sub] False by (simp add: map_get_def)
  qed
  then show "bundleOfMap decoded = Inr (readBundle b decoded)"
    using parseKinds_read [OF assms(1) kinds] by (simp add: bundleOfMap_def readBundle_def)
qed

lemma document_meta: "document (AMap (metaToMap meta))"
  by (auto simp: metaToMap_def list_all_iff)

lemma document_collect:
  assumes "\<And>k v. f k = Some v \<Longrightarrow> document v"
  shows "list_all (\<lambda>p. document (snd p)) (collect f ks)"
  using assms by (induction ks) (auto split: option.split)

lemma document_members: "document (AMap m) \<longleftrightarrow> distinct (map fst m) \<and> list_all (\<lambda>p. document (snd p)) m"
  by (simp add: list_all_iff case_prod_beta)

lemma fileMap_document:
  assumes "exportedBundle b"
  shows "document (AMap (fileMap b))"
proof -
  let ?f = "\<lambda>k. map_option (\<lambda>g. AMap (printed g)) (groupOf b k)"
  have "list_all (\<lambda>p. document (snd p)) (collect ?f SupportedKinds)"
  proof (rule document_collect)
    fix k v assume "?f k = Some v"
    then obtain g where g: "groupOf b k = Some g" "v = AMap (printed g)" by auto
    show "document v" unfolding g(2) by (rule document_printed) (use groupOf_exported [OF assms g(1)] in simp)
  qed
  moreover have "''_meta'' \<notin> fst ` set (collect ?f SupportedKinds)" using keys_collect [of ?f SupportedKinds] supported_distinct(2) by blast
  moreover have "distinct (map fst (collect ?f SupportedKinds))" by (rule distinct_collect [OF supported_distinct(1)])
  ultimately show ?thesis using document_meta [of "fb_Meta b"] unfolding document_members by (auto simp: fileMap_def list_all_iff)
qed

text \<open>What was read asks for the same resources.\<close>

lemma groupOf_unsupported: "exportedBundle b \<Longrightarrow> kind \<notin> set SupportedKinds \<Longrightarrow> map_of (fb_Resources b) kind = None"
  by (auto simp: exportedBundle_def bundleOK_def SupportedKinds_def map_of_eq_None_iff)

lemma readBundle_same:
  assumes "exportedBundle b" and "readsAs (AMap (fileMap b)) (AMap decoded)"
  shows "rel_option (rel_option sameJSON) (desired b kind i) (desired (readBundle b decoded) kind i)"
proof (cases "kind \<in> set SupportedKinds")
  case True
  note kind = fileMap_read(2) [OF assms True]
  show ?thesis
  proof (cases "groupOf b kind")
    case None
    then have "map_of decoded kind = None" using kind by (cases "map_of decoded kind") auto
    then have "desired (readBundle b decoded) kind i = None" using True by (simp add: desired_def readBundle_def map_of_collect)
    moreover have "desired b kind i = None" using None by (simp add: desired_groupOf)
    ultimately show ?thesis by simp
  next
    case (Some g)
    then obtain raw where raw: "map_of decoded kind = Some raw" "readsAs (AMap (printed g)) raw" using kind by (cases "map_of decoded kind") auto
    then have "sameGroup g (readGroup raw)" using read_group(2) groupOf_exported [OF assms(1) Some] by blast
    moreover have "desired (readBundle b decoded) kind i = map_of (readGroup raw) i"
      using raw(1) True by (simp add: desired_def readBundle_def map_of_collect)
    moreover have "desired b kind i = map_of g i" using Some by (simp add: desired_groupOf)
    ultimately show ?thesis by (simp add: sameGroup_def)
  qed
next
  case False
  then show ?thesis using groupOf_unsupported [OF assms(1)] by (simp add: desired_def readBundle_def map_of_collect)
qed

lemma collect_entries: "(k, v) \<in> set (collect f ks) \<Longrightarrow> k \<in> set ks \<and> f k = Some v"
  by (induction ks) (auto split: option.splits)

lemma readBundle_OK:
  assumes "exportedBundle b" and "readsAs (AMap (fileMap b)) (AMap decoded)"
  shows "bundleOK (readBundle b decoded)"
proof -
  have "groupOK g'" if g': "(kind, g') \<in> set (fb_Resources (readBundle b decoded))" for kind g'
  proof -
    obtain raw where raw: "kind \<in> set SupportedKinds" "map_of decoded kind = Some raw" "g' = readGroup raw"
      using collect_entries [OF g' [unfolded readBundle_def, simplified]] by auto
    then obtain g where g: "groupOf b kind = Some g" "readsAs (AMap (printed g)) raw"
      using fileMap_read(2) [OF assms raw(1)] by (cases "groupOf b kind") auto
    then have "exportedGroup g" "groupOK g" using groupOf_exported [OF assms(1)] by auto
    then show ?thesis unfolding raw(3) using read_group(2) g(2) sameGroup_OK by blast
  qed
  moreover have "kind \<in> set supportedKinds" if "(kind, g') \<in> set (fb_Resources (readBundle b decoded))" for kind g'
    using collect_entries [OF that [unfolded readBundle_def, simplified]] by (auto simp: SupportedKinds_def)
  moreover have "distinct (map fst (fb_Resources (readBundle b decoded)))"
    using distinct_collect [OF supported_distinct(1)] by (simp add: readBundle_def)
  ultimately show ?thesis by (auto simp: bundleOK_def)
qed

text \<open>
  What YAML promises: a document that was printed is read, and as JSON it is the same document. The order of the members of an
  object may change, and a number that is printed without a fraction may come back as an integer.
\<close>

definition yamlReads :: "((string \<times> any) list \<Rightarrow> string) \<Rightarrow> (string \<Rightarrow> (string \<times> any) list option) \<Rightarrow> bool" where
  "yamlReads toYAML fromYAML \<longleftrightarrow>
     (\<forall>m. document (AMap m) \<longrightarrow> (\<exists>decoded. fromYAML (toYAML m) = Some decoded \<and> readsAs (AMap m) (AMap decoded)))"

lemma bundle_file:
  assumes "exportedBundle b" and "yamlReads toYAML fromYAML"
  obtains decoded where "ToYAML toYAML b = Some (toYAML (fileMap b))" "fromYAML (toYAML (fileMap b)) = Some decoded"
    and "ParseBundle fromYAML (toYAML (fileMap b)) = Inr (readBundle b decoded)" "readsAs (AMap (fileMap b)) (AMap decoded)"
proof -
  obtain decoded where d: "fromYAML (toYAML (fileMap b)) = Some decoded" "readsAs (AMap (fileMap b)) (AMap decoded)"
    using assms(2) fileMap_document [OF assms(1)] unfolding yamlReads_def by blast
  moreover have "ToYAML toYAML b = Some (toYAML (fileMap b))" by (simp add: ToYAML_def ToMap_fileMap [OF assms(1)])
  moreover have "ParseBundle fromYAML (toYAML (fileMap b)) = Inr (readBundle b decoded)"
    using fileMap_read(1) [OF assms(1) d(2)] d(1) by (simp add: ParseBundle_def)
  ultimately show ?thesis using that by blast
qed

lemma exported_groups:
  assumes "bundleOK b" and "set (bm_ManagedKinds (fb_Meta b)) \<subseteq> set supportedKinds"
    and "\<And>kind i raw. desired b kind i = Some raw \<Longrightarrow> \<exists>v. raw = Some v \<and> resource i v"
  shows "exportedBundle b"
proof -
  have "exportedGroup g" if "(kind, g) \<in> set (fb_Resources b)" for kind g
  proof -
    have g: "map_of (fb_Resources b) kind = Some g" "groupOK g" using assms(1) that by (auto simp: bundleOK_def)
    then have "desired b kind i = Some raw" if "(i, raw) \<in> set g" for i raw using that by (simp add: desired_def groupOK_def)
    then show ?thesis using assms(3) g(2) by (fastforce simp: exportedGroup_def groupOK_def)
  qed
  then show ?thesis using assms(1,2) by (auto simp: exportedBundle_def)
qed

text \<open>The bundle of an export, once it has been written and read.\<close>

lemma exported_file:
  assumes "etcd_store client kvs prefix" and "etcdInv (normalizePrefix prefix) (kvs s)" and "set kinds \<subseteq> set supportedKinds"
    and "ExportBundleWithOptions (etcdStore (NewEtcdStoreWithClient client prefix)) stamp
      \<lparr>eo_EtcdPrefix = label, eo_IncludeKinds = kinds, eo_IncludeMeta = True\<rparr> s = (s', Inr b)"
  shows "exportedBundle b" and "bm_ManagedKinds (selected (fb_Meta b)) \<noteq> []"
    and "set (bm_ManagedKinds (selected (fb_Meta b))) = set (normalizeResourceKindSelection kinds)"
    and "desired b kind i = (if kind \<in> set (normalizeResourceKindSelection kinds)
      then map_option Some (etcdView (normalizePrefix prefix) (kvs s) kind i) else None)"
proof -
  note store = etcd_store.is_store [OF assms(1)]
  have "set (eo_IncludeKinds \<lparr>eo_EtcdPrefix = label, eo_IncludeKinds = kinds, eo_IncludeMeta = True\<rparr>) \<subseteq> set supportedKinds"
    using assms(3) by simp
  from resource_store.ExportBundle_outcome [OF store assms(2) this assms(4)]
  have b: "bundleOK b" "bm_ManagedKinds (fb_Meta b) = normalizeResourceKindSelection kinds"
    "\<And>kind i. desired b kind i = (if kind \<in> set (normalizeResourceKindSelection kinds)
      then map_option Some (etcdView (normalizePrefix prefix) (kvs s) kind i) else None)" by auto
  have sub: "set (normalizeResourceKindSelection kinds) \<subseteq> set supportedKinds" using assms(3) by (simp add: kindSelection(3))
  have "\<exists>v. raw = Some v \<and> resource i v" if "desired b kind i = Some raw" for kind i raw
    using that resource_store.view_resource [OF store assms(2), of kind i] by (auto simp: b(3) split: if_splits)
  then show ok: "exportedBundle b" using b(1,2) sub by (intro exported_groups) auto
  show "bm_ManagedKinds (selected (fb_Meta b)) \<noteq> []"
    "set (bm_ManagedKinds (selected (fb_Meta b))) = set (normalizeResourceKindSelection kinds)"
    using b(2) kindSelection(2,3) [of kinds] kindSelection(2,3) [of "normalizeResourceKindSelection kinds"]
    by (auto simp: selected_def)
  show "desired b kind i = (if kind \<in> set (normalizeResourceKindSelection kinds)
      then map_option Some (etcdView (normalizePrefix prefix) (kvs s) kind i) else None)" by (rule b(3))
qed

section \<open>Results\<close>

text \<open>The same resource, or none: up to their times the members are the same, and so are the values below them, up to the order
  of the members of an object.\<close>

definition sameContent :: "any option \<Rightarrow> any option \<Rightarrow> bool" where
  "sameContent a b \<longleftrightarrow>
     rel_option (\<lambda>v w. \<exists>m n. v = AMap m \<and> w = AMap n
       \<and> (\<forall>k. k \<noteq> ''create_time'' \<and> k \<noteq> ''update_time'' \<longrightarrow> rel_option DeepEqual (map_of m k) (map_of n k))) a b"

lemma deploys_content:
  assumes "resource i v" and "sameJSON v w" and "deploys i (Some w) v'"
  shows "sameContent (Some v) (Some v')"
proof -
  obtain m where m: "v = AMap m" "map_of m ''id'' = Some (AString i)" using assms(1) by (auto simp: resource_def split: any.splits)
  obtain n where n: "w = AMap n" "\<forall>k. rel_option sameJSON (map_of m k) (map_of n k)" by (rule sameJSON_object [OF assms(2) [unfolded m(1)]])
  obtain m' where m': "v' = AMap m'"
    "\<forall>k. k \<noteq> ''create_time'' \<and> k \<noteq> ''update_time'' \<longrightarrow> map_of m' k = (if k = ''id'' then Some (AString i) else map_of n k)"
    using assms(3) n(1) unfolding deploys_def by blast
  have "rel_option DeepEqual (map_of m k) (map_of m' k)" if "k \<noteq> ''create_time'' \<and> k \<noteq> ''update_time''" for k
  proof (cases "k = ''id''")
    case True
    then show ?thesis using m(2) m'(2) that by simp
  next
    case False
    then have "map_of m' k = map_of n k" using m'(2) that by simp
    moreover have "rel_option DeepEqual (map_of m k) (map_of n k)"
      using spec [OF n(2), of k] by (rule option.rel_mono_strong) (simp add: sameJSON_def)
    ultimately show ?thesis by (simp only:)
  qed
  with m(1) m'(1) show ?thesis unfolding sameContent_def by (intro option.rel_intros) blast
qed

text \<open>
  C11. Migration by file. The resources of the selected kinds are exported from one etcd, printed as YAML, read again and applied
  with pruning to another one, which may have other contents and another prefix. Of YAML it is asked that a document which was
  printed is read as the same JSON document: members of an object may come in another order and whole numbers as integers. When the
  export and the application succeed, printing and reading always do, and afterwards the second etcd has exactly the resources of
  the first of the selected kinds, each with the same members and values, up to its times and the order of members, and its other
  resources are untouched. What the two etcds hold at the beginning is what the control plane can have stored there.
\<close>

theorem export_import_migrates:
  assumes "etcd_store client kvs prefix" and "etcdInv (normalizePrefix prefix) (kvs s)" and "set kinds \<subseteq> set supportedKinds"
    and "ExportBundleWithOptions (etcdStore (NewEtcdStoreWithClient client prefix)) stamp
      \<lparr>eo_EtcdPrefix = label, eo_IncludeKinds = kinds, eo_IncludeMeta = True\<rparr> s = (s', Inr b)"
    and "yamlReads toYAML fromYAML"
    and "etcd_store client' kvs' prefix'" and "etcdInv (normalizePrefix prefix') (kvs' t)"
  shows "\<exists>text b'. ToYAML toYAML b = Some text \<and> ParseBundle fromYAML text = Inr b'
    \<and> (\<forall>t' counts. ApplyBundleWithOptions (etcdStore (NewEtcdStoreWithClient client' prefix')) now b'
            \<lparr>ao_PruneKinds = [], ao_Prune = True\<rparr> t = (t', Inr counts) \<longrightarrow>
         (\<forall>kind i. if kind \<in> set (normalizeResourceKindSelection kinds)
            then sameContent (etcdView (normalizePrefix prefix) (kvs s) kind i) (etcdView (normalizePrefix prefix') (kvs' t') kind i)
            else etcdView (normalizePrefix prefix') (kvs' t') kind i = etcdView (normalizePrefix prefix') (kvs' t) kind i))"
proof -
  note ex = exported_file [OF assms(1-4)]
  obtain decoded where written: "ToYAML toYAML b = Some (toYAML (fileMap b))"
    "ParseBundle fromYAML (toYAML (fileMap b)) = Inr (readBundle b decoded)" and reads: "readsAs (AMap (fileMap b)) (AMap decoded)"
    by (rule bundle_file [OF ex(1) assms(5)])
  let ?b = "readBundle b decoded" and ?opts = "\<lparr>ao_PruneKinds = [], ao_Prune = True\<rparr>" and ?kinds = "set (normalizeResourceKindSelection kinds)"
  let ?res = "etcdView (normalizePrefix prefix) (kvs s)" and ?view = "\<lambda>t. etcdView (normalizePrefix prefix') (kvs' t)"
  have prune: "set (resolvePruneKinds ?b ?opts) = ?kinds"
    using ex(2,3) by (simp add: resolvePruneKinds_def Let_def kindSelection(3) readBundle_def)
  have "if kind \<in> ?kinds then sameContent (?res kind i) (?view t' kind i) else ?view t' kind i = ?view t kind i"
    if run: "ApplyBundleWithOptions (etcdStore (NewEtcdStoreWithClient client' prefix')) now ?b ?opts t = (t', Inr counts)"
    for t' counts kind i
  proof -
    have "applied ?b (resolvePruneKinds ?b ?opts) (?view t) (?view t')"
      using resource_store.ApplyBundle_outcome [OF etcd_store.is_store [OF assms(6)] readBundle_OK [OF ex(1) reads] assms(7) run] by simp
    then have ap: "if concerned ?b (resolvePruneKinds ?b ?opts) kind i then reached ?b (resolvePruneKinds ?b ?opts) kind i (?view t' kind i)
        else ?view t' kind i = ?view t kind i" by (simp add: applied_def)
    note asked = readBundle_same [OF ex(1) reads, of kind i, unfolded ex(4) [of kind i]]
    show ?thesis
    proof (cases "kind \<in> ?kinds")
      case True
      show ?thesis
      proof (cases "?res kind i")
        case None
        then have "desired ?b kind i = None" using asked True by (cases "desired ?b kind i") auto
        then show ?thesis using ap True None prune by (simp add: concerned_def reached_def sameContent_def)
      next
        case (Some v)
        then obtain w where w: "desired ?b kind i = Some (Some w)" "sameJSON v w"
          using asked True by (cases "desired ?b kind i") (auto simp: option_rel_Some1)
        then obtain v' where v': "?view t' kind i = Some v'" "deploys i (Some w) v'" using ap by (auto simp: concerned_def reached_def)
        have "resource i v" using Some resource_store.view_resource [OF etcd_store.is_store [OF assms(1)] assms(2)] by blast
        then show ?thesis using True Some v' deploys_content [OF _ w(2)] by simp
      qed
    next
      case False
      then have "desired ?b kind i = None" using asked by (cases "desired ?b kind i") auto
      then show ?thesis using ap False prune by (simp add: concerned_def)
    qed
  qed
  then show ?thesis using written by blast
qed

text \<open>
  A codec that does what YAML may do: the documents are countable, so that a text can stand for its document; reading turns whole
  numbers into integers and the members of every object around.
\<close>

instance any :: countable
  by countable_datatype

primrec reread :: "any \<Rightarrow> any" where
  "reread ANil = ANil"
| "reread (ABool b) = ABool b"
| "reread (AInt i) = AInt i"
| "reread (AFloat r) = (if isInt r then AInt \<lfloor>r\<rfloor> else AFloat r)"
| "reread (AString s) = AString s"
| "reread (AList xs) = AList (map reread xs)"
| "reread (AMap m) = AMap (rev (map (map_prod id reread) m))"

definition numbered :: "(string \<times> any) list \<Rightarrow> string" where
  "numbered m = replicate (to_nat m) (CHR ''.'')"

definition rereadMap :: "(string \<times> any) list \<Rightarrow> (string \<times> any) list" where
  "rereadMap m = rev (map (map_prod id reread) m)"

definition unnumbered :: "string \<Rightarrow> (string \<times> any) list option" where
  "unnumbered text = Some (rereadMap (from_nat (length text)))"

lemma jsonify_reread:
  "document v \<Longrightarrow> document (jsonify (reread v)) \<and> DeepEqual v (jsonify (reread v))"
proof (induction v)
  case (AFloat r)
  then show ?case by (auto simp: isInt_def)
next
  case (AList xs)
  then show ?case by (auto simp: list_all_iff set_zip)
next
  case (AMap m)
  let ?n = "rev (map (map_prod id (\<lambda>v. jsonify (reread v))) m)"
  have eq: "jsonify (reread (AMap m)) = AMap ?n" by (simp add: rev_map map_prod_def comp_def case_prod_beta)
  have names: "map fst ?n = rev (map fst m)" by (simp add: rev_map comp_def)
  have d: "distinct (map fst m)" "distinct (map fst ?n)" using AMap.prems names by simp_all
  have sub: "document (jsonify (reread v)) \<and> DeepEqual v (jsonify (reread v))" if "(k, v) \<in> set m" for k v
    using AMap.IH [OF that] AMap.prems that by auto
  have "map_of ?n k = Some (jsonify (reread v))" if "(k, v) \<in> set m" for k v
    using that by (intro map_of_is_SomeI [OF d(2)]) force
  then have "DeepEqual (AMap m) (AMap ?n)" using sub by auto
  moreover have "document (AMap ?n)" using d(2) sub by auto
  ultimately show ?case unfolding eq by blast
qed auto

lemma numbered_reads: "yamlReads numbered unnumbered"
proof -
  have "readsAs (AMap m) (AMap (rereadMap m))" if "document (AMap m)" for m
    using jsonify_reread [OF that] that by (simp only: readsAs_def sameJSON_def reread.simps rereadMap_def simp_thms)
  then show ?thesis by (simp add: yamlReads_def numbered_def unnumbered_def)
qed

definition exportSample :: "memory \<times> (cp_error + FileBundle)" where
  "exportSample = ExportBundleWithOptions memoryStore (\<lambda>_. ''2024-01-01T00:00:00Z'')
     \<lparr>eo_EtcdPrefix = productionPrefix, eo_IncludeKinds = [], eo_IncludeMeta = True\<rparr> (fst afterPut)"

definition exportedSample :: FileBundle where
  "exportedSample = (case snd exportSample of Inl e \<Rightarrow> \<lparr>fb_Resources = [], fb_Meta = emptyMeta\<rparr> | Inr b \<Rightarrow> b)"

definition reloadedSample :: FileBundle where
  "reloadedSample = readBundle exportedSample (rereadMap (fileMap exportedSample))"

definition migratedSample :: "memory \<times> (cp_error + ApplyResult)" where
  "migratedSample = ApplyBundleWithOptions memoryStore me_clock reloadedSample \<lparr>ao_PruneKinds = [], ao_Prune = True\<rparr> emptyMemory"

lemma sample_migration:
  "(case snd exportSample of Inl e \<Rightarrow> False | Inr b \<Rightarrow> True)" "snd migratedSample = Inr [(KindRoute, 1)]"
  "(\<lambda>t. etcdView (normalizePrefix productionPrefix) (memKvs t) KindRoute sampleRoute \<noteq> None) (fst migratedSample)"
  by code_simp+

theorem export_import_migrates_witness:
  "etcdView (normalizePrefix productionPrefix) (memKvs emptyMemory) KindRoute sampleRoute = None
   \<and> ParseBundle unnumbered (numbered (fileMap exportedSample)) = Inr reloadedSample
   \<and> sameContent (etcdView (normalizePrefix productionPrefix) (memKvs (fst afterPut)) KindRoute sampleRoute)
       (etcdView (normalizePrefix productionPrefix) (memKvs (fst migratedSample)) KindRoute sampleRoute)
   \<and> etcdView (normalizePrefix productionPrefix) (memKvs (fst migratedSample)) KindRoute sampleRoute \<noteq> None"
proof -
  have run: "ExportBundleWithOptions (etcdStore (NewEtcdStoreWithClient memClient productionPrefix)) (\<lambda>_. ''2024-01-01T00:00:00Z'')
      \<lparr>eo_EtcdPrefix = productionPrefix, eo_IncludeKinds = [], eo_IncludeMeta = True\<rparr> (fst afterPut) = (fst exportSample, Inr exportedSample)"
    using sample_migration(1) by (auto simp: exportedSample_def exportSample_def memoryStore_def prod_eq_iff split: sum.splits)
  have empty: "etcdInv (normalizePrefix productionPrefix) (memKvs emptyMemory)" by (simp add: etcdInv_empty)
  obtain decoded where "unnumbered (numbered (fileMap exportedSample)) = Some decoded"
    and w: "ToYAML numbered exportedSample = Some (numbered (fileMap exportedSample))"
      "ParseBundle unnumbered (numbered (fileMap exportedSample)) = Inr (readBundle exportedSample decoded)"
    by (rule bundle_file [OF exported_file(1) [OF etcd_store_production afterPut_inv _ run] numbered_reads]) simp_all
  then have written: "ParseBundle unnumbered (numbered (fileMap exportedSample)) = Inr reloadedSample"
    by (simp add: unnumbered_def numbered_def reloadedSample_def)
  have ap: "ApplyBundleWithOptions (etcdStore (NewEtcdStoreWithClient memClient productionPrefix)) me_clock reloadedSample
      \<lparr>ao_PruneKinds = [], ao_Prune = True\<rparr> emptyMemory = (fst migratedSample, Inr [(KindRoute, 1)])"
    using sample_migration(2) by (simp add: migratedSample_def memoryStore_def prod_eq_iff)
  have route: "KindRoute \<in> set (normalizeResourceKindSelection [])" by code_simp
  from export_import_migrates [OF etcd_store_production afterPut_inv _ run numbered_reads etcd_store_production empty, where now = me_clock]
    w(1) written ap route
  have "sameContent (etcdView (normalizePrefix productionPrefix) (memKvs (fst afterPut)) KindRoute sampleRoute)
       (etcdView (normalizePrefix productionPrefix) (memKvs (fst migratedSample)) KindRoute sampleRoute)" by fastforce
  then show ?thesis using written sample_migration(3) by (simp add: etcdView_def)
qed

end
