(* ===== verification/Schema_Laws.thy ===== *)
theory Schema_Laws
  imports Admin_Schema Builtin_Register Translate
begin

text \<open>
  The schema, the translation and the built-in plugins agree: what the schema of the admin API says of the plugins is what
  the translation of APISIX resources makes of them, and these are plugins that exist.
\<close>

section \<open>Agreement\<close>

text \<open>The plugin that a name of the schema describes, and the built-in plugins that it says to be used.\<close>

definition translatedTo :: "string \<Rightarrow> string list option" where
  "translatedTo name = map_option pc_TranslatedTo (find (\<lambda>p. pc_Name p = name) (sr_Plugins buildSchemaResponse))"

lemma translatedTo_values:
  "translatedTo ''proxy-rewrite'' = Some [''rewrite_path_regex'', ''request_transformer'', ''replace_path'']"
  "translatedTo ''response-rewrite'' = Some [''response_transformer'']"
  "translatedTo ''request-id'' = Some [''request_id'']"
  "translatedTo ''limit-count'' = Some [''limit_count'']"
  by code_simp+

lemma translatedTo_names:
  assumes "translatedTo name = Some targets"
  shows "name \<in> {''proxy-rewrite'', ''response-rewrite'', ''request-id'', ''limit-count''}"
proof -
  have "map pc_Name (sr_Plugins buildSchemaResponse) = [''proxy-rewrite'', ''response-rewrite'', ''request-id'', ''limit-count'']"
    by code_simp
  moreover have "name \<in> set (map pc_Name (sr_Plugins buildSchemaResponse))"
    using assms by (auto simp: translatedTo_def find_Some_iff)
  ultimately show ?thesis by simp
qed

lemma translation_targets:
  assumes "translateApisixPlugin name raw = Inr refs" "translatedTo name = Some targets" "ref \<in> set refs"
  shows "ref_Name ref \<in> set targets"
proof -
  from translatedTo_names [OF assms(2)] consider "name = ''proxy-rewrite''" | "name = ''response-rewrite''" | "name = ''request-id''" | "name = ''limit-count''"
    by auto
  then show ?thesis
  proof cases
    case 1
    then have "translateProxyRewrite raw = Inr refs" "targets = [''rewrite_path_regex'', ''request_transformer'', ''replace_path'']"
      using assms(1,2) by (simp_all add: translateApisixPlugin_def translatedTo_values)
    with assms(3) show ?thesis
      by (auto simp: translateProxyRewrite_def pluginRef_def Let_def split: option.splits sum.splits if_splits)
  next
    case 2
    then have "translateResponseRewrite raw = Inr refs" "targets = [''response_transformer'']"
      using assms(1,2) by (simp_all add: translateApisixPlugin_def translatedTo_values)
    with assms(3) show ?thesis
      by (auto simp: translateResponseRewrite_def pluginRef_def split: option.splits sum.splits if_splits)
  next
    case 3
    then have "translateRequestID raw = Inr refs" "targets = [''request_id'']"
      using assms(1,2) by (simp_all add: translateApisixPlugin_def translatedTo_values)
    with assms(3) show ?thesis by (auto simp: translateRequestID_def pluginRef_def split: option.splits)
  next
    case 4
    then have "translateLimitCount raw = Inr refs" "targets = [''limit_count'']"
      using assms(1,2) by (simp_all add: translateApisixPlugin_def translatedTo_values)
    with assms(3) show ?thesis by (auto simp: translateLimitCount_def pluginRef_def split: option.splits)
  qed
qed

lemma targets_builtin: "translatedTo name = Some targets \<Longrightarrow> set targets \<subseteq> set (map md_Name builtins)"
proof -
  assume some: "translatedTo name = Some targets"
  have "list_all (\<lambda>p. list_all (\<lambda>t. t \<in> set (map md_Name builtins)) (pc_TranslatedTo p)) (sr_Plugins buildSchemaResponse)"
    by code_simp
  with some show ?thesis by (auto simp: translatedTo_def find_Some_iff list_all_iff)
qed

text \<open>
  C39. Translated plugins exist. When the built-in plugins are registered, each plugin that the schema advertises is translated
  to references to plugins that it announces, and each of these is found in the registry, for every scope.
\<close>

theorem translated_plugins_are_registered:
  assumes "BuiltinRegister factories r = Inr r'"
    and "translatedTo name = Some targets" and "translateApisixPlugin name raw = Inr refs" and "ref \<in> set refs"
  shows "ref_Use ref = [] \<and> ref_Name ref \<in> set targets
    \<and> (\<exists>d. lookupDefinition r' (ref_Name ref) = Some d \<and> list_all (Supports d) AllScopes)"
proof -
  have target: "ref_Name ref \<in> set targets" by (rule translation_targets [OF assms(3,2,4)])
  then have "ref_Name ref \<in> set (map md_Name builtins)" using targets_builtin [OF assms(2)] by blast
  then obtain md where md: "find (\<lambda>md. md_Name md = ref_Name ref) builtins = Some md"
    by (cases "find (\<lambda>md. md_Name md = ref_Name ref) builtins") (auto simp: find_None_iff)
  have "list_all (\<lambda>md. md_Scopes md = AllScopes) builtins" by code_simp
  moreover have "md \<in> set builtins" using md by (auto simp: find_Some_iff)
  ultimately have scopes: "md_Scopes md = AllScopes" by (auto simp: list_all_iff)
  have "lookupDefinition r' (ref_Name ref) = Some (factoryOf factories md)"
    using builtin_lookup [OF assms(1)] md by simp
  moreover have "list_all (Supports (factoryOf factories md)) AllScopes"
    by (simp add: Supports_def supportsScope_def factoryOf_def scopes list_all_iff)
  moreover have "ref_Use ref = []" using translateApisixPlugin_direct [OF assms(3)] assms(4) by (simp add: direct_refs_def)
  ultimately show ?thesis using target by blast
qed

definition unitFactories :: "string \<Rightarrow> unit Factory" where
  "unitFactories name params s = (s, Inr ())"

theorem translated_plugins_are_registered_witness:
  "\<exists>r'. BuiltinRegister unitFactories NewRegistry = Inr r'
     \<and> (\<exists>d. lookupDefinition r' ''request_id'' = Some d \<and> list_all (Supports d) AllScopes)"
proof -
  have "find (\<lambda>md. lookupDefinition (NewRegistry :: unit Registry) (md_Name md) \<noteq> None) builtins = None"
    by (simp add: find_None_iff lookupDefinition_def NewRegistry_def)
  then obtain r' where r': "BuiltinRegister unitFactories NewRegistry = Inr r'"
    using builtin_outcome [of NewRegistry unitFactories] by (auto split: sum.splits)
  have "translateApisixPlugin ''request-id'' (AMap []) = Inr [pluginRef ''request_id'' []]" by code_simp
  from translated_plugins_are_registered [OF r' translatedTo_values(3) this, of "pluginRef ''request_id'' []"] r'
  show ?thesis by (simp add: pluginRef_def)
qed

end
