(* ===== verification/Admin_Laws.thy ===== *)
theory Admin_Laws
  imports Admin_Api Bundle_Apply
begin

text \<open>
  What the admin API guarantees: no effect without the key, reads that change nothing, what a PUT does and that a GET
  returns what was written, and the pages of a list.
\<close>

section \<open>Responses\<close>

lemma written [simp]:
  "adm_Status (writeJSON status body c) = status" "adm_Body (writeJSON status body c) = Some body"
  "adm_Status (writeError status message c) = status" "adm_Body (writeError status message c) = Some (ErrorMsg message)"
  "adm_Status (writeMessage status message c) = status" "adm_Body (writeMessage status message c) = Some (Message message)"
  "adm_Status (writeControlError status code message c) = status"
  "adm_Body (writeControlError status code message c) = Some (ControlError code message)"
  by (simp_all add: writeJSON_def writeAPISIXBody_def writeError_def writeMessage_def writeControlError_def Let_def)

section \<open>Authorization\<close>

text \<open>
  C35. The key. Without the admin key that is configured, and always when none is configured, a request changes nothing and
  is answered by a refusal, by the answer to a preflight, or not at all.
\<close>

theorem admin_requires_key:
  assumes "adminKey = [] \<or> aq_Header rq ''X-API-KEY'' \<noteq> adminKey"
  shows "case ServeHTTP (Some (SetPluginCatalog catalog (NewWithService svc adminKey))) co recorder rq c s of (s', r) \<Rightarrow>
    s' = s
    \<and> (case r of
         NotServed \<Rightarrow> \<not> HasPrefix (aq_Path rq) routePrefix
       | Panicked \<Rightarrow> False
       | Served c' \<Rightarrow> adm_Status c' = (if aq_Method rq = ''OPTIONS'' then 204 else 401)
           \<and> (case adm_Body c' of Some body \<Rightarrow> adm_Body c = Some body \<or> body = ErrorMsg ''missing or invalid X-API-KEY''
                \<or> body = ControlError ''unauthorized'' ''missing or invalid X-API-KEY'' | None \<Rightarrow> True))"
proof -
  let ?h = "SetPluginCatalog catalog (NewWithService svc adminKey)"
  have "\<not> authorized ?h rq" using assms by (auto simp: authorized_def NewWithService_def SetPluginCatalog_def)
  then have "ServeHTTP (Some ?h) co recorder rq c s =
      (s, if aq_Method rq = ''OPTIONS'' \<and> (HasPrefix (aq_Path rq) routePrefix \<or> HasPrefix (aq_Path rq) controlPrefix)
          then Served ((setCORSHeaders c)\<lparr>adm_Status := 204\<rparr>)
          else if HasPrefix (aq_Path rq) controlPrefix
          then Served (writeControlError 401 ''unauthorized'' ''missing or invalid X-API-KEY'' c)
          else if \<not> HasPrefix (aq_Path rq) routePrefix then NotServed
          else Served (writeError 401 ''missing or invalid X-API-KEY'' c))"
    by (simp add: ServeHTTP_def Let_def)
  then show ?thesis by (simp add: setCORSHeaders_def split: option.split)
qed

definition sampleRequest :: "string \<Rightarrow> string \<Rightarrow> RawMessage \<Rightarrow> AdminRequest" where
  "sampleRequest meth path body =
     \<lparr>aq_Method = meth, aq_Path = path, aq_Header = (\<lambda>name. if name = ''X-API-KEY'' then ''secret'' else []), aq_Query = [], aq_Body = body\<rparr>"

definition freshResponse :: AdminResponse where
  "freshResponse = \<lparr>adm_Status = 200, adm_Header = [], adm_Body = None\<rparr>"

section \<open>Reads\<close>

context etcd_client
begin

lemma get_keeps: "kvs (fst (ec_Get client key s)) = kvs s" "kvs (fst (ec_GetPrefix client key s)) = kvs s"
  using etcd_get [of key s] etcd_get_prefix [of key s] by (metis prod.collapse)+

end

text \<open>The state that an operation leaves is that of the request it makes to etcd.\<close>

lemma read_states:
  "fst (etcdGet es kind i s) = fst (ec_Get (es_client es) (resourceKey (es_prefix es) kind i) s)"
  "fst (etcdList es kind s) = fst (ec_GetPrefix (es_client es) (kindRoot (es_prefix es) kind) s)"
  "fst (historyList st limit s) = fst (ec_GetPrefix (eh_client st) (eh_root st) s)"
  by (auto simp: etcdGet_def etcdList_def historyList_def Let_def split: prod.splits sum.splits list.splits option.splits)

lemma service_states:
  "fst (ServiceGet store kind i s) = (if kind \<in> set supportedKinds \<and> i \<noteq> [] then fst (st_Get store kind i s) else s)"
  "fst (ServiceList store kind s) = (if kind \<in> set supportedKinds then fst (st_List store kind s) else s)"
  "fst (ExportBundleWithOptions store stamp options s) = fst (exportKinds store (normalizeResourceKindSelection (eo_IncludeKinds options)) s)"
  by (auto simp: ServiceGet_def ServiceList_def ExportBundleWithOptions_def validateKind_def Let_def split: prod.splits sum.splits)

lemma handler_states:
  "fst (handleList h co rq c kind s) = fst (ServiceList (sv_store (ah_service h)) kind s)"
  "fst (handleGet h c kind i s) = fst (ServiceGet (sv_store (ah_service h)) kind i s)"
  "fst (handleHistoryList h rq c s) = fst (ListHistory (ah_service h) (positiveQuery rq ''limit'' 10) s)"
  by (auto simp: handleList_def handleGet_def handleHistoryList_def Let_def split: prod.splits sum.splits option.splits)

lemma handleExport_state:
  "fst (handleExport h co rq c s) = s \<or>
   (\<exists>options. fst (handleExport h co rq c s) = fst (ExportBundleWithOptions (sv_store (ah_service h)) (sv_stamp (ah_service h)) options s))"
proof (cases "parseKindNames (headersOrQueryList rq ''kind'')")
  case (Inr kinds)
  obtain s' r where "SvcExportBundle (ah_service h) \<lparr>eo_EtcdPrefix = [], eo_IncludeKinds = kinds, eo_IncludeMeta = True\<rparr> s = (s', r)"
    by force
  with Inr show ?thesis
    unfolding handleExport_def SvcExportBundle_def Let_def
    by (intro disjI2 exI [of _ "\<lparr>eo_EtcdPrefix = [], eo_IncludeKinds = kinds, eo_IncludeMeta = True\<rparr>"])
      (simp split: sum.split option.split)
qed (simp add: handleExport_def)

definition reading :: "AdminRequest \<Rightarrow> bool" where
  "reading rq \<longleftrightarrow> aq_Method rq \<notin> {''POST'', ''PUT'', ''PATCH'', ''DELETE''}"

lemma handleControl_reading:
  assumes "reading rq"
  shows "fst (handleControl h co recorder rq c path s) \<in> {s, fst (handleExport h co rq c s), fst (handleHistoryList h rq c s)}"
  using assms by (simp add: handleControl_def reading_def Let_def)

lemma handleResource_reading:
  assumes "reading rq"
  shows "fst (handleResource h co rq c kind i s) \<in> {s, fst (handleList h co rq c kind s), fst (handleGet h c kind i s)}"
  using assms by (simp add: handleResource_def reading_def Let_def)

lemma ServeHTTP_reading:
  assumes "reading rq"
  shows "\<exists>kind i. fst (ServeHTTP (Some h) co recorder rq c s) \<in>
    {s, fst (handleExport h co rq c s), fst (handleHistoryList h rq c s), fst (handleList h co rq c kind s), fst (handleGet h c kind i s)}"
proof (cases "HasPrefix (aq_Path rq) controlPrefix")
  case True
  with handleControl_reading [OF assms, of h co recorder c "aq_Path rq" s] show ?thesis
    by (simp add: ServeHTTP_def Let_def) blast
next
  case False
  show ?thesis
  proof (cases "parsePath (aq_Path rq)")
    case None
    with False show ?thesis by (simp add: ServeHTTP_def Let_def)
  next
    case (Some p)
    obtain res i kind ok where "p = (res, i)" "ParseKind res = (kind, ok)" by (cases p) force
    with Some False handleResource_reading [OF assms, of h co c kind i s] show ?thesis
      by (simp add: ServeHTTP_def Let_def split: bool.split) blast
  qed
qed

context etcd_client
begin

lemma export_keeps: "kvs (fst (exportKinds (etcdStore (NewEtcdStoreWithClient client prefix)) kinds s)) = kvs s"
proof (induction kinds arbitrary: s)
  case (Cons kind kinds)
  let ?store = "etcdStore (NewEtcdStoreWithClient client prefix)"
  obtain s1 r1 where l: "ServiceList ?store kind s = (s1, r1)" by force
  have "kvs s1 = kvs s"
    using l service_states(2) [of ?store kind s] get_keeps(2) [of _ s]
    by (simp add: etcdStore_def read_states NewEtcdStoreWithClient_def split: if_splits)
  with l Cons [of s1] show ?case by (auto simp: Let_def split: sum.split prod.split)
qed simp

lemma reading_keeps:
  assumes "NewAdmin (\<lambda>_. Inr client) now nano stamp boot = Inr (Some h)" "reading rq"
  shows "kvs (fst (ServeHTTP (Some (SetPluginCatalog catalog h)) co recorder rq c s)) = kvs s"
proof -
  let ?prefix = "eo_Prefix (bo_Etcd boot)" and ?h = "SetPluginCatalog catalog h"
  let ?store = "etcdStore (NewEtcdStoreWithClient client ?prefix)"
  have h: "sv_store (ah_service ?h) = ?store" "sv_history (ah_service ?h) = Some (etcdHistory nano (NewEtcdHistoryStoreWithClient client ?prefix))"
    using assms(1) by (auto simp: NewAdmin_def NewEtcdStore_def NewEtcdHistoryStore_def NewService_def WithHistory_def
        NewWithService_def SetPluginCatalog_def split: if_splits)
  have "kvs (fst (handleList ?h co rq c kind s)) = kvs s" for kind
    using get_keeps(2) [of _ s] by (simp add: handler_states service_states h etcdStore_def read_states NewEtcdStoreWithClient_def)
  moreover have "kvs (fst (handleGet ?h c kind i s)) = kvs s" for kind i
    using get_keeps(1) [of _ s] by (simp add: handler_states service_states h etcdStore_def read_states NewEtcdStoreWithClient_def)
  moreover have "kvs (fst (handleHistoryList ?h rq c s)) = kvs s"
    using get_keeps(2) [of _ s] by (simp add: handler_states ListHistory_def h etcdHistory_def read_states NewEtcdHistoryStoreWithClient_def)
  moreover have "kvs (fst (handleExport ?h co rq c s)) = kvs s"
    using handleExport_state [of ?h co rq c s] export_keeps [of ?prefix _ s] by (auto simp: h service_states)
  ultimately show ?thesis using ServeHTTP_reading [OF assms(2), of ?h co recorder c s] by auto
qed

end

text \<open>
  C36. Reads change nothing. A request with a method other than POST, PUT, PATCH and DELETE leaves etcd as it is, with its
  resources and its history.
\<close>

theorem admin_reads_change_nothing:
  assumes "etcd_client client kvs" and "NewAdmin (\<lambda>_. Inr client) now nano stamp boot = Inr (Some h)"
    and "aq_Method rq \<notin> {''POST'', ''PUT'', ''PATCH'', ''DELETE''}"
  shows "kvs (fst (ServeHTTP (Some (SetPluginCatalog catalog h)) co recorder rq c s)) = kvs s"
  using etcd_client.reading_keeps [OF assms(1,2)] assms(3) by (simp add: reading_def)

section \<open>Paths\<close>

lemma Trim_ends:
  assumes "s \<noteq> []" "hd s \<noteq> c" "last s \<noteq> c"
  shows "Trim s [c] = s"
proof -
  have "dropWhile (\<lambda>d. d \<in> set [c]) s = s" using assms by (cases s) auto
  moreover have "dropWhile (\<lambda>d. d \<in> set [c]) (rev s) = rev s" using assms by (cases s rule: rev_cases) auto
  ultimately show ?thesis by (simp add: Trim_def TrimFunc_def TrimRightFunc_def)
qed

lemma addressable_path:
  assumes "addressable kind i"
  shows "parsePath (routePrefix @ kind @ ''/'' @ i) = Some (kind, i)" "\<not> HasPrefix (routePrefix @ kind @ ''/'' @ i) controlPrefix"
proof -
  have kind: "kind \<in> set supportedKinds" and i: "i \<noteq> []" "CHR ''/'' \<notin> set i" using assms by (auto simp: addressable_def plainSegment_def)
  have ks: "list_all (\<lambda>k. k \<noteq> [] \<and> hd k \<noteq> CHR ''/'' \<and> hd k \<noteq> CHR ''c'' \<and> CHR ''/'' \<notin> set k) supportedKinds" by code_simp
  then have k: "kind \<noteq> []" "hd kind \<noteq> CHR ''/''" "hd kind \<noteq> CHR ''c''" "CHR ''/'' \<notin> set kind" using kind by (auto simp: list_all_iff)
  have "last i \<noteq> CHR ''/''" using i last_in_set by metis
  then have "Trim (kind @ ''/'' @ i) ''/'' = kind @ ''/'' @ i" using k i by (intro Trim_ends) auto
  moreover have "Split (kind @ ''/'' @ i) CHR ''/'' = [kind, i]" using k i by (simp add: Split_append Split_no_sep)
  ultimately show "parsePath (routePrefix @ kind @ ''/'' @ i) = Some (kind, i)" using k by (simp add: parsePath_def)
  have control: "controlPrefix = routePrefix @ ''control/''" by code_simp
  show "\<not> HasPrefix (routePrefix @ kind @ ''/'' @ i) controlPrefix"
    unfolding control HasPrefix_iff using k by (cases kind) auto
qed

lemma ServeHTTP_resource:
  assumes "addressable kind i" "authorized h rq" "aq_Path rq = routePrefix @ kind @ ''/'' @ i" "aq_Method rq \<noteq> ''OPTIONS''"
  shows "ServeHTTP (Some h) co recorder rq c s = handleResource h co rq c kind i s"
proof -
  have "ParseKind kind = (kind, True)" using assms(1) by (simp add: ParseKind_def addressable_def)
  then show ?thesis using assms addressable_path [OF assms(1)] by (simp add: ServeHTTP_def Let_def)
qed

section \<open>Writing and reading back\<close>

text \<open>The answers to a PUT: the resource is stored, new or not; it is refused because with it a reference dangles or something
  required is missing, or etcd failed, before the write or after it.\<close>

definition put_answer ::
    "ResourceKind \<Rightarrow> string \<Rightarrow> (string \<Rightarrow> any option) \<Rightarrow> any option \<Rightarrow> resources \<Rightarrow> AdminResponse \<Rightarrow> resources \<Rightarrow> bool" where
  "put_answer kind i m doc res c res' \<longleftrightarrow>
     (case adm_Body c of
       Some (EnvelopeBody env) \<Rightarrow> adm_Status c = (if res kind i = None then 201 else 200)
         \<and> (\<exists>t v. env_Value env = Some v \<and> wrote t kind i m res v res')
     | Some (RejectedBody msg result) \<Rightarrow> adm_Status c = 422 \<and> res' = res \<and> vr_Issues result \<noteq> []
         \<and> (\<exists>sn. bodiesOf (update_resource kind i doc res) sn \<and> \<not> snapshotOK sn)
     | Some (ErrorMsg msg) \<Rightarrow> adm_Status c = 502 \<and> (res' = res \<or> (\<exists>t v. wrote t kind i m res v res'))
     | _ \<Rightarrow> False)"

text \<open>The checks that a resource passed that is stored, unless they could not be done.\<close>

definition checked :: "ResourceKind \<Rightarrow> string \<Rightarrow> any option \<Rightarrow> resources \<Rightarrow> cp_error + ValidationResult \<Rightarrow> bool" where
  "checked kind i doc res r \<longleftrightarrow>
     (case r of
       Inr result \<Rightarrow> \<exists>sn. bodiesOf (update_resource kind i doc res) sn \<and> (vr_Valid result \<longleftrightarrow> snapshotOK sn) \<and> (vr_Issues result = [] \<longleftrightarrow> snapshotOK sn)
     | Inl e \<Rightarrow> (\<exists>msg. e = StoreFailed msg) \<or> undecodable res \<or> (\<forall>d. doc = Some d \<longrightarrow> \<not> decodable kind d))"

context resource_store
begin

lemma Get_outcome:
  assumes "inv s" "addressable kind i" "ServiceGet store kind i s = (s', r)"
  shows "inv s' \<and> view s' = view s
    \<and> (case r of Inl e \<Rightarrow> e = ErrNotFound \<and> view s kind i = None \<or> (\<exists>msg. e = StoreFailed msg)
       | Inr env \<Rightarrow> view s kind i \<noteq> None \<and> env_Value env = view s kind i)"
  using get_law [OF assms(1,2)] assms(2,3) by (auto simp: ServiceGet_def validateKind_def addressable_def plainSegment_def)

lemma Validate_checked:
  assumes "inv s" "addressable kind i" "decodeJSONObject body = Inr m" "ValidateResource store kind i body s = (s', r)"
  shows "inv s' \<and> view s' = view s \<and> checked kind i (normalDoc i body) (view s) r"
proof -
  obtain doc where doc: "normalDoc i body = Some doc" using assms(3) by (auto simp: normalDoc_def NormalizeResourceBody_def)
  have "kind \<in> set supportedKinds" "i \<noteq> []" using assms(2) by (auto simp: addressable_def plainSegment_def)
  from ValidateResource_outcome [OF assms(1) this doc assms(4)] show ?thesis
    by (auto simp: checked_def doc split: sum.splits)
qed

lemma handlePut_outcome:
  assumes "sv_store (ah_service h) = store" "inv s" "addressable kind i" "decodeJSONObject (aq_Body rq) = Inr m" "storable m"
    and "handlePut h rq c kind i s = (s', r)"
  shows "inv s' \<and> (\<exists>c'. r = Served c' \<and> put_answer kind i (map_of m) (normalDoc i (aq_Body rq)) (view s) c' (view s'))"
proof -
  have i: "i \<noteq> []" using assms(3) by (simp add: addressable_def plainSegment_def)
  obtain s1 r1 where val: "ValidateResource store kind i (aq_Body rq) s = (s1, r1)" by force
  note v = Validate_checked [OF assms(2-4) val]
  obtain s2 r2 where get: "ServiceGet store kind i s1 = (s2, r2)" by force
  from v have "inv s1" by simp
  note g = Get_outcome [OF this assms(3) get]
  obtain s3 r3 where put: "ServicePut store (sv_now (ah_service h)) kind i (aq_Body rq) s2 = (s3, r3)" by force
  from g have "inv s2" by simp
  note w = Put_outcome [OF this assms(3-5) put]
  show ?thesis
  proof (cases "\<exists>result. r1 = Inr result \<and> \<not> vr_Valid result")
    case True
    then obtain result where bad: "r1 = Inr result" "\<not> vr_Valid result" by blast
    have s': "s' = s1" "\<exists>msg. r = Served (writeJSON 422 (RejectedBody msg result) c)"
      using assms(1,6) i val bad by (auto simp: handlePut_def validateBeforeWrite_def Let_def)
    have "vr_Issues result \<noteq> [] \<and> (\<exists>sn. bodiesOf (update_resource kind i (normalDoc i (aq_Body rq)) (view s)) sn \<and> \<not> snapshotOK sn)"
      using v bad by (auto simp: checked_def)
    with s' v show ?thesis by (auto simp: put_answer_def)
  next
    case False
    then have run: "handlePut h rq c kind i s =
        (case r2 of
          Inl err \<Rightarrow> if err = ErrNotFound then (case r3 of Inl err \<Rightarrow> (s3, Served (writeMappedError err c)) | Inr item \<Rightarrow> (s3, Served (writeJSON 201 (EnvelopeBody item) c)))
            else (s2, Served (writeMappedError err c))
        | Inr _ \<Rightarrow> (case r3 of Inl err \<Rightarrow> (s3, Served (writeMappedError err c)) | Inr item \<Rightarrow> (s3, Served (writeJSON 200 (EnvelopeBody item) c))))"
      using assms(1) i val get put by (auto simp: handlePut_def validateBeforeWrite_def Let_def split: sum.splits)
    show ?thesis
    proof (cases "\<exists>msg. r2 = Inl (StoreFailed msg)")
      case True
      with run assms(6) g v show ?thesis by (auto simp: put_answer_def)
    next
      case ok: False
      have status: "r2 = Inl ErrNotFound \<and> view s kind i = None \<or> (\<exists>env. r2 = Inr env) \<and> view s kind i \<noteq> None"
        using g v ok by (auto split: sum.splits)
      have same: "view s2 = view s" using g v by simp
      show ?thesis
      proof (cases r3)
        case (Inl err)
        with w same obtain msg where "err = StoreFailed msg" "view s3 = view s \<or> (\<exists>t v. wrote t kind i (map_of m) (view s) v (view s3))"
          by (auto simp: write_result_def)
        moreover have "s' = s3" "r = Served (writeMappedError err c)" using run assms(6) status Inl by auto
        ultimately show ?thesis using w by (auto simp: put_answer_def)
      next
        case (Inr item)
        then have "\<exists>t v. env_Value item = Some v \<and> wrote t kind i (map_of m) (view s) v (view s3)"
          using w same by (auto simp: write_result_def)
        moreover have "s' = s3" "r = Served (writeJSON (if view s kind i = None then 201 else 200) (EnvelopeBody item) c)"
          using run assms(6) status Inr by auto
        ultimately show ?thesis using w by (auto simp: put_answer_def)
      qed
    qed
  qed
qed

end

context resource_store
begin

lemma handleGet_outcome:
  assumes "sv_store (ah_service h) = store" "inv s" "addressable kind i" "handleGet h c kind i s = (s', r)"
  shows "\<exists>c'. r = Served c' \<and> (adm_Status c' = 502 \<or>
    (case view s kind i of
       None \<Rightarrow> adm_Status c' = 404
     | Some v \<Rightarrow> adm_Status c' = 200 \<and> (\<exists>env. adm_Body c' = Some (EnvelopeBody env) \<and> env_Value env = Some v)))"
proof -
  obtain s1 r1 where get: "ServiceGet store kind i s = (s1, r1)" by force
  from Get_outcome [OF assms(2,3) get] assms(1,4) get show ?thesis
    by (cases r1) (auto simp: handleGet_def)
qed

end

lemma NewAdmin_handler:
  assumes "NewAdmin (\<lambda>_. Inr client) now nano stamp boot = Inr (Some h)"
  shows "sv_store (ah_service h) = etcdStore (NewEtcdStoreWithClient client (eo_Prefix (bo_Etcd boot)))" "ah_adminKey h = ad_Key (bo_Admin boot)"
  using assms by (auto simp: NewAdmin_def NewEtcdStore_def NewEtcdHistoryStore_def NewService_def WithHistory_def NewWithService_def split: if_splits)

text \<open>
  C37. PUT and GET. For an etcd with well-formed contents, a supported kind, an identifier that is a plain path segment, and a body that is a
  JSON object without a member \<^verbatim>\<open>value\<close>: a PUT with the configured key stores the resource and answers 201 if there was none and
  200 if there was one; or it answers 422 and changes nothing, because with the new document the stored resources would not pass
  the validation (a required member is missing, or a named service or upstream is not stored); or it answers 502 for an error of the store,
  with the resource written in full or not at all. In each of these cases a GET of the same path afterwards answers 502 for an error of the
  store, or else what is stored: 404 if there is nothing, and 200 with the stored value if there is one. After a
  successful PUT that is the value which the PUT returned, after a 422 what was there before.
\<close>

theorem admin_put_get:
  assumes "etcd_store client kvs (eo_Prefix (bo_Etcd boot))" and "NewAdmin (\<lambda>_. Inr client) now nano stamp boot = Inr (Some h)"
    and "etcdInv (normalizePrefix (eo_Prefix (bo_Etcd boot))) (kvs s)" and "addressable kind i"
    and "decodeJSONObject (aq_Body rq) = Inr m" and "storable m"
    and "ad_Key (bo_Admin boot) \<noteq> []" and "aq_Header rq ''X-API-KEY'' = ad_Key (bo_Admin boot)"
    and "aq_Path rq = routePrefix @ kind @ ''/'' @ i" and "aq_Method rq = ''PUT''"
    and "ServeHTTP (Some h) co recorder rq c s = (s1, r1)"
    and "ServeHTTP (Some h) co recorder (rq\<lparr>aq_Method := ''GET''\<rparr>) c s1 = (s2, r2)"
  shows "\<exists>c1 c2. r1 = Served c1 \<and> r2 = Served c2
    \<and> put_answer kind i (map_of m) (normalDoc i (aq_Body rq)) (etcdView (normalizePrefix (eo_Prefix (bo_Etcd boot))) (kvs s)) c1
        (etcdView (normalizePrefix (eo_Prefix (bo_Etcd boot))) (kvs s1))
    \<and> (adm_Status c2 = 502
        \<or> (case etcdView (normalizePrefix (eo_Prefix (bo_Etcd boot))) (kvs s1) kind i of
             None \<Rightarrow> adm_Status c2 = 404
           | Some v \<Rightarrow> adm_Status c2 = 200 \<and> (\<exists>env. adm_Body c2 = Some (EnvelopeBody env) \<and> env_Value env = Some v)))
    \<and> (case adm_Body c1 of
         Some (EnvelopeBody env) \<Rightarrow> adm_Status c2 = 502
           \<or> adm_Status c2 = 200 \<and> (\<exists>env'. adm_Body c2 = Some (EnvelopeBody env') \<and> env_Value env' = env_Value env)
       | _ \<Rightarrow> True)"
proof -
  note store = etcd_store.is_store [OF assms(1)] and h = NewAdmin_handler [OF assms(2)]
  have auth: "authorized h rq" "authorized h (rq\<lparr>aq_Method := ''GET''\<rparr>)" using assms(7,8) by (simp_all add: authorized_def h(2))
  have "handlePut h rq c kind i s = (s1, r1)"
    using assms(11) ServeHTTP_resource [OF assms(4) auth(1) assms(9)] assms(10) by (simp add: handleResource_def)
  from resource_store.handlePut_outcome [OF store h(1) assms(3-6) this]
  obtain c1 where c1: "r1 = Served c1" "etcdInv (normalizePrefix (eo_Prefix (bo_Etcd boot))) (kvs s1)"
    "put_answer kind i (map_of m) (normalDoc i (aq_Body rq)) (etcdView (normalizePrefix (eo_Prefix (bo_Etcd boot))) (kvs s)) c1
        (etcdView (normalizePrefix (eo_Prefix (bo_Etcd boot))) (kvs s1))" by blast
  have "handleGet h c kind i s1 = (s2, r2)"
    using assms(12) ServeHTTP_resource [OF assms(4) auth(2)] assms(4,9)
    by (simp add: handleResource_def addressable_def plainSegment_def)
  from resource_store.handleGet_outcome [OF store h(1) c1(2) assms(4) this]
  obtain c2 where c2: "r2 = Served c2" "adm_Status c2 = 502 \<or>
    (case etcdView (normalizePrefix (eo_Prefix (bo_Etcd boot))) (kvs s1) kind i of
       None \<Rightarrow> adm_Status c2 = 404
     | Some v \<Rightarrow> adm_Status c2 = 200 \<and> (\<exists>env. adm_Body c2 = Some (EnvelopeBody env) \<and> env_Value env = Some v))" by blast
  moreover have "case adm_Body c1 of
         Some (EnvelopeBody env) \<Rightarrow> adm_Status c2 = 502
           \<or> adm_Status c2 = 200 \<and> (\<exists>env'. adm_Body c2 = Some (EnvelopeBody env') \<and> env_Value env' = env_Value env)
       | _ \<Rightarrow> True"
    using c1(3) c2(2) by (auto simp: put_answer_def wrote_def update_resource_def split: option.splits payload.splits)
  ultimately show ?thesis using c1 by blast
qed

section \<open>Pages\<close>

text \<open>What the query may ask for.\<close>

lemma Atoi_range: "Atoi s = Some n \<Longrightarrow> n < 2 ^ 63"
  by (auto simp: Atoi_def Let_def split: option.splits if_splits)

lemma positiveQuery_range: "1 \<le> dflt \<Longrightarrow> dflt < 2 ^ 63 \<Longrightarrow> 1 \<le> positiveQuery rq key dflt \<and> positiveQuery rq key dflt < 2 ^ 63"
  using Atoi_range [of "TrimSpace (queryValue rq key)"] by (auto simp: positiveQuery_def Let_def split: option.splits)

lemma listQuery_range:
  "1 \<le> lq_Page (parseListQuery rq) \<and> lq_Page (parseListQuery rq) < 2 ^ 63 \<and> 1 \<le> lq_PageSize (parseListQuery rq) \<and> lq_PageSize (parseListQuery rq) \<le> 200"
  using positiveQuery_range [of 1 rq "''page''"] positiveQuery_range [of 50 rq "''page_size''"] by (simp add: parseListQuery_def)

lemma paginate_page:
  assumes "1 \<le> page" "1 \<le> n" "n \<le> 200" "(page - 1) * n < 2 ^ 63" "int (length items) < 2 ^ 62"
  shows "paginateEnvelopes items page n = Some (take (nat n) (drop (nat ((page - 1) * n)) items))"
proof -
  have le: "page - 1 \<le> (page - 1) * n" using assms(1,2) by (simp add: mult_le_cancel_left1)
  have pos: "0 \<le> (page - 1) * n" using assms(1,2) by simp
  have "wrap64 (page - 1) = page - 1" "wrap64 ((page - 1) * n) = (page - 1) * n"
    using le assms(1,2,4) by (auto intro!: wrap64_id)
  moreover have "wrap64 (start + n) = start + n" if "0 \<le> start" "start < int (length items)" for start
    using that assms(2,3,5) by (intro wrap64_id) auto
  note this [OF pos]
  ultimately show ?thesis using assms(1,2) le
    by (auto simp: paginateEnvelopes_def Let_def min_def nat_diff_distrib nat_add_distrib)
qed

lemma concat_pages: "concat (map (\<lambda>p. take n (drop (p * n) items)) [0..<k]) = take (k * n) items"
proof (induction k)
  case (Suc k)
  have "take (k * n) items @ take n (drop (k * n) items) = take (k * n + n) items" by (simp add: take_add)
  with Suc show ?case by (simp add: add.commute)
qed simp

text \<open>
  C38. Pages. For every size that the query allows, and as long as the position of a page is a number of 64 bits, no page
  panics, a page has at most as many items as the size, and the pages one after the other are the list.
\<close>

theorem pages_are_the_list:
  assumes "1 \<le> n" "n \<le> 200" "int (length items) < 2 ^ 62" "int k * n < 2 ^ 63"
  shows "list_all (\<lambda>p. case paginateEnvelopes items (int p + 1) n of Some page \<Rightarrow> length page \<le> nat n | None \<Rightarrow> False) [0..<k]
    \<and> concat (map (\<lambda>p. the (paginateEnvelopes items (int p + 1) n)) [0..<k]) = take (k * nat n) items"
proof -
  have page: "paginateEnvelopes items (int p + 1) n = Some (take (nat n) (drop (p * nat n) items))" if "p < k" for p
  proof -
    have "int p * n < 2 ^ 63" using that assms(1,4) by (smt (verit) mult_right_mono of_nat_less_iff)
    then show ?thesis using paginate_page [of "int p + 1" n items] assms(1-3) by (simp add: nat_mult_distrib)
  qed
  then have eq: "map (\<lambda>p. the (paginateEnvelopes items (int p + 1) n)) [0..<k] = map (\<lambda>p. take (nat n) (drop (p * nat n) items)) [0..<k]"
    by simp
  show ?thesis unfolding eq concat_pages using page by (simp add: list_all_iff)
qed

theorem pages_are_the_list_witness:
  "concat (map (\<lambda>p. the (paginateEnvelopes ''abcde'' (int p + 1) 2)) [0..<3]) = ''abcde''"
  using pages_are_the_list [of 2 "''abcde''" 3] by simp

section \<open>The admin API of a gateway with a route\<close>

definition sampleBoot :: BootOptions where
  "sampleBoot =
     \<lparr>bo_Gateway = \<lparr>go_Listen = '':80'', go_Source = ''etcd_apisix''\<rparr>, bo_Admin = \<lparr>ad_Key = ''secret''\<rparr>,
      bo_Etcd = \<lparr>eo_Prefix = productionPrefix, eo_Username = [], eo_Password = [], eo_Endpoints = [''e:2379''], eo_DialTimeout = 5\<rparr>,
      bo_File = \<lparr>fo_Path = []\<rparr>\<rparr>"

definition sampleHandler :: "memory AdminHandler" where
  "sampleHandler =
     NewWithService
       (NewService me_clock me_clock (\<lambda>_. []) (etcdStore (NewEtcdStoreWithClient memClient productionPrefix))
         [WithHistory (etcdHistory me_clock (NewEtcdHistoryStoreWithClient memClient productionPrefix)) 10
            \<lparr>eo_EtcdPrefix = productionPrefix, eo_IncludeKinds = [], eo_IncludeMeta = False\<rparr>]) ''secret''"

lemma sampleHandler_new: "NewAdmin (\<lambda>_. Inr memClient) me_clock me_clock (\<lambda>_. []) sampleBoot = Inr (Some sampleHandler)"
  by (simp add: NewAdmin_def sampleBoot_def sampleHandler_def NewEtcdStore_def NewEtcdHistoryStore_def)

definition plainCodec :: Codec where
  "plainCodec = \<lparr>co_RawText = (\<lambda>_. []), co_FromYAML = (\<lambda>_. None), co_ToYAML = (\<lambda>_. [])\<rparr>"

definition routePath :: string where
  "routePath = routePrefix @ KindRoute @ ''/'' @ sampleRoute"

definition serveSample :: "AdminRequest \<Rightarrow> memory \<Rightarrow> memory \<times> served" where
  "serveSample rq = ServeHTTP (Some sampleHandler) plainCodec NewMemoryRecorder rq freshResponse"

theorem admin_requires_key_witness:
  "(case ServeHTTP (Some (SetPluginCatalog [] (NewWithService (ah_service sampleHandler) ''other''))) plainCodec NewMemoryRecorder
          (sampleRequest ''DELETE'' routePath None) freshResponse emptyMemory of
      (s', Served c') \<Rightarrow> s' = emptyMemory \<and> adm_Status c' = 401
    | _ \<Rightarrow> False)"
proof -
  let ?rq = "sampleRequest ''DELETE'' routePath None"
  let ?r = "ServeHTTP (Some (SetPluginCatalog [] (NewWithService (ah_service sampleHandler) ''other''))) plainCodec NewMemoryRecorder
          ?rq freshResponse emptyMemory"
  have "(\<lambda>r. case snd r of Served c' \<Rightarrow> True | _ \<Rightarrow> False) ?r" by code_simp
  moreover have "aq_Header ?rq ''X-API-KEY'' \<noteq> ''other''" "aq_Method ?rq \<noteq> ''OPTIONS''" by (simp_all add: sampleRequest_def)
  ultimately show ?thesis
    using admin_requires_key [where adminKey = "''other''" and rq = ?rq and catalog = "[]" and svc = "ah_service sampleHandler"
        and co = plainCodec and recorder = NewMemoryRecorder and c = freshResponse and s = emptyMemory]
    by (cases ?r) (auto split: served.splits)
qed

theorem admin_reads_change_nothing_witness:
  "memKvs (fst (ServeHTTP (Some (SetPluginCatalog [] sampleHandler)) plainCodec NewMemoryRecorder
      (sampleRequest ''GET'' routePath None) freshResponse stockedMemory)) = memKvs stockedMemory"
proof -
  have "etcd_client memClient memKvs" by (rule mem.etcd_client_axioms)
  moreover have "aq_Method (sampleRequest ''GET'' routePath None) \<notin> {''POST'', ''PUT'', ''PATCH'', ''DELETE''}"
    by (simp add: sampleRequest_def)
  ultimately show ?thesis by (rule admin_reads_change_nothing [OF _ sampleHandler_new])
qed

theorem admin_put_get_witness:
  "\<exists>c1 c2. snd (serveSample (sampleRequest ''PUT'' routePath (Some (AMap routeBody))) stockedMemory) = Served c1
     \<and> adm_Status c1 = 201 \<and> adm_Status c2 = 200
     \<and> snd (serveSample (sampleRequest ''GET'' routePath (Some (AMap routeBody)))
          (fst (serveSample (sampleRequest ''PUT'' routePath (Some (AMap routeBody))) stockedMemory))) = Served c2
     \<and> (\<exists>env env'. adm_Body c1 = Some (EnvelopeBody env) \<and> adm_Body c2 = Some (EnvelopeBody env') \<and> env_Value env' = env_Value env)"
proof -
  let ?rq = "sampleRequest ''PUT'' routePath (Some (AMap routeBody))"
  obtain s1 r1 where run: "serveSample ?rq stockedMemory = (s1, r1)" by force
  obtain s2 r2 where run2: "serveSample (?rq\<lparr>aq_Method := ''GET''\<rparr>) s1 = (s2, r2)" by force
  have "(\<lambda>r. case snd r of Served c' \<Rightarrow> adm_Status c' = 201 \<and> (case adm_Body c' of Some (EnvelopeBody env) \<Rightarrow> True | _ \<Rightarrow> False) | _ \<Rightarrow> False)
      (serveSample ?rq stockedMemory)" by code_simp
  then obtain c1 env where c1: "r1 = Served c1" "adm_Status c1 = 201" "adm_Body c1 = Some (EnvelopeBody env)"
    by (auto simp: run split: served.splits option.splits payload.splits)
  have "(\<lambda>r. case snd r of Served c' \<Rightarrow> adm_Status c' = 200 | _ \<Rightarrow> False)
      (serveSample (?rq\<lparr>aq_Method := ''GET''\<rparr>) (fst (serveSample ?rq stockedMemory)))" by code_simp
  then obtain c2 where c2: "r2 = Served c2" "adm_Status c2 = 200" by (auto simp: run run2 split: served.splits)
  have fields: "aq_Body ?rq = Some (AMap routeBody)" "aq_Header ?rq ''X-API-KEY'' = ''secret''"
    "aq_Path ?rq = routePrefix @ KindRoute @ ''/'' @ sampleRoute" "aq_Method ?rq = ''PUT''" by (simp_all add: sampleRequest_def routePath_def)
  have boot: "eo_Prefix (bo_Etcd sampleBoot) = productionPrefix" "ad_Key (bo_Admin sampleBoot) = ''secret''" by (simp_all add: sampleBoot_def)
  have "\<exists>env'. adm_Body c2 = Some (EnvelopeBody env') \<and> env_Value env' = env_Value env"
    using admin_put_get [where boot = sampleBoot and rq = ?rq and kind = KindRoute and i = sampleRoute and m = routeBody, unfolded boot fields,
        OF etcd_store_production sampleHandler_new stocked_inv sample_facts(1) route_facts _ refl refl refl
          run [unfolded serveSample_def] run2 [unfolded serveSample_def]] c1 c2
    by auto
  moreover have "?rq\<lparr>aq_Method := ''GET''\<rparr> = sampleRequest ''GET'' routePath (Some (AMap routeBody))" by (simp add: sampleRequest_def)
  ultimately show ?thesis using run run2 c1 c2 by auto
qed

text \<open>
  A page that panics. The position of a page is computed with wrap-around: asking for page \<open>2\<^sup>6\<^sup>2 + 1\<close> of two items of a list
  that is not empty makes it negative, and the handler panics.
\<close>

theorem list_page_panics:
  "case serveSample ((sampleRequest ''GET'' (routePrefix @ KindService) None)
       \<lparr>aq_Query := [(''page'', ''4611686018427387905''), (''page_size'', ''2'')]\<rparr>) stockedMemory of
     (s, Panicked) \<Rightarrow> True
   | _ \<Rightarrow> False"
  by code_simp

text \<open>
  PATCH does not check references. A service whose upstream is replaced by a missing one is refused by PUT and stored by
  PATCH; from then on a PUT of any other resource, here of an upstream that nothing refers to, is refused.
\<close>

definition danglingBody :: RawMessage where
  "danglingBody = Some (AMap [(''upstream_id'', AString ''missing'')])"

definition upstreamBody :: RawMessage where
  "upstreamBody = Some (AMap [(''nodes'', AMap [(''10.0.0.2:80'', AFloat 1)])])"

definition servicePath :: string where
  "servicePath = routePrefix @ KindService @ ''/s1''"

definition statusOf :: "memory \<times> served \<Rightarrow> int" where
  "statusOf r = (case snd r of Served c \<Rightarrow> adm_Status c | _ \<Rightarrow> 0)"

lemma patch_skips_validation:
  "statusOf (serveSample (sampleRequest ''PUT'' servicePath danglingBody) stockedMemory) = 422"
  "statusOf (serveSample (sampleRequest ''PATCH'' servicePath danglingBody) stockedMemory) = 200"
  "statusOf (serveSample (sampleRequest ''PUT'' (routePrefix @ KindUpstream @ ''/u2'') upstreamBody)
     (fst (serveSample (sampleRequest ''PATCH'' servicePath danglingBody) stockedMemory))) = 422"
  "statusOf (serveSample (sampleRequest ''PUT'' (routePrefix @ KindUpstream @ ''/u2'') upstreamBody) stockedMemory) = 201"
  by code_simp+

end
