(* ===== verification/Spec2Isabelle.thy ===== *)
theory Spec2Isabelle
  imports Lumen Server Bundle_File Schema_Laws Admin_Laws
begin

text \<open>
  A verification library for lumen-gateway, an HTTP gateway written in Go. A control plane keeps routes, services,
  upstreams and plugin configurations of the APISIX format in etcd; a gateway loads and watches them, translates them to its own
  configuration, compiles that to a snapshot and serves requests with it. File names below are those under \<^verbatim>\<open>src/\<close>, most of
  them under \<^verbatim>\<open>src/internal/\<close>.

  \<^bold>\<open>The parts of the program and the theories that model them\<close>

  Shared.
  \<^item> \<open>Go_Prelude\<close>: strings, 64-bit integers (\<open>wrap64\<close>), maps as association lists, stable sorting by a comparison
    function, interface values (\<^typ>\<open>any\<close>), step relations. \<open>Json\<close>: decoded JSON documents, number texts, deep equality.
  \<^item> \<open>Http_World\<close>: what a handler sees and changes (request, response, plugin context, balancers, recorder, clock).

  The request path.
  \<^item> \<open>Config\<close> (\<^verbatim>\<open>config/options.go\<close>): the options, their validation and loading. \<open>Logging\<close> (\<^verbatim>\<open>logging/logging.go\<close>).
  \<^item> \<open>Router\<close> (\<^verbatim>\<open>router/router.go\<close>): compiled paths, the scan over all routes, and the sorted table for requests without a host.
  \<^item> \<open>Balancer\<close> (\<^verbatim>\<open>balancer/roundrobin/roundrobin.go\<close>): the round-robin counter at its width, with the panic of a negative index.
  \<^item> \<open>Plugin_Context\<close>, \<open>Request_Access\<close> (\<^verbatim>\<open>plugin/context.go\<close>, \<^verbatim>\<open>runtimectx/keys.go\<close>): the context of a request and the
    accessors of plugins. \<open>Plugin_Registry\<close> (\<^verbatim>\<open>plugin/plugin.go\<close>): definitions, instances, closers, and the chain of handlers.
  \<^item> \<open>Templates\<close> (\<^verbatim>\<open>plugin/builtin/vars.go\<close>), \<open>Builtin\<close> (\<^verbatim>\<open>builtin.go\<close>, \<^verbatim>\<open>request_id.go\<close>), \<open>Limit_Count\<close> (\<^verbatim>\<open>limit_count.go\<close>),
    \<open>Access_Log\<close> (\<^verbatim>\<open>access_log.go\<close>), \<open>Builtin_Register\<close>: the nine plugins and their registration.
  \<^item> \<open>Proxy\<close> (\<^verbatim>\<open>proxy/proxy.go\<close>): one exchange with an upstream, its headers, errors, timings and metrics.
  \<^item> \<open>Observability\<close> (\<^verbatim>\<open>observability/observability.go\<close>): the recorder, its Prometheus text and its summary.
  \<^item> \<open>Gateway\<close> (\<^verbatim>\<open>gateway/compiler.go\<close>, \<^verbatim>\<open>gateway/gateway.go\<close>): compilation and \<open>ServeHTTP\<close>. \<open>Snapshot\<close> (the same file):
    acquiring, releasing and closing a snapshot, each atomic access one step, for any number of requests and closers.
    \<open>Lifecycle\<close>: the first snapshot, reloads and the shutdown; \<open>Server\<close>: the HTTP client, the health probe, the routes of the server,
    \<^verbatim>\<open>app/app.go\<close> and the closing of clients.

  The control plane.
  \<^item> \<open>Apisix\<close> (\<^verbatim>\<open>apisix/\<close>) and \<open>Translate\<close> (\<^verbatim>\<open>translate/apisix_to_config.go\<close>): the resources and their translation.
  \<^item> \<open>Etcd_Keys\<close>, \<open>Controlplane\<close> (\<^verbatim>\<open>controlplane/etcdstore.go\<close>, \<^verbatim>\<open>controlplane.go\<close>): keys, the store on etcd and the service on any
    store; \<open>Resource_Store\<close> and \<open>Control_Service\<close> are their interfaces and laws.
  \<^item> \<open>Bundle\<close>, \<open>Preview\<close>, \<open>Resource_Summary\<close>, \<open>History\<close> (\<^verbatim>\<open>filebundle.go\<close>, \<^verbatim>\<open>preview.go\<close>, \<^verbatim>\<open>resource_summary.go\<close>,
    \<^verbatim>\<open>history.go\<close>, \<^verbatim>\<open>historystore.go\<close>), with their laws in \<open>Bundle_Apply\<close>, \<open>Bundle_Plan\<close>, \<open>Bundle_File\<close> and \<open>History_Laws\<close>.
  \<^item> \<open>Bootstrap\<close> (\<^verbatim>\<open>bootstrap/bootstrap.go\<close>), \<open>Provider\<close> (\<^verbatim>\<open>provider/provider.go\<close>): the sources of configurations, the snapshot of etcd and
    the watch loop. \<open>Validation\<close> (\<^verbatim>\<open>controlplane/validate.go\<close>).
  \<^item> \<open>Admin_Api\<close>, \<open>Admin_Schema\<close> (\<^verbatim>\<open>adminapi/\<close>), with their laws in \<open>Admin_Laws\<close> and \<open>Schema_Laws\<close>.
  \<^item> \<open>Lumen\<close> (\<^verbatim>\<open>lumen.go\<close>): the command, its start and its subcommands.

  \<^bold>\<open>How code becomes definitions\<close>

  A struct is a record, an enumeration a datatype, a Go map an association list whose order is that of one iteration over
  it. A function that may fail returns a sum with the error on the left, with a constructor for each error that the code
  distinguishes; a panic is a value. A Go \<^verbatim>\<open>int\<close> is an integer, wrapped to 64 bits where the code computes with it and can leave the
  range; \<^verbatim>\<open>float64\<close> is a rational, so that JSON numbers and the sums of the recorder are exact; strings in JSON are valid
  UTF-8. Effects are state passing: the state of etcd and of files is a type variable that the
  operations thread through, handlers transform the world of \<open>Http_World\<close>. A loop that waits for events is a recursion over the
  list of events it receives, so that a theorem over all lists is a theorem over all runs.

  \<^bold>\<open>Parameters\<close>

  Code outside the repository is an argument of the definitions: regular expressions, the YAML and JSON codecs, reading files, the
  client of etcd, clocks, random bytes, the HTTP exchange, the running of a chain by the HTTP framework and the formats of
  \<^verbatim>\<open>fmt\<close> for floats. What is relied upon is stated where it is used: that etcd returns what was put (\<open>etcd_client\<close>), that header
  fields are read as they were set (\<open>header_fields\<close>), that the framework's store of values is one (\<open>key_value_store\<close>),
  that YAML reads a printed document as the same JSON document, up to the order of members and the type of whole numbers
  (\<open>yamlReads\<close>). Each of these is met by a concrete function, with which the witnesses are
  computed.

  \<^bold>\<open>Interfaces\<close>

  \<^item> \<open>comparator\<close> (an order given by a comparison function), interpreted for the table of the router, the order of plugins and the
    summary of the metrics; \<open>transition_system\<close> and \<open>terminating_system\<close>, interpreted for the life of a snapshot.
  \<^item> \<open>balancer_contract\<close>, kept by the round-robin balancer.
  \<^item> \<open>resource_store\<close>: what the service needs of a store. \<open>etcd_client\<close> and \<open>etcd_store\<close> (a client with a proper prefix) give it for
    the store of the code; \<open>etcd_with_history\<close> extends it by a history that shares the etcd. The laws of the service, of
    bundles, of the history and of the gateway's loading rest on it.

  \<^bold>\<open>What is shown\<close>

  \<^item> Routing: the configuration is accepted exactly when it is well formed; the router returns a route of highest rank, and the
    table gives the answer of the scan; the balancer picks the next available endpoint; the handlers run in the order of
    scopes and priorities; the proxy forwards what it should; a request is served by the best route and is counted once.
  \<^item> Lifecycle: no request that holds a snapshot sees it closed as long as closing is not raced in one known way, which is
    exhibited; every run of requests and closers ends with the snapshot closed; reloads keep the last good configuration and close each
    replaced one once.
  \<^item> Control plane: what Put and Patch write, applying and planning bundles, history and rollback, migration by a file, validation and
    what it promises for a later load, pagination, the key that guards the admin API.
  \<^item> Together: a route that was published through the control plane is loaded by the watching gateway, compiled and served
    (below), and the start of the command serves what its source loaded, compiled with the plugins and balancers that were
    registered.
  \<^item> Behaviour that is probably not meant is stated as it is, among others in \<open>Router.Match_empty_method_diverges\<close>,
    \<open>Balancer.Pick_panics_after_wrap\<close>, \<open>Limit_Count.limit_exceeded_out_of_order\<close>, \<open>Admin_Laws.list_page_panics\<close>,
    \<open>Bundle_Apply.empty_bundle_prunes_all\<close> and \<open>Translate.inline_scheme_refuses_all\<close>.

  \<^bold>\<open>Bounds and fuel\<close>

  Scores of the router are 64-bit numbers; its theorems ask for priorities and path lengths within which they do not wrap
  (\<open>route_bounded\<close>). The fairness of the balancer holds below \<open>2\<^sup>6\<^sup>3\<close> picks. The only fuel is the 400 digits of \<open>fracDigits\<close>, more than a
  \<^verbatim>\<open>float64\<close> of that range has. All other recursions are structural or have a termination proof.

  \<^bold>\<open>Not modelled\<close>

  The HTTP server and framework, the connection to etcd, the parsing of command-line flags, signals of the process, log messages and
  most texts of errors (an error of the store, of etcd or of decoding a stored value is one class, \<open>StoreFailed\<close>); the rounding of
  \<^verbatim>\<open>float64\<close>; the merging of members that differ in case only when a struct is decoded; the pool that reuses timing records; the aliases of the public packages \<^verbatim>\<open>plugin\<close> and \<^verbatim>\<open>balancer\<close>, the unused
  states of \<^verbatim>\<open>health\<close>, \<^verbatim>\<open>main\<close>, and the mock server of the benchmarks. Concurrency is modelled where the code synchronises by
  itself (the snapshot, the counter of the balancer, the limits and the access log behind their mutexes as sequences of calls).
\<close>

section \<open>From the admin API to the request path\<close>

text \<open>
  C1. A published route is served. A route is put into etcd through the control plane; it names a stored service, whose upstream
  is stored and translates with a supported scheme, and route and service translate without a plugin configuration. A gateway
  watches that etcd. When it reports a change, the configuration is loaded with success and it compiles, then the snapshot that
  the gateway serves, until something else arrives, is the compiled one; its router was built from routes with the new one
  among them; and the chain of handlers of that route ends in its service, which is ready with an upstream and its endpoints.
  Nothing that arrived before matters as long as it has not stopped the watch.
\<close>

theorem published_route_is_served:
  assumes store: "etcd_store client kvs pfx" "etcdInv (normalizePrefix pfx) (kvs s)" "addressable KindRoute i"
      "decodeJSONObject body = Inr m" "storable m"
      "ServicePut (etcdStore (NewEtcdStoreWithClient client pfx)) now KindRoute i body s = (s1, Inr env)"
    and load: "etcdLoad (sourceOf client pfx listen) later (Some ctx) s1 = (s2, Inr options)"
    and route: "Option.bind (env_Value env) (readRoute i) = Some route"
      "ar_PluginConfigID route = []" "apisixRouteToConfig route [] = Inr rt" "ar_ServiceID route = sid" "sid \<noteq> []"
    and service: "etcdView (normalizePrefix pfx) (kvs s) KindService sid = Some sdoc" "readService sid sdoc = Some svc"
      "as_UpstreamID svc = uid" "uid \<noteq> []" "as_PluginConfigID svc = []" "apisixMergePlugins [] (as_Plugins svc) [] = Inr plugins"
    and upstream: "etcdView (normalizePrefix pfx) (kvs s) KindUpstream uid = Some udoc" "readUpstream uid udoc = Some up"
      "apisixUpstreamToConfig up = Inr u" "upstream_Scheme u \<in> {[], ''http'', ''https''}"
    and running: "gw_snapshot g = Some old" "list_all (\<lambda>x. \<not> stops (sourceOf client pfx listen) x) pre" "0 < n"
      "list_all uneventful post" "compileIn ev (gw_compiler g) options = (r, Inr sn)"
  shows "gw_snapshot (fst (follow ev (updatesOf (fst (Watch True (sourceOf client pfx listen) ctx
        (pre @ Response n later s1 # post)))) (g, logger))) = Some (r, sn)
    \<and> AddAll (ev_Regexp ev) NewRouter (routesOf options) = Inr (sn_Router sn)
    \<and> map_of (Routes options) i = Some (rt\<lparr>route_Service := sid\<rparr>)
    \<and> (\<exists>handlers sv up'. ready_service sn sid sv up'
        \<and> map_of (sn_RouteHandlers sn) i = Some (sn_GlobalHandlers sn @ sn_ServerHandlers sn @ handlers @ [serviceHandler (ev_Run ev) (Some sv)]))"
proof -
  note configured = published_route [OF store load route service upstream]
  obtain doc sn' where wf: "well_formed options" by (rule published [OF store load])
  note compiled = running(5) [unfolded compileIn_def]
  have "sid \<in> fst ` set (Services options)" using configured by (metis map_of_eq_None_iff)
  then obtain sv up' where ready: "ready_service sn sid sv up'" using compiled_service_ready [OF compiled wf] by blast
  then have "map_of (sn_Services sn) sid = Some sv" by (simp add: ready_service_def)
  then obtain handlers where "map_of (sn_RouteHandlers sn) i =
      Some (sn_GlobalHandlers sn @ sn_ServerHandlers sn @ handlers @ [serviceHandler (ev_Run ev) (Some sv)])"
    using compiled_route(2) [OF compiled conjunct1 [OF configured]] by auto
  with ready show ?thesis
    using configured compiled_route(1) [OF compiled] gateway_follows_etcd [OF running(1-4) load running(5)] by blast
qed

definition servedLoad :: "memory \<times> (provider_error + Options)" where
  "servedLoad = etcdLoad (sourceOf memClient productionPrefix '':80'') 0 (Some \<lparr>ctx_Deadline = None\<rparr>) (fst routePut)"

lemma served_loaded: "(\<lambda>r. case snd r of Inl _ \<Rightarrow> False | Inr options \<Rightarrow> map fst (Routes options) = [sampleRoute]) servedLoad"
  by code_simp

lemma served_compiles:
  "(\<lambda>r. case snd r of Inl _ \<Rightarrow> False | Inr options \<Rightarrow>
      (case snd (Compile noRegex runAll echoProxy plainCompiler options) of Inl _ \<Rightarrow> False | Inr _ \<Rightarrow> True)) servedLoad"
  by code_simp

lemma served_sample:
  obtains options r sn where "servedLoad = (fst servedLoad, Inr options)" "compileIn sampleEnvironment plainCompiler options = (r, Inr sn)"
proof -
  obtain options where options: "snd servedLoad = Inr options" using served_loaded by (auto split: sum.splits)
  obtain r q where q: "Compile noRegex runAll echoProxy plainCompiler options = (r, q)" by fastforce
  then obtain sn where "q = Inr sn" using served_compiles options by (auto split: sum.splits)
  with q options that show ?thesis by (simp add: compileIn_def sampleEnvironment_def prod_eq_iff)
qed

theorem published_route_is_served_witness:
  "\<exists>g r sn handlers. NewWithCompiler sampleEnvironment plainCompiler sampleOptions = Inr g
     \<and> gw_snapshot (fst (follow sampleEnvironment (updatesOf (fst (Watch True (sourceOf memClient productionPrefix '':80'')
         \<lparr>ctx_Deadline = None\<rparr> ([] @ Response 1 0 (fst routePut) # [])))) (g, sampleLogger))) = Some (r, sn)
     \<and> map_of (sn_RouteHandlers sn) sampleRoute = Some handlers \<and> handlers \<noteq> []"
proof -
  obtain g where g: "NewWithCompiler sampleEnvironment plainCompiler sampleOptions = Inr g" using sample_gateway by blast
  obtain r0 sn0 where old: "gw_snapshot g = Some (r0, sn0)" "gw_compiler g = plainCompiler" by (rule NewWithCompiler_snapshot [OF g])
  obtain options r sn where options: "servedLoad = (fst servedLoad, Inr options)"
    and compiled: "compileIn sampleEnvironment (gw_compiler g) options = (r, Inr sn)" unfolding old(2) by (rule served_sample)
  obtain env where env: "routePut = (fst routePut, Inr env)" and v: "env_Value env =
      Some (AMap [(''uri'', AString ''/orders/*''), (''service_id'', AString ''s1''), (''id'', AString ''42''),
        (''update_time'', AFloat 1700000000), (''create_time'', AFloat 1700000000)])"
    using route_put by blast
  let ?rt = "projr (apisixRouteToConfig loadedRoute [])" and ?u = "projr (apisixUpstreamToConfig loadedUpstream)"
  have route: "Option.bind (env_Value env) (readRoute sampleRoute) = Some loadedRoute" unfolding v by code_simp
  have rt: "ar_PluginConfigID loadedRoute = []" "apisixRouteToConfig loadedRoute [] = Inr ?rt" "ar_ServiceID loadedRoute = ''s1''"
    "(''s1'' :: string) \<noteq> []" by code_simp+
  have service: "etcdView (normalizePrefix productionPrefix) (memKvs stockedMemory) KindService ''s1'' =
      Some (AMap [(''id'', AString ''s1''), (''upstream_id'', AString ''u1'')])"
    "readService ''s1'' (AMap [(''id'', AString ''s1''), (''upstream_id'', AString ''u1'')]) = Some sampleApisixService"
    "as_UpstreamID sampleApisixService = ''u1''" "(''u1'' :: string) \<noteq> []" "as_PluginConfigID sampleApisixService = []"
    "apisixMergePlugins [] (as_Plugins sampleApisixService) [] = Inr []" by code_simp+
  have upstream: "etcdView (normalizePrefix productionPrefix) (memKvs stockedMemory) KindUpstream ''u1'' =
      Some (AMap [(''id'', AString ''u1''), (''nodes'', AMap [(''10.0.0.1:80'', AFloat 1)])])"
    "readUpstream ''u1'' (AMap [(''id'', AString ''u1''), (''nodes'', AMap [(''10.0.0.1:80'', AFloat 1)])]) = Some loadedUpstream"
    "apisixUpstreamToConfig loadedUpstream = Inr ?u" "upstream_Scheme ?u \<in> {[], ''http'', ''https''}" by code_simp+
  note run = published_route_is_served [where pre = "[]" and post = "[]" and n = 1 and logger = sampleLogger,
      OF etcd_store_production stocked_inv sample_facts(1) route_facts env [unfolded routePut_def memoryStore_def]
      options [unfolded servedLoad_def routePut_def memoryStore_def] route rt service upstream old(1) _ _ _ compiled,
      folded memoryStore_def, folded routePut_def]
  show ?thesis
  proof (intro exI conjI)
    show "NewWithCompiler sampleEnvironment plainCompiler sampleOptions = Inr g" by (rule g)
    show "gw_snapshot (fst (follow sampleEnvironment (updatesOf (fst (Watch True (sourceOf memClient productionPrefix '':80'')
         \<lparr>ctx_Deadline = None\<rparr> ([] @ Response 1 0 (fst routePut) # [])))) (g, sampleLogger))) = Some (r, sn)"
      using run by simp
    show "map_of (sn_RouteHandlers sn) sampleRoute = Some (the (map_of (sn_RouteHandlers sn) sampleRoute))"
      "the (map_of (sn_RouteHandlers sn) sampleRoute) \<noteq> []" using run by auto
  qed
qed

end
